(* ===== verification/Topaz_Prelude.thy ===== *)
theory Topaz_Prelude
  imports Main "HOL-Library.Word"
begin

text \<open>
  Shared vocabulary of the development.

  Every way in which the C++ code can stop or leave defined behaviour is a value of
  type \<open>fault\<close>; a fallible computation returns \<open>fault + 'a\<close>.  The macros of
  \<open>core/assert.hpp\<close> take the value of the preprocessor symbol \<open>TZ_DEBUG\<close> as a boolean
  argument: with it a failed assertion stops the program, without it the assertion is
  skipped and the access it guards is reached.  \<open>for_each\<close> is the C++ range loop over a
  fault-returning body.  The rest are the generic facts on lists, sums and machine words the
  component theories share.
\<close>

section \<open>Faults and fallible computations\<close>

datatype fault =
    AssertionFailure
  | OutOfBounds
  | NullDereference
  | BadOptionalAccess
  | BadVariantAccess
  | StdOutOfRange
  | StdInvalidArgument
  | StdLengthError
  | DivisionByZero
  | UninitialisedRead
  | DanglingReference
  | OverlappingCopy
  | IllFormedProgram
  | ProcessExit
  | DeviceFault

type_synonym 'a outcome = "fault + 'a"

named_theorems outcome_simps \<open>unfolding and inversion of fallible computations\<close>
named_theorems loop_simps \<open>closed forms of the range loops\<close>
named_theorems layout_simps \<open>sizes and offsets of concatenated blocks\<close>

fun and_then :: "'a outcome \<Rightarrow> ('a \<Rightarrow> 'b outcome) \<Rightarrow> 'b outcome" where
  "and_then (Inl e) f = Inl e"
| "and_then (Inr x) f = f x"

lemma and_then_assoc: "and_then (and_then m f) g = and_then m (\<lambda>x. and_then (f x) g)"
  by (cases m) simp_all

lemma and_then_right_unit [simp]: "and_then m Inr = m"
  by (cases m) simp_all

lemma and_then_Inr_iff [outcome_simps]:
  "and_then m f = Inr y \<longleftrightarrow> (\<exists>x. m = Inr x \<and> f x = Inr y)"
  by (cases m) simp_all

lemma and_then_Inl_iff [outcome_simps]:
  "and_then m f = Inl e \<longleftrightarrow> m = Inl e \<or> (\<exists>x. m = Inr x \<and> f x = Inl e)"
  by (cases m) simp_all

definition is_ok :: "'a outcome \<Rightarrow> bool" where
  "is_ok m \<longleftrightarrow> (case m of Inl _ \<Rightarrow> False | Inr _ \<Rightarrow> True)"

lemma is_ok_simps [simp]: "is_ok (Inr x)" "\<not> is_ok (Inl e)"
  by (simp_all add: is_ok_def)

lemma is_ok_iff: "is_ok m \<longleftrightarrow> (\<exists>x. m = Inr x)"
  by (cases m) simp_all

definition tz_assert :: "bool \<Rightarrow> bool \<Rightarrow> unit outcome" where
  "tz_assert TZ_DEBUG e = (if TZ_DEBUG \<and> \<not> e then Inl AssertionFailure else Inr ())"

definition tz_error :: "bool \<Rightarrow> unit outcome" where
  "tz_error TZ_DEBUG = (if TZ_DEBUG then Inl AssertionFailure else Inr ())"

lemma tz_assert_True [simp]: "tz_assert d True = Inr ()"
  by (simp add: tz_assert_def)

lemma tz_assert_release [simp]: "tz_assert False e = Inr ()"
  by (simp add: tz_assert_def)

lemma tz_assert_False [simp]: "tz_assert True False = Inl AssertionFailure"
  by (simp add: tz_assert_def)

lemma tz_assert_Inr_iff [outcome_simps]: "tz_assert d e = Inr u \<longleftrightarrow> (d \<longrightarrow> e)"
  by (simp add: tz_assert_def)

definition value_of :: "'a option \<Rightarrow> 'a outcome" where
  "value_of x = (case x of None \<Rightarrow> Inl BadOptionalAccess | Some y \<Rightarrow> Inr y)"

lemma value_of_simps [simp]: "value_of None = Inl BadOptionalAccess" "value_of (Some y) = Inr y"
  by (simp_all add: value_of_def)

section \<open>Array access\<close>

definition at_index :: "'a list \<Rightarrow> nat \<Rightarrow> 'a outcome" where
  "at_index xs i = (if i < length xs then Inr (xs ! i) else Inl OutOfBounds)"

definition set_index :: "'a list \<Rightarrow> nat \<Rightarrow> 'a \<Rightarrow> 'a list outcome" where
  "set_index xs i v = (if i < length xs then Inr (xs[i := v]) else Inl OutOfBounds)"

lemma at_index_ok [simp]: "i < length xs \<Longrightarrow> at_index xs i = Inr (xs ! i)"
  by (simp add: at_index_def)

lemma at_index_beyond [simp]: "length xs \<le> i \<Longrightarrow> at_index xs i = Inl OutOfBounds"
  by (simp add: at_index_def)

lemma at_index_Inr_iff [outcome_simps]: "at_index xs i = Inr v \<longleftrightarrow> i < length xs \<and> v = xs ! i"
  by (auto simp: at_index_def)

lemma set_index_ok [simp]: "i < length xs \<Longrightarrow> set_index xs i v = Inr (xs[i := v])"
  by (simp add: set_index_def)

lemma set_index_beyond [simp]: "length xs \<le> i \<Longrightarrow> set_index xs i v = Inl OutOfBounds"
  by (simp add: set_index_def)

lemma set_index_Inr_iff [outcome_simps]:
  "set_index xs i v = Inr ys \<longleftrightarrow> i < length xs \<and> ys = xs[i := v]"
  by (auto simp: set_index_def)

section \<open>Range loops\<close>

primrec for_each :: "('a \<Rightarrow> 's \<Rightarrow> 's outcome) \<Rightarrow> 'a list \<Rightarrow> 's \<Rightarrow> 's outcome" where
  "for_each body [] s = Inr s"
| "for_each body (x # xs) s = and_then (body x s) (for_each body xs)"

lemma for_each_append:
  "for_each body (xs @ ys) s = and_then (for_each body xs s) (for_each body ys)"
proof (induction xs arbitrary: s)
  case (Cons x xs)
  then show ?case by (cases "body x s") simp_all
qed simp

lemma for_each_total:
  assumes "\<And>x s. x \<in> set xs \<Longrightarrow> body x s = Inr (f x s)"
  shows "for_each body xs s = Inr (fold f xs s)"
  using assms by (induction xs arbitrary: s) simp_all

lemma for_each_cong:
  assumes "\<And>x s. x \<in> set xs \<Longrightarrow> body x s = body' x s"
  shows "for_each body xs s = for_each body' xs s"
  using assms
proof (induction xs arbitrary: s)
  case (Cons x xs)
  then show ?case by (cases "body' x s") simp_all
qed simp

text \<open>The invariant rule for a counting loop \<open>for(i = 0; i < n; i++)\<close>.\<close>

lemma for_range_invariant:
  assumes init: "I 0 s"
    and step: "\<And>i s. i < n \<Longrightarrow> I i s \<Longrightarrow> \<exists>s'. body i s = Inr s' \<and> I (Suc i) s'"
  shows "\<exists>s'. for_each body [0..<n] s = Inr s' \<and> I n s'"
  using step
proof (induction n)
  case 0
  show ?case using init by simp
next
  case (Suc n)
  then obtain s' where s': "for_each body [0..<n] s = Inr s'" "I n s'"
    using less_SucI by blast
  with Suc.prems obtain s'' where "body n s' = Inr s''" "I (Suc n) s''"
    by blast
  with s' show ?case by (simp add: for_each_append)
qed

lemma for_range_closed_form:
  assumes "F 0 = s" and "\<And>i. i < n \<Longrightarrow> body i (F i) = Inr (F (Suc i))"
  shows "for_each body [0..<n] s = Inr (F n)"
  using for_range_invariant [of "\<lambda>i s. s = F i" s n body] assms by auto

text \<open>Two nested counting loops, given the state at every pair of counters.\<close>

lemma nested_range_closed_form:
  assumes init: "F 0 0 = s"
    and step: "\<And>i j. i < R \<Longrightarrow> j < C \<Longrightarrow> body i j (F i j) = Inr (F i (Suc j))"
    and row: "\<And>i. i < R \<Longrightarrow> F i C = F (Suc i) 0"
  shows "for_each (\<lambda>i. for_each (body i) [0..<C]) [0..<R] s = Inr (F R 0)"
proof (rule for_range_closed_form [where F = "\<lambda>i. F i 0"])
  fix i assume i: "i < R"
  then have "for_each (body i) [0..<C] (F i 0) = Inr (F i C)"
    using step by (intro for_range_closed_form) simp_all
  then show "for_each (body i) [0..<C] (F i 0) = Inr (F (Suc i) 0)"
    using row i by simp
qed (rule init)

lemma for_each_invariant_list:
  assumes init: "I [] s"
    and step: "\<And>ys x zs s. xs = ys @ x # zs \<Longrightarrow> I ys s \<Longrightarrow> \<exists>s'. body x s = Inr s' \<and> I (ys @ [x]) s'"
  shows "\<exists>s'. for_each body xs s = Inr s' \<and> I xs s'"
  using step
proof (induction xs rule: rev_induct)
  case Nil
  show ?case using init by simp
next
  case (snoc x xs)
  have "\<exists>s'. for_each body xs s = Inr s' \<and> I xs s'"
    by (rule snoc.IH) (use snoc.prems in \<open>metis append.assoc append_Cons\<close>)
  then obtain s' where s': "for_each body xs s = Inr s'" "I xs s'"
    by blast
  moreover obtain s'' where "body x s' = Inr s''" "I (xs @ [x]) s''"
    using snoc.prems [of xs x "[]" s'] s'(2) by auto
  ultimately show ?case by (simp add: for_each_append)
qed

text \<open>A loop that appends the image of every element computes \<open>concat (map f xs)\<close>.\<close>

lemma fold_append_map: "fold (\<lambda>x acc. acc @ f x) xs acc = acc @ concat (map f xs)"
  by (induction xs arbitrary: acc) simp_all

lemma fold_snoc_map: "fold (\<lambda>x acc. acc @ [f x]) xs acc = acc @ map f xs"
  by (induction xs arbitrary: acc) simp_all

lemma fold_plus_sum: "fold (\<lambda>x acc. acc + f x) xs acc = acc + sum_list (map f xs)"
  for acc :: "'b::comm_monoid_add"
  by (induction xs arbitrary: acc) (simp_all add: add.assoc)

lemma fold_max_snoc [simp]: "fold f (xs @ [x]) s = f x (fold f xs s)"
  by simp

section \<open>Blocks laid out one after another\<close>

definition chunk :: "nat \<Rightarrow> nat \<Rightarrow> 'a list \<Rightarrow> 'a list" where
  "chunk off len xs = take len (drop off xs)"

definition block_offset :: "'a list list \<Rightarrow> nat \<Rightarrow> nat" where
  "block_offset xss i = sum_list (map length (take i xss))"

definition overwrite :: "'a list \<Rightarrow> nat \<Rightarrow> 'a list \<Rightarrow> 'a list" where
  "overwrite xs off ys = take off xs @ ys @ drop (off + length ys) xs"

lemma length_chunk [layout_simps]: "length (chunk off len xs) = min len (length xs - off)"
  by (simp add: chunk_def)

lemma nth_chunk: "i < len \<Longrightarrow> off + i < length xs \<Longrightarrow> chunk off len xs ! i = xs ! (off + i)"
  by (simp add: chunk_def)

lemma chunk_all [simp]: "chunk 0 (length xs) xs = xs"
  by (simp add: chunk_def)

lemma chunk_append_right: "chunk (length xs + off) len (xs @ ys) = chunk off len ys"
  by (simp add: chunk_def)

lemma chunk_append_left:
  "off + len \<le> length xs \<Longrightarrow> chunk off len (xs @ ys) = chunk off len xs"
  by (simp add: chunk_def)

lemma chunk_middle [simp]: "chunk (length xs) (length ys) (xs @ ys @ zs) = ys"
  by (simp add: chunk_def)

lemma length_overwrite [layout_simps]:
  "off + length ys \<le> length xs \<Longrightarrow> length (overwrite xs off ys) = length xs"
  by (simp add: overwrite_def)

lemma chunk_overwrite_same:
  "off + length ys \<le> length xs \<Longrightarrow> chunk off (length ys) (overwrite xs off ys) = ys"
  by (simp add: overwrite_def chunk_def)

lemma nth_overwrite:
  assumes "off + length ys \<le> length xs" "i < length xs"
  shows "overwrite xs off ys ! i =
    (if off \<le> i \<and> i < off + length ys then ys ! (i - off) else xs ! i)"
  using assms by (auto simp: overwrite_def nth_append)

lemma chunk_overwrite_disjoint:
  assumes "off + length ys \<le> length xs" "p + len \<le> off \<or> off + length ys \<le> p"
  shows "chunk p len (overwrite xs off ys) = chunk p len xs"
proof (rule nth_equalityI)
  show "length (chunk p len (overwrite xs off ys)) = length (chunk p len xs)"
    using assms(1) by (simp add: layout_simps)
next
  fix i assume "i < length (chunk p len (overwrite xs off ys))"
  then have "i < len" "p + i < length xs"
    using assms(1) by (auto simp: layout_simps)
  then show "chunk p len (overwrite xs off ys) ! i = chunk p len xs ! i"
    using assms by (auto simp: nth_chunk layout_simps nth_overwrite)
qed

lemma block_offset_0 [simp]: "block_offset xss 0 = 0"
  by (simp add: block_offset_def)

lemma block_offset_Suc:
  "i < length xss \<Longrightarrow> block_offset xss (Suc i) = block_offset xss i + length (xss ! i)"
  by (simp add: block_offset_def take_Suc_conv_app_nth)

lemma block_offset_mono: "i \<le> j \<Longrightarrow> block_offset xss i \<le> block_offset xss j"
proof (induction j)
  case (Suc j)
  then show ?case
    by (cases "j < length xss") (auto simp: block_offset_Suc le_Suc_eq, simp add: block_offset_def)
qed simp

lemma block_end_le_total:
  "i < length xss \<Longrightarrow> block_offset xss i + length (xss ! i) \<le> length (concat xss)"
  using block_offset_mono [of "Suc i" "length xss" xss]
  by (simp add: block_offset_Suc) (simp add: block_offset_def length_concat)

theorem chunk_concat_block:
  assumes "i < length xss"
  shows "chunk (block_offset xss i) (length (xss ! i)) (concat xss) = xss ! i"
proof -
  have "concat xss = concat (take i xss) @ xss ! i @ concat (drop (Suc i) xss)"
    by (metis assms concat.simps(2) concat_append id_take_nth_drop)
  moreover have "block_offset xss i = length (concat (take i xss))"
    by (simp add: block_offset_def length_concat)
  ultimately show ?thesis by simp
qed

lemma blocks_disjoint:
  assumes "i < j" "j < length xss"
  shows "block_offset xss i + length (xss ! i) \<le> block_offset xss j"
  using block_offset_mono [of "Suc i" j xss] assms by (simp add: block_offset_Suc)

section \<open>Machine words\<close>

type_synonym u8 = "8 word"
type_synonym u32 = "32 word"
type_synonym u64 = "64 word"

lemma unat_u32_lt: "unat (w :: u32) < 2 ^ 32"
  using unsigned_less [of w] by simp

lemma unat_of_nat_u32 [simp]: "n < 2 ^ 32 \<Longrightarrow> unat (of_nat n :: u32) = n"
  by (simp add: unat_of_nat take_bit_nat_eq_self)

lemma of_nat_sum_list_word:
  "(of_nat (sum_list xs) :: 'w::len word) = sum_list (map of_nat xs)"
  by (induction xs) simp_all

lemma unat_sum_list_word:
  assumes "sum_list (map unat ws) < 2 ^ LENGTH('w::len)"
  shows "unat (sum_list ws :: 'w word) = sum_list (map unat ws)"
proof -
  have "sum_list ws = of_nat (sum_list (map unat ws))"
    by (simp add: of_nat_sum_list_word comp_def)
  then show ?thesis using assms by (simp add: unat_of_nat take_bit_nat_eq_self)
qed

section \<open>Operations that return\<close>

text \<open>\<open>returns m P\<close>: the operation ends without a fault, and its result satisfies \<open>P\<close>.\<close>

definition returns :: "'a outcome \<Rightarrow> ('a \<Rightarrow> bool) \<Rightarrow> bool" where
  "returns m P \<longleftrightarrow> (\<exists>x. m = Inr x \<and> P x)"

lemma returns_Inr [simp]: "returns (Inr x) P \<longleftrightarrow> P x"
  by (simp add: returns_def)

lemma returnsE: "returns m P \<Longrightarrow> (\<And>x. m = Inr x \<Longrightarrow> P x \<Longrightarrow> R) \<Longrightarrow> R"
  by (auto simp: returns_def)

lemma returns_mono: "returns m P \<Longrightarrow> (\<And>x. P x \<Longrightarrow> Q x) \<Longrightarrow> returns m Q"
  by (auto simp: returns_def)

lemma returns_and_then: "returns m Q \<Longrightarrow> (\<And>x. Q x \<Longrightarrow> returns (f x) P) \<Longrightarrow> returns (and_then m f) P"
  by (auto simp: returns_def)

lemma returns_for_range:
  assumes "I 0 s" "\<And>i s. i < n \<Longrightarrow> I i s \<Longrightarrow> returns (body i s) (I (Suc i))"
  shows "returns (for_each body [0..<n] s) (I n)"
  using for_range_invariant [of I s n body] assms unfolding returns_def by blast

end
