(* ===== verification/Containers.thy ===== *)
theory Containers
  imports Topaz_Prelude
begin

unbundle bit_operations_syntax

text \<open>
  The core containers: \<open>tz::BasicList\<close> (a thin wrapper over \<open>std::vector\<close>),
  \<open>tz::PolymorphicList\<close> with its \<open>InterfaceIterator\<close>, \<open>tz::EnumField\<close>, \<open>tz::Handle\<close> and the
  compile-time loop of \<open>core/algorithms/static.hpp\<close>.

  Two interfaces the rest of the engine relies on are stated as locales: \<open>flag_set\<close>, the
  promise of an enumeration field to behave as a set, and \<open>handle_table\<close>, the promise of a
  growing table to hand out handles that keep denoting the element they were issued for.
\<close>

section \<open>BasicList\<close>

text \<open>The only member is a \<open>std::vector\<close>, so the state of a \<open>BasicList\<close> is a list.\<close>

type_synonym 'a BasicList = "'a list"

definition basic_list_front :: "'a BasicList \<Rightarrow> 'a outcome" where
  "basic_list_front elements = at_index elements 0"

definition basic_list_back :: "'a BasicList \<Rightarrow> 'a outcome" where
  "basic_list_back elements =
     (if elements = [] then Inl OutOfBounds else at_index elements (length elements - 1))"

definition basic_list_add :: "'a BasicList \<Rightarrow> 'a \<Rightarrow> 'a BasicList" where
  "basic_list_add elements element = elements @ [element]"

definition basic_list_append :: "'a BasicList \<Rightarrow> 'a BasicList \<Rightarrow> 'a BasicList" where
  "basic_list_append elements other = elements @ other"

primrec std_find :: "'a list \<Rightarrow> 'a \<Rightarrow> nat" where
  "std_find [] v = 0"
| "std_find (x # xs) v = (if x = v then 0 else Suc (std_find xs v))"

definition basic_list_contains :: "'a BasicList \<Rightarrow> 'a \<Rightarrow> bool" where
  "basic_list_contains elements element = (std_find elements element \<noteq> length elements)"

definition basic_list_length :: "'a BasicList \<Rightarrow> nat" where
  "basic_list_length elements = length elements"

definition basic_list_empty :: "'a BasicList \<Rightarrow> bool" where
  "basic_list_empty elements = (elements = [])"

definition basic_list_index :: "bool \<Rightarrow> 'a BasicList \<Rightarrow> nat \<Rightarrow> 'a outcome" where
  "basic_list_index TZ_DEBUG elements index =
     and_then (tz_assert TZ_DEBUG (basic_list_length elements > index))
       (\<lambda>_. at_index elements index)"

definition basic_list_erase :: "'a BasicList \<Rightarrow> nat \<Rightarrow> ('a BasicList \<times> nat) outcome" where
  "basic_list_erase elements position =
     (if position < length elements
      then Inr (take position elements @ drop (Suc position) elements, position)
      else Inl OutOfBounds)"

definition basic_list_erase_range ::
    "'a BasicList \<Rightarrow> nat \<Rightarrow> nat \<Rightarrow> ('a BasicList \<times> nat) outcome" where
  "basic_list_erase_range elements first last_it =
     (if first \<le> last_it \<and> last_it \<le> length elements
      then Inr (take first elements @ drop last_it elements, first)
      else Inl OutOfBounds)"

text \<open>\<open>resize\<close> value-initialises the new elements; that value is the argument \<open>fill\<close>.\<close>

definition basic_list_resize :: "'a \<Rightarrow> 'a BasicList \<Rightarrow> nat \<Rightarrow> 'a BasicList" where
  "basic_list_resize fill elements num_elements =
     (if num_elements \<le> length elements then take num_elements elements
      else elements @ replicate (num_elements - length elements) fill)"

lemma std_find_le: "std_find xs v \<le> length xs"
  by (induction xs) simp_all

lemma std_find_found_iff: "std_find xs v \<noteq> length xs \<longleftrightarrow> v \<in> set xs"
  by (induction xs) auto

lemma std_find_first:
  "v \<in> set xs \<Longrightarrow> xs ! std_find xs v = v \<and> (\<forall>j < std_find xs v. xs ! j \<noteq> v)"
  by (induction xs) (auto simp: nth_Cons split: nat.splits)

lemma basic_list_contains_iff [simp]: "basic_list_contains xs v \<longleftrightarrow> v \<in> set xs"
  by (simp add: basic_list_contains_def std_find_found_iff)

lemma length_basic_list_resize [simp]: "length (basic_list_resize fill xs n) = n"
  by (simp add: basic_list_resize_def)

lemma nth_basic_list_resize:
  "i < n \<Longrightarrow> basic_list_resize fill xs n ! i = (if i < length xs then xs ! i else fill)"
  by (simp add: basic_list_resize_def nth_append)

lemma basic_list_index_Inr_iff [outcome_simps]:
  "basic_list_index d xs i = Inr v \<longleftrightarrow> i < length xs \<and> v = xs ! i"
  by (auto simp: basic_list_index_def basic_list_length_def outcome_simps)

lemma basic_list_index_fault:
  "length xs \<le> i \<Longrightarrow> basic_list_index d xs i = Inl (if d then AssertionFailure else OutOfBounds)"
  by (cases d) (simp_all add: basic_list_index_def basic_list_length_def tz_assert_def)

section \<open>The promise of a handle-issuing table\<close>

text \<open>
  A client adds an element, keeps the handle it is given, and later asks for the element by
  that handle.  The table promises that the handle denotes the element just added and that
  adding leaves the meaning of earlier handles alone.
\<close>

locale handle_table =
  fixes insert_new :: "'t \<Rightarrow> 'a \<Rightarrow> 't \<times> nat"
    and lookup :: "'t \<Rightarrow> nat \<Rightarrow> 'a outcome"
    and population :: "'t \<Rightarrow> nat"
    and valid :: "'t \<Rightarrow> bool"
  assumes valid_insert: "valid t \<Longrightarrow> valid (fst (insert_new t a))"
    and handle_is_population: "valid t \<Longrightarrow> snd (insert_new t a) = population t"
    and population_insert: "valid t \<Longrightarrow> population (fst (insert_new t a)) = Suc (population t)"
    and lookup_new: "valid t \<Longrightarrow> lookup (fst (insert_new t a)) (population t) = Inr a"
    and lookup_old: "valid t \<Longrightarrow> h < population t \<Longrightarrow> lookup (fst (insert_new t a)) h = lookup t h"
begin

primrec insert_many :: "'t \<Rightarrow> 'a list \<Rightarrow> 't \<times> nat list" where
  "insert_many t [] = (t, [])"
| "insert_many t (a # as) =
     (let (t1, h) = insert_new t a; (t2, hs) = insert_many t1 as in (t2, h # hs))"

lemma insert_many_all:
  assumes "valid t"
  shows "valid (fst (insert_many t as)) \<and>
    population (fst (insert_many t as)) = population t + length as \<and>
    snd (insert_many t as) = [population t..<population t + length as] \<and>
    (\<forall>h < population t. lookup (fst (insert_many t as)) h = lookup t h)"
  using assms
proof (induction as arbitrary: t)
  case (Cons a as)
  define t1 where "t1 = fst (insert_new t a)"
  have t1: "insert_new t a = (t1, population t)"
    using handle_is_population [OF Cons.prems] by (simp add: t1_def prod_eq_iff)
  have v: "valid t1" and p: "population t1 = Suc (population t)"
    using Cons.prems valid_insert population_insert by (simp_all add: t1_def)
  have "\<forall>h < population t. lookup t1 h = lookup t h"
    using lookup_old [OF Cons.prems] by (simp add: t1_def)
  moreover have "population t # [Suc (population t)..<Suc (population t) + length as] =
      [population t..<population t + length (a # as)]"
    by (subst (2) upt_conv_Cons) simp_all
  ultimately show ?case
    using Cons.IH [OF v] p by (simp add: t1 case_prod_beta del: upt_Suc)
qed simp

lemma insert_many_props:
  assumes "valid t"
  shows "valid (fst (insert_many t as))"
    and "population (fst (insert_many t as)) = population t + length as"
    and "snd (insert_many t as) = [population t..<population t + length as]"
    and "h < population t \<Longrightarrow> lookup (fst (insert_many t as)) h = lookup t h"
  using insert_many_all [OF assms] by simp_all

theorem every_handle_denotes_its_element:
  assumes "valid t" "i < length as"
  shows "lookup (fst (insert_many t as)) (snd (insert_many t as) ! i) = Inr (as ! i)"
  using assms
proof (induction as arbitrary: t i)
  case (Cons a as)
  define t1 where "t1 = fst (insert_new t a)"
  have t1: "insert_new t a = (t1, population t)"
    using handle_is_population [OF Cons.prems(1)] by (simp add: t1_def prod_eq_iff)
  have v: "valid t1" and p: "population t1 = Suc (population t)"
    using Cons.prems valid_insert population_insert by (simp_all add: t1_def)
  show ?case
  proof (cases i)
    case 0
    have "lookup t1 (population t) = Inr a"
      using lookup_new [OF Cons.prems(1)] by (simp add: t1_def)
    then show ?thesis
      using insert_many_props(4) [OF v, of "population t" as] 0 p by (simp add: t1 case_prod_beta)
  next
    case (Suc j)
    then show ?thesis using Cons.IH [OF v, of j] Cons.prems(2) by (simp add: t1 case_prod_beta)
  qed
qed simp

lemma handles_retrieve:
  assumes "valid t"
  shows "map (lookup (fst (insert_many t as))) (snd (insert_many t as)) = map Inr as"
proof (rule nth_equalityI)
  show "length (map (lookup (fst (insert_many t as))) (snd (insert_many t as))) = length (map Inr as)"
    by (simp add: insert_many_props(3) [OF assms])
  then show "map (lookup (fst (insert_many t as))) (snd (insert_many t as)) ! i = map Inr as ! i"
    if "i < length (map (lookup (fst (insert_many t as))) (snd (insert_many t as)))" for i
    using that every_handle_denotes_its_element [OF assms, of i] by simp
qed

lemma handles_distinct: "valid t \<Longrightarrow> distinct (snd (insert_many t as))"
  by (simp add: insert_many_props(3))

end

definition basic_list_insert :: "'a BasicList \<Rightarrow> 'a \<Rightarrow> 'a BasicList \<times> nat" where
  "basic_list_insert elements element =
     (basic_list_add elements element, basic_list_length elements)"

interpretation basic_list_table:
  handle_table basic_list_insert "basic_list_index d" basic_list_length "\<lambda>_. True"
  for d :: bool
  by unfold_locales
    (auto simp: basic_list_insert_def basic_list_add_def basic_list_index_def basic_list_length_def
       at_index_def nth_append tz_assert_def)

section \<open>PolymorphicList and its iterator\<close>

text \<open>
  Each \<open>unique_ptr\<close> element is the address it owns together with the object there; the
  address returned by \<open>make_unique\<close> is an argument.  An \<open>InterfaceIterator\<close> is a pointer
  into the vector's storage, hence an index; reading through it beyond the last element is
  out of bounds.
\<close>

type_synonym 'a PolymorphicList = "(nat \<times> 'a) BasicList"

record InterfaceIterator =
  loc :: nat

definition poly_emplace :: "'a PolymorphicList \<Rightarrow> nat \<Rightarrow> 'a \<Rightarrow> ('a PolymorphicList \<times> nat) outcome" where
  "poly_emplace elements address object =
     (let elements' = basic_list_add elements (address, object)
      in and_then (basic_list_back elements') (\<lambda>p. Inr (elements', fst p)))"

definition poly_begin :: "'a PolymorphicList \<Rightarrow> InterfaceIterator" where
  "poly_begin elements = \<lparr>loc = 0\<rparr>"

definition poly_end :: "'a PolymorphicList \<Rightarrow> InterfaceIterator" where
  "poly_end elements = \<lparr>loc = 0 + basic_list_length elements\<rparr>"

definition iter_deref :: "'a PolymorphicList \<Rightarrow> InterfaceIterator \<Rightarrow> 'a outcome" where
  "iter_deref elements it = and_then (at_index elements (loc it)) (\<lambda>p. Inr (snd p))"

definition iter_arrow :: "'a PolymorphicList \<Rightarrow> InterfaceIterator \<Rightarrow> nat outcome" where
  "iter_arrow elements it = and_then (at_index elements (loc it)) (\<lambda>p. Inr (fst p))"

text \<open>Both increments return the iterator itself, after the increment.\<close>

definition iter_pre_increment :: "InterfaceIterator \<Rightarrow> InterfaceIterator \<times> InterfaceIterator" where
  "iter_pre_increment it = (let it' = it\<lparr>loc := loc it + 1\<rparr> in (it', it'))"

definition iter_post_increment :: "InterfaceIterator \<Rightarrow> InterfaceIterator \<times> InterfaceIterator" where
  "iter_post_increment it = (let it' = it\<lparr>loc := loc it + 1\<rparr> in (it', it'))"

definition iter_equal ::
    "'a PolymorphicList \<Rightarrow> InterfaceIterator \<Rightarrow> InterfaceIterator \<Rightarrow> bool outcome" where
  "iter_equal elements lhs rhs =
     and_then (iter_arrow elements lhs) (\<lambda>a. and_then (iter_arrow elements rhs) (\<lambda>b. Inr (a = b)))"

lemma poly_emplace_ok:
  "poly_emplace elements address object = Inr (elements @ [(address, object)], address)"
  by (simp add: poly_emplace_def basic_list_add_def basic_list_back_def nth_append)

lemma iter_equal_inside:
  assumes "distinct (map fst elements)" "loc a < length elements" "loc b < length elements"
  shows "iter_equal elements a b = Inr (loc a = loc b)"
  using assms by (simp add: iter_equal_def iter_arrow_def nth_eq_iff_index_eq [symmetric, of "map fst elements"])

lemma iter_equal_end: "iter_equal elements it (poly_end elements) = Inl OutOfBounds"
  by (auto simp: iter_equal_def iter_arrow_def poly_end_def basic_list_length_def at_index_def)

section \<open>EnumField\<close>

record 'e EnumField =
  elements :: "'e list"

definition enum_field_of :: "'e list \<Rightarrow> 'e EnumField" where
  "enum_field_of types = \<lparr>elements = types\<rparr>"

definition ef_contains :: "'e EnumField \<Rightarrow> 'e \<Rightarrow> bool" where
  "ef_contains self type = (std_find (elements self) type \<noteq> length (elements self))"

primrec ef_contains_loop :: "'e EnumField \<Rightarrow> 'e list \<Rightarrow> bool" where
  "ef_contains_loop self [] = True"
| "ef_contains_loop self (type # types) =
     (if \<not> ef_contains self type then False else ef_contains_loop self types)"

definition ef_contains_field :: "'e EnumField \<Rightarrow> 'e EnumField \<Rightarrow> bool" where
  "ef_contains_field self field = ef_contains_loop self (elements field)"

definition ef_count :: "'e EnumField \<Rightarrow> nat" where
  "ef_count self = length (elements self)"

definition ef_or_assign :: "'e EnumField \<Rightarrow> 'e \<Rightarrow> 'e EnumField" where
  "ef_or_assign self type =
     (if \<not> ef_contains self type then self\<lparr>elements := elements self @ [type]\<rparr> else self)"

definition ef_or :: "'e EnumField \<Rightarrow> 'e \<Rightarrow> 'e EnumField" where
  "ef_or self type = (let cpy = self in ef_or_assign cpy type)"

text \<open>
  The explicit conversion to the enumeration reads \<open>front()\<close> and then ORs every element;
  \<open>underlying\<close> is the \<open>static_cast\<close> to the 32-bit underlying type of the enumeration.
\<close>

definition ef_underlying :: "bool \<Rightarrow> ('e \<Rightarrow> u32) \<Rightarrow> 'e EnumField \<Rightarrow> u32 outcome" where
  "ef_underlying TZ_DEBUG underlying self =
     and_then (tz_assert TZ_DEBUG (elements self \<noteq> [])) (\<lambda>_.
     and_then (at_index (elements self) 0) (\<lambda>front.
     Inr (fold (\<lambda>ele e. e OR underlying ele) (elements self) (underlying front))))"

definition ef_set :: "'e EnumField \<Rightarrow> 'e set" where
  "ef_set self = set (elements self)"

text \<open>What an enumeration field promises: it is a set of enumerators.\<close>

locale flag_set =
  fixes none :: "'f"
    and insert_flag :: "'f \<Rightarrow> 'e \<Rightarrow> 'f"
    and has :: "'f \<Rightarrow> 'e \<Rightarrow> bool"
    and has_all :: "'f \<Rightarrow> 'f \<Rightarrow> bool"
    and flags :: "'f \<Rightarrow> 'e set"
  assumes flags_none: "flags none = {}"
    and flags_insert: "flags (insert_flag f e) = insert e (flags f)"
    and has_iff: "has f e \<longleftrightarrow> e \<in> flags f"
    and has_all_iff: "has_all f g \<longleftrightarrow> flags g \<subseteq> flags f"
begin

lemma flags_fold_insert: "flags (fold (\<lambda>e f. insert_flag f e) es f) = flags f \<union> set es"
  by (induction es arbitrary: f) (auto simp: flags_insert)

lemma has_all_refl: "has_all f f"
  by (simp add: has_all_iff)

lemma has_all_trans: "has_all f g \<Longrightarrow> has_all g h \<Longrightarrow> has_all f h"
  by (auto simp: has_all_iff)

lemma has_all_insert_mono: "has_all f g \<Longrightarrow> has_all (insert_flag f e) g"
  by (auto simp: has_all_iff flags_insert)

lemma has_all_has: "has_all f g \<Longrightarrow> has g e \<Longrightarrow> has f e"
  by (auto simp: has_all_iff has_iff)

end

lemma ef_contains_iff [simp]: "ef_contains f e \<longleftrightarrow> e \<in> ef_set f"
  by (simp add: ef_contains_def ef_set_def std_find_found_iff)

lemma ef_contains_loop_iff: "ef_contains_loop f es \<longleftrightarrow> set es \<subseteq> ef_set f"
  by (induction es) auto

lemma ef_contains_field_iff: "ef_contains_field f g \<longleftrightarrow> ef_set g \<subseteq> ef_set f"
  by (simp add: ef_contains_field_def ef_contains_loop_iff ef_set_def)

lemma ef_set_or_assign [simp]: "ef_set (ef_or_assign f e) = insert e (ef_set f)"
  by (auto simp: ef_or_assign_def ef_set_def)

lemma ef_set_of [simp]: "ef_set (enum_field_of es) = set es"
  by (simp add: ef_set_def enum_field_of_def)

interpretation enum_flags:
  flag_set "enum_field_of []" ef_or_assign ef_contains ef_contains_field ef_set
  by unfold_locales (simp_all add: ef_contains_field_iff)

definition ef_distinct :: "'e EnumField \<Rightarrow> bool" where
  "ef_distinct f = distinct (elements f)"

lemma ef_distinct_or_assign: "ef_distinct f \<Longrightarrow> ef_distinct (ef_or_assign f e)"
  by (auto simp: ef_distinct_def ef_or_assign_def ef_set_def)

lemma ef_count_card: "ef_distinct f \<Longrightarrow> ef_count f = card (ef_set f)"
  by (simp add: ef_distinct_def ef_count_def ef_set_def distinct_card)

lemma ef_distinct_fold: "ef_distinct f \<Longrightarrow> ef_distinct (fold (\<lambda>e f. ef_or f e) es f)"
  by (induction es arbitrary: f) (simp_all add: ef_or_def ef_distinct_or_assign)

lemma fold_or_bit:
  "bit (fold (\<lambda>x acc. acc OR u x) xs a) n \<longleftrightarrow> bit a n \<or> (\<exists>x\<in>set xs. bit (u x) n)"
  for a :: u32
  by (induction xs arbitrary: a) (auto simp: bit_or_iff)

section \<open>Handles\<close>

record Handle =
  handle_value :: nat

definition handle_of :: "nat \<Rightarrow> Handle" where
  "handle_of v = \<lparr>handle_value = v\<rparr>"

definition nullhand :: Handle where
  "nullhand = \<lparr>handle_value = 0\<rparr>"

definition handle_is_null :: "Handle \<Rightarrow> bool" where
  "handle_is_null h = (handle_value h = 0)"

definition handle_assign :: "Handle \<Rightarrow> nat \<Rightarrow> Handle" where
  "handle_assign h v = h\<lparr>handle_value := v\<rparr>"

lemma handle_null_iff: "handle_is_null h \<longleftrightarrow> h = nullhand"
  by (cases h) (simp add: handle_is_null_def nullhand_def)

section \<open>Compile-time loops\<close>

function static_for :: "nat \<Rightarrow> nat \<Rightarrow> (nat \<Rightarrow> 's \<Rightarrow> 's) \<Rightarrow> 's \<Rightarrow> 's" where
  "static_for Begin End function s =
     (if Begin < End then static_for (Begin + 1) End function (function Begin s) else s)"
  by pat_completeness auto
termination
  by (relation "measure (\<lambda>(b, e, _, _). e - b)") auto

declare static_for.simps [simp del]

definition static_find :: "'t \<Rightarrow> 't list \<Rightarrow> bool" where
  "static_find Needle Haystack =
     static_for 0 (length Haystack) (\<lambda>i b. if Haystack ! i = Needle then True else b) False"

lemma static_for_fold: "static_for b e f s = fold f [b..<e] s"
proof (induction b e f s rule: static_for.induct)
  case (1 b e f s)
  then show ?case
    by (subst static_for.simps) (auto simp: upt_conv_Cons)
qed

lemma fold_found:
  "fold (\<lambda>i b. if P i then True else b) is b \<longleftrightarrow> b \<or> (\<exists>i\<in>set is. P i)"
  by (induction "is" arbitrary: b) auto

lemma static_find_iff: "static_find x xs \<longleftrightarrow> x \<in> set xs"
  by (auto simp: static_find_def static_for_fold fold_found in_set_conv_nth)

end
