(* ===== verification/Version_Info.thy ===== *)
theory Version_Info
  imports Topaz_Prelude "HOL-Library.Char_ord"
begin

text \<open>
  \<open>core/version.*\<close>, \<open>core/engine_info.*\<close> and \<open>core/game_info.hpp\<close>: the version triple with
  its parser and printer, and the two information records printed from it.

  \<open>parse_version\<close> runs two \<open>unsigned int\<close> counters over the string and keeps three
  positions that are uninitialised until a dot is seen; \<open>static_stoi\<close> computes in
  \<open>unsigned int\<close> throughout, so its arithmetic is that of 32-bit words.
\<close>

record Version =
  major :: u32
  minor :: u32
  patch :: u32

section \<open>Printing\<close>

definition digit_char :: "nat \<Rightarrow> char" where
  "digit_char d = ''0123456789'' ! d"

text \<open>\<open>std::to_string\<close> of an unsigned integer: its decimal digits.\<close>

fun to_string :: "nat \<Rightarrow> string" where
  "to_string n = (if n < 10 then [digit_char n] else to_string (n div 10) @ [digit_char (n mod 10)])"

declare to_string.simps [simp del]

definition stringify_version :: "Version \<Rightarrow> string" where
  "stringify_version version =
     (let res = to_string (unat (major version)) @ ''.'';
          res = res @ to_string (unat (minor version)) @ ''.'';
          res = res @ to_string (unat (patch version))
      in res)"

section \<open>Parsing\<close>

definition is_digit :: "char \<Rightarrow> bool" where
  "is_digit c \<longleftrightarrow> c \<in> set ''0123456789''"

primrec find_first :: "(char \<Rightarrow> bool) \<Rightarrow> string \<Rightarrow> nat option" where
  "find_first P [] = None"
| "find_first P (c # cs) = (if P c then Some 0 else map_option Suc (find_first P cs))"

text \<open>\<open>string_view::substr\<close>: throws when the position is beyond the end, else clamps the count.\<close>

definition substr :: "string \<Rightarrow> nat \<Rightarrow> nat \<Rightarrow> string outcome" where
  "substr s pos count = (if pos > length s then Inl StdOutOfRange else Inr (take count (drop pos s)))"

text \<open>The accumulation loop of \<open>static_stoi\<close>, from the last character to the first.\<close>

definition stoi_step :: "u32 \<Rightarrow> char \<Rightarrow> u32 \<times> u32 \<Rightarrow> u32 \<times> u32" where
  "stoi_step sign c = (\<lambda>(result, multiplier).
     let number = of_char c - of_char (CHR ''0'')
     in (result + number * multiplier * sign, multiplier * 10))"

definition static_stoi :: "bool \<Rightarrow> string \<Rightarrow> (u32 \<times> nat option) outcome" where
  "static_stoi TZ_DEBUG str =
     (case find_first is_digit str of
        None \<Rightarrow> and_then (tz_error TZ_DEBUG) (\<lambda>_. Inr (- 1, None))
      | Some begin \<Rightarrow>
          let sign = (if begin \<noteq> 0 \<and> str ! (begin - 1) = CHR ''-'' then - 1 else 1);
              str = drop begin str;
              str = (case find_first (\<lambda>c. \<not> is_digit c) str of None \<Rightarrow> str | Some e \<Rightarrow> take e str);
              result = fst (foldr (stoi_step sign) str (0, 1))
          in Inr (result, Some (begin + length str)))"

record dot_scan =
  ds_max :: "nat option"
  ds_min :: "nat option"
  ds_patch :: "nat option"
  ds_dot_counter :: u32
  ds_counter :: u32

definition dot_scan_step :: "char \<Rightarrow> dot_scan \<Rightarrow> dot_scan" where
  "dot_scan_step c s =
     (let s =
        (if c = CHR ''.'' then
           (let s = (if ds_dot_counter s = 0 then s\<lparr>ds_max := Some (unat (ds_counter s))\<rparr>
                     else if ds_dot_counter s = 1 then
                       s\<lparr>ds_min := Some (unat (ds_counter s)), ds_patch := Some (unat (ds_counter s) + 1)\<rparr>
                     else s)
            in s\<lparr>ds_dot_counter := ds_dot_counter s + 1\<rparr>)
         else s)
      in s\<lparr>ds_counter := ds_counter s + 1\<rparr>)"

definition dot_scan_init :: dot_scan where
  "dot_scan_init = \<lparr>ds_max = None, ds_min = None, ds_patch = None, ds_dot_counter = 0, ds_counter = 0\<rparr>"

definition read_local :: "nat option \<Rightarrow> nat outcome" where
  "read_local v = (case v of None \<Rightarrow> Inl UninitialisedRead | Some x \<Rightarrow> Inr x)"

definition parse_version :: "bool \<Rightarrow> string \<Rightarrow> Version outcome" where
  "parse_version TZ_DEBUG version_sv =
     (let s = fold dot_scan_step version_sv dot_scan_init in
      and_then (read_local (ds_max s)) (\<lambda>max_pos.
      and_then (and_then (substr version_sv 0 max_pos) (static_stoi TZ_DEBUG)) (\<lambda>maj.
      and_then (read_local (ds_min s)) (\<lambda>min_pos.
      and_then (and_then (substr version_sv (max_pos + 1) min_pos) (static_stoi TZ_DEBUG)) (\<lambda>mnr.
      and_then (read_local (ds_patch s)) (\<lambda>patch_pos.
      and_then (and_then (substr version_sv (min_pos + 1) patch_pos) (static_stoi TZ_DEBUG)) (\<lambda>pat.
      Inr \<lparr>major = fst maj, minor = fst mnr, patch = fst pat\<rparr>)))))))"

section \<open>Engine and game information\<close>

datatype RenderAPI = Vulkan | OpenGL

datatype BuildConfig = Debug | Release | Profile

record EngineInfo =
  renderer :: RenderAPI
  build :: BuildConfig
  engine_version :: Version

definition engine_to_string :: "EngineInfo \<Rightarrow> string" where
  "engine_to_string self =
     (let render_api = (case renderer self of OpenGL \<Rightarrow> ''OpenGL'' | Vulkan \<Rightarrow> ''Vulkan'');
          build_config = (case build self of Debug \<Rightarrow> ''Debug'' | Profile \<Rightarrow> ''Profile'' | Release \<Rightarrow> ''Release'');
          result = ''Topaz v'';
          result = result @ stringify_version (engine_version self);
          result = result @ '' '';
          result = result @ render_api;
          result = result @ '' '';
          result = result @ build_config
      in result)"

text \<open>The preprocessor symbols the build sets are arguments of \<open>info\<close>.\<close>

definition info :: "bool \<Rightarrow> bool \<Rightarrow> bool \<Rightarrow> bool \<Rightarrow> string \<Rightarrow> EngineInfo outcome" where
  "info TZ_VULKAN TZ_OGL TZ_DEBUG TZ_PROFILE TZ_VERSION =
     and_then (if TZ_VULKAN then Inr Vulkan else if TZ_OGL then Inr OpenGL else Inl IllFormedProgram)
       (\<lambda>api.
     and_then (parse_version TZ_DEBUG TZ_VERSION) (\<lambda>v.
     Inr \<lparr>renderer = api,
          build = (if TZ_DEBUG then Debug else if TZ_PROFILE then Profile else Release),
          engine_version = v\<rparr>))"

record GameInfo =
  game_name :: string
  game_version :: Version
  engine :: EngineInfo

definition game_to_string :: "GameInfo \<Rightarrow> string" where
  "game_to_string g =
     (let res = game_name g;
          res = res @ '' v'';
          res = res @ stringify_version (game_version g);
          res = res @ '' ('';
          res = res @ engine_to_string (engine g);
          res = res @ '')''
      in res)"

section \<open>Digits\<close>

lemma digit_char_simps [simp]:
  "d < 10 \<Longrightarrow> is_digit (digit_char d)"
  "d < 10 \<Longrightarrow> (of_char (digit_char d) :: u32) = 48 + of_nat d"
proof -
  assume "d < 10"
  then have "d \<in> {0, 1, 2, 3, 4, 5, 6, 7, 8, 9}" by auto
  then show "is_digit (digit_char d)" and "(of_char (digit_char d) :: u32) = 48 + of_nat d"
    by (auto simp: digit_char_def is_digit_def)
qed

lemma digit_char_inj: "a < 10 \<Longrightarrow> b < 10 \<Longrightarrow> digit_char a = digit_char b \<longleftrightarrow> a = b"
  unfolding digit_char_def by (subst nth_eq_iff_index_eq) simp_all

lemma not_digit_simps [simp]: "\<not> is_digit (CHR ''.'')" "\<not> is_digit (CHR '' '')"
  by (simp_all add: is_digit_def)

lemma to_string_digits: "c \<in> set (to_string n) \<Longrightarrow> is_digit c"
proof (induction n rule: to_string.induct)
  case (1 n)
  then show ?case by (subst (asm) (2) to_string.simps) (auto split: if_splits)
qed

lemma to_string_nonempty [simp]: "to_string n \<noteq> []"
  by (subst to_string.simps) simp

lemma to_string_inj: "to_string m = to_string n \<Longrightarrow> m = n"
proof (induction m arbitrary: n rule: to_string.induct)
  case (1 m)
  have eq: "to_string m = to_string n" by fact
  show ?case
  proof (cases "m < 10")
    case True
    then have "to_string n = [digit_char m]"
      using eq to_string.simps [of m] by simp
    then have "n < 10"
      using to_string.simps [of n] by (auto split: if_splits)
    then show ?thesis
      using True eq to_string.simps [of m] to_string.simps [of n] by (simp add: digit_char_inj)
  next
    case False
    then have m: "to_string m = to_string (m div 10) @ [digit_char (m mod 10)]"
      by (subst to_string.simps) simp
    then have "length (to_string n) \<noteq> 1"
      using eq by simp
    then have "n \<ge> 10"
      using to_string.simps [of n] by (cases "n < 10") simp_all
    then have "to_string n = to_string (n div 10) @ [digit_char (n mod 10)]"
      by (subst to_string.simps) simp
    with m eq have "to_string (m div 10) = to_string (n div 10)" "m mod 10 = n mod 10"
      by (simp_all add: digit_char_inj)
    moreover have "m div 10 = n div 10"
      using 1(1) [OF False] calculation(1) by blast
    ultimately show ?thesis by (metis div_mod_decomp)
  qed
qed

lemma to_string_snoc: "10 \<le> n \<Longrightarrow> to_string n = to_string (n div 10) @ [digit_char (n mod 10)]"
  by (subst to_string.simps) simp

lemma length_to_string_div:
  "10 \<le> n \<Longrightarrow> length (to_string n) = Suc (length (to_string (n div 10)))"
  by (simp add: to_string_snoc)

text \<open>A proper prefix of the printed number is the printed quotient by a power of ten.\<close>

lemma take_to_string:
  assumes "0 < k" "k \<le> length (to_string n)"
  shows "take k (to_string n) = to_string (n div 10 ^ (length (to_string n) - k))"
  using assms
proof (induction n arbitrary: k rule: to_string.induct)
  case (1 n)
  show ?case
  proof (cases "k = length (to_string n)")
    case True
    then show ?thesis by simp
  next
    case False
    then have lt: "k < length (to_string n)" using 1(3) by simp
    then have n: "10 \<le> n"
      using 1(2) to_string.simps [of n] by (cases "n < 10") auto
    have "take k (to_string n) = take k (to_string (n div 10))"
      using lt n by (simp add: to_string_snoc)
    also have "\<dots> = to_string (n div 10 div 10 ^ (length (to_string (n div 10)) - k))"
      using 1(1) n lt 1(2) by (simp add: length_to_string_div)
    also have "n div 10 div 10 ^ (length (to_string (n div 10)) - k) =
        n div 10 ^ (length (to_string n) - k)"
      using lt n by (simp add: div_mult2_eq length_to_string_div Suc_diff_le)
    finally show ?thesis .
  qed
qed

section \<open>Converting back\<close>

lemma foldr_stoi_step:
  "foldr (stoi_step sign) (to_string n) (r, m) =
     (r + of_nat n * m * sign, m * 10 ^ length (to_string n))"
proof (induction n arbitrary: r m rule: to_string.induct)
  case (1 n)
  show ?case
  proof (cases "n < 10")
    case True
    then show ?thesis by (subst (1 2) to_string.simps) (simp add: stoi_step_def Let_def)
  next
    case False
    have n: "(of_nat n :: u32) = of_nat (n div 10) * 10 + of_nat (n mod 10)"
      by (metis div_mult_mod_eq of_nat_add of_nat_mult of_nat_numeral)
    have "foldr (stoi_step sign) (to_string n) (r, m) =
        foldr (stoi_step sign) (to_string (n div 10)) (r + of_nat (n mod 10) * m * sign, m * 10)"
      using False by (simp add: to_string_snoc stoi_step_def Let_def)
    also have "\<dots> = (r + of_nat (n mod 10) * m * sign + of_nat (n div 10) * (m * 10) * sign,
        m * 10 * 10 ^ length (to_string (n div 10)))"
      by (rule 1) (use False in simp)
    also have "\<dots> = (r + of_nat n * m * sign, m * 10 ^ length (to_string n))"
      using False by (simp add: n length_to_string_div algebra_simps)
    finally show ?thesis .
  qed
qed

lemma find_first_digits_then:
  assumes "\<forall>c\<in>set xs. \<not> P c"
  shows "find_first P (xs @ ys) = map_option (\<lambda>i. length xs + i) (find_first P ys)"
  using assms by (induction xs) (cases "find_first P ys"; simp)+

lemma static_stoi_digits:
  assumes "rest = [] \<or> \<not> is_digit (hd rest)"
  shows "static_stoi d (to_string n @ rest) = Inr (of_nat n, Some (length (to_string n)))"
proof -
  obtain c cs where cs: "to_string n = c # cs" by (cases "to_string n") auto
  then have "is_digit c" using to_string_digits by (metis list.set_intros(1))
  then have start: "find_first is_digit (to_string n @ rest) = Some 0"
    by (simp add: cs)
  have "(case find_first (\<lambda>c. \<not> is_digit c) (to_string n @ rest) of
      None \<Rightarrow> to_string n @ rest | Some e \<Rightarrow> take e (to_string n @ rest)) = to_string n"
    using assms find_first_digits_then [of "to_string n" "\<lambda>c. \<not> is_digit c" rest] to_string_digits [of _ n]
    by (cases rest) auto
  then show ?thesis
    using start by (simp add: static_stoi_def foldr_stoi_step)
qed

text \<open>The scan of a string with exactly the printed shape stops at the two dots.\<close>

lemma dot_scan_plain:
  assumes "CHR ''.'' \<notin> set xs"
  shows "fold dot_scan_step xs s = s\<lparr>ds_counter := ds_counter s + of_nat (length xs)\<rparr>"
  using assms
  by (induction xs arbitrary: s) (auto simp: dot_scan_step_def Let_def algebra_simps)

lemma dot_not_in_to_string [simp]: "CHR ''.'' \<notin> set (to_string n)"
  using to_string_digits not_digit_simps by blast

lemma dot_scan_triple:
  fixes a b c :: string
  assumes "CHR ''.'' \<notin> set a" "CHR ''.'' \<notin> set b" "CHR ''.'' \<notin> set c"
    and "length a + length b + 1 < 2 ^ 32"
  shows "ds_max (fold dot_scan_step (a @ ''.'' @ b @ ''.'' @ c) dot_scan_init) = Some (length a)"
    and "ds_min (fold dot_scan_step (a @ ''.'' @ b @ ''.'' @ c) dot_scan_init) =
      Some (length a + 1 + length b)"
    and "ds_patch (fold dot_scan_step (a @ ''.'' @ b @ ''.'' @ c) dot_scan_init) =
      Some (length a + 1 + length b + 1)"
proof -
  have w: "(of_nat (length a) + 1 + of_nat (length b) :: u32) = of_nat (length a + 1 + length b)"
    by simp
  have u: "unat (of_nat (length a + 1 + length b) :: u32) = length a + 1 + length b"
    using assms(4) by (intro unat_of_nat_u32) simp
  have u0: "unat (of_nat (length a) :: u32) = length a"
    using assms(4) by simp
  show "ds_max (fold dot_scan_step (a @ ''.'' @ b @ ''.'' @ c) dot_scan_init) = Some (length a)"
    and "ds_min (fold dot_scan_step (a @ ''.'' @ b @ ''.'' @ c) dot_scan_init) =
      Some (length a + 1 + length b)"
    and "ds_patch (fold dot_scan_step (a @ ''.'' @ b @ ''.'' @ c) dot_scan_init) =
      Some (length a + 1 + length b + 1)"
    using assms(1-3) u u0
    by (simp_all add: dot_scan_plain dot_scan_init_def dot_scan_step_def Let_def w del: of_nat_add)
qed

text \<open>
  The patch component is cut at \<open>length major + length minor + 2\<close> characters, because the
  position one past the second dot is passed to \<open>substr\<close> as a length.
\<close>

definition patch_width :: "Version \<Rightarrow> nat" where
  "patch_width v =
     min (length (to_string (unat (patch v))))
         (length (to_string (unat (major v))) + length (to_string (unat (minor v))) + 2)"

definition parsed_patch :: "Version \<Rightarrow> u32" where
  "parsed_patch v =
     of_nat (unat (patch v) div 10 ^ (length (to_string (unat (patch v))) - patch_width v))"

lemma length_to_string_u32: "n < 2 ^ 32 \<Longrightarrow> length (to_string n) \<le> 10"
proof -
  have len: "n < 10 ^ k \<Longrightarrow> 0 < k \<Longrightarrow> length (to_string n) \<le> k" for k n
  proof (induction k arbitrary: n)
    case (Suc k)
    show ?case
    proof (cases "n < 10")
      case True
      then show ?thesis by (subst to_string.simps) simp
    next
      case False
      then have "n div 10 < 10 ^ k" "0 < k"
        using Suc.prems by (auto simp: less_mult_imp_div_less mult.commute intro: Suc_lessI gr0I)
      then show ?thesis using Suc.IH [of "n div 10"] False by (simp add: length_to_string_div)
    qed
  qed simp
  assume "n < 2 ^ 32"
  then show ?thesis using len [of n 10] by simp
qed

lemma parse_stringify_general:
  "parse_version d (stringify_version v) = Inr (v\<lparr>patch := parsed_patch v\<rparr>)"
proof -
  define a where "a = to_string (unat (major v))"
  define b where "b = to_string (unat (minor v))"
  define c where "c = to_string (unat (patch v))"
  have str: "stringify_version v = a @ ''.'' @ b @ ''.'' @ c"
    by (simp add: stringify_version_def a_def b_def c_def Let_def)
  have "length a \<le> 10" "length b \<le> 10"
    unfolding a_def b_def using unat_u32_lt [of "major v"] unat_u32_lt [of "minor v"]
    by (simp_all add: length_to_string_u32)
  then have bound: "length a + length b + 1 < 2 ^ 32" by simp
  have nodot: "CHR ''.'' \<notin> set a" "CHR ''.'' \<notin> set b" "CHR ''.'' \<notin> set c"
    by (simp_all add: a_def b_def c_def)
  note scan = dot_scan_triple [OF nodot bound]
  have maj: "static_stoi d a = Inr (major v, Some (length a))"
    using static_stoi_digits [of "[]" d "unat (major v)"] by (simp add: a_def)
  have mnr: "static_stoi d (b @ CHR ''.'' # take (length a) c) = Inr (minor v, Some (length b))"
    using static_stoi_digits [of "CHR ''.'' # take (length a) c" d "unat (minor v)"] by (simp add: b_def)
  have width: "patch_width v = min (length c) (length a + length b + 2)"
    by (simp add: patch_width_def a_def b_def c_def)
  have "take (length a + length b + 2) c = take (patch_width v) c"
    by (simp add: width min_def)
  also have "\<dots> = to_string (unat (patch v) div 10 ^ (length c - patch_width v))"
    using take_to_string [of "patch_width v" "unat (patch v)"] width
    by (simp add: c_def)
  finally have pat: "static_stoi d (take (length a + length b + 2) c) =
      Inr (parsed_patch v, Some (length (to_string (unat (patch v) div 10 ^ (length c - patch_width v)))))"
    using static_stoi_digits [of "[]" d] by (simp add: parsed_patch_def c_def)
  show ?thesis
    unfolding parse_version_def Let_def str scan
    using maj mnr pat by (simp add: read_local_def substr_def Suc_diff_le)
qed

lemma parsed_patch_eq_iff:
  "parsed_patch v = patch v \<longleftrightarrow>
     length (to_string (unat (patch v))) \<le>
       length (to_string (unat (major v))) + length (to_string (unat (minor v))) + 2"
  (is "?L \<longleftrightarrow> ?len \<le> ?k")
proof
  assume "?len \<le> ?k"
  then show ?L by (simp add: parsed_patch_def patch_width_def)
next
  assume L: ?L
  show "?len \<le> ?k"
  proof (rule ccontr)
    assume gt: "\<not> ?len \<le> ?k"
    then have w: "patch_width v = ?k" by (simp add: patch_width_def)
    have "unat (patch v) div 10 ^ (?len - ?k) < 2 ^ 32"
      using unat_u32_lt [of "patch v"] by (rule le_less_trans [OF div_le_dividend])
    then have "unat (patch v) div 10 ^ (?len - ?k) = unat (patch v)"
      using L w unfolding parsed_patch_def by (metis unat_of_nat_u32)
    moreover have "1 < (10::nat) ^ (?len - ?k)"
      using gt by (intro one_less_power) simp_all
    moreover have "0 < unat (patch v)"
      using gt to_string.simps [of "unat (patch v)"] by (cases "unat (patch v) = 0") simp_all
    ultimately show False
      using div_less_dividend [of "10 ^ (?len - ?k)" "unat (patch v)"] by simp
  qed
qed

section \<open>The printed information determines its fields\<close>

lemma split_at_separator:
  assumes "x \<notin> set a" "x \<notin> set a'" "a @ x # b = a' @ x # b'"
  shows "a = a' \<and> b = b'"
  using assms
proof (induction a arbitrary: a')
  case Nil
  then show ?case by (cases a') auto
next
  case (Cons y a)
  then show ?case by (cases a') auto
qed

lemma stringify_version_inj: "stringify_version v = stringify_version w \<Longrightarrow> v = w"
proof -
  assume eq: "stringify_version v = stringify_version w"
  have shape: "stringify_version u = to_string (unat (major u)) @ CHR ''.'' #
      (to_string (unat (minor u)) @ CHR ''.'' # to_string (unat (patch u)))" for u
    by (simp add: stringify_version_def Let_def)
  from eq have first: "to_string (unat (major v)) = to_string (unat (major w)) \<and>
      to_string (unat (minor v)) @ CHR ''.'' # to_string (unat (patch v)) =
      to_string (unat (minor w)) @ CHR ''.'' # to_string (unat (patch w))"
    by (intro split_at_separator [where x = "CHR ''.''"]) (simp_all add: shape)
  then have "to_string (unat (minor v)) = to_string (unat (minor w)) \<and>
      to_string (unat (patch v)) = to_string (unat (patch w))"
    by (intro split_at_separator [where x = "CHR ''.''"]) simp_all
  with first have "major v = major w" "minor v = minor w" "patch v = patch w"
    by (auto dest!: to_string_inj simp: word_unat_eq_iff)
  then show "v = w" by (cases v, cases w) simp
qed

lemma space_not_in_version: "CHR '' '' \<notin> set (stringify_version v)"
  using to_string_digits [of "CHR '' ''"] by (auto simp: stringify_version_def Let_def)

section \<open>Properties\<close>

text \<open>
  C29. Parsing a printed version gives the version back exactly when the printed patch number
  has at most two more digits than the major and minor numbers together; a longer patch
  number comes back truncated.
\<close>

theorem parse_stringify_version_iff:
  "parse_version d (stringify_version v) = Inr v \<longleftrightarrow>
     length (to_string (unat (patch v))) \<le>
       length (to_string (unat (major v))) + length (to_string (unat (minor v))) + 2"
proof -
  have "v\<lparr>patch := parsed_patch v\<rparr> = v \<longleftrightarrow> parsed_patch v = patch v"
    by (cases v) simp
  then show ?thesis
    by (simp add: parse_stringify_general parsed_patch_eq_iff)
qed

text \<open>
  The engine description is unambiguous: two engine descriptions that print alike have
  the same render API, build configuration and version.
\<close>

theorem engine_to_string_inj: "inj engine_to_string"
proof (rule injI)
  fix e f assume eq: "engine_to_string e = engine_to_string f"
  define tail where "tail g =
    (case renderer g of OpenGL \<Rightarrow> ''OpenGL'' | Vulkan \<Rightarrow> ''Vulkan'') @ '' '' @
    (case build g of Debug \<Rightarrow> ''Debug'' | Profile \<Rightarrow> ''Profile'' | Release \<Rightarrow> ''Release'')"
    for g :: EngineInfo
  have shape: "engine_to_string g = ''Topaz v'' @ stringify_version (engine_version g) @ CHR '' '' # tail g" for g
    by (simp add: engine_to_string_def Let_def tail_def)
  have "stringify_version (engine_version e) = stringify_version (engine_version f) \<and> tail e = tail f"
    by (rule split_at_separator [where x = "CHR '' ''"]) (use eq in \<open>simp_all add: shape space_not_in_version\<close>)
  moreover from this have "renderer e = renderer f" "build e = build f"
    by (auto simp: tail_def split: RenderAPI.splits BuildConfig.splits)
  ultimately show "e = f"
    using stringify_version_inj by (cases e, cases f) auto
qed

text \<open>
  The engine information of a build whose version string is a printed version with a
  short enough patch number carries that version, and its build configuration follows the
  \<open>TZ_DEBUG\<close> and \<open>TZ_PROFILE\<close> symbols with debug taking precedence.
\<close>

theorem info_reports_build:
  assumes "length (to_string (unat (patch v))) \<le> 4" "vk \<or> ogl"
  shows "info vk ogl dbg prof (stringify_version v) =
    Inr \<lparr>renderer = (if vk then Vulkan else OpenGL),
         build = (if dbg then Debug else if prof then Profile else Release), engine_version = v\<rparr>"
proof -
  have "1 \<le> length (to_string (unat (major v)))" "1 \<le> length (to_string (unat (minor v)))"
    by (simp_all add: Suc_leI)
  with assms(1) have "parsed_patch v = patch v"
    unfolding parsed_patch_eq_iff by linarith
  then have "parse_version dbg (stringify_version v) = Inr v"
    by (simp add: parse_stringify_general)
  then show ?thesis using assms(2) by (auto simp: info_def)
qed

theorem info_reports_build_witness:
  "info True False True False ''0.4.1'' =
    Inr \<lparr>renderer = Vulkan, build = Debug, engine_version = \<lparr>major = 0, minor = 4, patch = 1\<rparr>\<rparr>"
  using info_reports_build [of "\<lparr>major = 0, minor = 4, patch = 1\<rparr>" True False True False]
  by (simp add: stringify_version_def to_string.simps digit_char_def)

end
