(* ===== verification/Tzslc.thy ===== *)
theory Tzslc
  imports Containers Version_Info
begin

text \<open>
  The shader preprocessor \<open>tzslc\<close> (\<open>src/tools/tzslc\<close>): the selection of modules from the command line,
  the generic source transformation \<open>tzslc::transform\<close> with its search loop and its list of replacement
  jobs, the sampler module, and \<open>main\<close>.  The regular expression engine and the string functions are the
  standard library's, modelled as far as the tool uses them; the file system is a parameter of \<open>tzslc_main\<close>.
  The specification is \<open>substitute\<close>, which replaces the leftmost match and goes on in what follows it.
\<close>

section \<open>The string functions\<close>

fun string_find :: "string \<Rightarrow> string \<Rightarrow> nat option" where
  "string_find [] t = (if t = [] then Some 0 else None)"
| "string_find (c # s) t =
     (if take (length t) (c # s) = t then Some 0 else map_option Suc (string_find s t))"

definition npos :: nat where
  "npos = 2 ^ 64 - 1"

definition string_replace :: "string \<Rightarrow> nat \<Rightarrow> nat \<Rightarrow> string \<Rightarrow> string outcome" where
  "string_replace s pos len r =
     (if length s < pos then Inl StdOutOfRange else Inr (take pos s @ r @ drop (pos + len) s))"

definition digits_value :: "string \<Rightarrow> nat" where
  "digits_value ds = foldl (\<lambda>n c. 10 * n + (of_char c - 48)) 0 ds"

definition std_stoi :: "string \<Rightarrow> nat outcome" where
  "std_stoi ds =
     (if ds = [] then Inl StdInvalidArgument
      else if 2 ^ 31 \<le> digits_value ds then Inl StdOutOfRange
      else Inr (digits_value ds))"

section \<open>The source transformation\<close>

text \<open>
  A \<open>std::regex\<close> is what \<open>std::regex_search\<close> finds with it: the position and the length of the leftmost
  match, and its capture groups.
\<close>

record smatch =
  sm_position :: nat
  sm_length :: nat
  sm_groups :: "string list"

type_synonym regex = "string \<Rightarrow> smatch option"
type_synonym replace_job = "(nat \<times> nat) \<times> string"

definition sm_suffix :: "smatch \<Rightarrow> string \<Rightarrow> string" where
  "sm_suffix sm s = drop (sm_position sm + sm_length sm) s"

definition size_of_find :: "nat option \<Rightarrow> nat" where
  "size_of_find r = (case r of Some i \<Rightarrow> i | None \<Rightarrow> npos)"

partial_function (option) transform_search ::
    "bool \<Rightarrow> regex \<Rightarrow> (string list \<Rightarrow> string outcome) \<Rightarrow> string \<Rightarrow> string \<Rightarrow> nat \<Rightarrow> replace_job list
      \<Rightarrow> replace_job list outcome option" where
  "transform_search TZ_DEBUG reg transform_function source src_copy src_pos_counter replacements =
     (case reg src_copy of
        None \<Rightarrow> Some (Inr replacements)
      | Some sm \<Rightarrow>
          (let pos = (sm_position sm + src_pos_counter) mod 2 ^ 64 in
           case tz_assert TZ_DEBUG (pos < length source) of
             Inl e \<Rightarrow> Some (Inl e)
           | Inr _ \<Rightarrow>
               (let rest = sm_suffix sm src_copy in
                case transform_function (sm_groups sm) of
                  Inl e \<Rightarrow> Some (Inl e)
                | Inr replacement \<Rightarrow>
                    transform_search TZ_DEBUG reg transform_function source rest
                      (size_of_find (string_find source rest))
                      (replacements @ [((pos, sm_length sm), replacement)]))))"

primrec replace_all :: "replace_job list \<Rightarrow> string \<Rightarrow> string outcome" where
  "replace_all [] source = Inr source"
| "replace_all (job # jobs) source =
     and_then (string_replace source (fst (fst job)) (snd (fst job)) (snd job)) (replace_all jobs)"

definition transform ::
    "bool \<Rightarrow> string \<Rightarrow> regex \<Rightarrow> (string list \<Rightarrow> string outcome) \<Rightarrow> (string \<times> bool) outcome option" where
  "transform TZ_DEBUG source reg transform_function =
     map_option (\<lambda>r. and_then r (\<lambda>replacements.
         and_then (replace_all (rev replacements) source) (\<lambda>result.
         Inr (result, replacements \<noteq> []))))
       (transform_search TZ_DEBUG reg transform_function source source 0 [])"

section \<open>The sampler module\<close>

definition sampler_keyword :: string where
  "sampler_keyword = ''tz_sampler2D_uniform(''"

text \<open>The regular expression \<open>tz_sampler2D_uniform\(([0-9]+)\)\<close>, at the front of a text and searched.\<close>

definition sampler_at :: "string \<Rightarrow> string option" where
  "sampler_at s =
     (let rest = drop (length sampler_keyword) s; ds = takeWhile is_digit rest in
      if take (length sampler_keyword) s = sampler_keyword \<and> ds \<noteq> []
         \<and> take 1 (drop (length ds) rest) = '')''
      then Some ds else None)"

fun sampler_regex :: "string \<Rightarrow> smatch option" where
  "sampler_regex [] = None"
| "sampler_regex (c # s) =
     (case sampler_at (c # s) of
        Some ds \<Rightarrow> Some \<lparr>sm_position = 0, sm_length = length sampler_keyword + length ds + 1, sm_groups = [ds]\<rparr>
      | None \<Rightarrow> map_option (\<lambda>sm. sm\<lparr>sm_position := Suc (sm_position sm)\<rparr>) (sampler_regex s))"

definition sampler_replacement :: "bool \<Rightarrow> bool \<Rightarrow> bool \<Rightarrow> string list \<Rightarrow> string outcome" where
  "sampler_replacement TZ_DEBUG TZ_VULKAN TZ_OGL groups =
     and_then (tz_assert TZ_DEBUG (length groups = 1)) (\<lambda>_.
     and_then (at_index groups 0) (\<lambda>beg.
     and_then (std_stoi beg) (\<lambda>id.
     Inr (''/*tzslc*/ layout('' @
          (if TZ_VULKAN then ''binding'' else if TZ_OGL then ''location'' else []) @
          '' = '' @ to_string id @ '') uniform sampler2D''))))"

definition preprocess_samplers ::
    "bool \<Rightarrow> bool \<Rightarrow> bool \<Rightarrow> string \<Rightarrow> (string \<times> bool) outcome option" where
  "preprocess_samplers TZ_DEBUG TZ_VULKAN TZ_OGL shader_source =
     map_option (\<lambda>r. and_then r (\<lambda>(result, _). Inr (result, False)))
       (transform TZ_DEBUG shader_source sampler_regex (sampler_replacement TZ_DEBUG TZ_VULKAN TZ_OGL))"

datatype PreprocessorModule = Sampler

definition all_modules :: "PreprocessorModule EnumField" where
  "all_modules = ef_or_assign (enum_field_of []) Sampler"

definition preprocess ::
    "bool \<Rightarrow> bool \<Rightarrow> bool \<Rightarrow> PreprocessorModule EnumField \<Rightarrow> string \<Rightarrow> (string \<times> bool) outcome option" where
  "preprocess TZ_DEBUG TZ_VULKAN TZ_OGL modules shader_source =
     (if ef_contains modules Sampler
      then map_option (\<lambda>r. and_then r (\<lambda>(result, done_work). Inr (result, False \<or> done_work)))
             (preprocess_samplers TZ_DEBUG TZ_VULKAN TZ_OGL shader_source)
      else Some (Inr (shader_source, False)))"

section \<open>The command line\<close>

definition preprocessor_module_names :: "(PreprocessorModule \<times> string) list" where
  "preprocessor_module_names = [(Sampler, ''sampler'')]"

fun selected_modules_loop ::
    "string list \<Rightarrow> PreprocessorModule EnumField \<Rightarrow> PreprocessorModule EnumField" where
  "selected_modules_loop [] modules = modules"
| "selected_modules_loop (arg # args) modules =
     (if take 2 arg = ''-m'' then
        (let name = drop 2 arg;
             modules' = foldl (\<lambda>ms (m, module_name). if name = module_name then ef_or_assign ms m else ms)
                          modules preprocessor_module_names in
         if name = ''all'' then all_modules else selected_modules_loop args modules')
      else selected_modules_loop args modules)"

definition selected_modules :: "string list \<Rightarrow> PreprocessorModule EnumField" where
  "selected_modules args = selected_modules_loop args (enum_field_of [])"

text \<open>The name of the file the output goes to, \<open>None\<close> for the standard output.\<close>

fun get_output_stream :: "string list \<Rightarrow> string option \<Rightarrow> string option" where
  "get_output_stream (arg # arg_next # args) output =
     get_output_stream (arg_next # args) (if arg = ''-o'' then Some arg_next else output)"
| "get_output_stream args output = output"

text \<open>
  \<open>main\<close> gives where it writes and what.  A file that cannot be opened has no size to read: \<open>tellg\<close> gives
  \<open>-1\<close>, and a string of that many bytes is refused.  \<open>fprintf\<close> writes the text up to its first NUL.  With
  fewer than two arguments the unsigned comparison with \<open>argc - 2\<close> walks past the end of \<open>argv\<close>.
\<close>

definition tzslc_main ::
    "bool \<Rightarrow> bool \<Rightarrow> bool \<Rightarrow> (string \<Rightarrow> string option) \<Rightarrow> string list
      \<Rightarrow> (string option \<times> string) outcome option" where
  "tzslc_main TZ_DEBUG TZ_VULKAN TZ_OGL files argv =
     (case and_then (tz_assert TZ_DEBUG (2 \<le> length argv)) (\<lambda>_.
           if length argv < 2 then Inl OutOfBounds else
           and_then (at_index argv 1) (\<lambda>glsl_filename.
           and_then (tz_assert TZ_DEBUG (files glsl_filename \<noteq> None)) (\<lambda>_.
           case files glsl_filename of None \<Rightarrow> Inl StdLengthError | Some buffer \<Rightarrow> Inr buffer))) of
        Inl e \<Rightarrow> Some (Inl e)
      | Inr buffer \<Rightarrow>
          map_option (\<lambda>r. and_then r (\<lambda>(result, _).
              Inr (get_output_stream argv None, takeWhile (\<lambda>c. c \<noteq> CHR 0x00) result)))
            (preprocess TZ_DEBUG TZ_VULKAN TZ_OGL (selected_modules (drop 2 argv)) buffer))"

section \<open>The specification\<close>

definition shortens :: "smatch \<Rightarrow> string \<Rightarrow> bool" where
  "shortens sm s = (length (sm_suffix sm s) < length s)"

function substitute :: "regex \<Rightarrow> (string list \<Rightarrow> string outcome) \<Rightarrow> string \<Rightarrow> string outcome" where
  "substitute reg f s =
     (case reg s of
        None \<Rightarrow> Inr s
      | Some sm \<Rightarrow>
          if shortens sm s
          then and_then (f (sm_groups sm)) (\<lambda>r.
               and_then (substitute reg f (sm_suffix sm s)) (\<lambda>t.
               Inr (take (sm_position sm) s @ r @ t)))
          else Inr s)"
  by pat_completeness auto
termination
  by (relation "measure (\<lambda>(reg, f, s). length s)") (auto simp: shortens_def)

function last_text :: "regex \<Rightarrow> string \<Rightarrow> string" where
  "last_text reg s =
     (case reg s of
        None \<Rightarrow> s
      | Some sm \<Rightarrow> if shortens sm s then last_text reg (sm_suffix sm s) else s)"
  by pat_completeness auto
termination
  by (relation "measure (\<lambda>(reg, s). length s)") (auto simp: shortens_def)

declare substitute.simps [simp del] last_text.simps [simp del]

text \<open>A text that is a suffix of the source and occurs nowhere else in it.\<close>

definition occurs_once :: "string \<Rightarrow> string \<Rightarrow> bool" where
  "occurs_once source z = (string_find source z = Some (length source - length z))"

section \<open>Finding a text\<close>

lemma string_find_iff:
  "string_find s t = Some i \<longleftrightarrow>
     i \<le> length s \<and> take (length t) (drop i s) = t \<and> (\<forall>j<i. take (length t) (drop j s) \<noteq> t)"
proof (induction s arbitrary: i)
  case Nil
  then show ?case by auto
next
  case (Cons c s)
  show ?case
  proof (cases i)
    case 0
    then show ?thesis by auto
  next
    case (Suc k)
    have "(\<forall>j<Suc k. take (length t) (drop j (c # s)) \<noteq> t) \<longleftrightarrow>
        take (length t) (c # s) \<noteq> t \<and> (\<forall>j<k. take (length t) (drop j s) \<noteq> t)"
      by (auto simp: less_Suc_eq_0_disj simp del: take_Cons')
    then show ?thesis
      using Suc Cons.IH [of k] by auto
  qed
qed

lemma occurs_once_suffix:
  assumes "occurs_once source z" "source = pre @ t @ z"
  shows "string_find source (t @ z) = Some (length pre)"
proof -
  have once: "take (length z) (drop j source) \<noteq> z" if "j < length pre + length t" for j
    using assms that by (auto simp: occurs_once_def string_find_iff)
  have "take (length (t @ z)) (drop j source) \<noteq> t @ z" if "j < length pre" for j
  proof
    assume eq: "take (length (t @ z)) (drop j source) = t @ z"
    have "drop (length t) (take (length (t @ z)) (drop j source)) = take (length z) (drop (j + length t) source)"
      by (simp add: drop_take add.commute)
    then show False
      using eq once [of "j + length t"] that by simp
  qed
  then show ?thesis
    unfolding string_find_iff using assms(2) by simp
qed

section \<open>The transformation carries out the substitution\<close>

lemma replace_all_snoc:
  "replace_all (jobs @ [job]) source =
     and_then (replace_all jobs source) (\<lambda>s. string_replace s (fst (fst job)) (snd (fst job)) (snd job))"
proof (induction jobs arbitrary: source)
  case Nil
  then show ?case by (cases "string_replace source (fst (fst job)) (snd (fst job)) (snd job)") simp_all
next
  case (Cons j jobs)
  then show ?case by (cases "string_replace source (fst (fst j)) (snd (fst j)) (snd j)") simp_all
qed

text \<open>What the loop needs of a regular expression: its matches lie in the text and are not empty.\<close>

locale regular_expression =
  fixes reg :: regex
  assumes match_inside: "reg s = Some sm \<Longrightarrow> sm_position sm + sm_length sm \<le> length s"
    and match_nonempty: "reg s = Some sm \<Longrightarrow> 0 < sm_length sm"
begin

lemma match_shortens: "reg s = Some sm \<Longrightarrow> shortens sm s"
  using match_inside [of s sm] match_nonempty [of s sm] by (auto simp: shortens_def sm_suffix_def)

lemma match_split:
  assumes "reg s = Some sm"
  obtains M where "s = take (sm_position sm) s @ M @ sm_suffix sm s" "length M = sm_length sm"
    "length (take (sm_position sm) s) = sm_position sm"
proof
  show "s = take (sm_position sm) s @ take (sm_length sm) (drop (sm_position sm) s) @ sm_suffix sm s"
    by (simp add: sm_suffix_def add.commute flip: drop_drop)
qed (use match_inside [OF assms] in simp_all)

lemma substitute_step:
  "substitute reg f s =
     (case reg s of
        None \<Rightarrow> Inr s
      | Some sm \<Rightarrow> and_then (f (sm_groups sm)) (\<lambda>r. and_then (substitute reg f (sm_suffix sm s))
          (\<lambda>t. Inr (take (sm_position sm) s @ r @ t))))"
  using match_shortens [of s] by (subst substitute.simps) (auto split: option.split)

lemma last_text_step:
  "last_text reg s = (case reg s of None \<Rightarrow> s | Some sm \<Rightarrow> last_text reg (sm_suffix sm s))"
  using match_shortens [of s] by (subst last_text.simps) (auto split: option.split)

lemma last_text_suffix: "\<exists>t. s = t @ last_text reg s"
proof (induction "length s" arbitrary: s rule: less_induct)
  case less
  show ?case
  proof (cases "reg s")
    case (Some sm)
    then obtain t where "sm_suffix sm s = t @ last_text reg (sm_suffix sm s)"
      using less [of "sm_suffix sm s"] match_shortens [OF Some] by (auto simp: shortens_def)
    then show ?thesis
      using match_split [OF Some] Some by (metis append.assoc last_text_step option.simps(5))
  qed (simp add: last_text_step)
qed

text \<open>The search always ends, whatever the transformation of a match does.\<close>

lemma transform_search_ends: "\<exists>r. transform_search d reg f source s n jobs = Some r"
proof (induction "length s" arbitrary: s n jobs rule: less_induct)
  case less
  show ?case
    using less match_shortens [of s]
    by (subst transform_search.simps) (auto simp: shortens_def Let_def split: option.split sum.split)
qed

lemma transform_ends: "\<exists>r. transform d source reg f = Some r"
  using transform_search_ends by (auto simp: transform_def)

text \<open>One match: the job has the place of the match in the source, and so has the rest of the search.\<close>

lemma transform_search_match:
  assumes "occurs_once source z" "length source < 2 ^ 64" "source = pre @ a @ M @ t @ z"
    and "reg s = Some sm" "s = a @ M @ t @ z" "sm_suffix sm s = t @ z"
    and "length a = sm_position sm" "length M = sm_length sm"
  shows "transform_search d reg f source s (length pre) jobs =
    (case f (sm_groups sm) of
       Inl e \<Rightarrow> Some (Inl e)
     | Inr r \<Rightarrow> transform_search d reg f source (t @ z) (length (pre @ a @ M))
         (jobs @ [((length (pre @ a), sm_length sm), r)]))"
proof -
  have "(sm_position sm + length pre) mod 2 ^ 64 = length (pre @ a)" "length (pre @ a) < length source"
    using assms match_nonempty [OF assms(4)] by simp_all
  moreover have "string_find source (t @ z) = Some (length (pre @ a @ M))"
    using occurs_once_suffix [OF assms(1), of "pre @ a @ M" t] assms(3) by simp
  ultimately show ?thesis
    using assms(4,6) by (subst transform_search.simps)
      (simp add: size_of_find_def tz_assert_def Let_def split: sum.split)
qed

lemma transform_search_correct:
  assumes "occurs_once source (last_text reg source)" "length source < 2 ^ 64"
    and "source = pre @ s" "last_text reg s = last_text reg source"
  shows "case substitute reg f s of
      Inl e \<Rightarrow> transform_search d reg f source s (length pre) jobs = Some (Inl e)
    | Inr t \<Rightarrow> \<exists>js. transform_search d reg f source s (length pre) jobs = Some (Inr (jobs @ js))
        \<and> replace_all (rev js) source = Inr (pre @ t) \<and> (js = [] \<longleftrightarrow> reg s = None)"
  using assms(3-)
proof (induction "length s" arbitrary: pre s jobs rule: less_induct)
  case less
  show ?case
  proof (cases "reg s")
    case None
    then show ?thesis
      using less.prems by (subst transform_search.simps) (simp add: substitute_step)
  next
    case (Some sm)
    let ?rest = "sm_suffix sm s" and ?a = "take (sm_position sm) s"
    obtain M where M: "s = ?a @ M @ ?rest" "length M = sm_length sm" "length ?a = sm_position sm"
      using match_split [OF Some] .
    have last: "last_text reg ?rest = last_text reg source"
      using less.prems(2) Some by (simp add: last_text_step [of s])
    then obtain t where t: "?rest = t @ last_text reg source"
      using last_text_suffix [of ?rest] by auto
    have s: "s = ?a @ M @ t @ last_text reg source"
      by (subst t [symmetric]) (rule M(1))
    have source: "source = pre @ ?a @ M @ t @ last_text reg source"
      by (subst s [symmetric]) (rule less.prems(1))
    note step = transform_search_match [OF assms(1,2) source Some s t M(3,2), of d f jobs, folded t]
    have rest: "source = (pre @ ?a @ M) @ ?rest" "length ?rest < length s"
      using source match_shortens [OF Some] unfolding t append.assoc shortens_def .
    let ?job = "\<lambda>r. ((length (pre @ ?a), sm_length sm), r)"
    note IH = less.hyps [OF rest(2,1) last]
    show ?thesis
    proof (cases "f (sm_groups sm)")
      case (Inr r)
      show ?thesis
      proof (cases "substitute reg f ?rest")
        case (Inl e)
        then show ?thesis
          using IH [of "jobs @ [?job r]"] step Some Inr by (simp add: substitute_step [of f s])
      next
        case (Inr t')
        then obtain js where
          "transform_search d reg f source s (length pre) jobs = Some (Inr (jobs @ ?job r # js))"
          "replace_all (rev js) source = Inr ((pre @ ?a) @ M @ t')"
          using IH [of "jobs @ [?job r]"] step \<open>f (sm_groups sm) = Inr r\<close> by auto
        then show ?thesis
          using Inr \<open>f (sm_groups sm) = Inr r\<close> Some M(2,3) by (auto simp: substitute_step [of f s]
            replace_all_snoc string_replace_def intro!: exI [of _ "?job r # js"])
      qed
    qed (use step Some in \<open>simp add: substitute_step [of f s]\<close>)
  qed
qed

theorem transform_substitutes:
  assumes "occurs_once source (last_text reg source)" "length source < 2 ^ 64"
  shows "transform d source reg f =
    Some (and_then (substitute reg f source) (\<lambda>t. Inr (t, reg source \<noteq> None)))"
  using transform_search_correct [OF assms, of "[]" source d f "[]"]
  by (cases "substitute reg f source") (auto simp: transform_def)

end

section \<open>The sampler declarations\<close>

lemma sampler_at_inside:
  assumes "sampler_at s = Some ds"
  shows "length sampler_keyword + length ds + 1 \<le> length s"
proof -
  let ?rest = "drop (length sampler_keyword) s"
  have "drop (length ds) ?rest \<noteq> []" and "take (length sampler_keyword) s = sampler_keyword"
    using assms by (auto simp: sampler_at_def Let_def split: if_splits)
  moreover from this(2) have "length sampler_keyword \<le> length s"
    by (metis length_take min.cobounded1)
  ultimately show ?thesis by simp
qed

lemma sampler_regex_inside:
  "sampler_regex s = Some sm \<Longrightarrow> sm_position sm + sm_length sm \<le> length s \<and> 0 < sm_length sm"
  by (induction s arbitrary: sm) (auto dest: sampler_at_inside split: option.splits)

interpretation samplers: regular_expression sampler_regex
  by unfold_locales (use sampler_regex_inside in blast)+

definition sampler_declaration :: "nat \<Rightarrow> string" where
  "sampler_declaration n = sampler_keyword @ to_string n @ '')''"

definition layout_declaration :: "bool \<Rightarrow> bool \<Rightarrow> nat \<Rightarrow> string" where
  "layout_declaration vulkan ogl n =
     ''/*tzslc*/ layout('' @ (if vulkan then ''binding'' else if ogl then ''location'' else []) @
     '' = '' @ to_string n @ '') uniform sampler2D''"

lemma digits_value_snoc: "digits_value (ds @ [c]) = 10 * digits_value ds + (of_char c - 48)"
  by (simp add: digits_value_def)

lemma digit_char_value: "d < 10 \<Longrightarrow> (of_char (digit_char d) :: nat) = 48 + d"
proof -
  assume "d < 10"
  then have "d \<in> {0, 1, 2, 3, 4, 5, 6, 7, 8, 9}" by auto
  then show ?thesis by (auto simp: digit_char_def)
qed

lemma digits_value_to_string [simp]: "digits_value (to_string n) = n"
proof (induction n rule: to_string.induct)
  case (1 n)
  then show ?case
    by (subst to_string.simps) (simp add: digits_value_snoc digit_char_value, simp add: digits_value_def digit_char_value)
qed

lemma stoi_to_string: "n < 2 ^ 31 \<Longrightarrow> std_stoi (to_string n) = Inr n"
  by (simp add: std_stoi_def)

lemma sampler_replacement_layout:
  "n < 2 ^ 31 \<Longrightarrow> sampler_replacement d vulkan ogl [to_string n] = Inr (layout_declaration vulkan ogl n)"
  by (simp add: sampler_replacement_def tz_assert_def at_index_def stoi_to_string layout_declaration_def)

lemma not_digit_sampler [simp]: "\<not> is_digit (CHR '')'')" "\<not> is_digit (CHR ''t'')"
  by (simp_all add: is_digit_def)

lemma sampler_at_declaration: "sampler_at (sampler_declaration n @ t) = Some (to_string n)"
proof -
  have "takeWhile is_digit (to_string n @ '')'' @ t) = to_string n"
    by (subst takeWhile_append2) (simp_all add: to_string_digits)
  then show ?thesis
    by (simp add: sampler_at_def sampler_declaration_def Let_def)
qed

text \<open>No match begins in the text before a declaration: the keyword does not overlap itself.\<close>

lemma sampler_keyword_front:
  assumes "0 < i" "i < length sampler_keyword"
  shows "sampler_keyword ! i \<noteq> CHR ''t''"
proof -
  have "\<forall>c \<in> set (tl sampler_keyword). c \<noteq> CHR ''t''" by (simp add: sampler_keyword_def)
  moreover have "sampler_keyword ! i \<in> set (tl sampler_keyword)"
    using assms by (metis One_nat_def Suc_pred length_tl less_diff_conv nth_mem nth_tl add.commute plus_1_eq_Suc)
  ultimately show ?thesis by blast
qed

lemma keyword_in_front:
  assumes "take (length sampler_keyword) (w @ CHR ''t'' # s) = sampler_keyword" "w \<noteq> []"
  shows "length sampler_keyword \<le> length w"
proof (rule ccontr)
  assume short: "\<not> length sampler_keyword \<le> length w"
  then have "sampler_keyword ! length w = (w @ CHR ''t'' # s) ! length w"
    by (metis assms(1) not_le nth_take)
  then show False
    using sampler_keyword_front [of "length w"] short assms(2) by (simp add: not_le)
qed

lemma sampler_at_before:
  assumes "sampler_at (w @ CHR ''t'' # s) = Some ds" "w \<noteq> []"
  shows "sampler_at w = Some ds"
proof -
  define v where "v = drop (length sampler_keyword) w"
  have at: "take (length sampler_keyword) (w @ CHR ''t'' # s) = sampler_keyword"
    using assms(1) by (simp add: sampler_at_def Let_def split: if_splits)
  note long = keyword_in_front [OF at assms(2)]
  have rest: "drop (length sampler_keyword) (w @ CHR ''t'' # s) = v @ CHR ''t'' # s"
    using long by (simp add: v_def)
  have ds: "ds = takeWhile is_digit (v @ CHR ''t'' # s)" "ds \<noteq> []"
    and paren: "take 1 (drop (length ds) (v @ CHR ''t'' # s)) = '')''"
    using assms(1) unfolding sampler_at_def Let_def rest by (simp_all split: if_splits)
  have "\<not> (\<forall>c \<in> set v. is_digit c)"
  proof
    assume all: "\<forall>c \<in> set v. is_digit c"
    then have "ds = v" using ds(1) by (simp add: takeWhile_append2)
    then show False using paren by simp
  qed
  then have v: "ds = takeWhile is_digit v" "takeWhile is_digit v \<noteq> v"
    using ds(1) by (auto simp: takeWhile_append1 takeWhile_eq_all_conv)
  then have "length ds < length v"
    by (metis length_takeWhile_le le_neq_implies_less takeWhile_eq_take take_all_iff)
  show ?thesis
    using at long ds(2) paren v(1) \<open>length ds < length v\<close> by (simp add: sampler_at_def Let_def v_def [symmetric])
qed

lemma sampler_regex_declaration:
  assumes "sampler_regex t = None"
  shows "sampler_regex (t @ sampler_declaration n @ u) =
    Some \<lparr>sm_position = length t, sm_length = length (sampler_declaration n), sm_groups = [to_string n]\<rparr>"
  using assms
proof (induction t)
  case Nil
  obtain c w where "sampler_declaration n @ u = c # w"
    by (simp add: sampler_declaration_def sampler_keyword_def)
  then show ?case
    using sampler_at_declaration [of n u] by (simp add: sampler_declaration_def)
next
  case (Cons c t)
  obtain w where w: "sampler_declaration n @ u = CHR ''t'' # w"
    by (simp add: sampler_declaration_def sampler_keyword_def)
  have "sampler_at (c # t @ sampler_declaration n @ u) = None"
    using Cons.prems sampler_at_before [of "c # t" w] unfolding w
    by (cases "sampler_at (c # t @ CHR ''t'' # w)") (auto split: option.splits)
  then show ?case
    using Cons by (auto split: option.splits)
qed

text \<open>A shader as its author wrote it: texts and declarations in turn, and the text after the last one.\<close>

definition shader_text :: "(string \<times> nat) list \<Rightarrow> string \<Rightarrow> string" where
  "shader_text ps z = concat (map (\<lambda>(t, n). t @ sampler_declaration n) ps) @ z"

definition shader_output :: "bool \<Rightarrow> bool \<Rightarrow> (string \<times> nat) list \<Rightarrow> string \<Rightarrow> string" where
  "shader_output vulkan ogl ps z = concat (map (\<lambda>(t, n). t @ layout_declaration vulkan ogl n) ps) @ z"

definition plain_text :: "string \<Rightarrow> bool" where
  "plain_text t = (sampler_regex t = None)"

lemma substitute_shader:
  assumes "\<forall>(t, n) \<in> set ps. plain_text t \<and> n < 2 ^ 31" "plain_text z"
  shows "substitute sampler_regex (sampler_replacement d vulkan ogl) (shader_text ps z) =
      Inr (shader_output vulkan ogl ps z)"
    and "last_text sampler_regex (shader_text ps z) = z"
  using assms
proof (induction ps)
  case Nil
  {
    case 1
    then show ?case by (simp add: samplers.substitute_step shader_text_def shader_output_def plain_text_def)
  next
    case 2
    then show ?case by (simp add: samplers.last_text_step shader_text_def plain_text_def)
  }
next
  case (Cons p ps)
  obtain t n where p: "p = (t, n)" by (cases p)
  have front: "shader_text (p # ps) z = t @ sampler_declaration n @ shader_text ps z"
    by (simp add: shader_text_def p)
  {
    case 1
    then show ?case
      unfolding front using Cons.IH(1) p
      by (subst samplers.substitute_step) (simp add: plain_text_def sampler_regex_declaration sm_suffix_def
          sampler_replacement_layout shader_output_def)
  next
    case 2
    then show ?case
      unfolding front using Cons.IH(2) p
      by (subst samplers.last_text_step) (simp add: plain_text_def sampler_regex_declaration sm_suffix_def)
  }
qed

lemma dash_m: "take 2 arg = ''-m'' \<longleftrightarrow> (\<exists>name. arg = CHR ''-'' # CHR ''m'' # name)"
  by (cases arg; cases "tl arg") auto

lemma selected_modules_loop_contains:
  "Sampler \<in> ef_set (selected_modules_loop args modules) \<longleftrightarrow>
     Sampler \<in> ef_set modules \<or> ''-msampler'' \<in> set args \<or> ''-mall'' \<in> set args"
proof (induction args arbitrary: modules)
  case (Cons arg args)
  show ?case
  proof (cases "take 2 arg = ''-m''")
    case True
    then obtain name where "arg = CHR ''-'' # CHR ''m'' # name"
      by (auto simp: dash_m)
    then show ?thesis
      using Cons.IH by (cases "name = ''all''"; cases "name = ''sampler''")
        (simp_all add: preprocessor_module_names_def all_modules_def)
  next
    case False
    then have "arg \<noteq> ''-msampler''" "arg \<noteq> ''-mall''" by (simp_all add: dash_m)
    then show ?thesis
      using Cons.IH False by simp
  qed
qed simp

lemma selected_modules_contains:
  "Sampler \<in> ef_set (selected_modules args) \<longleftrightarrow> ''-msampler'' \<in> set args \<or> ''-mall'' \<in> set args"
  by (simp add: selected_modules_def selected_modules_loop_contains)

section \<open>Properties\<close>



text \<open>
  C35. The place of a match is looked up as the first occurrence of the text that follows the match before
  it, which need not be that text's own place: a declaration that is given twice in a row has both its
  replacements made at the front, the second one inside the first, and the declaration itself is still
  there at the end of the output.
\<close>

theorem repeated_declaration_kept:
  assumes "n < 2 ^ 31"
  shows "preprocess_samplers d vulkan ogl (sampler_declaration n @ sampler_declaration n) =
    Some (Inr (layout_declaration vulkan ogl n @
               drop (length (sampler_declaration n)) (layout_declaration vulkan ogl n) @
               sampler_declaration n, False))"
proof -
  let ?D = "sampler_declaration n" and ?R = "layout_declaration vulkan ogl n"
  let ?f = "sampler_replacement d vulkan ogl"
  have first: "sampler_regex (?D @ t) =
      Some \<lparr>sm_position = 0, sm_length = length ?D, sm_groups = [to_string n]\<rparr>" for t
    using sampler_regex_declaration [of "[]" n t] by simp
  have find: "string_find (?D @ t) ?D = Some 0" "string_find (?D @ t) [] = Some 0" for t
    by (simp_all add: string_find_iff)
  have "0 < length ?D" "length ?D \<le> length ?R"
    by (simp_all add: sampler_declaration_def sampler_keyword_def layout_declaration_def)
  then have "transform_search d sampler_regex ?f (?D @ ?D) (?D @ ?D) 0 [] =
      Some (Inr [((0, length ?D), ?R), ((0, length ?D), ?R)])"
    using first [of ?D] first [of "[]"] find [of ?D] sampler_replacement_layout [OF assms, of d vulkan ogl]
    by (subst transform_search.simps, simp add: sm_suffix_def tz_assert_def size_of_find_def Let_def,
        subst transform_search.simps, simp add: sm_suffix_def tz_assert_def size_of_find_def Let_def,
        subst transform_search.simps, simp)
  then show ?thesis
    using \<open>length ?D \<le> length ?R\<close>
    by (simp add: preprocess_samplers_def transform_def string_replace_def)
qed

theorem repeated_declaration_kept_witness:
  "\<exists>t. preprocess_samplers True False True (sampler_declaration 7 @ sampler_declaration 7) =
     Some (Inr (t @ sampler_declaration 7, False))"
  using repeated_declaration_kept [of 7 True False True] by simp

end
