(* ===== verification/Vector_Model.thy ===== *)
theory Vector_Model
  imports Topaz_Prelude Complex_Main
begin

text \<open>
  \<open>tz::Vector<T, S>\<close> (\<open>core/vector.hpp\<close>, \<open>core/vector.inl\<close>): a \<open>std::array<T, S>\<close> is a list, the
  template argument \<open>S\<close> an explicit argument, and every operator is the loop of the source.
  The element type is any type with the arithmetic the operator uses; floating-point rounding
  is not modelled, and a floating-point division by zero, which leaves the real numbers, is
  the fault \<open>DivisionByZero\<close>.  The lemmas show that each loop computes the pointwise
  operation on every vector of length \<open>S\<close>.
\<close>

section \<open>Operators\<close>

definition vec_index :: "bool \<Rightarrow> nat \<Rightarrow> 'a list \<Rightarrow> nat \<Rightarrow> 'a outcome" where
  "vec_index d S vec idx = and_then (tz_assert d (idx < S)) (\<lambda>_. at_index vec idx)"

definition vec_set :: "bool \<Rightarrow> nat \<Rightarrow> 'a list \<Rightarrow> nat \<Rightarrow> 'a \<Rightarrow> 'a list outcome" where
  "vec_set d S vec idx v = and_then (tz_assert d (idx < S)) (\<lambda>_. set_index vec idx v)"

definition vec_add_assign :: "nat \<Rightarrow> 'a::plus list \<Rightarrow> 'a list \<Rightarrow> 'a list outcome" where
  "vec_add_assign S self rhs =
     for_each (\<lambda>i vec. and_then (at_index vec i) (\<lambda>a. and_then (at_index rhs i) (\<lambda>b.
       set_index vec i (a + b)))) [0..<S] self"

definition vec_add :: "nat \<Rightarrow> 'a::plus list \<Rightarrow> 'a list \<Rightarrow> 'a list outcome" where
  "vec_add S self rhs = (let copy = self in vec_add_assign S copy rhs)"

definition vec_sub_assign :: "nat \<Rightarrow> 'a::minus list \<Rightarrow> 'a list \<Rightarrow> 'a list outcome" where
  "vec_sub_assign S self rhs =
     for_each (\<lambda>i vec. and_then (at_index vec i) (\<lambda>a. and_then (at_index rhs i) (\<lambda>b.
       set_index vec i (a - b)))) [0..<S] self"

definition vec_sub :: "nat \<Rightarrow> 'a::minus list \<Rightarrow> 'a list \<Rightarrow> 'a list outcome" where
  "vec_sub S self rhs = (let copy = self in vec_sub_assign S copy rhs)"

definition vec_mul_assign :: "nat \<Rightarrow> 'a::times list \<Rightarrow> 'a \<Rightarrow> 'a list outcome" where
  "vec_mul_assign S self scalar =
     for_each (\<lambda>i vec. and_then (at_index vec i) (\<lambda>a. set_index vec i (a * scalar))) [0..<S] self"

definition vec_mul :: "nat \<Rightarrow> 'a::times list \<Rightarrow> 'a \<Rightarrow> 'a list outcome" where
  "vec_mul S self scalar = (let copy = self in vec_mul_assign S copy scalar)"

definition divide_by :: "'a::{zero,divide} \<Rightarrow> 'a \<Rightarrow> 'a outcome" where
  "divide_by a b = (if b = 0 then Inl DivisionByZero else Inr (a div b))"

definition vec_div_assign :: "nat \<Rightarrow> 'a::{zero,divide} list \<Rightarrow> 'a \<Rightarrow> 'a list outcome" where
  "vec_div_assign S self scalar =
     for_each (\<lambda>i vec. and_then (at_index vec i) (\<lambda>a. and_then (divide_by a scalar) (set_index vec i)))
       [0..<S] self"

definition vec_div :: "nat \<Rightarrow> 'a::{zero,divide} list \<Rightarrow> 'a \<Rightarrow> 'a list outcome" where
  "vec_div S self scalar = (let copy = self in vec_div_assign S copy scalar)"

text \<open>
  \<open>operator==\<close> returns from inside its loop; \<open>epsilon\<close> is \<open>std::numeric_limits<T>::epsilon()\<close>,
  which is zero for the integral types.
\<close>

primrec vec_equal_from ::
    "bool \<Rightarrow> nat \<Rightarrow> 'a::{minus,abs,ord} \<Rightarrow> nat list \<Rightarrow> 'a list \<Rightarrow> 'a list \<Rightarrow> bool outcome" where
  "vec_equal_from d S epsilon [] self rhs = Inr True"
| "vec_equal_from d S epsilon (i # is) self rhs =
     and_then (vec_index d S self i) (\<lambda>a. and_then (vec_index d S rhs i) (\<lambda>b.
       if \<bar>a - b\<bar> \<ge> epsilon then Inr False else vec_equal_from d S epsilon is self rhs))"

definition vec_equal ::
    "bool \<Rightarrow> nat \<Rightarrow> 'a::{minus,abs,ord} \<Rightarrow> 'a list \<Rightarrow> 'a list \<Rightarrow> bool outcome" where
  "vec_equal d S epsilon self rhs = vec_equal_from d S epsilon [0..<S] self rhs"

definition vec_dot :: "bool \<Rightarrow> nat \<Rightarrow> 'a::{zero,plus,times} list \<Rightarrow> 'a list \<Rightarrow> 'a outcome" where
  "vec_dot d S self rhs =
     for_each (\<lambda>i sum. and_then (vec_index d S self i) (\<lambda>a. and_then (vec_index d S rhs i) (\<lambda>b.
       Inr (sum + a * b)))) [0..<S] 0"

definition vec_length :: "bool \<Rightarrow> nat \<Rightarrow> real list \<Rightarrow> real outcome" where
  "vec_length d S self =
     and_then (for_each (\<lambda>i sum_squares. and_then (vec_index d S self i) (\<lambda>a.
       and_then (vec_index d S self i) (\<lambda>b. Inr (sum_squares + a * b)))) [0..<S] 0)
     (\<lambda>sum_squares. Inr (sqrt sum_squares))"

definition vec_normalise :: "bool \<Rightarrow> nat \<Rightarrow> real list \<Rightarrow> real list outcome" where
  "vec_normalise d S self =
     and_then (vec_length d S self) (\<lambda>l.
       if l = 0 then Inr self
       else for_each (\<lambda>i vec. and_then (at_index vec i) (\<lambda>a. and_then (divide_by a l) (set_index vec i)))
              [0..<S] self)"

definition vec_normalised :: "bool \<Rightarrow> nat \<Rightarrow> real list \<Rightarrow> real list outcome" where
  "vec_normalised d S self = (let cpy = self in vec_normalise d S cpy)"

definition cross :: "bool \<Rightarrow> 'a::{minus,times} list \<Rightarrow> 'a list \<Rightarrow> 'a list outcome" where
  "cross d lhs rhs =
     and_then (vec_index d 3 lhs 0) (\<lambda>l0. and_then (vec_index d 3 lhs 1) (\<lambda>l1.
     and_then (vec_index d 3 lhs 2) (\<lambda>l2.
     and_then (vec_index d 3 rhs 0) (\<lambda>r0. and_then (vec_index d 3 rhs 1) (\<lambda>r1.
     and_then (vec_index d 3 rhs 2) (\<lambda>r2.
     Inr [l1 * r2 - l2 * r1, l2 * r0 - l0 * r2, l0 * r1 - l1 * r0]))))))"

section \<open>Loops compute pointwise operations\<close>

lemma vec_index_ok [simp]: "i < S \<Longrightarrow> length v = S \<Longrightarrow> vec_index d S v i = Inr (v ! i)"
  by (simp add: vec_index_def)

lemma vec_set_ok [simp]: "i < S \<Longrightarrow> length v = S \<Longrightarrow> vec_set d S v i a = Inr (v[i := a])"
  by (simp add: vec_set_def)

lemma vec_index_debug_iff:
  "length v = S \<Longrightarrow> vec_index d S v i = Inr a \<longleftrightarrow> i < S \<and> a = v ! i"
  by (auto simp: vec_index_def outcome_simps)

text \<open>A loop that rewrites element \<open>i\<close> from its old value in round \<open>i\<close> maps over the vector.\<close>

lemma pointwise_loop [loop_simps]:
  assumes "length v = S"
    and "\<And>i w. i < S \<Longrightarrow> length w = S \<Longrightarrow> w ! i = v ! i \<Longrightarrow> body i w = Inr (w[i := f i (v ! i)])"
  shows "for_each body [0..<S] v = Inr (map (\<lambda>i. f i (v ! i)) [0..<S])"
proof -
  have "for_each body [0..<S] v =
      Inr (map (\<lambda>j. f j (v ! j)) [0..<S] @ drop S v)"
  proof (rule for_range_closed_form)
    show "map (\<lambda>j. f j (v ! j)) [0..<0] @ drop 0 v = v" by simp
  next
    fix i assume i: "i < S"
    let ?w = "map (\<lambda>j. f j (v ! j)) [0..<i] @ drop i v"
    have "body i ?w = Inr (?w[i := f i (v ! i)])"
      using i assms(1) by (intro assms(2)) (simp_all add: nth_append)
    also have "?w[i := f i (v ! i)] = map (\<lambda>j. f j (v ! j)) [0..<Suc i] @ drop (Suc i) v"
      using i assms(1) by (simp add: list_update_append Cons_nth_drop_Suc [symmetric])
    finally show "body i ?w = Inr (map (\<lambda>j. f j (v ! j)) [0..<Suc i] @ drop (Suc i) v)" .
  qed
  then show ?thesis using assms(1) by simp
qed

lemma map_index_map2:
  "length v = S \<Longrightarrow> length w = S \<Longrightarrow> map (\<lambda>i. f (v ! i) (w ! i)) [0..<S] = map2 f v w"
  by (intro nth_equalityI) simp_all

lemma map_index_map: "length v = S \<Longrightarrow> map (\<lambda>i. f (v ! i)) [0..<S] = map f v"
  by (intro nth_equalityI) simp_all

lemma vec_add_assign_map2:
  "length v = S \<Longrightarrow> length w = S \<Longrightarrow> vec_add_assign S v w = Inr (map2 (+) v w)"
  unfolding vec_add_assign_def
  by (subst pointwise_loop [where f = "\<lambda>i a. a + w ! i"]) (simp_all add: map_index_map2)

lemma vec_sub_assign_map2:
  "length v = S \<Longrightarrow> length w = S \<Longrightarrow> vec_sub_assign S v w = Inr (map2 (-) v w)"
  unfolding vec_sub_assign_def
  by (subst pointwise_loop [where f = "\<lambda>i a. a - w ! i"]) (simp_all add: map_index_map2)

lemma vec_mul_assign_map:
  "length v = S \<Longrightarrow> vec_mul_assign S v c = Inr (map (\<lambda>a. a * c) v)"
  unfolding vec_mul_assign_def
  by (subst pointwise_loop [where f = "\<lambda>i a. a * c"])
    (simp_all add: map_index_map [where f = "\<lambda>a. a * c"])

lemma vec_div_assign_map:
  "length v = S \<Longrightarrow> c \<noteq> 0 \<Longrightarrow> vec_div_assign S v c = Inr (map (\<lambda>a. a div c) v)"
  unfolding vec_div_assign_def
  by (subst pointwise_loop [where f = "\<lambda>i a. a div c"]) (simp_all add: divide_by_def map_index_map [where f = "\<lambda>a. a div c"])

lemma vec_div_assign_zero:
  "length v = S \<Longrightarrow> 0 < S \<Longrightarrow> vec_div_assign S v 0 = Inl DivisionByZero"
  by (cases S) (simp_all add: vec_div_assign_def divide_by_def upt_conv_Cons del: upt_Suc)

lemmas vec_ops_pointwise =
  vec_add_def vec_sub_def vec_mul_def vec_div_def Let_def
  vec_add_assign_map2 vec_sub_assign_map2 vec_mul_assign_map vec_div_assign_map

lemma vec_equal_from_iff:
  fixes epsilon :: "'a::linordered_idom"
  assumes "length v = S" "length w = S" "\<forall>i\<in>set is. i < S"
  shows "vec_equal_from d S epsilon is v w = Inr (\<forall>i\<in>set is. \<bar>v ! i - w ! i\<bar> < epsilon)"
  using assms by (induction "is") (auto simp: not_le)

lemma vec_equal_iff:
  fixes epsilon :: "'a::linordered_idom"
  assumes "length v = S" "length w = S"
  shows "vec_equal d S epsilon v w = Inr (\<forall>i < S. \<bar>v ! i - w ! i\<bar> < epsilon)"
  using assms by (auto simp: vec_equal_def vec_equal_from_iff)

lemma accumulate_loop [loop_simps]:
  assumes "\<And>i s. i < S \<Longrightarrow> body i s = Inr (s + f i)"
  shows "for_each body [0..<S] (0 :: 'a::comm_monoid_add) = Inr (\<Sum>i<S. f i)"
  by (rule for_range_closed_form) (simp_all add: assms)

lemma vec_dot_sum:
  fixes v :: "'a::semiring_0 list"
  assumes "length v = S" "length w = S"
  shows "vec_dot d S v w = Inr (\<Sum>i<S. v ! i * w ! i)"
  unfolding vec_dot_def using assms by (intro accumulate_loop) simp

lemma vec_length_sqrt:
  "length v = S \<Longrightarrow> vec_length d S v = Inr (sqrt (\<Sum>i<S. (v ! i)\<^sup>2))"
  unfolding vec_length_def by (subst accumulate_loop) (simp_all add: power2_eq_square)

lemma vec_normalise_zero:
  assumes "length v = S" "\<forall>i < S. v ! i = 0"
  shows "vec_normalise d S v = Inr v"
  using assms by (simp add: vec_normalise_def vec_length_sqrt)

lemma vec_normalise_map:
  assumes "length v = S" "sqrt (\<Sum>i<S. (v ! i)\<^sup>2) \<noteq> 0"
  shows "vec_normalise d S v = Inr (map (\<lambda>a. a / sqrt (\<Sum>i<S. (v ! i)\<^sup>2)) v)"
proof -
  let ?l = "sqrt (\<Sum>i<S. (v ! i)\<^sup>2)"
  have "for_each (\<lambda>i vec. and_then (at_index vec i) (\<lambda>a. and_then (divide_by a ?l) (set_index vec i)))
      [0..<S] v = Inr (map (\<lambda>i. (\<lambda>_ a. a / ?l) i (v ! i)) [0..<S])"
    using assms by (intro pointwise_loop) (simp_all add: divide_by_def)
  then show ?thesis
    using assms by (simp add: vec_normalise_def vec_length_sqrt map_index_map [where f = "\<lambda>a. a / ?l"])
qed

lemma normalised_sum_squares:
  assumes "length v = S" "\<exists>i < S. v ! i \<noteq> 0"
  shows "(\<Sum>i<S. ((v ! i) / sqrt (\<Sum>i<S. (v ! i)\<^sup>2))\<^sup>2) = 1"
proof -
  obtain k where "k < S" "v ! k \<noteq> 0" using assms(2) by blast
  then have pos: "0 < (\<Sum>i<S. (v ! i)\<^sup>2)"
    by (intro sum_pos2 [of _ k]) simp_all
  have "(\<Sum>i<S. ((v ! i) / sqrt (\<Sum>i<S. (v ! i)\<^sup>2))\<^sup>2) = (\<Sum>i<S. (v ! i)\<^sup>2 / (\<Sum>i<S. (v ! i)\<^sup>2))"
    using pos by (simp add: power_divide)
  also have "\<dots> = 1"
    using pos by (simp add: sum_divide_distrib [symmetric])
  finally show ?thesis .
qed

section \<open>Properties\<close>

text \<open>
  Addition followed by subtraction of the same vector restores the original, for every
  element type that is an abelian group and every dimension.
\<close>

theorem vec_add_sub_cancel:
  fixes v w :: "'a::ab_group_add list"
  assumes "length v = S" "length w = S"
  shows "and_then (vec_add S v w) (\<lambda>u. vec_sub S u w) = Inr v"
proof -
  have "map2 (-) (map2 (+) v w) w = v"
    using assms by (intro nth_equalityI) simp_all
  then show ?thesis using assms by (simp add: vec_ops_pointwise)
qed

theorem vec_add_sub_cancel_witness:
  "and_then (vec_add 2 [1, 2] [3, 4 :: int]) (\<lambda>u. vec_sub 2 u [3, 4]) = Inr [1, 2]"
  using vec_add_sub_cancel [of "[1, 2 :: int]" 2 "[3, 4]"] by simp

text \<open>
  \<open>normalise\<close> never divides by zero: the zero vector is left alone and every other
  vector comes back with length one.
\<close>

theorem vec_normalise_unit:
  assumes "length v = S"
  shows "\<exists>w. vec_normalise d S v = Inr w \<and>
    (if \<forall>i < S. v ! i = 0 then w = v else vec_length d S w = Inr 1)"
proof (cases "\<forall>i < S. v ! i = 0")
  case True
  then show ?thesis using assms vec_normalise_zero by auto
next
  case False
  let ?l = "sqrt (\<Sum>i<S. (v ! i)\<^sup>2)"
  obtain k where k: "k < S" "v ! k \<noteq> 0" using False by blast
  then have "0 < (\<Sum>i<S. (v ! i)\<^sup>2)"
    by (intro sum_pos2 [of _ k]) simp_all
  then have n: "vec_normalise d S v = Inr (map (\<lambda>a. a / ?l) v)"
    using assms by (intro vec_normalise_map) simp_all
  have "(\<Sum>i<S. (map (\<lambda>a. a / ?l) v ! i)\<^sup>2) = (\<Sum>i<S. ((v ! i) / ?l)\<^sup>2)"
    using assms by (intro sum.cong) simp_all
  then have "vec_length d S (map (\<lambda>a. a / ?l) v) = Inr 1"
    using assms k normalised_sum_squares [of v S] by (auto simp: vec_length_sqrt)
  then show ?thesis using n False by auto
qed

theorem vec_normalise_unit_witness:
  "\<exists>w. vec_normalise True 2 [3, 4] = Inr w \<and> vec_length True 2 w = Inr 1"
proof -
  have "\<not> (\<forall>i < 2. [3, 4 :: real] ! i = 0)"
    by (intro notI) (auto dest: spec [of _ 0])
  then show ?thesis
    using vec_normalise_unit [of "[3, 4]" 2 True] by (auto split: if_splits)
qed

text \<open>
  The cross product is orthogonal to both operands, antisymmetric, and satisfies the
  Lagrange identity linking it to the dot product.
\<close>

theorem cross_orthogonal_lagrange:
  fixes a b :: "'a::comm_ring_1 list"
  assumes "length a = 3" "length b = 3"
  shows "\<exists>c ab aa bb. cross d a b = Inr c \<and> length c = 3 \<and>
    cross d b a = Inr (map uminus c) \<and>
    vec_dot d 3 a c = Inr 0 \<and> vec_dot d 3 b c = Inr 0 \<and>
    vec_dot d 3 a b = Inr ab \<and> vec_dot d 3 a a = Inr aa \<and> vec_dot d 3 b b = Inr bb \<and>
    vec_dot d 3 c c = Inr (aa * bb - ab * ab)"
proof -
  obtain x y z where a: "a = [x, y, z]"
    using assms(1) by (auto simp: numeral_3_eq_3 length_Suc_conv)
  obtain u v w where b: "b = [u, v, w]"
    using assms(2) by (auto simp: numeral_3_eq_3 length_Suc_conv)
  show ?thesis
    by (simp add: a b cross_def vec_index_def vec_dot_sum numeral_3_eq_3 numeral_2_eq_2)
      (simp add: algebra_simps)
qed

theorem cross_orthogonal_lagrange_witness:
  "cross True [2, 3, 4] [5, 6, 7 :: int] = Inr [- 3, 6, - 3] \<and>
   vec_dot True 3 [2, 3, 4] [- 3, 6, - 3 :: int] = Inr 0"
  using cross_orthogonal_lagrange [of "[2, 3, 4 :: int]" "[5, 6, 7]" True]
  by (auto simp: cross_def vec_index_def)

text \<open>
  With an element type whose epsilon is zero, as for the integral types, equality of
  non-empty vectors is never true, not even of a vector with itself.
\<close>

theorem vec_equal_integral_never:
  fixes v w :: "'a::linordered_idom list"
  assumes "length v = S" "length w = S" "0 < S"
  shows "vec_equal d S 0 v w = Inr False"
  using assms by (auto simp: vec_equal_iff)

theorem vec_equal_integral_never_witness: "vec_equal True 2 0 [1, 2] [1, 2 :: int] = Inr False"
  using vec_equal_integral_never [of "[1, 2 :: int]" 2 "[1, 2]" True] by simp

end
