(* ===== verification/Matrix_Model.thy ===== *)
theory Matrix_Model
  imports Vector_Model
begin

text \<open>
  \<open>tz::Matrix<T, R, C>\<close> (\<open>core/matrix.hpp\<close>, \<open>core/matrix.inl\<close>).  The member
  \<open>std::array<Row, C> mat\<close> is a list of \<open>C\<close> lists of length \<open>R\<close>; \<open>operator()(row, column)\<close>
  reads \<open>mat[column][row]\<close>, so the inner lists are the columns of the mathematical matrix.
  The assertions of the source compare both indices with \<open>R\<close>.

  \<open>cells R C f\<close> is the stored form of the matrix with entries \<open>f row column\<close>; the lemmas show
  each operator loop as a function on entries.  An operand reached through a reference that
  may be the object being written is passed as a function of the current state.
\<close>

section \<open>Access\<close>

definition mat_index :: "bool \<Rightarrow> nat \<Rightarrow> 'a list list \<Rightarrow> nat \<Rightarrow> 'a list outcome" where
  "mat_index d R mat row_idx = and_then (tz_assert d (row_idx < R)) (\<lambda>_. at_index mat row_idx)"

definition mat_at :: "bool \<Rightarrow> nat \<Rightarrow> 'a list list \<Rightarrow> nat \<Rightarrow> nat \<Rightarrow> 'a outcome" where
  "mat_at d R mat row column =
     and_then (tz_assert d (row < R)) (\<lambda>_. and_then (tz_assert d (column < R)) (\<lambda>_.
     and_then (mat_index d R mat column) (\<lambda>col. at_index col row)))"

text \<open>Assignment through the reference \<open>operator()\<close> returns.\<close>

definition mat_put :: "bool \<Rightarrow> nat \<Rightarrow> 'a list list \<Rightarrow> nat \<Rightarrow> nat \<Rightarrow> 'a \<Rightarrow> 'a list list outcome" where
  "mat_put d R mat row column v =
     and_then (tz_assert d (row < R)) (\<lambda>_. and_then (tz_assert d (column < R)) (\<lambda>_.
     and_then (mat_index d R mat column) (\<lambda>col. and_then (set_index col row v) (\<lambda>col'.
     set_index mat column col'))))"

section \<open>Operators\<close>

definition mat_loop ::
    "nat \<Rightarrow> nat \<Rightarrow> (nat \<Rightarrow> nat \<Rightarrow> 's \<Rightarrow> 's outcome) \<Rightarrow> 's \<Rightarrow> 's outcome" where
  "mat_loop R C body = for_each (\<lambda>i. for_each (body i) [0..<C]) [0..<R]"

definition mat_identity :: "bool \<Rightarrow> nat \<Rightarrow> nat \<Rightarrow> 'a::{zero,one} list list outcome" where
  "mat_identity d R C =
     mat_loop R C (\<lambda>i j mat. if i = j then mat_put d R mat i j 1 else mat_put d R mat i j 0)
       (replicate C (replicate R 0))"

definition mat_add_scalar_assign ::
    "bool \<Rightarrow> nat \<Rightarrow> nat \<Rightarrow> 'a::plus list list \<Rightarrow> 'a \<Rightarrow> 'a list list outcome" where
  "mat_add_scalar_assign d R C self scalar =
     mat_loop R C (\<lambda>i j mat. and_then (mat_at d R mat i j) (\<lambda>a. mat_put d R mat i j (a + scalar))) self"

definition mat_add_assign ::
    "bool \<Rightarrow> nat \<Rightarrow> nat \<Rightarrow> 'a::plus list list \<Rightarrow> 'a list list \<Rightarrow> 'a list list outcome" where
  "mat_add_assign d R C self matrix =
     mat_loop R C (\<lambda>i j mat. and_then (mat_at d R mat i j) (\<lambda>a. and_then (mat_at d R matrix i j) (\<lambda>b.
       mat_put d R mat i j (a + b)))) self"

definition mat_add_scalar where
  "mat_add_scalar d R C self scalar = (let copy = self in mat_add_scalar_assign d R C copy scalar)"

definition mat_add where
  "mat_add d R C self matrix = (let copy = self in mat_add_assign d R C copy matrix)"

definition mat_sub_scalar_assign ::
    "bool \<Rightarrow> nat \<Rightarrow> nat \<Rightarrow> 'a::minus list list \<Rightarrow> 'a \<Rightarrow> 'a list list outcome" where
  "mat_sub_scalar_assign d R C self scalar =
     mat_loop R C (\<lambda>i j mat. and_then (mat_at d R mat i j) (\<lambda>a. mat_put d R mat i j (a - scalar))) self"

definition mat_sub_assign ::
    "bool \<Rightarrow> nat \<Rightarrow> nat \<Rightarrow> 'a::minus list list \<Rightarrow> 'a list list \<Rightarrow> 'a list list outcome" where
  "mat_sub_assign d R C self matrix =
     mat_loop R C (\<lambda>i j mat. and_then (mat_at d R mat i j) (\<lambda>a. and_then (mat_at d R matrix i j) (\<lambda>b.
       mat_put d R mat i j (a - b)))) self"

definition mat_sub_scalar where
  "mat_sub_scalar d R C self scalar = (let copy = self in mat_sub_scalar_assign d R C copy scalar)"

definition mat_sub where
  "mat_sub d R C self matrix = (let copy = self in mat_sub_assign d R C copy matrix)"

definition mat_mul_scalar_assign ::
    "bool \<Rightarrow> nat \<Rightarrow> nat \<Rightarrow> 'a::times list list \<Rightarrow> 'a \<Rightarrow> 'a list list outcome" where
  "mat_mul_scalar_assign d R C self scalar =
     mat_loop R C (\<lambda>i j mat. and_then (mat_at d R mat i j) (\<lambda>a. mat_put d R mat i j (a * scalar))) self"

definition mat_mul_scalar where
  "mat_mul_scalar d R C self scalar = (let copy = self in mat_mul_scalar_assign d R C copy scalar)"

text \<open>
  \<open>operator*=(const Matrix&)\<close> copies the left operand first and then reads the right operand
  through its reference while it writes \<open>*this\<close>: \<open>operand\<close> gives that operand as a function of
  the current contents of \<open>*this\<close>.
\<close>

definition mat_mul_assign_via ::
    "bool \<Rightarrow> nat \<Rightarrow> nat \<Rightarrow> 'a::{zero,plus,times} list list \<Rightarrow> ('a list list \<Rightarrow> 'a list list) \<Rightarrow>
     'a list list outcome" where
  "mat_mul_assign_via d R C self operand =
     (let m = self in
      mat_loop R C (\<lambda>i j mat.
        and_then (for_each (\<lambda>k res_ele. and_then (mat_at d R m i k) (\<lambda>a.
                    and_then (mat_at d R (operand mat) k j) (\<lambda>b. Inr (res_ele + a * b)))) [0..<C] 0)
          (\<lambda>res_ele. mat_put d R mat i j res_ele)) self)"

definition mat_mul_assign where
  "mat_mul_assign d R C self matrix = mat_mul_assign_via d R C self (\<lambda>_. matrix)"

text \<open>The call \<open>m *= m\<close>.\<close>

definition mat_mul_assign_self where
  "mat_mul_assign_self d R C self = mat_mul_assign_via d R C self (\<lambda>mat. mat)"

definition mat_mul where
  "mat_mul d R C self matrix = (let copy = self in mat_mul_assign d R C copy matrix)"

text \<open>
  \<open>operator*(const Vector&)\<close> builds a \<open>Vec4\<close> from the array \<open>(*this)[i]\<close>, so it only
  instantiates at four rows and four columns.
\<close>

definition mat_mul_vec ::
    "bool \<Rightarrow> 'a::{zero,plus,times} list list \<Rightarrow> 'a list \<Rightarrow> 'a list outcome" where
  "mat_mul_vec d self vec =
     for_each (\<lambda>i ret. and_then (mat_index d 4 self i) (\<lambda>row. and_then (vec_dot d 4 row vec) (\<lambda>x.
       vec_set d 4 ret i x))) [0..<4] (replicate 4 0)"

primrec mat_equal_from ::
    "bool \<Rightarrow> nat \<Rightarrow> (nat \<times> nat) list \<Rightarrow> 'a list list \<Rightarrow> (nat \<Rightarrow> nat \<Rightarrow> 'a outcome) \<Rightarrow> bool outcome" where
  "mat_equal_from d R [] self other = Inr True"
| "mat_equal_from d R (p # ps) self other =
     and_then (mat_at d R self (fst p) (snd p)) (\<lambda>a. and_then (other (fst p) (snd p)) (\<lambda>b.
       if a \<noteq> b then Inr False else mat_equal_from d R ps self other))"

definition mat_positions :: "nat \<Rightarrow> nat \<Rightarrow> (nat \<times> nat) list" where
  "mat_positions R C = concat (map (\<lambda>i. map (\<lambda>j. (i, j)) [0..<C]) [0..<R])"

definition mat_equal_scalar :: "bool \<Rightarrow> nat \<Rightarrow> nat \<Rightarrow> 'a list list \<Rightarrow> 'a \<Rightarrow> bool outcome" where
  "mat_equal_scalar d R C self scalar = mat_equal_from d R (mat_positions R C) self (\<lambda>i j. Inr scalar)"

definition mat_equal :: "bool \<Rightarrow> nat \<Rightarrow> nat \<Rightarrow> 'a list list \<Rightarrow> 'a list list \<Rightarrow> bool outcome" where
  "mat_equal d R C self matrix = mat_equal_from d R (mat_positions R C) self (mat_at d R matrix)"

definition mat_swap ::
    "bool \<Rightarrow> nat \<Rightarrow> 'a list list \<Rightarrow> nat \<Rightarrow> nat \<Rightarrow> 'a list list outcome" where
  "mat_swap d R m i j =
     and_then (mat_at d R m i j) (\<lambda>a. and_then (mat_at d R m j i) (\<lambda>b.
     and_then (mat_put d R m i j b) (\<lambda>m'. mat_put d R m' j i a)))"

definition mat_transpose :: "bool \<Rightarrow> nat \<Rightarrow> nat \<Rightarrow> 'a list list \<Rightarrow> 'a list list outcome" where
  "mat_transpose d R C self =
     (let m = self in mat_loop R C (\<lambda>i j m. if i \<noteq> j then mat_swap d R m i j else Inr m) m)"

section \<open>Stored matrices as functions of row and column\<close>

definition cells :: "nat \<Rightarrow> nat \<Rightarrow> (nat \<Rightarrow> nat \<Rightarrow> 'a) \<Rightarrow> 'a list list" where
  "cells R C f = map (\<lambda>j. map (\<lambda>i. f i j) [0..<R]) [0..<C]"

definition entry :: "'a list list \<Rightarrow> nat \<Rightarrow> nat \<Rightarrow> 'a" where
  "entry m row column = m ! column ! row"

definition wf_mat :: "nat \<Rightarrow> nat \<Rightarrow> 'a list list \<Rightarrow> bool" where
  "wf_mat R C m \<longleftrightarrow> length m = C \<and> (\<forall>col\<in>set m. length col = R)"

text \<open>The column assertion of \<open>operator()\<close> compares with \<open>R\<close>: with assertions, \<open>C \<le> R\<close> is needed.\<close>

definition access_ok :: "bool \<Rightarrow> nat \<Rightarrow> nat \<Rightarrow> bool" where
  "access_ok d R C \<longleftrightarrow> (d \<longrightarrow> C \<le> R)"

lemma access_ok_square [simp]: "access_ok d n n" "access_ok False R C"
  by (simp_all add: access_ok_def)

lemma length_cells [simp]: "length (cells R C f) = C"
  by (simp add: cells_def)

lemma wf_cells [simp]: "wf_mat R C (cells R C f)"
  by (auto simp: wf_mat_def cells_def)

lemma entry_cells [simp]: "i < R \<Longrightarrow> j < C \<Longrightarrow> entry (cells R C f) i j = f i j"
  by (simp add: entry_def cells_def)

lemma cells_cong:
  assumes "\<And>i j. i < R \<Longrightarrow> j < C \<Longrightarrow> f i j = g i j"
  shows "cells R C f = cells R C g"
  using assms by (simp add: cells_def)

lemma cells_eq_iff: "cells R C f = cells R C g \<longleftrightarrow> (\<forall>i < R. \<forall>j < C. f i j = g i j)"
  by (auto simp: cells_def)

lemma wf_mat_cells: "wf_mat R C m \<Longrightarrow> m = cells R C (entry m)"
  by (rule nth_equalityI) (auto simp: wf_mat_def cells_def entry_def intro!: nth_equalityI)

lemma wf_mat_obtain:
  assumes "wf_mat R C m"
  obtains f where "m = cells R C f"
  using wf_mat_cells [OF assms] by blast

lemma mat_index_cells:
  "j < C \<Longrightarrow> access_ok d R C \<Longrightarrow> mat_index d R (cells R C f) j = Inr (map (\<lambda>i. f i j) [0..<R])"
  by (auto simp: mat_index_def access_ok_def tz_assert_def cells_def)

lemma mat_at_cells [simp]:
  "i < R \<Longrightarrow> j < C \<Longrightarrow> access_ok d R C \<Longrightarrow> mat_at d R (cells R C f) i j = Inr (f i j)"
  by (simp add: mat_at_def mat_index_cells) (auto simp: access_ok_def tz_assert_def)

lemma mat_put_cells [simp]:
  assumes "i < R" "j < C" "access_ok d R C"
  shows "mat_put d R (cells R C f) i j v = Inr (cells R C (\<lambda>i' j'. if i' = i \<and> j' = j then v else f i' j'))"
proof -
  have "(cells R C f)[j := (map (\<lambda>i. f i j) [0..<R])[i := v]] =
      cells R C (\<lambda>i' j'. if i' = i \<and> j' = j then v else f i' j')"
    using assms(1,2)
    by (intro nth_equalityI) (auto simp: cells_def nth_list_update intro!: nth_equalityI)
  moreover have "tz_assert d (j < R) = Inr ()"
    using assms by (auto simp: access_ok_def tz_assert_def)
  ultimately show ?thesis
    using assms by (simp add: mat_put_def mat_index_cells)
qed

section \<open>The double loop over the cells\<close>

definition upto_cell ::
    "(nat \<Rightarrow> nat \<Rightarrow> 'a) \<Rightarrow> (nat \<Rightarrow> nat \<Rightarrow> 'a) \<Rightarrow> nat \<Rightarrow> nat \<Rightarrow> nat \<Rightarrow> nat \<Rightarrow> 'a" where
  "upto_cell new old i j = (\<lambda>i' j'. if i' < i \<or> i' = i \<and> j' < j then new i' j' else old i' j')"

lemma mat_loop_cells:
  assumes step: "\<And>i j f. i < R \<Longrightarrow> j < C \<Longrightarrow> f i j = old i j \<Longrightarrow> f = upto_cell new old i j \<Longrightarrow>
      body i j (cells R C f) = mat_put d R (cells R C f) i j (new i j)"
    and ok: "access_ok d R C"
  shows "mat_loop R C body (cells R C old) = Inr (cells R C new)"
proof -
  let ?F = "\<lambda>i j. cells R C (upto_cell new old i j)"
  have "mat_loop R C body (cells R C old) = Inr (?F R 0)"
    unfolding mat_loop_def
  proof (rule nested_range_closed_form [where F = ?F])
    show "?F 0 0 = cells R C old" by (simp add: upto_cell_def)
  next
    fix i j assume ij: "i < R" "j < C"
    have "body i j (?F i j) = mat_put d R (?F i j) i j (new i j)"
      using ij by (intro step) (simp_all add: upto_cell_def)
    also have "\<dots> = Inr (?F i (Suc j))"
      using ij ok by (auto simp: cells_eq_iff upto_cell_def less_Suc_eq)
    finally show "body i j (?F i j) = Inr (?F i (Suc j))" .
  next
    fix i assume "i < R"
    show "?F i C = ?F (Suc i) 0"
      by (auto simp: cells_eq_iff upto_cell_def less_Suc_eq)
  qed
  moreover have "?F R 0 = cells R C new"
    by (simp add: cells_eq_iff upto_cell_def)
  ultimately show ?thesis by simp
qed

lemma replicate_cells: "replicate C (replicate R v) = cells R C (\<lambda>_ _. v)"
  by (intro nth_equalityI) (auto simp: cells_def intro!: nth_equalityI)

lemma mat_identity_cells:
  "access_ok d R C \<Longrightarrow> mat_identity d R C = Inr (cells R C (\<lambda>i j. if i = j then 1 else 0))"
  unfolding mat_identity_def replicate_cells by (rule mat_loop_cells) auto

lemma mat_scalar_ops_cells:
  assumes "access_ok d R C"
  shows "mat_add_scalar_assign d R C (cells R C f) a = Inr (cells R C (\<lambda>i j. f i j + a))"
    and "mat_sub_scalar_assign d R C (cells R C g) b = Inr (cells R C (\<lambda>i j. g i j - b))"
    and "mat_mul_scalar_assign d R C (cells R C h) c = Inr (cells R C (\<lambda>i j. h i j * c))"
  unfolding mat_add_scalar_assign_def mat_sub_scalar_assign_def mat_mul_scalar_assign_def
  using assms by (subst mat_loop_cells; simp)+

lemma mat_pointwise_ops_cells:
  assumes "access_ok d R C"
  shows "mat_add_assign d R C (cells R C f) (cells R C g) = Inr (cells R C (\<lambda>i j. f i j + g i j))"
    and "mat_sub_assign d R C (cells R C f') (cells R C g') = Inr (cells R C (\<lambda>i j. f' i j - g' i j))"
  unfolding mat_add_assign_def mat_sub_assign_def
  using assms by (subst mat_loop_cells; simp)+

lemmas mat_copy_ops =
  mat_add_scalar_def mat_add_def mat_sub_scalar_def mat_sub_def mat_mul_scalar_def mat_mul_def Let_def

text \<open>The mathematical product of two \<open>n\<close> by \<open>n\<close> matrices.\<close>

definition mat_prod :: "nat \<Rightarrow> (nat \<Rightarrow> nat \<Rightarrow> 'a) \<Rightarrow> (nat \<Rightarrow> nat \<Rightarrow> 'a) \<Rightarrow> nat \<Rightarrow> nat \<Rightarrow> 'a::comm_semiring_0" where
  "mat_prod n f g i j = (\<Sum>k<n. f i k * g k j)"

lemma mat_mul_assign_cells:
  "mat_mul_assign d n n (cells n n f) (cells n n g) = Inr (cells n n (mat_prod n f g))"
  unfolding mat_mul_assign_def mat_mul_assign_via_def Let_def
proof (rule mat_loop_cells)
  fix i j h assume ij: "i < n" "j < n"
  have "for_each (\<lambda>k res_ele. and_then (mat_at d n (cells n n f) i k) (\<lambda>a.
        and_then (mat_at d n (cells n n g) k j) (\<lambda>b. Inr (res_ele + a * b)))) [0..<n] 0 =
      Inr (\<Sum>k<n. f i k * g k j)"
    using ij by (intro accumulate_loop) simp
  then show "and_then (for_each (\<lambda>k res_ele. and_then (mat_at d n (cells n n f) i k) (\<lambda>a.
        and_then (mat_at d n (cells n n g) k j) (\<lambda>b. Inr (res_ele + a * b)))) [0..<n] 0)
      (\<lambda>res_ele. mat_put d n (cells n n h) i j res_ele) =
      mat_put d n (cells n n h) i j (mat_prod n f g i j)"
    by (simp add: mat_prod_def)
qed simp

lemma mat_mul_cells:
  "mat_mul d n n (cells n n f) (cells n n g) = Inr (cells n n (mat_prod n f g))"
  by (simp add: mat_copy_ops mat_mul_assign_cells)

lemma mat_prod_assoc:
  "mat_prod n (mat_prod n f g) h i j = mat_prod n f (mat_prod n g h) i j"
proof -
  have "mat_prod n (mat_prod n f g) h i j = (\<Sum>k<n. \<Sum>l<n. f i l * g l k * h k j)"
    by (simp add: mat_prod_def sum_distrib_right)
  also have "\<dots> = (\<Sum>l<n. \<Sum>k<n. f i l * g l k * h k j)"
    by (rule sum.swap)
  also have "\<dots> = mat_prod n f (mat_prod n g h) i j"
    by (simp add: mat_prod_def sum_distrib_left mult.assoc)
  finally show ?thesis .
qed

lemma mat_prod_identity:
  fixes f :: "nat \<Rightarrow> nat \<Rightarrow> 'a::comm_semiring_1"
  assumes "i < n" "j < n"
  shows "mat_prod n (\<lambda>i j. if i = j then 1 else 0) f i j = f i j"
    and "mat_prod n f (\<lambda>i j. if i = j then 1 else 0) i j = f i j"
proof -
  have "mat_prod n (\<lambda>i j. if i = j then 1 else 0) f i j = (\<Sum>k<n. if i = k then f k j else 0)"
    unfolding mat_prod_def by (intro sum.cong) simp_all
  then show "mat_prod n (\<lambda>i j. if i = j then 1 else 0) f i j = f i j"
    using assms by simp
  have "mat_prod n f (\<lambda>i j. if i = j then 1 else 0) i j = (\<Sum>k<n. if k = j then f i k else 0)"
    unfolding mat_prod_def by (intro sum.cong) simp_all
  then show "mat_prod n f (\<lambda>i j. if i = j then 1 else 0) i j = f i j"
    using assms by simp
qed

lemma mat_mul_vec_cells:
  fixes f :: "nat \<Rightarrow> nat \<Rightarrow> 'a::comm_semiring_0"
  assumes "length v = 4"
  shows "mat_mul_vec d (cells 4 4 f) v = Inr (map (\<lambda>i. \<Sum>k<4. f k i * v ! k) [0..<4])"
  unfolding mat_mul_vec_def
proof (rule pointwise_loop [where f = "\<lambda>i _. \<Sum>k<4. f k i * v ! k"])
  fix i :: nat and w :: "'a list" assume i: "i < 4" and w: "length w = 4"
  have "vec_dot d 4 (map (\<lambda>k. f k i) [0..<4]) v = Inr (\<Sum>k<4. map (\<lambda>k. f k i) [0..<4] ! k * v ! k)"
    using assms by (intro vec_dot_sum) simp_all
  also have "(\<Sum>k<4. map (\<lambda>k. f k i) [0..<4] ! k * v ! k) = (\<Sum>k<4. f k i * v ! k)"
    by (intro sum.cong) simp_all
  finally show "and_then (mat_index d 4 (cells 4 4 f) i) (\<lambda>row. and_then (vec_dot d 4 row v) (\<lambda>x.
      vec_set d 4 w i x)) = Inr (w[i := (\<Sum>k<4. f k i * v ! k)])"
    using i w by (simp add: mat_index_cells)
qed simp

lemma mat_equal_from_cells:
  assumes "access_ok d R C" "\<forall>p\<in>set ps. fst p < R \<and> snd p < C"
    and "\<And>i j. i < R \<Longrightarrow> j < C \<Longrightarrow> other i j = Inr (g i j)"
  shows "mat_equal_from d R ps (cells R C f) other = Inr (\<forall>p\<in>set ps. f (fst p) (snd p) = g (fst p) (snd p))"
  using assms(2) by (induction ps) (auto simp: assms)

lemma mat_positions_set: "p \<in> set (mat_positions R C) \<longleftrightarrow> fst p < R \<and> snd p < C"
  by (cases p) (auto simp: mat_positions_def intro!: bexI)

lemma mat_equal_cells:
  assumes "access_ok d R C"
  shows "mat_equal d R C (cells R C f) (cells R C g) = Inr (cells R C f = cells R C g)"
    and "mat_equal_scalar d R C (cells R C f) a = Inr (cells R C f = cells R C (\<lambda>_ _. a))"
proof -
  have range: "\<forall>p\<in>set (mat_positions R C). fst p < R \<and> snd p < C"
    by (simp add: mat_positions_set)
  show "mat_equal d R C (cells R C f) (cells R C g) = Inr (cells R C f = cells R C g)"
    unfolding mat_equal_def
    by (subst mat_equal_from_cells [where g = g, OF assms range])
      (auto simp: assms cells_eq_iff Ball_def mat_positions_set)
  show "mat_equal_scalar d R C (cells R C f) a = Inr (cells R C f = cells R C (\<lambda>_ _. a))"
    unfolding mat_equal_scalar_def
    by (subst mat_equal_from_cells [where g = "\<lambda>_ _. a", OF assms range])
      (auto simp: cells_eq_iff Ball_def mat_positions_set)
qed

lemma mat_swap_cells:
  assumes "i < n" "j < n" "i \<noteq> j"
  shows "mat_swap d n (cells n n f) i j =
    Inr (cells n n (\<lambda>a b. if a = i \<and> b = j \<or> a = j \<and> b = i then f b a else f a b))"
  using assms by (auto simp: mat_swap_def cells_eq_iff)

section \<open>Transposition\<close>

definition visited :: "nat \<Rightarrow> nat \<Rightarrow> nat \<Rightarrow> nat \<Rightarrow> bool" where
  "visited i j a b \<longleftrightarrow> a < i \<or> a = i \<and> b < j"

text \<open>
  Every unordered pair of positions is swapped twice, once from each side, so the double
  loop ends where it began.
\<close>

lemma mat_transpose_square: "mat_transpose d n n (cells n n f) = Inr (cells n n f)"
proof -
  let ?F = "\<lambda>i j. cells n n (\<lambda>a b. if visited i j a b = visited i j b a then f a b else f b a)"
  have "mat_loop n n (\<lambda>i j m. if i \<noteq> j then mat_swap d n m i j else Inr m) (cells n n f) = Inr (?F n 0)"
    unfolding mat_loop_def
  proof (rule nested_range_closed_form [where F = ?F])
    show "?F 0 0 = cells n n f" by (simp add: visited_def)
  next
    fix i j assume ij: "i < n" "j < n"
    show "(if i \<noteq> j then mat_swap d n (?F i j) i j else Inr (?F i j)) = Inr (?F i (Suc j))"
    proof (cases "i = j")
      case True
      then show ?thesis by (auto simp: cells_eq_iff visited_def)
    next
      case False
      then show ?thesis
        using ij by (auto simp: mat_swap_cells cells_eq_iff visited_def)
    qed
  next
    fix i assume "i < n"
    show "?F i n = ?F (Suc i) 0"
      by (auto simp: cells_eq_iff visited_def)
  qed
  moreover have "?F n 0 = cells n n f"
    by (auto simp: cells_eq_iff visited_def)
  ultimately show ?thesis by (simp add: mat_transpose_def)
qed

end
