(* ===== verification/Matrix_Inverse.thy ===== *)
theory Matrix_Inverse
  imports Matrix_Model
begin

text \<open>
  \<open>Matrix::inverse\<close> (\<open>core/matrix.inl\<close>): the adjugate written out cell by cell, the
  determinant from its first column, and the final scaling.  The lambdas \<open>at\<close> and \<open>cat\<close> turn
  a flat index into row \<open>idx / C\<close> and column \<open>idx - row * C\<close>.  The routine addresses sixteen
  flat indices, whatever \<open>R\<close> and \<open>C\<close> are.
\<close>

definition flat_row :: "nat \<Rightarrow> nat \<Rightarrow> nat" where
  "flat_row C idx = idx div C"

definition flat_col :: "nat \<Rightarrow> nat \<Rightarrow> nat" where
  "flat_col C idx = idx - flat_row C idx * C"

definition inverse_cat :: "bool \<Rightarrow> nat \<Rightarrow> nat \<Rightarrow> 'a list list \<Rightarrow> nat \<Rightarrow> 'a outcome" where
  "inverse_cat d R C m idx = mat_at d R m (flat_row C idx) (flat_col C idx)"

definition inverse_at :: "bool \<Rightarrow> nat \<Rightarrow> nat \<Rightarrow> nat \<times> 'a \<Rightarrow> 'a list list \<Rightarrow> 'a list list outcome" where
  "inverse_at d R C p m = mat_put d R m (flat_row C (fst p)) (flat_col C (fst p)) (snd p)"

primrec read_all :: "(nat \<Rightarrow> 'a outcome) \<Rightarrow> nat list \<Rightarrow> 'a list outcome" where
  "read_all rd [] = Inr []"
| "read_all rd (k # ks) = and_then (rd k) (\<lambda>x. and_then (read_all rd ks) (\<lambda>xs. Inr (x # xs)))"

text \<open>The sixteen assignments \<open>at(mat, k) = ...\<close>, in the order of the source.\<close>

definition adjugate_writes :: "(nat \<Rightarrow> 'a::comm_ring_1) \<Rightarrow> (nat \<times> 'a) list" where
  "adjugate_writes c =
     [(0, c 5 * c 10 * c 15 - c 5 * c 11 * c 14 - c 9 * c 6 * c 15
       + c 9 * c 7 * c 14 + c 13 * c 6 * c 11 - c 13 * c 7 * c 10),
      (4, -c 4 * c 10 * c 15 + c 4 * c 11 * c 14 + c 8 * c 6 * c 15
       - c 8 * c 7 * c 14 - c 12 * c 6 * c 11 + c 12 * c 7 * c 10),
      (8, c 4 * c 9 * c 15 - c 4 * c 11 * c 13 - c 8 * c 5 * c 15
       + c 8 * c 7 * c 13 + c 12 * c 5 * c 11 - c 12 * c 7 * c 9),
      (12, -c 4 * c 9 * c 14 + c 4 * c 10 * c 13 + c 8 * c 5 * c 14
       - c 8 * c 6 * c 13 - c 12 * c 5 * c 10 + c 12 * c 6 * c 9),
      (1, -c 1 * c 10 * c 15 + c 1 * c 11 * c 14 + c 9 * c 2 * c 15
       - c 9 * c 3 * c 14 - c 13 * c 2 * c 11 + c 13 * c 3 * c 10),
      (5, c 0 * c 10 * c 15 - c 0 * c 11 * c 14 - c 8 * c 2 * c 15
       + c 8 * c 3 * c 14 + c 12 * c 2 * c 11 - c 12 * c 3 * c 10),
      (9, -c 0 * c 9 * c 15 + c 0 * c 11 * c 13 + c 8 * c 1 * c 15
       - c 8 * c 3 * c 13 - c 12 * c 1 * c 11 + c 12 * c 3 * c 9),
      (13, c 0 * c 9 * c 14 - c 0 * c 10 * c 13 - c 8 * c 1 * c 14
       + c 8 * c 2 * c 13 + c 12 * c 1 * c 10 - c 12 * c 2 * c 9),
      (2, c 1 * c 6 * c 15 - c 1 * c 7 * c 14 - c 5 * c 2 * c 15
       + c 5 * c 3 * c 14 + c 13 * c 2 * c 7 - c 13 * c 3 * c 6),
      (6, -c 0 * c 6 * c 15 + c 0 * c 7 * c 14 + c 4 * c 2 * c 15
       - c 4 * c 3 * c 14 - c 12 * c 2 * c 7 + c 12 * c 3 * c 6),
      (10, c 0 * c 5 * c 15 - c 0 * c 7 * c 13 - c 4 * c 1 * c 15
       + c 4 * c 3 * c 13 + c 12 * c 1 * c 7 - c 12 * c 3 * c 5),
      (14, -c 0 * c 5 * c 14 + c 0 * c 6 * c 13 + c 4 * c 1 * c 14
       - c 4 * c 2 * c 13 - c 12 * c 1 * c 6 + c 12 * c 2 * c 5),
      (3, -c 1 * c 6 * c 11 + c 1 * c 7 * c 10 + c 5 * c 2 * c 11
       - c 5 * c 3 * c 10 - c 9 * c 2 * c 7 + c 9 * c 3 * c 6),
      (7, c 0 * c 6 * c 11 - c 0 * c 7 * c 10 - c 4 * c 2 * c 11
       + c 4 * c 3 * c 10 + c 8 * c 2 * c 7 - c 8 * c 3 * c 6),
      (11, -c 0 * c 5 * c 11 + c 0 * c 7 * c 9 + c 4 * c 1 * c 11
       - c 4 * c 3 * c 9 - c 8 * c 1 * c 7 + c 8 * c 3 * c 5),
      (15, c 0 * c 5 * c 10 - c 0 * c 6 * c 9 - c 4 * c 1 * c 10
       + c 4 * c 2 * c 9 + c 8 * c 1 * c 6 - c 8 * c 2 * c 5)]"

definition mat_inverse :: "bool \<Rightarrow> nat \<Rightarrow> nat \<Rightarrow> 'a::field list list \<Rightarrow> 'a list list outcome" where
  "mat_inverse d R C self =
     and_then (mat_identity d R C) (\<lambda>mat.
     and_then (read_all (inverse_cat d R C self) [0..<16]) (\<lambda>cs.
     and_then (for_each (inverse_at d R C) (adjugate_writes (\<lambda>k. cs ! k)) mat) (\<lambda>mat.
     and_then (inverse_cat d R C mat 0) (\<lambda>m0. and_then (inverse_cat d R C mat 4) (\<lambda>m4.
     and_then (inverse_cat d R C mat 8) (\<lambda>m8. and_then (inverse_cat d R C mat 12) (\<lambda>m12.
     let determinant = cs ! 0 * m0 + cs ! 1 * m4 + cs ! 2 * m8 + cs ! 3 * m12 in
     and_then (tz_assert d (determinant \<noteq> 0)) (\<lambda>_.
     and_then (divide_by 1 determinant) (\<lambda>determinant.
     for_each (\<lambda>i mat. and_then (inverse_cat d R C mat i) (\<lambda>x.
       inverse_at d R C (i, x * determinant) mat)) [0..<16] mat)))))))))"

section \<open>The adjugate\<close>

text \<open>\<open>flat f\<close> reads the entries of a four by four matrix by flat index.\<close>

definition flat :: "(nat \<Rightarrow> nat \<Rightarrow> 'a) \<Rightarrow> nat \<Rightarrow> 'a" where
  "flat f k = f (k div 4) (k mod 4)"

definition adjugate :: "(nat \<Rightarrow> nat \<Rightarrow> 'a::comm_ring_1) \<Rightarrow> nat \<Rightarrow> nat \<Rightarrow> 'a" where
  "adjugate f i j = the (map_of (adjugate_writes (flat f)) (4 * i + j))"

definition det4 :: "(nat \<Rightarrow> nat \<Rightarrow> 'a::comm_ring_1) \<Rightarrow> 'a" where
  "det4 f = (\<Sum>k<4. f 0 k * adjugate f k 0)"

lemma flat_index_simps [simp]: "flat_row 4 k = k div 4" "flat_col 4 k = k mod 4"
  by (simp_all add: flat_row_def flat_col_def modulo_nat_def)

lemma flat_bounds: "k < 16 \<Longrightarrow> k div 4 < (4::nat)" "k mod 4 < (4::nat)"
  by simp_all

lemma read_all_ok: "\<forall>k\<in>set ks. rd k = Inr (g k) \<Longrightarrow> read_all rd ks = Inr (map g ks)"
  by (induction ks) simp_all

lemma inverse_cat_cells: "k < 16 \<Longrightarrow> inverse_cat d 4 4 (cells 4 4 f) k = Inr (flat f k)"
  by (simp add: inverse_cat_def flat_def)

lemma inverse_at_cells:
  assumes "k < 16"
  shows "inverse_at d 4 4 (k, v) (cells 4 4 f) =
    Inr (cells 4 4 (\<lambda>i j. if 4 * i + j = k then v else f i j))"
proof -
  have "i' = k div 4 \<and> j' = k mod 4 \<longleftrightarrow> 4 * i' + j' = k" if "i' < 4" "j' < 4" for i' j' :: nat
    using that by auto
  then show ?thesis
    using assms by (auto simp: inverse_at_def cells_eq_iff)
qed

lemma write_list_cells:
  assumes "\<forall>p\<in>set ps. fst p < 16"
  shows "for_each (inverse_at d 4 4) ps (cells 4 4 f) =
    Inr (cells 4 4 (\<lambda>i j. case map_of (rev ps) (4 * i + j) of None \<Rightarrow> f i j | Some v \<Rightarrow> v))"
  using assms
proof (induction ps arbitrary: f)
  case (Cons p ps)
  obtain k v where p: "p = (k, v)" by fastforce
  have "k < 16" using Cons.prems p by simp
  then show ?case
    using Cons by (simp add: p inverse_at_cells cells_eq_iff map_add_def split: option.splits)
qed simp

lemma adjugate_writes_keys:
  "map fst (adjugate_writes c) = [0, 4, 8, 12, 1, 5, 9, 13, 2, 6, 10, 14, 3, 7, 11, 15]"
  by (simp add: adjugate_writes_def)

lemma adjugate_writes_cong:
  assumes "\<And>k. k < 16 \<Longrightarrow> c k = c' k"
  shows "adjugate_writes c = adjugate_writes c'"
  unfolding adjugate_writes_def by (simp add: assms)

lemma adjugate_written:
  "for_each (inverse_at d 4 4) (adjugate_writes (flat f)) (cells 4 4 g) = Inr (cells 4 4 (adjugate f))"
proof -
  let ?ps = "adjugate_writes (flat f)"
  have d: "distinct (map fst ?ps)" by (simp add: adjugate_writes_keys)
  have keys: "fst ` set ?ps = {0..<16}"
  proof -
    have "fst ` set ?ps = set (map fst ?ps)" by simp
    also have "\<dots> = {0..<16}" unfolding adjugate_writes_keys by (simp add: atLeast0_lessThan_Suc numeral_eq_Suc insert_commute)
    finally show ?thesis .
  qed
  have "\<forall>p\<in>set ?ps. fst p < 16" using keys by (metis atLeastLessThan_iff image_eqI)
  moreover have "(case map_of (rev ?ps) (4 * i + j) of None \<Rightarrow> g i j | Some v \<Rightarrow> v) = adjugate f i j"
    if "i < 4" "j < 4" for i j
  proof -
    have "4 * i + j \<in> fst ` set ?ps" using that keys by simp
    then obtain v where "map_of ?ps (4 * i + j) = Some v"
      by (metis map_of_eq_None_iff not_None_eq)
    moreover have "map_of (rev ?ps) = map_of ?ps"
      using d by (subst map_of_inject_set) (simp_all add: rev_map [symmetric])
    ultimately show ?thesis by (simp add: adjugate_def)
  qed
  ultimately show ?thesis by (simp add: write_list_cells cells_eq_iff)
qed

lemma sum_four: "(\<Sum>k<4. g k) = g 0 + g 1 + g 2 + g (3::nat)" for g :: "nat \<Rightarrow> 'a::comm_monoid_add"
  by (simp add: numeral_eq_Suc lessThan_Suc add.assoc add.commute add.left_commute)

lemma less_four_cases: "i < 4 \<Longrightarrow> i = 0 \<or> i = 1 \<or> i = 2 \<or> i = (3::nat)"
  by auto

lemmas adjugate_eval = adjugate_def adjugate_writes_def flat_def det4_def mat_prod_def sum_four

text \<open>Cofactor expansion along every row and column.\<close>

lemma adjugate_row:
  assumes "i < 4" "j < 4"
  shows "mat_prod 4 f (adjugate f) i j = (if i = j then det4 f else 0)"
  using less_four_cases [OF assms(1)] less_four_cases [OF assms(2)]
  by (elim disjE; simp add: adjugate_eval; simp add: algebra_simps)

lemma adjugate_col:
  assumes "i < 4" "j < 4"
  shows "mat_prod 4 (adjugate f) f i j = (if i = j then det4 f else 0)"
  using less_four_cases [OF assms(1)] less_four_cases [OF assms(2)]
  by (elim disjE; simp add: adjugate_eval; simp add: algebra_simps)

section \<open>The whole routine\<close>

lemma scale_loop_cells:
  "for_each (\<lambda>i mat. and_then (inverse_cat d 4 4 mat i) (\<lambda>x. inverse_at d 4 4 (i, x * c) mat)) [0..<16]
     (cells 4 4 f) = Inr (cells 4 4 (\<lambda>i j. f i j * c))"
proof -
  let ?F = "\<lambda>n. cells 4 4 (\<lambda>i j. if 4 * i + j < n then f i j * c else f i j)"
  have "for_each (\<lambda>i mat. and_then (inverse_cat d 4 4 mat i) (\<lambda>x. inverse_at d 4 4 (i, x * c) mat))
      [0..<16] (cells 4 4 f) = Inr (?F 16)"
  proof (rule for_range_closed_form)
    show "?F 0 = cells 4 4 f" by simp
  next
    fix k :: nat assume "k < 16"
    then show "and_then (inverse_cat d 4 4 (?F k) k) (\<lambda>x. inverse_at d 4 4 (k, x * c) (?F k)) =
        Inr (?F (Suc k))"
      by (auto simp: inverse_cat_cells inverse_at_cells flat_def cells_eq_iff)
  qed
  moreover have "?F 16 = cells 4 4 (\<lambda>i j. f i j * c)"
    by (simp add: cells_eq_iff)
  ultimately show ?thesis by simp
qed

lemma mat_inverse_cells:
  "mat_inverse d 4 4 (cells 4 4 f) =
     (if det4 f = 0 then Inl (if d then AssertionFailure else DivisionByZero)
      else Inr (cells 4 4 (\<lambda>i j. adjugate f i j / det4 f)))"
proof -
  have rd: "read_all (inverse_cat d 4 4 (cells 4 4 f)) [0..<16] = Inr (map (flat f) [0..<16])"
    by (rule read_all_ok) (simp add: inverse_cat_cells)
  have cs: "adjugate_writes (\<lambda>k. map (flat f) [0..<16] ! k) = adjugate_writes (flat f)"
    by (rule adjugate_writes_cong) simp
  have at: "inverse_cat d 4 4 (cells 4 4 (adjugate f)) (4 * k) = Inr (adjugate f k 0)" if "k < 4" for k
    using that by (simp add: inverse_cat_cells flat_def)
  have det: "flat f 0 * adjugate f 0 0 + flat f 1 * adjugate f 1 0 + flat f 2 * adjugate f 2 0 +
      flat f 3 * adjugate f 3 0 = det4 f"
    by (simp add: det4_def sum_four flat_def)
  show ?thesis
    using at [of 0] at [of 1] at [of 2] at [of 3] det
    by (simp add: mat_inverse_def mat_identity_cells rd cs adjugate_written Let_def divide_by_def
        scale_loop_cells tz_assert_def numeral_2_eq_2 [symmetric])
qed

lemma scaled_inverse:
  fixes f :: "nat \<Rightarrow> nat \<Rightarrow> 'a::field"
  assumes "det4 f \<noteq> 0" "i < 4" "j < 4"
  shows "mat_prod 4 f (\<lambda>i j. adjugate f i j / det4 f) i j = (if i = j then 1 else 0)"
    and "mat_prod 4 (\<lambda>i j. adjugate f i j / det4 f) f i j = (if i = j then 1 else 0)"
proof -
  have "mat_prod 4 f (\<lambda>i j. adjugate f i j / det4 f) i j =
      mat_prod 4 f (adjugate f) i j / det4 f"
    by (simp add: mat_prod_def sum_four algebra_simps add_divide_distrib)
  then show "mat_prod 4 f (\<lambda>i j. adjugate f i j / det4 f) i j = (if i = j then 1 else 0)"
    using assms by (simp add: adjugate_row)
  have "mat_prod 4 (\<lambda>i j. adjugate f i j / det4 f) f i j =
      mat_prod 4 (adjugate f) f i j / det4 f"
    by (simp add: mat_prod_def sum_four algebra_simps add_divide_distrib)
  then show "mat_prod 4 (\<lambda>i j. adjugate f i j / det4 f) f i j = (if i = j then 1 else 0)"
    using assms by (simp add: adjugate_col)
qed

lemma mat_inverse_inverts:
  fixes f :: "nat \<Rightarrow> nat \<Rightarrow> 'a::field"
  assumes "det4 f \<noteq> 0"
  shows "\<exists>g. mat_inverse d 4 4 (cells 4 4 f) = Inr (cells 4 4 g) \<and>
    mat_mul d 4 4 (cells 4 4 f) (cells 4 4 g) = mat_identity d 4 4 \<and>
    mat_mul d 4 4 (cells 4 4 g) (cells 4 4 f) = mat_identity d 4 4"
  using assms
  by (intro exI [of _ "\<lambda>i j. adjugate f i j / det4 f"])
    (simp add: mat_inverse_cells mat_mul_cells mat_identity_cells cells_eq_iff scaled_inverse [OF assms])

section \<open>Properties\<close>

text \<open>
  C5. For a well-formed four by four matrix over a field, \<open>inverse\<close> stops exactly when the
  determinant is zero (on the assertion in a debug build, on a division by zero otherwise),
  and in every other case returns a matrix that is a two-sided inverse under the engine's own
  multiplication.
\<close>

theorem mat_inverse_correct:
  fixes m :: "'a::field list list"
  assumes "wf_mat 4 4 m"
  shows "if det4 (entry m) = 0
    then mat_inverse d 4 4 m = Inl (if d then AssertionFailure else DivisionByZero)
    else \<exists>w. mat_inverse d 4 4 m = Inr w \<and> wf_mat 4 4 w \<and>
      mat_mul d 4 4 m w = mat_identity d 4 4 \<and> mat_mul d 4 4 w m = mat_identity d 4 4"
proof -
  obtain f where m: "m = cells 4 4 f" using assms by (rule wf_mat_obtain)
  have "det4 (entry m) = det4 f"
    by (simp add: m adjugate_eval)
  then show ?thesis
    using mat_inverse_cells [of d f] mat_inverse_inverts [of f d] by (auto simp: m)
qed

theorem mat_inverse_correct_witness:
  "\<exists>w. mat_inverse True 4 4 [[1, 0, 0, 0], [0, 2, 0, 0], [0, 0, 4, 0], [5, 6, 7, 1 :: real]] = Inr w \<and>
     mat_mul True 4 4 [[1, 0, 0, 0], [0, 2, 0, 0], [0, 0, 4, 0], [5, 6, 7, 1]] w = mat_identity True 4 4"
proof -
  let ?m = "[[1, 0, 0, 0], [0, 2, 0, 0], [0, 0, 4, 0], [5, 6, 7, 1 :: real]]"
  have "det4 (entry ?m) = 8" by (simp add: adjugate_eval entry_def)
  moreover have "wf_mat 4 4 ?m" by (simp add: wf_mat_def)
  ultimately show ?thesis using mat_inverse_correct [of ?m True] by auto
qed

text \<open>
  C34. \<open>transpose\<close> returns the matrix unchanged, for every square matrix and every build: the
  double loop visits each off-diagonal pair twice and undoes its own swap.
\<close>

theorem mat_transpose_is_identity:
  assumes "wf_mat n n m"
  shows "mat_transpose d n n m = Inr m"
  using assms mat_transpose_square by (metis wf_mat_cells)

theorem mat_transpose_is_identity_witness:
  "mat_transpose True 2 2 [[1, 2], [3, 4 :: int]] = Inr [[1, 2], [3, 4]]"
  using mat_transpose_is_identity [of 2 "[[1, 2], [3, 4 :: int]]" True] by (simp add: wf_mat_def)

text \<open>
  Multiplying a matrix by a vector dots each stored column with the vector, that is, it
  applies the transposed matrix.
\<close>

theorem mat_mul_vec_applies_transpose:
  fixes m :: "'a::comm_semiring_0 list list"
  assumes "wf_mat 4 4 m" "length v = 4"
  shows "mat_mul_vec d m v = Inr (map (\<lambda>i. \<Sum>k<4. entry m k i * v ! k) [0..<4])"
proof -
  have "mat_mul_vec d (cells 4 4 (entry m)) v = Inr (map (\<lambda>i. \<Sum>k<4. entry m k i * v ! k) [0..<4])"
    by (rule mat_mul_vec_cells) (rule assms)
  then show ?thesis using wf_mat_cells [OF assms(1)] by simp
qed

theorem mat_mul_vec_applies_transpose_witness:
  "mat_mul_vec True [[1, 0, 0, 0], [0, 1, 0, 0], [0, 0, 1, 0], [5, 6, 7, 1]] [0, 0, 0, 1 :: int] =
     Inr [0, 0, 0, 1]"
  using mat_mul_vec_applies_transpose
    [of "[[1, 0, 0, 0], [0, 1, 0, 0], [0, 0, 1, 0], [5, 6, 7, 1 :: int]]" "[0, 0, 0, 1]" True]
  by (simp add: wf_mat_def entry_def sum_four upt_rec)

text \<open>
  C24. Multiplication of square matrices agrees with the mathematical product, is associative
  and has the identity matrix as its unit.
\<close>

theorem mat_mul_monoid:
  fixes a b c :: "'a::comm_semiring_1 list list"
  assumes "wf_mat n n a" "wf_mat n n b" "wf_mat n n c"
  shows "mat_mul d n n a b = Inr (cells n n (mat_prod n (entry a) (entry b))) \<and>
    and_then (mat_mul d n n a b) (\<lambda>ab. mat_mul d n n ab c) =
      and_then (mat_mul d n n b c) (\<lambda>bc. mat_mul d n n a bc) \<and>
    and_then (mat_identity d n n) (\<lambda>i. mat_mul d n n i a) = Inr a \<and>
    and_then (mat_identity d n n) (\<lambda>i. mat_mul d n n a i) = Inr a"
proof -
  obtain f g h where abc: "a = cells n n f" "b = cells n n g" "c = cells n n h"
    using assms by (metis wf_mat_obtain)
  have "cells n n (mat_prod n (entry a) (entry b)) = cells n n (mat_prod n f g)"
    by (simp add: abc cells_eq_iff mat_prod_def)
  then show ?thesis
    by (simp add: abc mat_mul_cells mat_identity_cells cells_eq_iff mat_prod_assoc mat_prod_identity)
qed

theorem mat_mul_monoid_witness:
  "mat_mul True 2 2 [[1, 2], [3, 4]] [[5, 6], [7, 8 :: int]] = Inr [[23, 34], [31, 46]]"
  using mat_mul_monoid [of 2 "[[1, 2], [3, 4]]" "[[5, 6], [7, 8 :: int]]" "[[1, 0], [0, 1]]" True]
  by (simp add: wf_mat_def cells_def entry_def mat_prod_def lessThan_Suc numeral_2_eq_2)

text \<open>
  \<open>m *= m\<close> is not the square of \<open>m\<close>: the right operand is read through a reference to
  the matrix being overwritten.
\<close>

theorem mat_mul_assign_self_differs:
  "\<exists>m w :: int list list. wf_mat 2 2 m \<and> mat_mul d 2 2 m m = Inr w \<and> mat_mul_assign_self d 2 2 m \<noteq> Inr w"
  by (intro exI [of _ "[[1, 1], [1, 1]]"] exI [of _ "[[2, 2], [2, 2]]"])
    (simp add: wf_mat_def mat_mul_def mat_mul_assign_def mat_mul_assign_self_def mat_mul_assign_via_def
      mat_loop_def mat_at_def mat_put_def mat_index_def numeral_2_eq_2 upt_rec)

end
