(* ===== verification/Transform_Model.thy ===== *)
theory Transform_Model
  imports Matrix_Inverse
begin

text \<open>
  \<open>core/matrix_transform.cpp\<close>: the transformation matrices, over the real numbers.  Each
  function is the source's sequence of assignments to an identity matrix; \<open>std::cos\<close>,
  \<open>std::sin\<close> and \<open>std::tan\<close> are the real functions, and a quotient whose divisor vanishes is
  the fault \<open>DivisionByZero\<close>.
\<close>

type_synonym mat4 = "real list list"
type_synonym vec3 = "real list"

definition mat_puts :: "bool \<Rightarrow> nat \<Rightarrow> (nat \<times> nat \<times> 'a) list \<Rightarrow> 'a list list \<Rightarrow> 'a list list outcome" where
  "mat_puts d R = for_each (\<lambda>(row, column, v) m. mat_put d R m row column v)"

definition translate :: "bool \<Rightarrow> vec3 \<Rightarrow> mat4 outcome" where
  "translate d position =
     and_then (mat_identity d 4 4) (\<lambda>m.
     and_then (vec_index d 3 position 0) (\<lambda>p0. and_then (vec_index d 3 position 1) (\<lambda>p1.
     and_then (vec_index d 3 position 2) (\<lambda>p2.
     mat_puts d 4 [(0, 3, p0), (1, 3, p1), (2, 3, p2)] m))))"

definition rotate_x :: "bool \<Rightarrow> real \<Rightarrow> mat4 outcome" where
  "rotate_x d angle =
     and_then (mat_identity d 4 4)
       (mat_puts d 4 [(1, 1, cos angle), (1, 2, - sin angle), (2, 1, sin angle), (2, 2, cos angle)])"

definition rotate_y :: "bool \<Rightarrow> real \<Rightarrow> mat4 outcome" where
  "rotate_y d angle =
     and_then (mat_identity d 4 4)
       (mat_puts d 4 [(0, 0, cos angle), (0, 2, sin angle), (2, 0, - sin angle), (2, 2, cos angle)])"

definition rotate_z :: "bool \<Rightarrow> real \<Rightarrow> mat4 outcome" where
  "rotate_z d angle =
     and_then (mat_identity d 4 4)
       (mat_puts d 4 [(0, 0, cos angle), (0, 1, - sin angle), (1, 0, sin angle), (1, 1, cos angle)])"

definition rotate_euler :: "bool \<Rightarrow> vec3 \<Rightarrow> mat4 outcome" where
  "rotate_euler d rotation =
     and_then (and_then (vec_index d 3 rotation 0) (rotate_x d)) (\<lambda>x.
     and_then (and_then (vec_index d 3 rotation 1) (rotate_y d)) (\<lambda>y.
     and_then (and_then (vec_index d 3 rotation 2) (rotate_z d)) (\<lambda>z.
     and_then (mat_mul d 4 4 z y) (\<lambda>zy. mat_mul d 4 4 zy x))))"

definition scale :: "bool \<Rightarrow> vec3 \<Rightarrow> mat4 outcome" where
  "scale d scale_factors =
     and_then (mat_identity d 4 4)
       (for_each (\<lambda>i m. and_then (vec_index d 3 scale_factors i) (\<lambda>s. mat_put d 4 m i i s)) [0..<3])"

definition model :: "bool \<Rightarrow> vec3 \<Rightarrow> vec3 \<Rightarrow> vec3 \<Rightarrow> mat4 outcome" where
  "model d position rotation scale_factors =
     and_then (translate d position) (\<lambda>t. and_then (rotate_euler d rotation) (\<lambda>r.
     and_then (mat_mul d 4 4 t r) (\<lambda>tr. and_then (scale d scale_factors) (\<lambda>s. mat_mul d 4 4 tr s))))"

definition view :: "bool \<Rightarrow> vec3 \<Rightarrow> vec3 \<Rightarrow> mat4 outcome" where
  "view d position rotation =
     and_then (translate d position) (\<lambda>t. and_then (rotate_euler d rotation) (\<lambda>r.
     and_then (mat_mul d 4 4 t r) (mat_inverse d 4 4)))"

definition perspective :: "bool \<Rightarrow> real \<Rightarrow> real \<Rightarrow> real \<Rightarrow> real \<Rightarrow> mat4 outcome" where
  "perspective d fov aspect_ratio near far =
     and_then (if cos (fov / 2) = 0 then Inl DivisionByZero else Inr (tan (fov / 2))) (\<lambda>thf.
     and_then (mat_identity d 4 4) (\<lambda>m.
     and_then (divide_by 1 (aspect_ratio * thf)) (\<lambda>a.
     and_then (divide_by 1 thf) (\<lambda>b.
     and_then (divide_by (far + near) (near - far)) (\<lambda>c.
     and_then (divide_by (2 * far * near) (near - far)) (\<lambda>e.
     mat_puts d 4 [(0, 0, a), (1, 1, b), (2, 2, c), (3, 2, - 1), (2, 3, e), (3, 3, 0)] m))))))"

text \<open>\<open>m[2]\<close> is the stored array of index two; its three assignments follow those to the diagonal.\<close>

definition orthographic ::
    "bool \<Rightarrow> real \<Rightarrow> real \<Rightarrow> real \<Rightarrow> real \<Rightarrow> real \<Rightarrow> real \<Rightarrow> mat4 outcome" where
  "orthographic d left right top_edge bottom near far =
     and_then (mat_identity d 4 4) (\<lambda>m.
     and_then (divide_by 2 (right - left)) (\<lambda>a. and_then (divide_by 2 (top_edge - bottom)) (\<lambda>b.
     and_then (divide_by (- 2) (far - near)) (\<lambda>c.
     and_then (mat_puts d 4 [(0, 0, a), (1, 1, b), (2, 2, c)] m) (\<lambda>m.
     and_then (mat_index d 4 m 2) (\<lambda>bottom_row.
     and_then (divide_by (- (right + left)) (right - left)) (\<lambda>x.
     and_then (divide_by (- (top_edge + bottom)) (top_edge - bottom)) (\<lambda>y.
     and_then (divide_by (- (far + near)) (far - near)) (\<lambda>z.
     and_then (set_index bottom_row 0 x) (\<lambda>row. and_then (set_index row 1 y) (\<lambda>row.
     and_then (set_index row 2 z) (\<lambda>row. set_index m 2 row))))))))))))"

section \<open>Entries\<close>

definition by_rows :: "'a list list \<Rightarrow> nat \<Rightarrow> nat \<Rightarrow> 'a" where
  "by_rows rows i j = rows ! i ! j"

lemma cells4_rows:
  "cells 4 4 f = cells 4 4 (by_rows
     [[f 0 0, f 0 1, f 0 2, f 0 3], [f 1 0, f 1 1, f 1 2, f 1 3],
      [f 2 0, f 2 1, f 2 2, f 2 3], [f 3 0, f 3 1, f 3 2, f 3 3]])"
  by (auto simp: cells_eq_iff by_rows_def dest!: less_four_cases)

lemma mat_puts_cells:
  assumes "\<forall>(r, c, v)\<in>set ps. r < 4 \<and> c < 4"
  shows "mat_puts d 4 ps (cells 4 4 f) =
    Inr (cells 4 4 (fold (\<lambda>(r, c, v) f. (\<lambda>i j. if i = r \<and> j = c then v else f i j)) ps f))"
  using assms
proof (induction ps arbitrary: f)
  case (Cons p ps)
  then show ?case by (cases p) (simp add: mat_puts_def)
qed (simp add: mat_puts_def)

lemmas transform_eval =
  mat_identity_cells mat_puts_cells vec_index_def mat_mul_cells divide_by_def

lemma translate_cells:
  "translate d [x, y, z] =
     Inr (cells 4 4 (by_rows [[1, 0, 0, x], [0, 1, 0, y], [0, 0, 1, z], [0, 0, 0, 1]]))"
  by (simp add: translate_def transform_eval) (subst cells4_rows, simp)

lemma rotate_x_cells:
  "rotate_x d a = Inr (cells 4 4 (by_rows
     [[1, 0, 0, 0], [0, cos a, - sin a, 0], [0, sin a, cos a, 0], [0, 0, 0, 1]]))"
  by (simp add: rotate_x_def transform_eval) (subst cells4_rows, simp)

lemma rotate_y_cells:
  "rotate_y d a = Inr (cells 4 4 (by_rows
     [[cos a, 0, sin a, 0], [0, 1, 0, 0], [- sin a, 0, cos a, 0], [0, 0, 0, 1]]))"
  by (simp add: rotate_y_def transform_eval) (subst cells4_rows, simp)

lemma rotate_z_cells:
  "rotate_z d a = Inr (cells 4 4 (by_rows
     [[cos a, - sin a, 0, 0], [sin a, cos a, 0, 0], [0, 0, 1, 0], [0, 0, 0, 1]]))"
  by (simp add: rotate_z_def transform_eval) (subst cells4_rows, simp)

lemma scale_cells:
  "scale d [x, y, z] =
     Inr (cells 4 4 (by_rows [[x, 0, 0, 0], [0, y, 0, 0], [0, 0, z, 0], [0, 0, 0, 1]]))"
  by (simp add: scale_def transform_eval upt_rec) (subst cells4_rows, simp)

text \<open>The entries of \<open>Rz * Ry * Rx\<close>.\<close>

definition rotation_rows :: "real \<Rightarrow> real \<Rightarrow> real \<Rightarrow> real list list" where
  "rotation_rows a b c =
     [[cos c * cos b, cos c * sin b * sin a - sin c * cos a, cos c * sin b * cos a + sin c * sin a, 0],
      [sin c * cos b, sin c * sin b * sin a + cos c * cos a, sin c * sin b * cos a - cos c * sin a, 0],
      [- sin b, cos b * sin a, cos b * cos a, 0],
      [0, 0, 0, 1]]"

lemma rotate_cells:
  "rotate_euler d [a, b, c] = Inr (cells 4 4 (by_rows (rotation_rows a b c)))"
  by (simp add: rotate_euler_def transform_eval rotate_x_cells rotate_y_cells rotate_z_cells)
    (subst cells4_rows, subst (2) cells4_rows,
     simp add: mat_prod_def sum_four by_rows_def rotation_rows_def algebra_simps)

section \<open>Rotations are orthogonal\<close>

lemma trig_unit: "cos x * cos x + sin x * sin x = (1::real)"
  using sin_cos_squared_add [of x] by (simp add: power2_eq_square algebra_simps)

lemma rotation_polynomials:
  fixes ca :: "'a::field_char_0"
  assumes "ca * ca + sa * sa = 1" "cb * cb + sb * sb = 1" "cc * cc + sc * sc = 1"
  shows "(cc * cb) * (cc * cb) + (cc * sb * sa - sc * ca) * (cc * sb * sa - sc * ca) +
      (cc * sb * ca + sc * sa) * (cc * sb * ca + sc * sa) = 1"
    and "(sc * cb) * (sc * cb) + (sc * sb * sa + cc * ca) * (sc * sb * sa + cc * ca) +
      (sc * sb * ca - cc * sa) * (sc * sb * ca - cc * sa) = 1"
    and "sb * sb + (cb * sa) * (cb * sa) + (cb * ca) * (cb * ca) = 1"
    and "(cc * cb) * (sc * cb) + (cc * sb * sa - sc * ca) * (sc * sb * sa + cc * ca) +
      (cc * sb * ca + sc * sa) * (sc * sb * ca - cc * sa) = 0"
    and "- ((cc * cb) * sb) + (cc * sb * sa - sc * ca) * (cb * sa) +
      (cc * sb * ca + sc * sa) * (cb * ca) = 0"
    and "- ((sc * cb) * sb) + (sc * sb * sa + cc * ca) * (cb * sa) +
      (sc * sb * ca - cc * sa) * (cb * ca) = 0"
    and "(cc * cb) * ((sc * sb * sa + cc * ca) * (cb * ca) - (sc * sb * ca - cc * sa) * (cb * sa)) -
      (cc * sb * sa - sc * ca) * ((sc * cb) * (cb * ca) + (sc * sb * ca - cc * sa) * sb) +
      (cc * sb * ca + sc * sa) * ((sc * cb) * (cb * sa) + (sc * sb * sa + cc * ca) * sb) = 1"
  using assms by algebra+

lemma upt_four: "[0..<4] = [0, 1, 2, 3]"
  by (simp add: upt_rec)

lemma rotation_orthogonal:
  assumes "i < 4" "j < 4"
  shows "mat_prod 4 (by_rows (rotation_rows a b c)) (\<lambda>i j. by_rows (rotation_rows a b c) j i) i j =
    (if i = j then 1 else 0)"
  using less_four_cases [OF assms(1)] less_four_cases [OF assms(2)] rotation_polynomials [OF trig_unit [of a] trig_unit [of b] trig_unit [of c]]
  by (elim disjE; simp add: mat_prod_def sum_four by_rows_def rotation_rows_def; simp add: algebra_simps)

text \<open>The entries of \<open>translate(position) * rotate(rotation)\<close>, and its determinant.\<close>

definition rigid_rows :: "real \<Rightarrow> real \<Rightarrow> real \<Rightarrow> real \<Rightarrow> real \<Rightarrow> real \<Rightarrow> real list list" where
  "rigid_rows x y z a b c =
     map2 (\<lambda>row t. take 3 row @ [t]) (rotation_rows a b c) [x, y, z, 1]"

lemma rigid_cells:
  "and_then (translate d [x, y, z]) (\<lambda>t. and_then (rotate_euler d [a, b, c]) (\<lambda>r. mat_mul d 4 4 t r)) =
     Inr (cells 4 4 (by_rows (rigid_rows x y z a b c)))"
  by (simp add: translate_cells rotate_cells mat_mul_cells)
    (subst cells4_rows, subst (2) cells4_rows,
     simp add: mat_prod_def sum_four by_rows_def rotation_rows_def rigid_rows_def)

lemma det_rigid: "det4 (by_rows (rigid_rows x y z a b c)) = 1"
proof -
  let ?r = "\<lambda>i j. rotation_rows a b c ! i ! j"
  have "det4 (by_rows (rigid_rows x y z a b c)) =
      ?r 0 0 * (?r 1 1 * ?r 2 2 - ?r 1 2 * ?r 2 1) - ?r 0 1 * (?r 1 0 * ?r 2 2 - ?r 1 2 * ?r 2 0) +
      ?r 0 2 * (?r 1 0 * ?r 2 1 - ?r 1 1 * ?r 2 0)"
    by (simp add: adjugate_eval by_rows_def rigid_rows_def rotation_rows_def) (simp add: algebra_simps)
  also have "\<dots> = 1"
    using rotation_polynomials(7) [OF trig_unit [of a] trig_unit [of b] trig_unit [of c]] by (simp add: rotation_rows_def)
  finally show ?thesis .
qed

text \<open>Application of a matrix, given by its entries, to the homogeneous point \<open>(x, y, z, 1)\<close>.\<close>

definition apply_point :: "(nat \<Rightarrow> nat \<Rightarrow> real) \<Rightarrow> real list \<Rightarrow> real list" where
  "apply_point f v = map (\<lambda>i. \<Sum>k<4. f i k * (v @ [1]) ! k) [0..<4]"

lemma apply_point_rows:
  "apply_point f [x, y, z] =
     [f 0 0 * x + f 0 1 * y + f 0 2 * z + f 0 3, f 1 0 * x + f 1 1 * y + f 1 2 * z + f 1 3,
      f 2 0 * x + f 2 1 * y + f 2 2 * z + f 2 3, f 3 0 * x + f 3 1 * y + f 3 2 * z + f 3 3]"
  by (simp add: apply_point_def sum_four upt_four)

lemma apply_point_cells: "apply_point (entry (cells 4 4 f)) v = apply_point f v"
  by (simp add: apply_point_def)

lemma length_three: "length v = 3 \<Longrightarrow> \<exists>x y z. v = [x, y, z]"
  by (auto simp: numeral_3_eq_3 length_Suc_conv)

section \<open>Properties\<close>

text \<open>
  C19. The view matrix exists for every camera position and rotation, in every build: the
  determinant that \<open>inverse\<close> checks is one.  It is the two-sided inverse of the camera's
  \<open>translate * rotate\<close> matrix.
\<close>

theorem view_inverts_camera:
  assumes "length position = 3" "length rotation = 3"
  shows "\<exists>v cam. view d position rotation = Inr v \<and>
    and_then (translate d position) (\<lambda>t. and_then (rotate_euler d rotation) (mat_mul d 4 4 t)) = Inr cam \<and>
    mat_mul d 4 4 v cam = mat_identity d 4 4 \<and> mat_mul d 4 4 cam v = mat_identity d 4 4"
proof -
  obtain x y z a b c where pr: "position = [x, y, z]" "rotation = [a, b, c]"
    using assms length_three by metis
  let ?f = "by_rows (rigid_rows x y z a b c)"
  obtain g where g: "mat_inverse d 4 4 (cells 4 4 ?f) = Inr (cells 4 4 g)"
    "mat_mul d 4 4 (cells 4 4 ?f) (cells 4 4 g) = mat_identity d 4 4"
    "mat_mul d 4 4 (cells 4 4 g) (cells 4 4 ?f) = mat_identity d 4 4"
    using mat_inverse_inverts [of ?f d] det_rigid by auto
  have cam: "and_then (translate d position) (\<lambda>t. and_then (rotate_euler d rotation) (mat_mul d 4 4 t)) =
      Inr (cells 4 4 ?f)"
    using rigid_cells [of d x y z a b c] by (simp add: pr)
  have "view d position rotation = and_then (and_then (translate d position) (\<lambda>t.
      and_then (rotate_euler d rotation) (mat_mul d 4 4 t))) (mat_inverse d 4 4)"
    by (simp add: view_def and_then_assoc)
  then show ?thesis using cam g by auto
qed

theorem view_inverts_camera_witness:
  "\<exists>v. view True [1, 2, 3] [0, 1, 0] = Inr v"
  using view_inverts_camera [of "[1, 2, 3]" "[0, 1, 0]" True] by auto

text \<open>
  C22. \<open>rotate\<close> yields a rotation: its matrix times its own transpose is the identity, so
  lengths and angles are kept.
\<close>

theorem rotate_orthogonal:
  assumes "length rotation = 3"
  shows "\<exists>r. rotate_euler d rotation = Inr r \<and> wf_mat 4 4 r \<and>
    mat_mul d 4 4 r (cells 4 4 (\<lambda>i j. entry r j i)) = mat_identity d 4 4"
proof -
  obtain a b c where r: "rotation = [a, b, c]" using length_three [OF assms] by blast
  let ?f = "by_rows (rotation_rows a b c)"
  have "cells 4 4 (\<lambda>i j. entry (cells 4 4 ?f) j i) = cells 4 4 (\<lambda>i j. ?f j i)"
    by (simp add: cells_eq_iff)
  then have "mat_mul d 4 4 (cells 4 4 ?f) (cells 4 4 (\<lambda>i j. entry (cells 4 4 ?f) j i)) = mat_identity d 4 4"
    by (simp only: mat_mul_cells) (simp add: mat_identity_cells cells_eq_iff rotation_orthogonal)
  then show ?thesis
    by (simp add: r rotate_cells)
qed

theorem rotate_orthogonal_witness: "\<exists>r. rotate_euler False [1, 2, 3] = Inr r"
  using rotate_orthogonal [of "[1, 2, 3]" False] by auto

text \<open>
  C20. The model matrix scales a point, then rotates it, then moves it by the position.
\<close>

theorem model_scales_rotates_translates:
  assumes "length position = 3" "length rotation = 3" "length factors = 3"
  shows "\<exists>m r. model d position rotation factors = Inr m \<and> rotate_euler d rotation = Inr r \<and>
    (\<forall>x y z. apply_point (entry m) [x, y, z] =
       map2 (+) (apply_point (entry r) [factors ! 0 * x, factors ! 1 * y, factors ! 2 * z])
         [position ! 0, position ! 1, position ! 2, 0])"
proof -
  obtain px py pz a b c sx sy sz
    where v: "position = [px, py, pz]" "rotation = [a, b, c]" "factors = [sx, sy, sz]"
    using assms length_three by metis
  let ?m = "mat_prod 4 (by_rows (rigid_rows px py pz a b c))
    (by_rows [[sx, 0, 0, 0], [0, sy, 0, 0], [0, 0, sz, 0], [0, 0, 0, 1]])"
  have "model d position rotation factors = and_then (and_then (translate d position) (\<lambda>t.
      and_then (rotate_euler d rotation) (\<lambda>r. mat_mul d 4 4 t r)))
      (\<lambda>tr. and_then (scale d factors) (\<lambda>s. mat_mul d 4 4 tr s))"
    by (simp add: model_def and_then_assoc)
  then have "model d position rotation factors = Inr (cells 4 4 ?m)"
    using rigid_cells [of d px py pz a b c] by (simp add: v scale_cells mat_mul_cells)
  moreover have "apply_point ?m [x, y, z] = map2 (+) (apply_point (by_rows (rotation_rows a b c))
      [sx * x, sy * y, sz * z]) [px, py, pz, 0]" for x y z
    by (simp add: apply_point_rows mat_prod_def sum_four by_rows_def rigid_rows_def rotation_rows_def
        algebra_simps)
  ultimately show ?thesis
    by (simp add: v rotate_cells apply_point_cells)
qed

theorem model_scales_rotates_translates_witness:
  "\<exists>m. model True [1, 2, 3] [0, 0, 0] [2, 2, 2] = Inr m"
  using model_scales_rotates_translates [of "[1, 2, 3]" "[0, 0, 0]" "[2, 2, 2]" True] by auto

text \<open>
  C23. The perspective matrix is defined whenever its divisors are non-zero, keeps minus the
  view-space depth as the homogeneous coordinate, and sends the near plane to depth \<open>-1\<close> and
  the far plane to depth \<open>1\<close> after the perspective division.
\<close>

theorem perspective_maps_depth_range:
  assumes "cos (fov / 2) \<noteq> 0" "tan (fov / 2) \<noteq> 0" "aspect_ratio \<noteq> 0" "near \<noteq> far"
  shows "\<exists>m. perspective d fov aspect_ratio near far = Inr m \<and>
    (\<forall>x y z. apply_point (entry m) [x, y, z] ! 3 = - z) \<and>
    (\<forall>x y. apply_point (entry m) [x, y, - near] ! 2 = - near) \<and>
    (\<forall>x y. apply_point (entry m) [x, y, - far] ! 2 = far)"
proof -
  let ?m = "by_rows [[1 / (aspect_ratio * tan (fov / 2)), 0, 0, 0], [0, 1 / tan (fov / 2), 0, 0],
    [0, 0, (far + near) / (near - far), (2 * far * near) / (near - far)], [0, 0, - 1, 0]]"
  have "perspective d fov aspect_ratio near far = Inr (cells 4 4 ?m)"
    using assms by (simp add: perspective_def transform_eval) (subst cells4_rows, simp)
  moreover have "(far + near) / (near - far) * (- near) + (2 * far * near) / (near - far) = - near"
    "(far + near) / (near - far) * (- far) + (2 * far * near) / (near - far) = far"
    using assms(4) by (simp_all add: divide_simps) (simp_all add: algebra_simps)
  ultimately show ?thesis
    by (simp add: apply_point_cells) (simp add: apply_point_rows by_rows_def)
qed

theorem perspective_maps_depth_range_witness:
  "\<exists>m. perspective True (pi / 2) 1 1 100 = Inr m \<and> apply_point (entry m) [0, 0, - 1] ! 2 = - 1"
proof -
  have "cos (pi / 2 / 2) \<noteq> 0" "tan (pi / 2 / 2) \<noteq> 0"
    by (simp_all add: cos_45 tan_45)
  then show ?thesis
    using perspective_maps_depth_range [of "pi / 2" 1 1 100 True] by auto
qed

text \<open>
  The orthographic matrix has no translation: its last column is that of the identity,
  and the values meant for it are stored in the third column, replacing the depth scale.
\<close>

theorem orthographic_third_column:
  assumes "left \<noteq> right" "top_edge \<noteq> bottom" "near \<noteq> far"
  shows "\<exists>m. orthographic d left right top_edge bottom near far = Inr m \<and>
    map (\<lambda>i. entry m i 3) [0..<4] = [0, 0, 0, 1] \<and>
    map (\<lambda>i. entry m i 2) [0..<4] =
      [- (right + left) / (right - left), - (top_edge + bottom) / (top_edge - bottom),
       - (far + near) / (far - near), 0]"
proof -
  let ?m = "by_rows [[2 / (right - left), 0, - (right + left) / (right - left), 0],
    [0, 2 / (top_edge - bottom), - (top_edge + bottom) / (top_edge - bottom), 0],
    [0, 0, - (far + near) / (far - near), 0], [0, 0, 0, 1]]"
  have "orthographic d left right top_edge bottom near far = Inr (cells 4 4 ?m)"
    using assms
    by (simp add: orthographic_def transform_eval mat_index_cells)
      (simp add: cells_def by_rows_def upt_rec)
  then show ?thesis by (simp add: upt_rec) (simp add: by_rows_def)
qed

theorem orthographic_third_column_witness:
  "\<exists>m. orthographic True 0 800 600 0 (- 1) 1 = Inr m \<and> entry m 0 2 = - 1 \<and> entry m 0 3 = 0"
  using orthographic_third_column [of 0 800 600 0 "- 1" 1 True] by (auto simp: upt_rec)

end
