(* ===== verification/Byte_Memory.thy ===== *)
theory Byte_Memory
  imports Topaz_Prelude
begin

text \<open>
  Bytes and memory.  \<open>std::as_bytes\<close> and \<open>memcpy\<close> of 32-bit values use the little-endian
  representation of the target platforms.  Memory the driver maps for the program is a
  store of byte blocks; a pointer is a block and a byte offset, and every access outside its
  block is a fault.
\<close>

section \<open>Little-endian encoding of 32-bit values\<close>

definition u32_bytes :: "u32 \<Rightarrow> u8 list" where
  "u32_bytes w = map (\<lambda>k. of_nat (unat w div 256 ^ k)) [0..<4]"

definition bytes_u32 :: "u8 list \<Rightarrow> u32" where
  "bytes_u32 bs = of_nat (unat (bs ! 0) + unat (bs ! 1) * 256 + unat (bs ! 2) * 65536 + unat (bs ! 3) * 16777216)"

definition encode_u32s :: "u32 list \<Rightarrow> u8 list" where
  "encode_u32s ws = concat (map u32_bytes ws)"

fun decode_u32s :: "u8 list \<Rightarrow> u32 list" where
  "decode_u32s (a # b # c # e # bs) = bytes_u32 [a, b, c, e] # decode_u32s bs"
| "decode_u32s _ = []"

lemma length_u32_bytes [simp]: "length (u32_bytes w) = 4"
  by (simp add: u32_bytes_def)

lemma u32_bytes_shape:
  "u32_bytes w = [of_nat (unat w), of_nat (unat w div 256), of_nat (unat w div 65536), of_nat (unat w div 16777216)]"
  by (simp add: u32_bytes_def upt_rec)

lemma unat_of_nat_u8: "unat (of_nat n :: u8) = n mod 256"
  by (simp add: unat_of_nat take_bit_eq_mod)

lemma base256_digits:
  assumes "n < 4294967296"
  shows "n mod 256 + n div 256 mod 256 * 256 + n div 65536 mod 256 * 65536 + n div 16777216 mod 256 * 16777216 = (n::nat)"
proof -
  have a: "n = n mod 256 + 256 * (n div 256)" by simp
  have b: "n div 256 = n div 256 mod 256 + 256 * (n div 65536)"
    using div_mult2_eq [of n 256 256] by simp
  have c: "n div 65536 = n div 65536 mod 256 + 256 * (n div 16777216)"
    using div_mult2_eq [of n 65536 256] by simp
  have d: "n div 16777216 mod 256 = n div 16777216"
    using assms by simp
  show ?thesis using a b c d by linarith
qed

lemma bytes_u32_list:
  "bytes_u32 [a, b, c, e] = of_nat (unat a + unat b * 256 + unat c * 65536 + unat e * 16777216)"
  by (simp add: bytes_u32_def)

lemma bytes_u32_bytes [simp]: "bytes_u32 (u32_bytes w) = w"
proof -
  have "unat w < 4294967296" using unat_u32_lt [of w] by simp
  then show ?thesis
    unfolding u32_bytes_shape bytes_u32_list unat_of_nat_u8 by (simp only: base256_digits of_nat_unat ucast_id)
qed

lemma length_encode_u32s [layout_simps]: "length (encode_u32s ws) = 4 * length ws"
  by (induction ws) (simp_all add: encode_u32s_def)

lemma encode_u32s_append [simp]: "encode_u32s (xs @ ys) = encode_u32s xs @ encode_u32s ys"
  by (simp add: encode_u32s_def)

lemma decode_u32s_step: "length a = 4 \<Longrightarrow> decode_u32s (a @ bs) = bytes_u32 a # decode_u32s bs"
  by (auto simp: numeral_eq_Suc length_Suc_conv)

theorem decode_encode_u32s [simp]: "decode_u32s (encode_u32s ws) = ws"
proof (induction ws)
  case (Cons w ws)
  have "encode_u32s (w # ws) = u32_bytes w @ encode_u32s ws" by (simp add: encode_u32s_def)
  then show ?case using Cons by (simp add: decode_u32s_step)
qed (simp add: encode_u32s_def)

section \<open>Mapped memory\<close>

record ptr =
  block :: nat
  offset :: nat

type_synonym memory = "nat \<Rightarrow> u8 list option"

definition byte_ptr_add :: "ptr \<Rightarrow> nat \<Rightarrow> ptr" where
  "byte_ptr_add p n = p\<lparr>offset := offset p + n\<rparr>"

text \<open>Pointer arithmetic on \<open>unsigned int*\<close> counts elements of four bytes.\<close>

definition uint_ptr_add :: "ptr \<Rightarrow> nat \<Rightarrow> ptr" where
  "uint_ptr_add p n = p\<lparr>offset := offset p + 4 * n\<rparr>"

definition mem_read :: "memory \<Rightarrow> ptr \<Rightarrow> nat \<Rightarrow> u8 list outcome" where
  "mem_read mem p n =
     (case mem (block p) of
        None \<Rightarrow> Inl DanglingReference
      | Some bs \<Rightarrow> if offset p + n \<le> length bs then Inr (chunk (offset p) n bs) else Inl OutOfBounds)"

definition mem_write :: "memory \<Rightarrow> ptr \<Rightarrow> u8 list \<Rightarrow> memory outcome" where
  "mem_write mem p ys =
     (case mem (block p) of
        None \<Rightarrow> Inl DanglingReference
      | Some bs \<Rightarrow> if offset p + length ys \<le> length bs then Inr (mem(block p \<mapsto> overwrite bs (offset p) ys))
                   else Inl OutOfBounds)"

definition valid_range :: "memory \<Rightarrow> ptr \<Rightarrow> nat \<Rightarrow> bool" where
  "valid_range mem p n \<longleftrightarrow> (\<exists>bs. mem (block p) = Some bs \<and> offset p + n \<le> length bs)"

definition disjoint_ranges :: "ptr \<Rightarrow> nat \<Rightarrow> ptr \<Rightarrow> nat \<Rightarrow> bool" where
  "disjoint_ranges p m q n \<longleftrightarrow>
     block p \<noteq> block q \<or> offset p + m \<le> offset q \<or> offset q + n \<le> offset p"

lemma mem_read_ok: "valid_range mem p n \<Longrightarrow> \<exists>bs. mem_read mem p n = Inr bs \<and> length bs = n"
  by (auto simp: valid_range_def mem_read_def layout_simps)

lemma mem_write_ok: "valid_range mem p (length ys) \<Longrightarrow> \<exists>mem'. mem_write mem p ys = Inr mem'"
  by (auto simp: valid_range_def mem_write_def)

lemma mem_write_Inr_iff:
  "mem_write mem p ys = Inr mem' \<longleftrightarrow>
     (\<exists>bs. mem (block p) = Some bs \<and> offset p + length ys \<le> length bs \<and>
       mem' = mem(block p \<mapsto> overwrite bs (offset p) ys))"
  by (auto simp: mem_write_def split: option.splits)

lemma mem_read_after_write:
  "mem_write mem p ys = Inr mem' \<Longrightarrow> mem_read mem' p (length ys) = Inr ys"
  by (auto simp: mem_write_Inr_iff mem_read_def layout_simps chunk_overwrite_same)

lemma mem_read_after_disjoint_write:
  assumes "mem_write mem p ys = Inr mem'" "disjoint_ranges p (length ys) q n"
  shows "mem_read mem' q n = mem_read mem q n"
  using assms
  by (auto simp: mem_write_Inr_iff mem_read_def disjoint_ranges_def layout_simps chunk_overwrite_disjoint
      split: option.splits if_splits)

lemma valid_range_after_write:
  "mem_write mem p ys = Inr mem' \<Longrightarrow> valid_range mem' q n \<longleftrightarrow> valid_range mem q n"
  by (auto simp: mem_write_Inr_iff valid_range_def layout_simps split: if_splits)

lemma disjoint_ranges_sym: "disjoint_ranges p m q n \<longleftrightarrow> disjoint_ranges q n p m"
  by (auto simp: disjoint_ranges_def)

end
