(* ===== verification/Gl_Machine.thy ===== *)
theory Gl_Machine
  imports Byte_Memory
begin

text \<open>
  The OpenGL side of the engine talks to the driver.  The driver is not part of the repository:
  it is an argument \<open>drv\<close> that answers queries from the history of calls made so far.  The
  state \<open>gl_world\<close> holds that history and the memory blocks the driver has mapped.  Every GL
  function the engine calls appends one call to the history, with the arguments it was given
  and the names it was answered.

  The second half reads a history the way the OpenGL specification describes its effect: which
  names are live, what a buffer holds (bytes never written are \<open>None\<close>, an update that does not
  fit is rejected), which block a buffer is mapped to, and what a draw fetches.
  \<open>gl_documented\<close> collects what the engine relies on of the driver, and \<open>frame\<close> says that a
  piece of code left every buffer that was live before it alone.
\<close>

section \<open>Calls\<close>

datatype BufferKind = VertexBuf | IndexBuf | UniformBuf | DrawIndirectBuf

datatype BufferPurpose =
    StaticDraw | StaticRead | StaticCopy | DynamicDraw | DynamicRead | DynamicCopy
  | StreamDraw | StreamRead | SteamCopy

datatype BufferUsage = ReadWrite | PersistentMapped

datatype gl_capability = GL_DEPTH_TEST | GL_CULL_FACE
datatype gl_face = GL_FRONT | GL_BACK | GL_FRONT_AND_BACK
datatype gl_internal_format = GL_RGBA8 | GL_SRGB8_ALPHA8 | GL_DEPTH_COMPONENT32F
datatype gl_pixel_format = GL_RGBA | GL_DEPTH_COMPONENT
datatype gl_pixel_type = GL_BYTE | GL_UNSIGNED_BYTE | GL_FLOAT
datatype gl_texture_parameter =
  GL_TEXTURE_WRAP_S | GL_TEXTURE_WRAP_T | GL_TEXTURE_WRAP_R | GL_TEXTURE_MIN_FILTER | GL_TEXTURE_MAG_FILTER
datatype gl_texture_value = GL_NEAREST | GL_LINEAR | GL_CLAMP_TO_EDGE
datatype gl_shader_kind = GL_VERTEX_SHADER | GL_FRAGMENT_SHADER

datatype (plugins only: code size) gl_call =
    GlCreateBuffers u32
  | GlNamedBufferStorage u32 nat "u8 list option"
  | GlNamedBufferData u32 nat "u8 list option" BufferPurpose
  | GlNamedBufferSubData u32 nat "u8 list"
  | GlGetBufferSize u32
  | GlMapNamedBufferRange u32 nat nat bool "nat option"
  | GlUnmapNamedBuffer u32
  | GlDeleteBuffers "u32 list"
  | GlBindBuffer BufferKind u32
  | GlEnable gl_capability
  | GlDisable gl_capability
  | GlCullFace gl_face
  | GlCreateVertexArrays u32
  | GlBindVertexArray u32
  | GlDeleteVertexArrays u32
  | GlEnableVertexArrayAttrib u32 nat
  | GlVertexArrayAttribFormat u32 nat nat nat
  | GlVertexArrayAttribBinding u32 nat nat
  | GlVertexArrayVertexBuffer u32 nat u32 nat nat
  | GlVertexArrayElementBuffer u32 u32
  | GlCreateTextures u32
  | GlTextureParameteri u32 gl_texture_parameter gl_texture_value
  | GlTextureStorage2D u32 gl_internal_format u32 u32
  | GlTextureSubImage2D u32 u32 u32 gl_pixel_format gl_pixel_type "u8 list"
  | GlDeleteTextures "u32 list"
  | GlBindTextureUnit nat u32
  | GlClearColor "u32 list"
  | GlBindFramebuffer u32
  | GlViewport u32 u32
  | GlClear bool bool
  | GlBindBufferBase nat u32
  | GlCreateProgram u32
  | GlCreateShader gl_shader_kind u32
  | GlAttachShader u32 u32
  | GlDetachShader u32 u32
  | GlShaderSource u32 string
  | GlCompileShader u32
  | GlLinkProgram u32
  | GlValidateProgram u32
  | GlDeleteShader u32
  | GlDeleteProgram u32
  | GlUseProgram u32
  | GlProgramUniform1i u32 nat nat
  | GlMultiDrawElementsIndirect nat nat

text \<open>The driver's answers, as functions of the calls made so far.\<close>

datatype gl_object = BufferObj | VertexArrayObj | TextureObj | ProgramObj

record gl_driver =
  new_name :: "gl_call list \<Rightarrow> gl_object \<Rightarrow> u32"
  buffer_size :: "gl_call list \<Rightarrow> u32 \<Rightarrow> nat"
  map_range :: "gl_call list \<Rightarrow> u32 \<Rightarrow> nat \<Rightarrow> nat \<Rightarrow> (nat \<times> u8 list) option"
  compile_status :: "gl_call list \<Rightarrow> u32 \<Rightarrow> bool"
  link_status :: "gl_call list \<Rightarrow> u32 \<Rightarrow> bool"
  validate_status :: "gl_call list \<Rightarrow> u32 \<Rightarrow> bool"
  window_size :: "gl_call list \<Rightarrow> u32 \<times> u32"
  clear_value :: "gl_call list \<Rightarrow> u32 list"

record gl_world =
  calls :: "gl_call list"
  gl_memory :: memory

definition emit :: "gl_call \<Rightarrow> gl_world \<Rightarrow> gl_world" where
  "emit c w = w\<lparr>calls := calls w @ [c]\<rparr>"

definition emit_all :: "gl_call list \<Rightarrow> gl_world \<Rightarrow> gl_world" where
  "emit_all cs w = w\<lparr>calls := calls w @ cs\<rparr>"

lemma calls_emit [simp]: "calls (emit c w) = calls w @ [c]" "gl_memory (emit c w) = gl_memory w"
  by (simp_all add: emit_def)

lemma calls_emit_all [simp]: "calls (emit_all cs w) = calls w @ cs" "gl_memory (emit_all cs w) = gl_memory w"
  by (simp_all add: emit_all_def)

section \<open>Reading the history\<close>

fun creates :: "gl_call \<Rightarrow> (gl_object \<times> u32) option" where
  "creates (GlCreateBuffers n) = Some (BufferObj, n)"
| "creates (GlCreateVertexArrays n) = Some (VertexArrayObj, n)"
| "creates (GlCreateTextures n) = Some (TextureObj, n)"
| "creates (GlCreateProgram n) = Some (ProgramObj, n)"
| "creates (GlCreateShader _ n) = Some (ProgramObj, n)"
| "creates _ = None"

fun deletes :: "gl_call \<Rightarrow> (gl_object \<times> u32 list) option" where
  "deletes (GlDeleteBuffers ns) = Some (BufferObj, ns)"
| "deletes (GlDeleteVertexArrays n) = Some (VertexArrayObj, [n])"
| "deletes (GlDeleteTextures ns) = Some (TextureObj, ns)"
| "deletes (GlDeleteProgram n) = Some (ProgramObj, [n])"
| "deletes (GlDeleteShader n) = Some (ProgramObj, [n])"
| "deletes _ = None"

text \<open>Deleting the name zero has no effect.\<close>

definition live_step :: "gl_object \<Rightarrow> gl_call \<Rightarrow> u32 list \<Rightarrow> u32 list" where
  "live_step k c l =
     (case creates c of
        Some (k', n) \<Rightarrow> if k' = k then n # l else l
      | None \<Rightarrow>
          (case deletes c of
             Some (k', ns) \<Rightarrow> if k' = k then filter (\<lambda>n. n = 0 \<or> n \<notin> set ns) l else l
           | None \<Rightarrow> l))"

definition live :: "gl_object \<Rightarrow> gl_call list \<Rightarrow> u32 list" where
  "live k tr = fold (live_step k) tr []"

fun contents_step :: "u32 \<Rightarrow> gl_call \<Rightarrow> u8 option list \<Rightarrow> u8 option list" where
  "contents_step b (GlCreateBuffers b') c = (if b' = b then [] else c)"
| "contents_step b (GlNamedBufferStorage b' n data) c =
     (if b' = b then (case data of None \<Rightarrow> replicate n None | Some bs \<Rightarrow> map Some bs) else c)"
| "contents_step b (GlNamedBufferData b' n data _) c =
     (if b' = b then (case data of None \<Rightarrow> replicate n None | Some bs \<Rightarrow> map Some bs) else c)"
| "contents_step b (GlNamedBufferSubData b' off bs) c =
     (if b' = b \<and> off + length bs \<le> length c then overwrite c off (map Some bs) else c)"
| "contents_step b (GlDeleteBuffers ns) c = (if b \<noteq> 0 \<and> b \<in> set ns then [] else c)"
| "contents_step b _ c = c"

definition contents :: "u32 \<Rightarrow> gl_call list \<Rightarrow> u8 option list" where
  "contents b tr = fold (contents_step b) tr []"

fun mapping_step :: "u32 \<Rightarrow> gl_call \<Rightarrow> nat option \<Rightarrow> nat option" where
  "mapping_step b (GlCreateBuffers b') m = (if b' = b then None else m)"
| "mapping_step b (GlMapNamedBufferRange b' _ _ _ blk) m = (if b' = b then blk else m)"
| "mapping_step b (GlUnmapNamedBuffer b') m = (if b' = b then None else m)"
| "mapping_step b (GlDeleteBuffers ns) m = (if b \<noteq> 0 \<and> b \<in> set ns then None else m)"
| "mapping_step b _ m = m"

definition mapping_of :: "u32 \<Rightarrow> gl_call list \<Rightarrow> nat option" where
  "mapping_of b tr = fold (mapping_step b) tr None"

fun call_block :: "gl_call \<Rightarrow> nat option" where
  "call_block (GlMapNamedBufferRange _ _ _ _ b) = b"
| "call_block _ = None"

definition used_blocks :: "gl_call list \<Rightarrow> nat list" where
  "used_blocks tr = List.map_filter call_block tr"

text \<open>What the GPU reads from a buffer: its mapped block, or its contents if all were written.\<close>

definition gpu_bytes :: "gl_world \<Rightarrow> u32 \<Rightarrow> u8 list option" where
  "gpu_bytes w b =
     (case mapping_of b (calls w) of
        Some blk \<Rightarrow> gl_memory w blk
      | None \<Rightarrow> those (contents b (calls w)))"

section \<open>What the engine relies on\<close>

definition agrees :: "u8 option list \<Rightarrow> u8 list \<Rightarrow> bool" where
  "agrees c bs \<longleftrightarrow> list_all2 (\<lambda>o' x. case o' of None \<Rightarrow> True | Some y \<Rightarrow> y = x) c bs"

text \<open>
  For histories of a realistic length: a new name is not zero and not live; the size of a buffer
  is that of its storage; mapping the whole of a non-empty live buffer succeeds and gives its bytes.
\<close>

definition gl_documented :: "gl_driver \<Rightarrow> bool" where
  "gl_documented drv \<longleftrightarrow>
     (\<forall>tr. length tr < 2 ^ 31 \<longrightarrow>
        (\<forall>k. new_name drv tr k \<noteq> 0 \<and> new_name drv tr k \<notin> set (live k tr)) \<and>
        (\<forall>b. length (contents b tr) < 2 ^ 31 \<longrightarrow> buffer_size drv tr b = length (contents b tr)) \<and>
        (\<forall>b. b \<in> set (live BufferObj tr) \<longrightarrow> contents b tr \<noteq> [] \<longrightarrow>
           (\<exists>blk bytes. map_range drv tr b 0 (length (contents b tr)) = Some (blk, bytes) \<and>
             agrees (contents b tr) bytes \<and> blk \<notin> set (used_blocks tr))))"

lemma documented_name:
  "gl_documented drv \<Longrightarrow> length tr < 2 ^ 31 \<Longrightarrow>
   new_name drv tr k \<noteq> 0 \<and> new_name drv tr k \<notin> set (live k tr)"
  by (simp add: gl_documented_def)

lemma documented_size:
  "gl_documented drv \<Longrightarrow> length tr < 2 ^ 31 \<Longrightarrow> length (contents b tr) < 2 ^ 31 \<Longrightarrow>
   buffer_size drv tr b = length (contents b tr)"
  by (simp add: gl_documented_def)

lemma documented_map:
  "gl_documented drv \<Longrightarrow> length tr < 2 ^ 31 \<Longrightarrow> b \<in> set (live BufferObj tr) \<Longrightarrow> contents b tr \<noteq> [] \<Longrightarrow>
   \<exists>blk bytes. map_range drv tr b 0 (length (contents b tr)) = Some (blk, bytes) \<and>
     agrees (contents b tr) bytes \<and> blk \<notin> set (used_blocks tr)"
  by (simp add: gl_documented_def)

lemma agrees_defined: "agrees (map Some xs) bs \<longleftrightarrow> bs = xs"
  by (induction xs arbitrary: bs) (auto simp: agrees_def list_all2_Cons1)

lemma those_map_Some [simp]: "those (map Some xs) = Some xs"
  by (induction xs) simp_all

section \<open>Histories\<close>

lemma history_append:
  "live k (tr @ [c]) = live_step k c (live k tr)"
  "contents b (tr @ [c]) = contents_step b c (contents b tr)"
  "mapping_of b (tr @ [c]) = mapping_step b c (mapping_of b tr)"
  by (simp_all add: live_def contents_def mapping_of_def)

lemma history_fold:
  "live k (tr @ cs) = fold (live_step k) cs (live k tr)"
  "contents b (tr @ cs) = fold (contents_step b) cs (contents b tr)"
  "mapping_of b (tr @ cs) = fold (mapping_step b) cs (mapping_of b tr)"
  by (simp_all add: live_def contents_def mapping_of_def)

lemma used_blocks_append [simp]: "used_blocks (xs @ ys) = used_blocks xs @ used_blocks ys"
  by (simp add: used_blocks_def List.map_filter_def)

lemma used_blocks_one: "used_blocks [c] = (case call_block c of None \<Rightarrow> [] | Some b \<Rightarrow> [b])"
  by (simp add: used_blocks_def List.map_filter_def split: option.splits)

lemma used_blocks_Cons:
  "used_blocks (c # cs) = (case call_block c of None \<Rightarrow> used_blocks cs | Some b \<Rightarrow> b # used_blocks cs)"
  "used_blocks [] = []"
  by (simp_all add: used_blocks_def List.map_filter_def split: option.splits)

text \<open>Calls that do not concern a given buffer.\<close>

fun leaves_buffer :: "u32 \<Rightarrow> gl_call \<Rightarrow> bool" where
  "leaves_buffer b (GlCreateBuffers b') = (b' \<noteq> b)"
| "leaves_buffer b (GlNamedBufferStorage b' _ _) = (b' \<noteq> b)"
| "leaves_buffer b (GlNamedBufferData b' _ _ _) = (b' \<noteq> b)"
| "leaves_buffer b (GlNamedBufferSubData b' _ _) = (b' \<noteq> b)"
| "leaves_buffer b (GlMapNamedBufferRange b' _ _ _ _) = (b' \<noteq> b)"
| "leaves_buffer b (GlUnmapNamedBuffer b') = (b' \<noteq> b)"
| "leaves_buffer b (GlDeleteBuffers ns) = (b = 0 \<or> b \<notin> set ns)"
| "leaves_buffer b _ = True"

lemma leaves_buffer_step:
  assumes "leaves_buffer b c"
  shows "contents_step b c x = x" "mapping_step b c m = m" "b \<in> set l \<Longrightarrow> b \<in> set (live_step BufferObj c l)"
  using assms by (cases c; auto simp: live_step_def)+

lemma leaves_buffer_all:
  assumes "\<forall>c\<in>set cs. leaves_buffer b c"
  shows "contents b (tr @ cs) = contents b tr" "mapping_of b (tr @ cs) = mapping_of b tr"
    "b \<in> set (live BufferObj tr) \<Longrightarrow> b \<in> set (live BufferObj (tr @ cs))"
  using assms
proof (induction cs rule: rev_induct)
  case (snoc c cs)
  { case 1 then show ?case using snoc.IH by (simp add: leaves_buffer_step history_append flip: append_assoc) }
  { case 2 then show ?case using snoc.IH by (simp add: leaves_buffer_step history_append flip: append_assoc) }
  { case 3 then show ?case using snoc.IH by (simp add: leaves_buffer_step history_append flip: append_assoc) }
qed simp_all

lemma mapping_used:
  "mapping_of b tr = Some blk \<Longrightarrow> blk \<in> set (used_blocks tr)"
proof (induction tr rule: rev_induct)
  case Nil
  then show ?case by (simp add: mapping_of_def)
next
  case (snoc c tr)
  then show ?case
    by (cases c) (auto simp: history_append used_blocks_one split: if_splits)
qed

section \<open>Frames\<close>

text \<open>
  From \<open>w\<close> to \<open>w'\<close> at most \<open>n\<close> calls were made, none of which concerns a buffer that was live
  in \<open>w\<close> and is not in \<open>S\<close>, and no block mapped before was changed.
\<close>

definition frame :: "u32 set \<Rightarrow> nat \<Rightarrow> gl_world \<Rightarrow> gl_world \<Rightarrow> bool" where
  "frame S n w w' \<longleftrightarrow>
     (\<exists>cs. calls w' = calls w @ cs \<and> length cs \<le> n \<and>
        (\<forall>c\<in>set cs. \<forall>b\<in>set (live BufferObj (calls w)) - S. leaves_buffer b c)) \<and>
     (\<forall>blk\<in>set (used_blocks (calls w)). gl_memory w' blk = gl_memory w blk)"

lemma frame_refl [simp]: "frame S n w w"
  by (simp add: frame_def)

lemma frame_live:
  "frame S n w w' \<Longrightarrow> b \<in> set (live BufferObj (calls w)) \<Longrightarrow> b \<notin> S \<Longrightarrow> b \<in> set (live BufferObj (calls w'))"
  by (auto simp: frame_def leaves_buffer_all)

lemma frame_used: "frame S n w w' \<Longrightarrow> set (used_blocks (calls w)) \<subseteq> set (used_blocks (calls w'))"
  by (auto simp: frame_def)

lemma frame_length: "frame S n w w' \<Longrightarrow> length (calls w') \<le> length (calls w) + n"
  by (auto simp: frame_def)

lemma frame_memory: "frame S n w w' \<Longrightarrow> blk \<in> set (used_blocks (calls w)) \<Longrightarrow> gl_memory w' blk = gl_memory w blk"
  by (auto simp: frame_def)

lemma frame_history:
  assumes "frame S n w w'" "b \<in> set (live BufferObj (calls w))" "b \<notin> S"
  shows "contents b (calls w') = contents b (calls w)" "mapping_of b (calls w') = mapping_of b (calls w)"
  using assms by (auto simp: frame_def leaves_buffer_all)

lemma frame_gpu_bytes:
  assumes "frame S n w w'" "b \<in> set (live BufferObj (calls w))" "b \<notin> S"
  shows "gpu_bytes w' b = gpu_bytes w b"
  using frame_history [OF assms] frame_memory [OF assms(1)] mapping_used [of b "calls w"]
  by (auto simp: gpu_bytes_def split: option.splits)

lemma frame_trans:
  assumes "frame S m w w'" "frame T n w' w''"
  shows "frame (S \<union> T) (m + n) w w''"
proof -
  obtain cs where cs: "calls w' = calls w @ cs" "length cs \<le> m"
    "\<forall>c\<in>set cs. \<forall>b\<in>set (live BufferObj (calls w)) - S. leaves_buffer b c"
    using assms(1) by (auto simp: frame_def)
  obtain ds where ds: "calls w'' = calls w' @ ds" "length ds \<le> n"
    "\<forall>c\<in>set ds. \<forall>b\<in>set (live BufferObj (calls w')) - T. leaves_buffer b c"
    using assms(2) by (auto simp: frame_def)
  have "\<forall>c\<in>set ds. \<forall>b\<in>set (live BufferObj (calls w)) - (S \<union> T). leaves_buffer b c"
    using ds(3) frame_live [OF assms(1)] by blast
  moreover have "gl_memory w'' blk = gl_memory w blk" if "blk \<in> set (used_blocks (calls w))" for blk
    using frame_memory [OF assms(1) that] frame_memory [OF assms(2)] frame_used [OF assms(1)] that by auto
  ultimately show ?thesis
    unfolding frame_def using cs ds by (intro conjI exI [of _ "cs @ ds"]) auto
qed

lemma frame_weaken: "frame S m w w' \<Longrightarrow> m \<le> n \<Longrightarrow> S \<subseteq> T \<Longrightarrow> frame T n w w'"
  unfolding frame_def by (elim conjE exE) (intro conjI exI, auto)

lemma frame_chain:
  assumes "frame S m w w'" "frame T n w' w''" "S \<subseteq> U" "T \<subseteq> U" "m + n \<le> k"
  shows "frame U k w w''"
  using frame_weaken [OF frame_trans [OF assms(1,2)]] assms(3-) by simp

text \<open>Buffers made after \<open>w\<close> may be in the exception set.\<close>

lemma frame_forget:
  "frame S n w w' \<Longrightarrow> S \<inter> set (live BufferObj (calls w)) \<subseteq> T \<Longrightarrow> frame T n w w'"
  unfolding frame_def by blast

lemma frame_emit:
  "(\<And>b. b \<in> set (live BufferObj (calls w)) \<Longrightarrow> b \<notin> S \<Longrightarrow> leaves_buffer b c) \<Longrightarrow> frame S 1 w (emit c w)"
  by (simp add: frame_def)

lemma frame_emit_all:
  "(\<And>b c. b \<in> set (live BufferObj (calls w)) \<Longrightarrow> b \<notin> S \<Longrightarrow> c \<in> set cs \<Longrightarrow> leaves_buffer b c) \<Longrightarrow> length cs \<le> n \<Longrightarrow>
   frame S n w (emit_all cs w)"
  by (simp add: frame_def)

text \<open>Calls that concern no buffer at all.\<close>

definition bufferless :: "gl_call \<Rightarrow> bool" where
  "bufferless c \<longleftrightarrow> (\<forall>b. leaves_buffer b c)"

lemma frame_emit_bufferless: "bufferless c \<Longrightarrow> frame S 1 w (emit c w)"
  by (rule frame_emit) (simp add: bufferless_def)

lemma frame_emit_all_bufferless: "\<forall>c\<in>set cs. bufferless c \<Longrightarrow> length cs \<le> n \<Longrightarrow> frame S n w (emit_all cs w)"
  by (rule frame_emit_all) (simp_all add: bufferless_def)

section \<open>A driver that behaves as documented\<close>

definition name_candidates :: "nat \<Rightarrow> u32 list" where
  "name_candidates m = map of_nat [1..<m + 2]"

definition simple_driver :: gl_driver where
  "simple_driver =
     \<lparr>new_name = (\<lambda>tr k. hd (filter (\<lambda>n. n \<notin> set (live k tr)) (name_candidates (length tr)))),
      buffer_size = (\<lambda>tr b. length (contents b tr)),
      map_range = (\<lambda>tr b off n. Some (fold max (used_blocks tr) 0 + 1,
        map (\<lambda>o'. case o' of None \<Rightarrow> 0 | Some x \<Rightarrow> x) (contents b tr))),
      compile_status = (\<lambda>_ _. True), link_status = (\<lambda>_ _. True), validate_status = (\<lambda>_ _. True),
      window_size = (\<lambda>_. (800, 600)), clear_value = (\<lambda>_. [0, 0, 0, 0])\<rparr>"

lemma length_live_step: "length (live_step k c l) \<le> Suc (length l)"
  by (auto simp: live_step_def le_SucI split: option.splits)

lemma length_live: "length (live k tr) \<le> length tr"
proof (induction tr rule: rev_induct)
  case (snoc c tr)
  then show ?case using length_live_step [of k c "live k tr"] by (simp add: history_append)
qed (simp add: live_def)

lemma name_candidates_props:
  assumes "m < 2 ^ 31"
  shows "n \<in> set (name_candidates m) \<Longrightarrow> n \<noteq> 0" "card (set (name_candidates m)) = m + 1"
proof -
  have un: "unat (of_nat n :: u32) = n" if "n \<in> {1..<m + 2}" for n
  proof (rule unat_of_nat_u32)
    show "n < 2 ^ 32" using that assms by simp
  qed
  show "n \<noteq> 0" if n: "n \<in> set (name_candidates m)"
  proof -
    obtain i where "i \<in> {1..<m + 2}" "n = of_nat i"
      using n unfolding name_candidates_def set_map set_upt by auto
    then show ?thesis using un [of i] by (metis atLeastLessThan_iff not_one_le_zero unat_0)
  qed
  have "inj_on (of_nat :: nat \<Rightarrow> u32) {1..<m + 2}"
    by (rule inj_on_inverseI [where g = unat]) (rule un)
  then show "card (set (name_candidates m)) = m + 1"
    unfolding name_candidates_def set_map set_upt by (simp add: card_image)
qed

lemma free_name_exists:
  assumes "length l \<le> m" "m < 2 ^ 31"
  shows "\<exists>n\<in>set (name_candidates m). n \<notin> set l"
proof (rule ccontr)
  assume "\<not> ?thesis"
  then have "card (set (name_candidates m)) \<le> card (set l)" by (intro card_mono) auto
  then show False using card_length [of l] assms name_candidates_props(2) [OF assms(2)] by simp
qed

lemma fold_max_above: "x \<in> set xs \<Longrightarrow> x \<le> fold max xs (y::nat)"
proof (induction xs rule: rev_induct)
  case (snoc z zs)
  then show ?case by (auto simp: le_max_iff_disj)
qed simp

lemma simple_driver_documented: "gl_documented simple_driver"
  unfolding gl_documented_def
proof (intro allI impI conjI)
  fix tr k assume len: "length (tr :: gl_call list) < 2 ^ 31"
  let ?c = "filter (\<lambda>n. n \<notin> set (live k tr)) (name_candidates (length tr))"
  have "?c \<noteq> []"
    using free_name_exists [OF length_live len, of k] by (auto simp: filter_empty_conv)
  then have mem: "new_name simple_driver tr k \<in> set ?c"
    using hd_in_set [of ?c] by (simp add: simple_driver_def)
  then show "new_name simple_driver tr k \<notin> set (live k tr)" by simp
  show "new_name simple_driver tr k \<noteq> 0"
    using mem name_candidates_props(1) [OF len] by simp
next
  fix tr :: "gl_call list" and b
  show "buffer_size simple_driver tr b = length (contents b tr)" by (simp add: simple_driver_def)
next
  fix tr :: "gl_call list" and b
  have "Suc (fold max (used_blocks tr) 0) \<notin> set (used_blocks tr)"
    using fold_max_above [of _ "used_blocks tr" 0] by fastforce
  then show "\<exists>blk bytes. map_range simple_driver tr b 0 (length (contents b tr)) = Some (blk, bytes) \<and>
      agrees (contents b tr) bytes \<and> blk \<notin> set (used_blocks tr)"
    by (auto simp: simple_driver_def agrees_def list_all2_conv_all_nth split: option.splits)
qed

end
