(* ===== verification/Ogl_Buffer.thy ===== *)
theory Ogl_Buffer
  imports Gl_Machine
begin

text \<open>
  \<open>gl/impl/backend/ogl/buffer.cpp\<close>: the class that owns one OpenGL buffer.  The lemmas give the
  effect of every way the renderer uses it: filling a new buffer, mapping it, and updating it.
\<close>

record Buffer =
  buf :: u32
  buf_kind :: BufferKind
  buf_usage :: BufferUsage
  mapped_ptr :: "ptr option"

definition buffer_new ::
    "gl_driver \<Rightarrow> BufferKind \<Rightarrow> BufferPurpose \<Rightarrow> BufferUsage \<Rightarrow> nat \<Rightarrow> gl_world \<Rightarrow> Buffer \<times> gl_world" where
  "buffer_new drv kind purpose usage bytes w =
     (let name = new_name drv (calls w) BufferObj;
          w = emit (GlCreateBuffers name) w;
          w = (case usage of
                 PersistentMapped \<Rightarrow> emit (GlNamedBufferStorage name bytes None) w
               | ReadWrite \<Rightarrow> emit (GlNamedBufferData name bytes None purpose) w)
      in (\<lparr>buf = name, buf_kind = kind, buf_usage = usage, mapped_ptr = None\<rparr>, w))"

definition buffer_null :: Buffer where
  "buffer_null = \<lparr>buf = 0, buf_kind = VertexBuf, buf_usage = ReadWrite, mapped_ptr = None\<rparr>"

text \<open>The move assignment swaps all members; the destructor deletes the name it is left with.\<close>

definition buffer_move_assign :: "Buffer \<Rightarrow> Buffer \<Rightarrow> Buffer \<times> Buffer" where
  "buffer_move_assign self rhs = (rhs, self)"

text \<open>Unmapping a buffer, and deleting a mapped one, ends the lifetime of its block.\<close>

definition release_block :: "Buffer \<Rightarrow> gl_world \<Rightarrow> gl_world" where
  "release_block self w =
     (case mapped_ptr self of None \<Rightarrow> w | Some p \<Rightarrow> w\<lparr>gl_memory := (gl_memory w)(block p := None)\<rparr>)"

definition buffer_destroy :: "Buffer \<Rightarrow> gl_world \<Rightarrow> gl_world" where
  "buffer_destroy self w = release_block self (emit (GlDeleteBuffers [buf self]) w)"

definition buffer_write :: "Buffer \<Rightarrow> u8 list \<Rightarrow> gl_world \<Rightarrow> gl_world outcome" where
  "buffer_write self addr w =
     (case mapped_ptr self of
        Some p \<Rightarrow> and_then (mem_write (gl_memory w) p addr) (\<lambda>mem. Inr (w\<lparr>gl_memory := mem\<rparr>))
      | None \<Rightarrow> Inr (emit (GlNamedBufferSubData (buf self) 0 addr) w))"

definition buffer_map_memory ::
    "gl_driver \<Rightarrow> Buffer \<Rightarrow> gl_world \<Rightarrow> ptr option \<times> Buffer \<times> gl_world" where
  "buffer_map_memory drv self w =
     (case mapped_ptr self of
        Some p \<Rightarrow> (Some p, self, w)
      | None \<Rightarrow>
          (let buf_size = buffer_size drv (calls w) (buf self);
               w = emit (GlGetBufferSize (buf self)) w;
               persistent = (buf_usage self = PersistentMapped);
               answer = map_range drv (calls w) (buf self) 0 buf_size;
               w = emit (GlMapNamedBufferRange (buf self) 0 buf_size persistent (map_option fst answer)) w
           in case answer of
                None \<Rightarrow> (None, self\<lparr>mapped_ptr := None\<rparr>, w)
              | Some (blk, bytes) \<Rightarrow>
                  (let p = \<lparr>block = blk, offset = 0\<rparr>
                   in (Some p, self\<lparr>mapped_ptr := Some p\<rparr>,
                       w\<lparr>gl_memory := (gl_memory w)(blk \<mapsto> bytes)\<rparr>))))"

definition buffer_unmap_memory :: "Buffer \<Rightarrow> gl_world \<Rightarrow> Buffer \<times> gl_world" where
  "buffer_unmap_memory self w =
     (self\<lparr>mapped_ptr := None\<rparr>, release_block self (emit (GlUnmapNamedBuffer (buf self)) w))"

definition buffer_bind :: "Buffer \<Rightarrow> gl_world \<Rightarrow> gl_world" where
  "buffer_bind self w = emit (GlBindBuffer (buf_kind self) (buf self)) w"

definition buffer_is_null :: "Buffer \<Rightarrow> bool" where
  "buffer_is_null self = (buf self = 0)"

text \<open>
  \<open>opt = Buffer{...}\<close> on a \<open>std::optional<Buffer>\<close>: the temporary is swapped with the held
  buffer, or with an empty one, and then destroyed.
\<close>

definition optional_assign_new ::
    "gl_driver \<Rightarrow> Buffer option \<Rightarrow> BufferKind \<Rightarrow> BufferPurpose \<Rightarrow> BufferUsage \<Rightarrow> nat \<Rightarrow> gl_world \<Rightarrow>
     Buffer \<times> gl_world" where
  "optional_assign_new drv opt kind purpose usage bytes w =
     (let (temp, w) = buffer_new drv kind purpose usage bytes w;
          (self, temp) = buffer_move_assign (case opt of None \<Rightarrow> buffer_null | Some b \<Rightarrow> b) temp
      in (self, buffer_destroy temp w))"

definition optional_reset :: "Buffer option \<Rightarrow> gl_world \<Rightarrow> gl_world" where
  "optional_reset opt w = (case opt of None \<Rightarrow> w | Some b \<Rightarrow> buffer_destroy b w)"

section \<open>Effects\<close>

text \<open>A buffer that is live, holds exactly the given bytes, and is not mapped.\<close>

definition holds :: "gl_world \<Rightarrow> Buffer \<Rightarrow> u8 list \<Rightarrow> bool" where
  "holds w b bytes \<longleftrightarrow> buf b \<in> set (live BufferObj (calls w)) \<and> gpu_bytes w (buf b) = Some bytes"

definition unmapped_buffer :: "gl_world \<Rightarrow> Buffer \<Rightarrow> bool" where
  "unmapped_buffer w b \<longleftrightarrow> mapped_ptr b = None \<and> mapping_of (buf b) (calls w) = None"

lemma holds_frame: "holds w b bytes \<Longrightarrow> frame S n w w' \<Longrightarrow> buf b \<notin> S \<Longrightarrow> holds w' b bytes"
  by (simp add: holds_def frame_live frame_gpu_bytes)

lemma buffer_null_simps [simp]:
  "buf buffer_null = 0" "mapped_ptr buffer_null = None" "buffer_is_null buffer_null"
  by (simp_all add: buffer_null_def buffer_is_null_def)

lemma overwrite_all: "length ys = length xs \<Longrightarrow> overwrite xs 0 ys = ys"
  by (simp add: overwrite_def)

text \<open>Creating storage of the right size and writing it once, as the renderer always does.\<close>

definition fill_new ::
    "gl_driver \<Rightarrow> BufferKind \<Rightarrow> BufferPurpose \<Rightarrow> BufferUsage \<Rightarrow> u8 list \<Rightarrow> gl_world \<Rightarrow> (Buffer \<times> gl_world) outcome" where
  "fill_new drv kind purpose usage bytes w =
     (let (b, w) = optional_assign_new drv None kind purpose usage (length bytes) w
      in and_then (buffer_write b bytes w) (\<lambda>w. Inr (b, w)))"

lemma fill_new_effect:
  assumes "gl_documented drv" "length (calls w) < 2 ^ 31"
  shows "\<exists>b w'. fill_new drv kind purpose usage bytes w = Inr (b, w') \<and> frame {} 4 w w' \<and>
    holds w' b bytes \<and> unmapped_buffer w' b \<and> buf b \<noteq> 0 \<and> buf b \<notin> set (live BufferObj (calls w)) \<and>
    contents (buf b) (calls w') = map Some bytes \<and> buf_usage b = usage \<and> buf_kind b = kind \<and>
    gl_memory w' = gl_memory w \<and> used_blocks (calls w') = used_blocks (calls w)"
proof -
  define n where "n = new_name drv (calls w) BufferObj"
  define b where "b = \<lparr>buf = n, buf_kind = kind, buf_usage = usage, mapped_ptr = None\<rparr>"
  define storage where "storage = (case usage of
      PersistentMapped \<Rightarrow> GlNamedBufferStorage n (length bytes) None
    | ReadWrite \<Rightarrow> GlNamedBufferData n (length bytes) None purpose)"
  define cs where "cs = [GlCreateBuffers n, storage, GlDeleteBuffers [0], GlNamedBufferSubData n 0 bytes]"
  define w' where "w' = emit_all cs w"
  have n: "n \<noteq> 0" "n \<notin> set (live BufferObj (calls w))"
    using documented_name [OF assms] by (simp_all add: n_def)
  have run: "fill_new drv kind purpose usage bytes w = Inr (b, w')"
    by (cases usage) (simp_all add: fill_new_def optional_assign_new_def buffer_new_def n_def [symmetric]
      buffer_move_assign_def buffer_destroy_def release_block_def buffer_write_def emit_def emit_all_def
      w'_def cs_def storage_def b_def)
  have hist: "n \<in> set (live BufferObj (calls w'))" "contents n (calls w') = map Some bytes"
    "mapping_of n (calls w') = None"
    unfolding w'_def calls_emit_all history_fold cs_def storage_def
    using n by (cases usage; simp add: live_step_def overwrite_all)+
  moreover have "frame {} 4 w w'"
    unfolding w'_def using n by (cases usage; intro frame_emit_all) (auto simp: cs_def storage_def)
  moreover have "used_blocks cs = []"
    by (cases usage) (simp_all add: cs_def storage_def used_blocks_Cons)
  moreover have "gl_memory w' = gl_memory w" "calls w' = calls w @ cs"
    by (simp_all add: w'_def)
  ultimately show ?thesis
    using run n by (intro exI [of _ b] exI [of _ w'])
      (simp add: holds_def unmapped_buffer_def gpu_bytes_def b_def)
qed

lemma map_memory_effect:
  assumes doc: "gl_documented drv" "length (calls w) + 2 < 2 ^ 31"
    and b: "unmapped_buffer w b" "buf b \<in> set (live BufferObj (calls w))" "contents (buf b) (calls w) = map Some bytes"
    and sz: "bytes \<noteq> []" "length bytes < 2 ^ 31"
  shows "\<exists>p w'. buffer_map_memory drv b w = (Some p, b\<lparr>mapped_ptr := Some p\<rparr>, w') \<and> offset p = 0 \<and>
    gl_memory w' (block p) = Some bytes \<and> block p \<notin> set (used_blocks (calls w)) \<and>
    holds w' (b\<lparr>mapped_ptr := Some p\<rparr>) bytes \<and> mapping_of (buf b) (calls w') = Some (block p) \<and>
    frame {buf b} 2 w w' \<and> block p \<in> set (used_blocks (calls w'))"
proof -
  define w1 where "w1 = emit (GlGetBufferSize (buf b)) w"
  have same: "contents (buf b) (calls w1) = map Some bytes" "buf b \<in> set (live BufferObj (calls w1))"
    "used_blocks (calls w1) = used_blocks (calls w)"
    using b by (simp_all add: w1_def history_append live_step_def used_blocks_one)
  obtain blk bs where ans: "map_range drv (calls w1) (buf b) 0 (length bytes) = Some (blk, bs)"
    "agrees (map Some bytes) bs" "blk \<notin> set (used_blocks (calls w))"
    using documented_map [OF doc(1), of "calls w1" "buf b"] same doc(2) sz(1) by (auto simp: w1_def)
  have size: "buffer_size drv (calls w) (buf b) = length bytes"
    using documented_size [OF doc(1), of "calls w" "buf b"] doc(2) b(3) sz(2) by simp
  define w2 where "w2 = (emit (GlMapNamedBufferRange (buf b) 0 (length bytes) (buf_usage b = PersistentMapped) (Some blk)) w1)
    \<lparr>gl_memory := (gl_memory w)(blk \<mapsto> bytes)\<rparr>"
  define p where "p = \<lparr>block = blk, offset = 0\<rparr>"
  have "buffer_map_memory drv b w = (Some p, b\<lparr>mapped_ptr := Some p\<rparr>, w2)"
    using b(1) ans by (simp add: buffer_map_memory_def unmapped_buffer_def Let_def size w2_def p_def agrees_defined
      flip: w1_def) (simp add: w1_def)
  moreover have c2: "calls w2 = calls w @ [GlGetBufferSize (buf b),
      GlMapNamedBufferRange (buf b) 0 (length bytes) (buf_usage b = PersistentMapped) (Some blk)]"
    by (simp add: w2_def w1_def)
  moreover have "mapping_of (buf b) (calls w2) = Some blk" "buf b \<in> set (live BufferObj (calls w2))"
    "used_blocks (calls w2) = used_blocks (calls w) @ [blk]"
    using b(2) by (simp_all add: c2 history_fold live_step_def used_blocks_Cons)
  moreover have m2: "gl_memory w2 = (gl_memory w)(blk \<mapsto> bytes)" by (simp add: w2_def)
  moreover have "frame {buf b} 2 w w2"
    using ans(3) by (auto simp: frame_def c2 m2)
  ultimately show ?thesis
    using ans(3) by (intro exI [of _ p] exI [of _ w2]) (simp add: p_def holds_def gpu_bytes_def)
qed

lemma buffer_write_fits:
  assumes "unmapped_buffer w b" "length bytes = length (contents (buf b) (calls w))"
    "buf b \<in> set (live BufferObj (calls w))"
  shows "\<exists>w'. buffer_write b bytes w = Inr w' \<and> holds w' b bytes \<and> unmapped_buffer w' b \<and>
    w' = emit (GlNamedBufferSubData (buf b) 0 bytes) w"
  using assms
  by (simp add: buffer_write_def unmapped_buffer_def holds_def gpu_bytes_def history_append live_step_def overwrite_all)

text \<open>An update longer than the storage is rejected: the buffer keeps its old contents.\<close>

lemma buffer_write_too_long:
  assumes "unmapped_buffer w b" "length (contents (buf b) (calls w)) < length bytes"
  shows "\<exists>w'. buffer_write b bytes w = Inr w' \<and> gpu_bytes w' (buf b) = gpu_bytes w (buf b)"
  using assms by (simp add: buffer_write_def unmapped_buffer_def gpu_bytes_def history_append)

end
