(* ===== verification/Ogl_Shader.thy ===== *)
theory Ogl_Shader
  imports Gl_Machine
begin

text \<open>
  \<open>gl/impl/frontend/ogl/shader.cpp\<close>: the shader builder and the shader program it makes.  The
  file system is the argument \<open>read_file\<close> (\<open>None\<close> for a file that cannot be opened).  The
  lemmas give the exact calls a shader makes and show that in a debug build a shader object
  exists only if the driver accepted both stages and the program.
\<close>

datatype ShaderType = VertexShader | FragmentShader

record ShaderBuilderOGL =
  vertex_shader_source :: string
  fragment_shader_source :: string

definition shader_builder_ogl :: ShaderBuilderOGL where
  "shader_builder_ogl = \<lparr>vertex_shader_source = [], fragment_shader_source = []\<rparr>"

definition set_shader_source :: "ShaderBuilderOGL \<Rightarrow> ShaderType \<Rightarrow> string \<Rightarrow> ShaderBuilderOGL" where
  "set_shader_source self ty source_code =
     (case ty of
        VertexShader \<Rightarrow> self\<lparr>vertex_shader_source := source_code\<rparr>
      | FragmentShader \<Rightarrow> self\<lparr>fragment_shader_source := source_code\<rparr>)"

text \<open>Without the assertion, the size of a stream that is not open converts to the largest size.\<close>

definition set_shader_file ::
    "bool \<Rightarrow> (string \<Rightarrow> string option) \<Rightarrow> ShaderBuilderOGL \<Rightarrow> ShaderType \<Rightarrow> string \<Rightarrow> ShaderBuilderOGL outcome" where
  "set_shader_file d read_file self ty shader_file =
     (let shader = read_file (shader_file @ ''.glsl'')
      in and_then (tz_assert d (shader \<noteq> None)) (\<lambda>_.
         case shader of
           None \<Rightarrow> Inl StdLengthError
         | Some buffer \<Rightarrow> Inr (set_shader_source self ty buffer)))"

definition get_shader_source :: "ShaderBuilderOGL \<Rightarrow> ShaderType \<Rightarrow> string" where
  "get_shader_source self ty =
     (case ty of VertexShader \<Rightarrow> vertex_shader_source self | FragmentShader \<Rightarrow> fragment_shader_source self)"

definition has_shader :: "ShaderBuilderOGL \<Rightarrow> ShaderType \<Rightarrow> bool" where
  "has_shader self ty = False"

record ShaderOGL =
  program :: u32
  vertex_shader :: u32
  fragment_shader :: u32

definition check_shader_error :: "bool \<Rightarrow> gl_driver \<Rightarrow> u32 \<Rightarrow> gl_world \<Rightarrow> gl_world outcome" where
  "check_shader_error d drv shader w =
     and_then (tz_assert d (compile_status drv (calls w) shader)) (\<lambda>_. Inr w)"

definition check_program_error :: "bool \<Rightarrow> gl_driver \<Rightarrow> u32 \<Rightarrow> gl_world \<Rightarrow> gl_world outcome" where
  "check_program_error d drv prog w =
     and_then (tz_assert d (link_status drv (calls w) prog)) (\<lambda>_.
     and_then (tz_assert d (validate_status drv (calls w) prog)) (\<lambda>_. Inr w))"

text \<open>\<open>glShaderSource\<close> is given no length, so it reads up to the first null character.\<close>

definition c_string :: "string \<Rightarrow> string" where
  "c_string s = takeWhile (\<lambda>c. c \<noteq> CHR 0x00) s"

definition shader_new ::
    "bool \<Rightarrow> gl_driver \<Rightarrow> ShaderBuilderOGL \<Rightarrow> gl_world \<Rightarrow> (ShaderOGL \<times> gl_world) outcome" where
  "shader_new d drv builder w =
     (let prog = new_name drv (calls w) ProgramObj;
          w = emit (GlCreateProgram prog) w;
          vs = new_name drv (calls w) ProgramObj;
          w = emit (GlCreateShader GL_VERTEX_SHADER vs) w;
          fs = new_name drv (calls w) ProgramObj;
          w = emit (GlCreateShader GL_FRAGMENT_SHADER fs) w;
          w = emit (GlAttachShader prog vs) w;
          w = emit (GlAttachShader prog fs) w;
          w = emit (GlShaderSource vs (c_string (get_shader_source builder VertexShader))) w;
          w = emit (GlShaderSource fs (c_string (get_shader_source builder FragmentShader))) w;
          w = emit (GlCompileShader vs) w
      in and_then (check_shader_error d drv vs w) (\<lambda>w.
         and_then (check_shader_error d drv fs (emit (GlCompileShader fs) w)) (\<lambda>w.
         let w = emit (GlLinkProgram prog) w;
             w = emit (GlValidateProgram prog) w
         in and_then (check_program_error d drv prog w) (\<lambda>w.
            Inr (\<lparr>program = prog, vertex_shader = vs, fragment_shader = fs\<rparr>, w)))))"

definition shader_move_assign :: "ShaderOGL \<Rightarrow> ShaderOGL \<Rightarrow> ShaderOGL \<times> ShaderOGL" where
  "shader_move_assign self rhs = (rhs, self)"

definition shader_move_new :: "ShaderOGL \<Rightarrow> ShaderOGL \<times> ShaderOGL" where
  "shader_move_new move =
     shader_move_assign \<lparr>program = 0, vertex_shader = 0, fragment_shader = 0\<rparr> move"

definition shader_destroy :: "ShaderOGL \<Rightarrow> gl_world \<Rightarrow> gl_world" where
  "shader_destroy self w =
     emit_all [GlDetachShader (program self) (vertex_shader self),
               GlDetachShader (program self) (fragment_shader self),
               GlDeleteShader (vertex_shader self), GlDeleteShader (fragment_shader self),
               GlDeleteProgram (program self)] w"

definition ogl_get_program_handle :: "ShaderOGL \<Rightarrow> u32" where
  "ogl_get_program_handle self = program self"

section \<open>Lemmas\<close>

lemma set_get_shader_source:
  "get_shader_source (set_shader_source b ty s) ty' = (if ty' = ty then s else get_shader_source b ty')"
  by (cases ty; cases ty') (simp_all add: set_shader_source_def get_shader_source_def)

lemma shader_new_release:
  "\<exists>s w'. shader_new False drv builder w = Inr (s, w')"
  by (simp add: shader_new_def Let_def check_shader_error_def check_program_error_def)

lemma shader_new_frame:
  assumes "shader_new d drv builder w = Inr (s, w')"
  shows "frame {} 12 w w'"
proof -
  define cs where "cs = [GlCreateProgram (program s), GlCreateShader GL_VERTEX_SHADER (vertex_shader s),
    GlCreateShader GL_FRAGMENT_SHADER (fragment_shader s), GlAttachShader (program s) (vertex_shader s),
    GlAttachShader (program s) (fragment_shader s),
    GlShaderSource (vertex_shader s) (c_string (get_shader_source builder VertexShader)),
    GlShaderSource (fragment_shader s) (c_string (get_shader_source builder FragmentShader)),
    GlCompileShader (vertex_shader s), GlCompileShader (fragment_shader s),
    GlLinkProgram (program s), GlValidateProgram (program s)]"
  have "w' = emit_all cs w"
    using assms by (auto simp: shader_new_def Let_def check_shader_error_def check_program_error_def
      outcome_simps emit_def emit_all_def cs_def)
  then show ?thesis by (simp add: frame_emit_all_bufferless cs_def bufferless_def)
qed

section \<open>Properties\<close>

text \<open>
  C36. A shader object built in a debug build stands for a program the driver accepted: the
  sources given to the two stages are those set on the builder up to their first null
  character, the driver reported both stages compiled, and the program linked and validated.
  In a release build the checks are skipped and the same calls are made.
\<close>

theorem shader_new_accepted:
  assumes "shader_new d drv builder w = Inr (s, w')"
  shows "\<exists>pre. calls w' = calls w @ pre @
      [GlShaderSource (vertex_shader s) (c_string (vertex_shader_source builder)),
       GlShaderSource (fragment_shader s) (c_string (fragment_shader_source builder)),
       GlCompileShader (vertex_shader s), GlCompileShader (fragment_shader s),
       GlLinkProgram (program s), GlValidateProgram (program s)] \<and>
    (d \<longrightarrow> compile_status drv (butlast (butlast (butlast (calls w')))) (vertex_shader s) \<and>
         compile_status drv (butlast (butlast (calls w'))) (fragment_shader s) \<and>
         link_status drv (calls w') (program s) \<and> validate_status drv (calls w') (program s))"
  using assms
  by (auto simp: shader_new_def Let_def check_shader_error_def check_program_error_def outcome_simps
    get_shader_source_def butlast_append emit_def)

theorem shader_new_accepted_witness:
  "\<exists>s w'. shader_new True simple_driver (set_shader_source shader_builder_ogl VertexShader ''v'') \<lparr>calls = [], gl_memory = (\<lambda>_. None)\<rparr> = Inr (s, w') \<and>
    link_status simple_driver (calls w') (program s)"
proof -
  obtain s w' where "shader_new True simple_driver (set_shader_source shader_builder_ogl VertexShader ''v'')
      \<lparr>calls = [], gl_memory = (\<lambda>_. None)\<rparr> = Inr (s, w')"
    by (simp add: shader_new_def Let_def check_shader_error_def check_program_error_def simple_driver_def)
  then show ?thesis using shader_new_accepted by blast
qed

end
