(* ===== verification/Gl_Input.thy ===== *)
theory Gl_Input
  imports Byte_Memory Containers
begin

text \<open>
  Renderer inputs: the enumerations of \<open>gl/impl/frontend/common\<close>, the element formats of
  \<open>gl/api/renderer.hpp\<close>, \<open>gl/mesh.hpp\<close> and the two input classes of \<open>gl/input.cpp\<close>.

  A float is kept as its 32-bit pattern, so a \<open>Vertex\<close> is fourteen of them and occupies 56
  bytes without padding.  A \<open>MeshDynamicInput\<close> holds either its own copy of the mesh or
  pointers into memory mapped by a renderer; reading through those pointers needs the memory
  and can fault.
\<close>

section \<open>Enumerations and formats\<close>

datatype RendererInputFrequency = PerVertexBasis | PerInstanceBasis

datatype RendererComponentType = Float32 | Float32x2 | Float32x3

datatype RendererCullingStrategy = NoCulling | CullFrontFaces | CullBackFaces | CullEverything

datatype RendererInputDataAccess = StaticFixed | DynamicFixed

datatype RendererOutputType = OutputWindow | OutputTexture

datatype RenderPassAttachment = Colour | Depth | ColourDepth

record RendererAttributeFormat =
  element_attribute_offset :: nat
  attribute_type :: RendererComponentType

record RendererElementFormat =
  binding_size :: nat
  basis :: RendererInputFrequency
  binding_attributes :: "RendererAttributeFormat BasicList"

section \<open>Meshes\<close>

record Vertex =
  position :: "u32 list"
  texcoord :: "u32 list"
  normal :: "u32 list"
  tangent :: "u32 list"
  bitangent :: "u32 list"

record Mesh =
  vertices :: "Vertex BasicList"
  indices :: "u32 BasicList"

definition wf_vertex :: "Vertex \<Rightarrow> bool" where
  "wf_vertex v \<longleftrightarrow> length (position v) = 3 \<and> length (texcoord v) = 2 \<and> length (normal v) = 3 \<and>
     length (tangent v) = 3 \<and> length (bitangent v) = 3"

definition wf_mesh :: "Mesh \<Rightarrow> bool" where
  "wf_mesh m \<longleftrightarrow> (\<forall>v\<in>set (vertices m). wf_vertex v)"

definition vertex_bytes :: "Vertex \<Rightarrow> u8 list" where
  "vertex_bytes v = encode_u32s (position v @ texcoord v @ normal v @ tangent v @ bitangent v)"

definition sizeof_Vertex :: nat where
  "sizeof_Vertex = 56"

definition vertices_as_bytes :: "Vertex list \<Rightarrow> u8 list" where
  "vertices_as_bytes vs = concat (map vertex_bytes vs)"

section \<open>MeshInput\<close>

datatype MeshInputIgnoreFlag =
  PositionIgnore | TexcoordIgnore | NormalIgnore | TangentIgnore | BitangentIgnore

record MeshInput =
  mesh :: Mesh
  ignores :: "MeshInputIgnoreFlag EnumField"

definition mesh_input :: "Mesh \<Rightarrow> MeshInputIgnoreFlag EnumField \<Rightarrow> MeshInput" where
  "mesh_input m igns = \<lparr>mesh = m, ignores = igns\<rparr>"

text \<open>One \<open>if(!ignores.contains(...)) attributes.add(...)\<close> of \<open>get_format\<close>.\<close>

definition add_attribute ::
    "MeshInputIgnoreFlag EnumField \<Rightarrow> MeshInputIgnoreFlag \<Rightarrow> nat \<Rightarrow> RendererComponentType \<Rightarrow>
     RendererAttributeFormat BasicList \<Rightarrow> RendererAttributeFormat BasicList" where
  "add_attribute igns flag off ty attributes =
     (if \<not> ef_contains igns flag
      then basic_list_add attributes \<lparr>element_attribute_offset = off, attribute_type = ty\<rparr>
      else attributes)"

definition mesh_format :: "MeshInputIgnoreFlag EnumField \<Rightarrow> RendererElementFormat" where
  "mesh_format igns =
     (let attributes = [];
          attributes = add_attribute igns PositionIgnore 0 Float32x3 attributes;
          attributes = add_attribute igns TexcoordIgnore 12 Float32x2 attributes;
          attributes = add_attribute igns NormalIgnore 20 Float32x3 attributes;
          attributes = add_attribute igns TangentIgnore 32 Float32x3 attributes;
          attributes = add_attribute igns BitangentIgnore 44 Float32x3 attributes
      in \<lparr>binding_size = sizeof_Vertex, basis = PerVertexBasis, binding_attributes = attributes\<rparr>)"

definition mesh_input_get_format :: "MeshInput \<Rightarrow> RendererElementFormat" where
  "mesh_input_get_format self = mesh_format (ignores self)"

definition mesh_input_get_vertex_bytes :: "MeshInput \<Rightarrow> u8 list" where
  "mesh_input_get_vertex_bytes self = vertices_as_bytes (vertices (mesh self))"

definition mesh_input_get_indices :: "MeshInput \<Rightarrow> u32 list" where
  "mesh_input_get_indices self = indices (mesh self)"

section \<open>MeshDynamicInput\<close>

record MeshDynamicInput =
  initial_data :: Mesh
  dynamic_ignores :: "MeshInputIgnoreFlag EnumField"
  vertex_data :: "ptr option"
  index_data :: "ptr option"

definition mesh_dynamic_input :: "Mesh \<Rightarrow> MeshInputIgnoreFlag EnumField \<Rightarrow> MeshDynamicInput" where
  "mesh_dynamic_input m igns =
     \<lparr>initial_data = m, dynamic_ignores = igns, vertex_data = None, index_data = None\<rparr>"

definition mesh_dynamic_copy :: "bool \<Rightarrow> MeshDynamicInput \<Rightarrow> MeshDynamicInput outcome" where
  "mesh_dynamic_copy d copy =
     and_then (tz_assert d (vertex_data copy = None \<and> index_data copy = None)) (\<lambda>_.
     Inr \<lparr>initial_data = initial_data copy, dynamic_ignores = dynamic_ignores copy,
          vertex_data = None, index_data = None\<rparr>)"

definition mesh_dynamic_assign ::
    "bool \<Rightarrow> MeshDynamicInput \<Rightarrow> MeshDynamicInput \<Rightarrow> MeshDynamicInput outcome" where
  "mesh_dynamic_assign d self rhs =
     (let self = self\<lparr>initial_data := initial_data rhs, dynamic_ignores := dynamic_ignores rhs,
                      vertex_data := None, index_data := None\<rparr>
      in and_then (tz_assert d (vertex_data rhs = None \<and> index_data rhs = None)) (\<lambda>_. Inr self))"

definition mesh_dynamic_get_format :: "MeshDynamicInput \<Rightarrow> RendererElementFormat" where
  "mesh_dynamic_get_format self = mesh_format (dynamic_ignores self)"

definition mesh_dynamic_get_vertex_bytes :: "memory \<Rightarrow> MeshDynamicInput \<Rightarrow> u8 list outcome" where
  "mesh_dynamic_get_vertex_bytes mem self =
     (case vertex_data self of
        None \<Rightarrow> Inr (vertices_as_bytes (vertices (initial_data self)))
      | Some p \<Rightarrow> mem_read mem p (length (vertices (initial_data self)) * sizeof_Vertex))"

definition mesh_dynamic_get_indices :: "memory \<Rightarrow> MeshDynamicInput \<Rightarrow> u32 list outcome" where
  "mesh_dynamic_get_indices mem self =
     (case index_data self of
        None \<Rightarrow> Inr (indices (initial_data self))
      | Some p \<Rightarrow> and_then (mem_read mem p (4 * length (indices (initial_data self))))
                    (\<lambda>bs. Inr (decode_u32s bs)))"

text \<open>
  \<open>get_vertex_bytes_dynamic\<close> returns a writable span: into the object's own storage, or into
  the mapped memory, with a length in bytes.
\<close>

datatype writable_span = OwnStorage nat | MappedStorage ptr nat

definition mesh_dynamic_get_vertex_bytes_dynamic :: "MeshDynamicInput \<Rightarrow> writable_span" where
  "mesh_dynamic_get_vertex_bytes_dynamic self =
     (case vertex_data self of
        None \<Rightarrow> OwnStorage (length (vertices (initial_data self)) * sizeof_Vertex)
      | Some p \<Rightarrow> MappedStorage p (length (vertices (initial_data self)) * sizeof_Vertex))"

text \<open>\<open>memcpy\<close> from the old mapped range, if there is one, to the new one must not overlap.\<close>

definition copy_allowed :: "ptr option \<Rightarrow> ptr \<Rightarrow> nat \<Rightarrow> unit outcome" where
  "copy_allowed old new_ptr n =
     (case old of
        None \<Rightarrow> Inr ()
      | Some p \<Rightarrow> if disjoint_ranges p n new_ptr n then Inr () else Inl OverlappingCopy)"

definition mesh_dynamic_set_vertex_data ::
    "memory \<Rightarrow> MeshDynamicInput \<Rightarrow> ptr \<Rightarrow> (memory \<times> MeshDynamicInput) outcome" where
  "mesh_dynamic_set_vertex_data mem self p =
     and_then (mesh_dynamic_get_vertex_bytes mem self) (\<lambda>vtx.
     let self' = self\<lparr>vertex_data := Some p\<rparr> in
     and_then (copy_allowed (vertex_data self) p (length vtx)) (\<lambda>_.
     and_then (mem_write mem p vtx) (\<lambda>mem'. Inr (mem', self'))))"

definition mesh_dynamic_set_index_data ::
    "memory \<Rightarrow> MeshDynamicInput \<Rightarrow> ptr \<Rightarrow> (memory \<times> MeshDynamicInput) outcome" where
  "mesh_dynamic_set_index_data mem self p =
     and_then (mesh_dynamic_get_indices mem self) (\<lambda>idx.
     let self' = self\<lparr>index_data := Some p\<rparr> in
     and_then (copy_allowed (index_data self) p (4 * length idx)) (\<lambda>_.
     and_then (mem_write mem p (encode_u32s idx)) (\<lambda>mem'. Inr (mem', self'))))"

section \<open>Virtual dispatch\<close>

datatype RendererInput = StaticInput MeshInput | DynamicInput MeshDynamicInput

definition input_data_access :: "RendererInput \<Rightarrow> RendererInputDataAccess" where
  "input_data_access inp = (case inp of StaticInput _ \<Rightarrow> StaticFixed | DynamicInput _ \<Rightarrow> DynamicFixed)"

definition input_get_format :: "RendererInput \<Rightarrow> RendererElementFormat" where
  "input_get_format inp =
     (case inp of StaticInput i \<Rightarrow> mesh_input_get_format i | DynamicInput i \<Rightarrow> mesh_dynamic_get_format i)"

definition input_get_vertex_bytes :: "memory \<Rightarrow> RendererInput \<Rightarrow> u8 list outcome" where
  "input_get_vertex_bytes mem inp =
     (case inp of StaticInput i \<Rightarrow> Inr (mesh_input_get_vertex_bytes i)
      | DynamicInput i \<Rightarrow> mesh_dynamic_get_vertex_bytes mem i)"

definition input_get_indices :: "memory \<Rightarrow> RendererInput \<Rightarrow> u32 list outcome" where
  "input_get_indices mem inp =
     (case inp of StaticInput i \<Rightarrow> Inr (mesh_input_get_indices i)
      | DynamicInput i \<Rightarrow> mesh_dynamic_get_indices mem i)"

definition vertex_count_bytes :: "memory \<Rightarrow> RendererInput \<Rightarrow> nat outcome" where
  "vertex_count_bytes mem inp = and_then (input_get_vertex_bytes mem inp) (\<lambda>bs. Inr (length bs))"

definition vertex_count :: "memory \<Rightarrow> RendererInput \<Rightarrow> nat outcome" where
  "vertex_count mem inp =
     and_then (vertex_count_bytes mem inp) (\<lambda>n. if binding_size (input_get_format inp) = 0 then Inl DivisionByZero
       else Inr (n div binding_size (input_get_format inp)))"

definition index_count :: "memory \<Rightarrow> RendererInput \<Rightarrow> nat outcome" where
  "index_count mem inp = and_then (input_get_indices mem inp) (\<lambda>is. Inr (length is))"

definition input_unique_clone :: "bool \<Rightarrow> RendererInput \<Rightarrow> RendererInput outcome" where
  "input_unique_clone d inp =
     (case inp of
        StaticInput i \<Rightarrow> Inr (StaticInput i)
      | DynamicInput i \<Rightarrow> and_then (mesh_dynamic_copy d i) (\<lambda>j. Inr (DynamicInput j)))"

section \<open>Bytes of vertices\<close>

definition component_size :: "RendererComponentType \<Rightarrow> nat" where
  "component_size ty = (case ty of Float32 \<Rightarrow> 4 | Float32x2 \<Rightarrow> 8 | Float32x3 \<Rightarrow> 12)"

lemma length_vertex_bytes [layout_simps]: "wf_vertex v \<Longrightarrow> length (vertex_bytes v) = sizeof_Vertex"
  by (simp add: vertex_bytes_def wf_vertex_def sizeof_Vertex_def layout_simps)

lemma length_vertices_as_bytes [layout_simps]:
  "\<forall>v\<in>set vs. wf_vertex v \<Longrightarrow> length (vertices_as_bytes vs) = length vs * sizeof_Vertex"
  by (induction vs) (simp_all add: vertices_as_bytes_def layout_simps)

lemma block_offset_vertices:
  "\<forall>v\<in>set vs. wf_vertex v \<Longrightarrow> i \<le> length vs \<Longrightarrow> block_offset (map vertex_bytes vs) i = i * sizeof_Vertex"
proof (induction i)
  case (Suc i)
  then have "wf_vertex (vs ! i)" by simp
  then show ?case using Suc by (simp add: block_offset_Suc layout_simps)
qed simp

lemma chunk_vertices_as_bytes:
  assumes "\<forall>v\<in>set vs. wf_vertex v" "i < length vs"
  shows "chunk (i * sizeof_Vertex) sizeof_Vertex (vertices_as_bytes vs) = vertex_bytes (vs ! i)"
proof -
  have "length (vertex_bytes (vs ! i)) = sizeof_Vertex"
    using assms by (simp add: layout_simps)
  then show ?thesis
    using chunk_concat_block [of i "map vertex_bytes vs"] assms
    by (simp add: block_offset_vertices vertices_as_bytes_def)
qed

text \<open>The vertex field a flag stands for.\<close>

definition flag_field :: "MeshInputIgnoreFlag \<Rightarrow> Vertex \<Rightarrow> u32 list" where
  "flag_field f =
     (case f of PositionIgnore \<Rightarrow> position | TexcoordIgnore \<Rightarrow> texcoord | NormalIgnore \<Rightarrow> normal
      | TangentIgnore \<Rightarrow> tangent | BitangentIgnore \<Rightarrow> bitangent)"

definition all_flags :: "MeshInputIgnoreFlag list" where
  "all_flags = [PositionIgnore, TexcoordIgnore, NormalIgnore, TangentIgnore, BitangentIgnore]"

definition flag_attribute :: "MeshInputIgnoreFlag \<Rightarrow> RendererAttributeFormat" where
  "flag_attribute f =
     (case f of
        PositionIgnore \<Rightarrow> \<lparr>element_attribute_offset = 0, attribute_type = Float32x3\<rparr>
      | TexcoordIgnore \<Rightarrow> \<lparr>element_attribute_offset = 12, attribute_type = Float32x2\<rparr>
      | NormalIgnore \<Rightarrow> \<lparr>element_attribute_offset = 20, attribute_type = Float32x3\<rparr>
      | TangentIgnore \<Rightarrow> \<lparr>element_attribute_offset = 32, attribute_type = Float32x3\<rparr>
      | BitangentIgnore \<Rightarrow> \<lparr>element_attribute_offset = 44, attribute_type = Float32x3\<rparr>)"

lemma mesh_format_attributes:
  "binding_attributes (mesh_format igns) =
     map flag_attribute (filter (\<lambda>f. f \<notin> ef_set igns) all_flags)"
  by (simp add: mesh_format_def Let_def add_attribute_def basic_list_add_def all_flags_def
      flag_attribute_def)

lemma mesh_format_binding [simp]:
  "binding_size (mesh_format igns) = 56" "basis (mesh_format igns) = PerVertexBasis"
  by (simp_all add: mesh_format_def Let_def sizeof_Vertex_def)

lemma input_binding_size [simp]: "binding_size (input_get_format inp) = 56"
  by (cases inp)
    (simp_all add: input_get_format_def mesh_input_get_format_def mesh_dynamic_get_format_def)

lemma flag_attribute_addresses_field:
  assumes "wf_vertex v"
  shows "chunk (element_attribute_offset (flag_attribute f))
      (component_size (attribute_type (flag_attribute f))) (vertex_bytes v) =
    encode_u32s (flag_field f v)"
  using assms
  by (cases f)
    (simp_all add: flag_attribute_def component_size_def flag_field_def vertex_bytes_def chunk_def
      wf_vertex_def layout_simps)

section \<open>Mapped dynamic inputs\<close>

text \<open>A freshly made dynamic input has no mapped memory.\<close>

definition unmapped :: "MeshDynamicInput \<Rightarrow> bool" where
  "unmapped i \<longleftrightarrow> vertex_data i = None \<and> index_data i = None"

lemma copy_allowed_None [simp]: "copy_allowed None p n = Inr ()"
  by (simp add: copy_allowed_def)

lemma set_vertex_data_first:
  assumes "vertex_data self = None" "wf_mesh (initial_data self)"
    and "valid_range mem p (length (vertices (initial_data self)) * sizeof_Vertex)"
  shows "\<exists>mem'. mesh_dynamic_set_vertex_data mem self p = Inr (mem', self\<lparr>vertex_data := Some p\<rparr>) \<and>
    mem_write mem p (vertices_as_bytes (vertices (initial_data self))) = Inr mem'"
proof -
  have "length (vertices_as_bytes (vertices (initial_data self))) =
      length (vertices (initial_data self)) * sizeof_Vertex"
    using assms(2) by (simp add: wf_mesh_def layout_simps)
  then show ?thesis
    using assms mem_write_ok [of mem p "vertices_as_bytes (vertices (initial_data self))"]
    by (auto simp: mesh_dynamic_set_vertex_data_def mesh_dynamic_get_vertex_bytes_def Let_def)
qed

lemma set_index_data_first:
  assumes "index_data self = None" "valid_range mem p (4 * length (indices (initial_data self)))"
  shows "\<exists>mem'. mesh_dynamic_set_index_data mem self p = Inr (mem', self\<lparr>index_data := Some p\<rparr>) \<and>
    mem_write mem p (encode_u32s (indices (initial_data self))) = Inr mem'"
  using assms mem_write_ok [of mem p "encode_u32s (indices (initial_data self))"]
  by (auto simp: mesh_dynamic_set_index_data_def mesh_dynamic_get_indices_def Let_def layout_simps)

lemma get_vertex_bytes_mapped:
  assumes "wf_mesh (initial_data self)" "vertex_data self = Some p"
    and "mem_write mem p (vertices_as_bytes (vertices (initial_data self))) = Inr mem'"
  shows "mesh_dynamic_get_vertex_bytes mem' self = Inr (vertices_as_bytes (vertices (initial_data self)))"
proof -
  have "length (vertices_as_bytes (vertices (initial_data self))) =
      length (vertices (initial_data self)) * sizeof_Vertex"
    using assms(1) by (simp add: wf_mesh_def layout_simps)
  then show ?thesis
    using assms mem_read_after_write [OF assms(3)]
    by (simp add: mesh_dynamic_get_vertex_bytes_def)
qed

lemma get_indices_mapped:
  assumes "index_data self = Some p"
    and "mem_write mem p (encode_u32s (indices (initial_data self))) = Inr mem'"
  shows "mesh_dynamic_get_indices mem' self = Inr (indices (initial_data self))"
  using assms mem_read_after_write [OF assms(2)]
  by (simp add: mesh_dynamic_get_indices_def layout_simps)

section \<open>Properties\<close>

text \<open>
  C25. The format of a mesh lists one attribute for every vertex field that is not ignored, in
  the order of the fields, and each attribute's offset and type address exactly the bytes of
  its field within the vertex.
\<close>

theorem mesh_format_addresses_fields:
  assumes "wf_vertex v"
  shows "map (\<lambda>a. chunk (element_attribute_offset a) (component_size (attribute_type a)) (vertex_bytes v))
      (binding_attributes (mesh_format igns)) =
    map (\<lambda>f. encode_u32s (flag_field f v)) (filter (\<lambda>f. f \<notin> ef_set igns) all_flags)"
  using flag_attribute_addresses_field [OF assms] by (simp add: mesh_format_attributes)

theorem mesh_format_addresses_fields_witness:
  "map (\<lambda>a. chunk (element_attribute_offset a) (component_size (attribute_type a))
      (vertex_bytes \<lparr>position = [1, 2, 3], texcoord = [4, 5], normal = [6, 7, 8],
        tangent = [9, 10, 11], bitangent = [12, 13, 14]\<rparr>))
      (binding_attributes (mesh_format (enum_field_of [NormalIgnore, TangentIgnore, BitangentIgnore]))) =
    [encode_u32s [1, 2, 3], encode_u32s [4, 5]]"
  using mesh_format_addresses_fields [of "\<lparr>position = [1, 2, 3], texcoord = [4, 5], normal = [6, 7, 8],
        tangent = [9, 10, 11], bitangent = [12, 13, 14]\<rparr>"
      "enum_field_of [NormalIgnore, TangentIgnore, BitangentIgnore]"]
  by (simp add: wf_vertex_def all_flags_def flag_field_def)

text \<open>
  C26. Giving a fresh dynamic input its mapped vertex and index memory keeps its contents:
  when the two ranges are valid and disjoint, both calls succeed and the vertex bytes and
  indices read back through the mapped memory are those of the mesh it was made from.
\<close>

theorem dynamic_input_mapping_keeps_contents:
  assumes "unmapped self" "wf_mesh (initial_data self)"
    and "valid_range mem vp (length (vertices (initial_data self)) * sizeof_Vertex)"
    and "valid_range mem ip (4 * length (indices (initial_data self)))"
    and "disjoint_ranges vp (length (vertices (initial_data self)) * sizeof_Vertex)
      ip (4 * length (indices (initial_data self)))"
  shows "\<exists>mem' self'. and_then (mesh_dynamic_set_vertex_data mem self vp)
      (\<lambda>(mem, self). mesh_dynamic_set_index_data mem self ip) = Inr (mem', self') \<and>
    mesh_dynamic_get_vertex_bytes mem' self' = Inr (vertices_as_bytes (vertices (initial_data self))) \<and>
    mesh_dynamic_get_indices mem' self' = Inr (indices (initial_data self))"
proof -
  let ?v = "vertices_as_bytes (vertices (initial_data self))"
  let ?i = "encode_u32s (indices (initial_data self))"
  let ?s1 = "self\<lparr>vertex_data := Some vp\<rparr>" and ?s2 = "self\<lparr>vertex_data := Some vp, index_data := Some ip\<rparr>"
  have len: "length ?v = length (vertices (initial_data self)) * sizeof_Vertex"
    using assms(2) by (simp add: wf_mesh_def layout_simps)
  obtain m1 where m1: "mesh_dynamic_set_vertex_data mem self vp = Inr (m1, ?s1)"
    "mem_write mem vp ?v = Inr m1"
    using set_vertex_data_first [OF _ assms(2,3)] assms(1) by (auto simp: unmapped_def)
  have "valid_range m1 ip (4 * length (indices (initial_data ?s1)))"
    using assms(4) valid_range_after_write [OF m1(2)] by simp
  then obtain m2 where m2: "mesh_dynamic_set_index_data m1 ?s1 ip = Inr (m2, ?s1\<lparr>index_data := Some ip\<rparr>)"
    "mem_write m1 ip ?i = Inr m2"
    using set_index_data_first [of ?s1 m1 ip] assms(1) by (auto simp: unmapped_def)
  have "mesh_dynamic_get_vertex_bytes m1 ?s2 = Inr ?v"
    using get_vertex_bytes_mapped [of ?s2 vp mem m1] assms(2) m1(2) by simp
  moreover have "mem_read m2 vp (length ?v) = mem_read m1 vp (length ?v)"
    using assms(5) len
    by (intro mem_read_after_disjoint_write [OF m2(2)]) (simp add: disjoint_ranges_sym layout_simps)
  ultimately have "mesh_dynamic_get_vertex_bytes m2 ?s2 = Inr ?v"
    using len by (simp add: mesh_dynamic_get_vertex_bytes_def)
  moreover have "mesh_dynamic_get_indices m2 ?s2 = Inr (indices (initial_data self))"
    using get_indices_mapped [of ?s2 ip m1 m2] m2(2) by simp
  ultimately show ?thesis using m1(1) m2(1) by auto
qed

definition example_mesh :: Mesh where
  "example_mesh =
     \<lparr>vertices = [\<lparr>position = [1, 2, 3], texcoord = [4, 5], normal = [6, 7, 8],
        tangent = [9, 10, 11], bitangent = [12, 13, 14]\<rparr>], indices = [0, 0, 0]\<rparr>"

theorem dynamic_input_mapping_keeps_contents_witness:
  "\<exists>mem' self'. and_then (mesh_dynamic_set_vertex_data [0 \<mapsto> replicate 80 0]
        (mesh_dynamic_input example_mesh (enum_field_of [])) \<lparr>block = 0, offset = 0\<rparr>)
      (\<lambda>(mem, self). mesh_dynamic_set_index_data mem self \<lparr>block = 0, offset = 60\<rparr>) = Inr (mem', self') \<and>
    mesh_dynamic_get_indices mem' self' = Inr [0, 0, 0]"
  using dynamic_input_mapping_keeps_contents [of "mesh_dynamic_input example_mesh (enum_field_of [])"
      "[0 \<mapsto> replicate 80 0]" "\<lparr>block = 0, offset = 0\<rparr>" "\<lparr>block = 0, offset = 60\<rparr>"]
  by (auto simp: unmapped_def mesh_dynamic_input_def example_mesh_def wf_mesh_def wf_vertex_def
      valid_range_def sizeof_Vertex_def disjoint_ranges_def)

end
