(* ===== verification/Gl_Resources.thy ===== *)
theory Gl_Resources
  imports Gl_Input
begin

text \<open>
  Renderer resources: \<open>gl/buffer.inl\<close>, \<open>gl/texture.cpp\<close>, \<open>gl/resource.cpp\<close> and the
  enumerations of \<open>gl/impl/frontend/common/resource.hpp\<close>.

  \<open>stbi_load\<close> is not part of the repository.  It is an argument of \<open>from_image_file\<close>: given a
  path and a number of components it returns nothing (a null pointer, the out-parameters
  untouched) or a width, a height and the pixel bytes.
\<close>

section \<open>Enumerations\<close>

datatype ResourceType = BufferType | TextureType

datatype TextureFormat = Rgba32Signed | Rgba32Unsigned | Rgba32sRGB | DepthFloat32

datatype TexturePropertyFilter = Nearest | Linear

datatype TextureAddressMode = ClampToEdge

record TextureProperties =
  min_filter :: TexturePropertyFilter
  mag_filter :: TexturePropertyFilter
  address_mode_u :: TextureAddressMode
  address_mode_v :: TextureAddressMode
  address_mode_w :: TextureAddressMode

definition texture_properties_default :: TextureProperties where
  "texture_properties_default =
     \<lparr>min_filter = Linear, mag_filter = Linear,
      address_mode_u = ClampToEdge, address_mode_v = ClampToEdge, address_mode_w = ClampToEdge\<rparr>"

section \<open>Buffer data\<close>

record BufferData =
  buffer_bytes :: "u8 list"

text \<open>The destination is sized to the source and then overwritten from its first byte.\<close>

definition from_array :: "('t \<Rightarrow> u8 list) \<Rightarrow> 't list \<Rightarrow> BufferData" where
  "from_array as_bytes xs =
     (let src = concat (map as_bytes xs);
          buf = basic_list_resize 0 [] (length src)
      in \<lparr>buffer_bytes = overwrite buf 0 src\<rparr>)"

definition from_value :: "('t \<Rightarrow> u8 list) \<Rightarrow> 't \<Rightarrow> BufferData" where
  "from_value as_bytes x =
     (let src = as_bytes x;
          buf = basic_list_resize 0 [] (length src)
      in \<lparr>buffer_bytes = overwrite buf 0 src\<rparr>)"

section \<open>Texture data\<close>

record TextureData =
  width :: u32
  height :: u32
  image_data :: "u8 list"

type_synonym image_loader = "string \<Rightarrow> nat \<Rightarrow> (int \<times> int \<times> u8 list) option"

definition components_per_element :: "TextureFormat \<Rightarrow> nat" where
  "components_per_element format =
     (case format of Rgba32Signed \<Rightarrow> 4 | Rgba32Unsigned \<Rightarrow> 4 | Rgba32sRGB \<Rightarrow> 4 | DepthFloat32 \<Rightarrow> 1)"

text \<open>
  \<open>w * h * components_per_element\<close> is evaluated in \<open>int\<close>; leaving its range is undefined and
  reported as \<open>OutOfBounds\<close>, as is reading more bytes than the loader returned.
\<close>

definition from_image_file :: "image_loader \<Rightarrow> string \<Rightarrow> TextureFormat \<Rightarrow> TextureData outcome" where
  "from_image_file stbi_load image_path format =
     (let comps = components_per_element format in
      case stbi_load image_path comps of
        None \<Rightarrow> Inl UninitialisedRead
      | Some (w, h, imgdata) \<Rightarrow>
          (let size = w * h * int comps in
           if w * h < - (2 ^ 31) \<or> w * h \<ge> 2 ^ 31 \<or> size < 0 \<or> size \<ge> 2 ^ 31 \<or> nat size > length imgdata
           then Inl OutOfBounds
           else Inr \<lparr>width = of_int w, height = of_int h,
                     image_data = overwrite (basic_list_resize 0 [] (nat size)) 0 (take (nat size) imgdata)\<rparr>))"

definition from_memory :: "u32 \<Rightarrow> u32 \<Rightarrow> u8 list \<Rightarrow> TextureData" where
  "from_memory w h bytes =
     \<lparr>width = w, height = h, image_data = overwrite (basic_list_resize 0 [] (length bytes)) 0 bytes\<rparr>"

definition element_size :: "TextureFormat \<Rightarrow> nat" where
  "element_size format =
     (case format of Rgba32Signed \<Rightarrow> 4 | Rgba32Unsigned \<Rightarrow> 4 | Rgba32sRGB \<Rightarrow> 4 | DepthFloat32 \<Rightarrow> 4)"

text \<open>The product is a 64-bit \<open>size_t\<close>.\<close>

definition uninitialised :: "u32 \<Rightarrow> u32 \<Rightarrow> TextureFormat \<Rightarrow> TextureData" where
  "uninitialised w h format =
     \<lparr>width = w, height = h,
      image_data = basic_list_resize 0 [] (element_size format * unat w * unat h mod 2 ^ 64)\<rparr>"

section \<open>Resources\<close>

record BufferResource =
  buffer_data :: BufferData

record DynamicBufferResource =
  initial_buffer :: BufferData
  resource_data :: "ptr option"

record TextureResource =
  texture_data :: TextureData
  texture_format :: TextureFormat
  texture_properties :: TextureProperties

datatype Resource =
    StaticBuffer BufferResource
  | DynamicBuffer DynamicBufferResource
  | TextureRes TextureResource

definition resource_get_type :: "Resource \<Rightarrow> ResourceType" where
  "resource_get_type r =
     (case r of StaticBuffer _ \<Rightarrow> BufferType | DynamicBuffer _ \<Rightarrow> BufferType | TextureRes _ \<Rightarrow> TextureType)"

definition resource_data_access :: "Resource \<Rightarrow> RendererInputDataAccess" where
  "resource_data_access r =
     (case r of StaticBuffer _ \<Rightarrow> StaticFixed | DynamicBuffer _ \<Rightarrow> DynamicFixed | TextureRes _ \<Rightarrow> StaticFixed)"

definition buffer_get_bytes :: "BufferResource \<Rightarrow> u8 list" where
  "buffer_get_bytes r = buffer_bytes (buffer_data r)"

definition dynamic_buffer_of :: "BufferData \<Rightarrow> DynamicBufferResource" where
  "dynamic_buffer_of data = \<lparr>initial_buffer = data, resource_data = None\<rparr>"

definition dynamic_buffer_get_bytes :: "memory \<Rightarrow> DynamicBufferResource \<Rightarrow> u8 list outcome" where
  "dynamic_buffer_get_bytes mem r =
     (case resource_data r of
        None \<Rightarrow> Inr (buffer_bytes (initial_buffer r))
      | Some p \<Rightarrow> mem_read mem p (length (buffer_bytes (initial_buffer r))))"

definition dynamic_buffer_get_bytes_dynamic :: "DynamicBufferResource \<Rightarrow> writable_span" where
  "dynamic_buffer_get_bytes_dynamic r =
     (case resource_data r of
        None \<Rightarrow> OwnStorage (length (buffer_bytes (initial_buffer r)))
      | Some p \<Rightarrow> MappedStorage p (length (buffer_bytes (initial_buffer r))))"

definition dynamic_buffer_set_data ::
    "memory \<Rightarrow> DynamicBufferResource \<Rightarrow> ptr \<Rightarrow> (memory \<times> DynamicBufferResource) outcome" where
  "dynamic_buffer_set_data mem r p =
     and_then (dynamic_buffer_get_bytes mem r) (\<lambda>bytes.
     let r' = r\<lparr>resource_data := Some p\<rparr> in
     and_then (copy_allowed (resource_data r) p (length bytes)) (\<lambda>_.
     and_then (mem_write mem p bytes) (\<lambda>mem'. Inr (mem', r'))))"

definition texture_get_bytes :: "TextureResource \<Rightarrow> u8 list" where
  "texture_get_bytes r = image_data (texture_data r)"

definition texture_get_width :: "TextureResource \<Rightarrow> u32" where
  "texture_get_width r = width (texture_data r)"

definition texture_get_height :: "TextureResource \<Rightarrow> u32" where
  "texture_get_height r = height (texture_data r)"

definition resource_get_bytes :: "memory \<Rightarrow> Resource \<Rightarrow> u8 list outcome" where
  "resource_get_bytes mem r =
     (case r of StaticBuffer b \<Rightarrow> Inr (buffer_get_bytes b)
      | DynamicBuffer b \<Rightarrow> dynamic_buffer_get_bytes mem b
      | TextureRes t \<Rightarrow> Inr (texture_get_bytes t))"

text \<open>
  The copyable resource classes clone by their implicit copy constructors, so a cloned
  dynamic buffer keeps the mapped pointer of the original.
\<close>

definition resource_unique_clone :: "Resource \<Rightarrow> Resource" where
  "resource_unique_clone r = r"

section \<open>Lemmas\<close>

lemma overwrite_whole [simp]: "length xs = length ys \<Longrightarrow> overwrite xs 0 ys = ys"
  by (simp add: overwrite_def)

lemma from_array_bytes [simp]: "buffer_bytes (from_array f xs) = concat (map f xs)"
  by (simp add: from_array_def Let_def)

lemma from_value_bytes [simp]: "buffer_bytes (from_value f x) = f x"
  by (simp add: from_value_def Let_def)

lemma from_array_singleton: "from_array f [x] = from_value f x"
  by (simp add: from_array_def from_value_def)

lemma from_memory_bytes [simp]: "image_data (from_memory w h bs) = bs"
  by (simp add: from_memory_def)

lemma dynamic_buffer_set_data_first:
  assumes "resource_data r = None" "valid_range mem p (length (buffer_bytes (initial_buffer r)))"
  shows "\<exists>mem'. dynamic_buffer_set_data mem r p = Inr (mem', r\<lparr>resource_data := Some p\<rparr>) \<and>
    mem_write mem p (buffer_bytes (initial_buffer r)) = Inr mem' \<and>
    dynamic_buffer_get_bytes mem' (r\<lparr>resource_data := Some p\<rparr>) = Inr (buffer_bytes (initial_buffer r))"
  using assms mem_write_ok [of mem p "buffer_bytes (initial_buffer r)"]
  by (auto simp: dynamic_buffer_set_data_def dynamic_buffer_get_bytes_def Let_def mem_read_after_write)

text \<open>The bytes of a resource that has not been mapped.\<close>

definition is_texture :: "Resource \<Rightarrow> bool" where
  "is_texture res = (resource_get_type res = TextureType)"

definition ready_bytes :: "Resource \<Rightarrow> u8 list" where
  "ready_bytes res =
     (case res of StaticBuffer b \<Rightarrow> buffer_get_bytes b | DynamicBuffer b \<Rightarrow> buffer_bytes (initial_buffer b)
      | TextureRes t \<Rightarrow> texture_get_bytes t)"

text \<open>
  What the loader documents: the pixels it returns fill a positive width and height with the
  requested number of components, and their count fits in an \<open>int\<close>.
\<close>

definition loader_documented :: "image_loader \<Rightarrow> bool" where
  "loader_documented stbi_load \<longleftrightarrow>
     (\<forall>path comps w h px. stbi_load path comps = Some (w, h, px) \<longrightarrow>
        0 < w \<and> 0 < h \<and> length px = nat w * nat h * comps \<and> w * h < 2 ^ 31 \<and> w * h * int comps < 2 ^ 31)"

section \<open>Properties\<close>

text \<open>
  A texture loaded from an image file holds exactly the loader's pixels, one byte for
  every component of every pixel, under the loader's documented behaviour; a failed load is
  a fault.
\<close>

theorem from_image_file_pixels:
  assumes "loader_documented stbi_load"
  shows "from_image_file stbi_load path format =
    (case stbi_load path (components_per_element format) of
       None \<Rightarrow> Inl UninitialisedRead
     | Some (w, h, px) \<Rightarrow> Inr \<lparr>width = of_int w, height = of_int h, image_data = px\<rparr>)"
proof (cases "stbi_load path (components_per_element format)")
  case None
  then show ?thesis by (simp add: from_image_file_def)
next
  case (Some x)
  obtain w h px where x: "x = (w, h, px)" by (cases x)
  have doc: "0 < w" "0 < h" "length px = nat w * nat h * components_per_element format"
    "w * h < 2 ^ 31" "w * h * int (components_per_element format) < 2 ^ 31"
    using assms Some x unfolding loader_documented_def by blast+
  then have "0 < w * h" by simp
  then have "- (2 ^ 31) \<le> w * h" "0 \<le> w * h * int (components_per_element format)" by simp_all
  moreover have "nat (w * h * int (components_per_element format)) = length px"
    using doc by (simp add: nat_mult_distrib)
  ultimately show ?thesis
    using Some x doc by (simp add: from_image_file_def Let_def not_less)
qed

definition one_pixel_loader :: image_loader where
  "one_pixel_loader path comps =
     (if path = ''a.png'' \<and> comps < 5 then Some (1, 1, replicate comps 255) else None)"

lemma one_pixel_loader_documented: "loader_documented one_pixel_loader"
  by (auto simp: loader_documented_def one_pixel_loader_def)

lemma replicate_four: "replicate 4 x = [x, x, x, x]"
  by (simp add: numeral_eq_Suc)

theorem from_image_file_pixels_witness:
  "from_image_file one_pixel_loader ''a.png'' Rgba32Unsigned =
     Inr \<lparr>width = 1, height = 1, image_data = [255, 255, 255, 255]\<rparr>"
  using from_image_file_pixels [OF one_pixel_loader_documented, of "''a.png''" Rgba32Unsigned]
  by (simp add: one_pixel_loader_def components_per_element_def replicate_four)

text \<open>
  A blank texture has four bytes for every pixel when the size fits in 64 bits; the depth
  format is the one for which an image file of the same dimensions gives a different size.
\<close>

theorem uninitialised_size:
  assumes "unat w * unat h < 2 ^ 62"
  shows "length (image_data (uninitialised w h format)) = 4 * unat w * unat h \<and>
    (components_per_element format * unat w * unat h = length (image_data (uninitialised w h format)) \<longleftrightarrow>
      format \<noteq> DepthFloat32 \<or> unat w * unat h = 0)"
proof -
  have "element_size format = 4" by (cases format) (simp_all add: element_size_def)
  moreover have "4 * (unat w * unat h) < 18446744073709551616"
    using assms by (simp add: mult.commute)
  ultimately have "length (image_data (uninitialised w h format)) = 4 * unat w * unat h"
    by (simp add: uninitialised_def mult.assoc mod_less)
  then show ?thesis
    by (cases format) (simp_all add: components_per_element_def)
qed

theorem uninitialised_size_witness:
  "length (image_data (uninitialised 3 2 DepthFloat32)) = 24"
  using uninitialised_size [of 3 2 DepthFloat32] by simp

end
