(* ===== verification/Draw_Spec.thy ===== *)
theory Draw_Spec
  imports Gl_Resources
begin

text \<open>
  What drawing a list of inputs means, independently of the backend.

  A backend lays the geometry of all inputs out in shared buffers and draws each handle by an
  indirect command.  \<open>fetch\<close> is the indexed fetch of one such command (the index of the command,
  offset by its base vertex, selects a vertex of the bound buffer); \<open>own_geometry\<close> is the
  sequence of vertices the input itself describes.  The main lemma shows that the reference
  command of an input fetches the input's own geometry from the concatenated buffers.

  The locale \<open>draw_planner\<close> is the contract between the renderers and this specification; both
  backends interpret it.
\<close>

record DrawIndirectCommand =
  draw_count :: u32
  instanceCount :: u32
  firstIndex :: u32
  baseVertex :: u32
  baseInstance :: u32

section \<open>Geometry\<close>

record geometry =
  g_access :: RendererInputDataAccess
  g_vertices :: "u8 list"
  g_indices :: "u32 list"

definition vertex_stride :: nat where
  "vertex_stride = 56"

definition input_geometry :: "memory \<Rightarrow> RendererInput \<Rightarrow> geometry outcome" where
  "input_geometry mem inp =
     and_then (input_get_vertex_bytes mem inp) (\<lambda>vs. and_then (input_get_indices mem inp) (\<lambda>is.
     Inr \<lparr>g_access = input_data_access inp, g_vertices = vs, g_indices = is\<rparr>))"

primrec all_geometry :: "memory \<Rightarrow> RendererInput list \<Rightarrow> geometry list outcome" where
  "all_geometry mem [] = Inr []"
| "all_geometry mem (i # is) =
     and_then (input_geometry mem i) (\<lambda>g. and_then (all_geometry mem is) (\<lambda>gs. Inr (g # gs)))"

definition g_vertex_count :: "geometry \<Rightarrow> nat" where
  "g_vertex_count g = length (g_vertices g) div vertex_stride"

definition g_index_count :: "geometry \<Rightarrow> nat" where
  "g_index_count g = length (g_indices g)"

definition wf_geometry :: "geometry \<Rightarrow> bool" where
  "wf_geometry g \<longleftrightarrow> length (g_vertices g) = g_vertex_count g * vertex_stride \<and>
     (\<forall>i\<in>set (g_indices g). unat i < g_vertex_count g)"

definition vertex_at :: "u8 list \<Rightarrow> nat \<Rightarrow> u8 list" where
  "vertex_at bytes i = chunk (i * vertex_stride) vertex_stride bytes"

definition own_geometry :: "geometry \<Rightarrow> u8 list list" where
  "own_geometry g = map (\<lambda>i. vertex_at (g_vertices g) (unat i)) (g_indices g)"

definition fetch :: "u8 list \<Rightarrow> u32 list \<Rightarrow> DrawIndirectCommand \<Rightarrow> u8 list list" where
  "fetch vertex_buffer index_buffer cmd =
     map (\<lambda>k. vertex_at vertex_buffer (unat (index_buffer ! (unat (firstIndex cmd) + k) + baseVertex cmd)))
       [0..<unat (draw_count cmd)]"

section \<open>Reference commands\<close>

definition earlier :: "geometry list \<Rightarrow> nat \<Rightarrow> geometry list" where
  "earlier gs i = filter (\<lambda>g. g_access g = g_access (gs ! i)) (take i gs)"

definition ref_command :: "geometry list \<Rightarrow> nat \<Rightarrow> DrawIndirectCommand" where
  "ref_command gs i =
     \<lparr>draw_count = of_nat (g_index_count (gs ! i)), instanceCount = 1,
      firstIndex = of_nat (sum_list (map g_index_count (earlier gs i))),
      baseVertex = of_nat (sum_list (map g_vertex_count (earlier gs i))), baseInstance = 0\<rparr>"

definition of_access :: "geometry list \<Rightarrow> RendererInputDataAccess \<Rightarrow> geometry list" where
  "of_access gs a = filter (\<lambda>g. g_access g = a) gs"

definition batch_vertices :: "geometry list \<Rightarrow> RendererInputDataAccess \<Rightarrow> u8 list" where
  "batch_vertices gs a = concat (map g_vertices (of_access gs a))"

definition batch_indices :: "geometry list \<Rightarrow> RendererInputDataAccess \<Rightarrow> u32 list" where
  "batch_indices gs a = concat (map g_indices (of_access gs a))"

definition draws_of :: "geometry list \<Rightarrow> RendererInputDataAccess \<Rightarrow> nat list \<Rightarrow> nat list" where
  "draws_of gs a draws = filter (\<lambda>h. g_access (gs ! h) = a) draws"

text \<open>The limits under which 32-bit counters address the whole batch.\<close>

definition batch_fits :: "geometry list \<Rightarrow> bool" where
  "batch_fits gs \<longleftrightarrow>
     sum_list (map g_index_count gs) < 2 ^ 32 \<and> sum_list (map g_vertex_count gs) < 2 ^ 32"

lemma filter_prefix_split:
  assumes "i < length xs" "P (xs ! i)"
  shows "filter P xs ! length (filter P (take i xs)) = xs ! i"
    and "length (filter P (take i xs)) < length (filter P xs)"
    and "take (length (filter P (take i xs))) (filter P xs) = filter P (take i xs)"
proof -
  have split: "xs = take i xs @ xs ! i # drop (Suc i) xs"
    using assms(1) by (rule id_take_nth_drop)
  then have f: "filter P xs = filter P (take i xs) @ xs ! i # filter P (drop (Suc i) xs)"
    using assms(2) by (metis filter.simps(2) filter_append)
  show "filter P xs ! length (filter P (take i xs)) = xs ! i"
    by (simp add: f)
  show "length (filter P (take i xs)) < length (filter P xs)"
    by (simp add: f)
  show "take (length (filter P (take i xs))) (filter P xs) = filter P (take i xs)"
    by (simp add: f)
qed

lemma sum_list_filter_take_le:
  "sum_list (map f (filter P (take i xs))) \<le> sum_list (map (f :: 'a \<Rightarrow> nat) xs)"
proof -
  have "sum_list (map f (filter P ys)) \<le> sum_list (map f ys)" for ys
    by (induction ys) auto
  moreover have "sum_list (map f (take i xs)) \<le> sum_list (map f xs)"
    by (metis append_take_drop_id le_add1 map_append sum_list_append)
  ultimately show ?thesis using order_trans by blast
qed

lemma filter_prefix_plus_le:
  fixes f :: "'a \<Rightarrow> nat"
  assumes "i < length xs" "P (xs ! i)"
  shows "sum_list (map f (filter P (take i xs))) + f (xs ! i) \<le> sum_list (map f xs)"
proof -
  have "sum_list (map f (filter P (take (Suc i) xs))) =
      sum_list (map f (filter P (take i xs))) + f (xs ! i)"
    using assms by (simp add: take_Suc_conv_app_nth)
  then show ?thesis using sum_list_filter_take_le [of f P "Suc i" xs] by simp
qed

lemma word_add_in_range:
  fixes a b :: u32
  shows "unat a + unat b < 2 ^ 32 \<Longrightarrow> unat (a + b) = unat a + unat b"
  by (simp add: unat_word_ariths(1))

lemma length_g_vertices_sum:
  "\<forall>g\<in>set gs. wf_geometry g \<Longrightarrow>
     sum_list (map (\<lambda>g. length (g_vertices g)) gs) = sum_list (map g_vertex_count gs) * vertex_stride"
  by (induction gs) (auto simp: wf_geometry_def add_mult_distrib)

text \<open>The slot of input \<open>i\<close> among the inputs of its access, and where that slot begins.\<close>

definition batch_slot :: "geometry list \<Rightarrow> nat \<Rightarrow> nat" where
  "batch_slot gs i = length (earlier gs i)"

lemma batch_slot_props:
  assumes "i < length gs"
  shows "of_access gs (g_access (gs ! i)) ! batch_slot gs i = gs ! i"
    and "batch_slot gs i < length (of_access gs (g_access (gs ! i)))"
    and "take (batch_slot gs i) (of_access gs (g_access (gs ! i))) = earlier gs i"
  using filter_prefix_split [OF assms, of "\<lambda>g. g_access g = g_access (gs ! i)"]
  by (simp_all add: of_access_def batch_slot_def earlier_def)

lemma batch_offsets_fit:
  assumes "i < length gs" "batch_fits gs"
  shows "sum_list (map g_index_count (earlier gs i)) + g_index_count (gs ! i) < 2 ^ 32"
    and "sum_list (map g_vertex_count (earlier gs i)) + g_vertex_count (gs ! i) < 2 ^ 32"
  using filter_prefix_plus_le [OF assms(1), of "\<lambda>g. g_access g = g_access (gs ! i)" g_index_count]
    filter_prefix_plus_le [OF assms(1), of "\<lambda>g. g_access g = g_access (gs ! i)" g_vertex_count] assms(2)
  by (simp_all add: earlier_def batch_fits_def)

lemma batch_index_at:
  assumes "i < length gs" "k < g_index_count (gs ! i)"
  shows "batch_indices gs (g_access (gs ! i)) ! (sum_list (map g_index_count (earlier gs i)) + k) =
    g_indices (gs ! i) ! k"
proof -
  let ?blocks = "map g_indices (of_access gs (g_access (gs ! i)))" and ?n = "batch_slot gs i"
  note slot = batch_slot_props [OF assms(1)]
  have off: "block_offset ?blocks ?n = sum_list (map g_index_count (earlier gs i))"
    by (simp add: block_offset_def take_map slot comp_def g_index_count_def [abs_def])
  have "chunk (block_offset ?blocks ?n) (length (g_indices (gs ! i))) (concat ?blocks) = g_indices (gs ! i)"
    using chunk_concat_block [of ?n ?blocks] slot by simp
  moreover have "block_offset ?blocks ?n + length (g_indices (gs ! i)) \<le> length (concat ?blocks)"
    using block_end_le_total [of ?n ?blocks] slot by simp
  ultimately show ?thesis
    using nth_chunk [of k "length (g_indices (gs ! i))" "block_offset ?blocks ?n" "concat ?blocks"] assms(2)
    by (simp add: batch_indices_def off g_index_count_def)
qed

lemma batch_vertex_at:
  assumes "i < length gs" "\<forall>g\<in>set gs. wf_geometry g" "v < g_vertex_count (gs ! i)"
  shows "vertex_at (batch_vertices gs (g_access (gs ! i))) (sum_list (map g_vertex_count (earlier gs i)) + v) =
    vertex_at (g_vertices (gs ! i)) v"
proof -
  let ?blocks = "map g_vertices (of_access gs (g_access (gs ! i)))" and ?n = "batch_slot gs i"
  note slot = batch_slot_props [OF assms(1)]
  have "\<forall>g\<in>set (earlier gs i). wf_geometry g"
    using assms(2) by (auto simp: earlier_def dest: in_set_takeD)
  then have off: "block_offset ?blocks ?n = sum_list (map g_vertex_count (earlier gs i)) * vertex_stride"
    using length_g_vertices_sum by (simp add: block_offset_def take_map slot comp_def)
  have blk: "chunk (block_offset ?blocks ?n) (length (g_vertices (gs ! i))) (concat ?blocks) = g_vertices (gs ! i)"
    using chunk_concat_block [of ?n ?blocks] slot by simp
  have "length (g_vertices (gs ! i)) = g_vertex_count (gs ! i) * vertex_stride"
    using assms(1,2) by (simp add: wf_geometry_def)
  then have "v * vertex_stride + vertex_stride \<le> length (g_vertices (gs ! i))"
    using assms(3) by (metis Suc_leI add.commute mult_Suc mult_le_mono1)
  then have "chunk (v * vertex_stride) vertex_stride (g_vertices (gs ! i)) =
      chunk (block_offset ?blocks ?n + v * vertex_stride) vertex_stride (concat ?blocks)"
    by (subst blk [symmetric]) (simp add: chunk_def take_drop min_def add.commute)
  then show ?thesis by (simp add: vertex_at_def batch_vertices_def off add_mult_distrib)
qed

text \<open>
  The heart of batching: the command of input \<open>i\<close> fetches, from the concatenation of all
  inputs of the same access, exactly the geometry input \<open>i\<close> describes.
\<close>

lemma fetch_ref_command:
  assumes i: "i < length gs" and wf: "\<forall>g\<in>set gs. wf_geometry g" and fits: "batch_fits gs"
  shows "fetch (batch_vertices gs (g_access (gs ! i))) (batch_indices gs (g_access (gs ! i))) (ref_command gs i) =
    own_geometry (gs ! i)"
proof -
  let ?fi = "sum_list (map g_index_count (earlier gs i))"
  let ?bv = "sum_list (map g_vertex_count (earlier gs i))"
  let ?V = "batch_vertices gs (g_access (gs ! i))" and ?I = "batch_indices gs (g_access (gs ! i))"
  have ub: "unat (of_nat ?fi :: u32) = ?fi" "unat (of_nat ?bv :: u32) = ?bv"
    "unat (of_nat (g_index_count (gs ! i)) :: u32) = g_index_count (gs ! i)"
    using batch_offsets_fit [OF i fits] by (simp_all add: unat_of_nat_u32)
  have "vertex_at ?V (unat (?I ! (?fi + k) + of_nat ?bv)) =
      vertex_at (g_vertices (gs ! i)) (unat (g_indices (gs ! i) ! k))"
    if k: "k < g_index_count (gs ! i)" for k
  proof -
    have inr: "unat (g_indices (gs ! i) ! k) < g_vertex_count (gs ! i)"
      using wf i k by (auto simp: wf_geometry_def g_index_count_def)
    then have "unat (g_indices (gs ! i) ! k + of_nat ?bv) = ?bv + unat (g_indices (gs ! i) ! k)"
      using batch_offsets_fit(2) [OF i fits] ub by (simp add: word_add_in_range)
    then show ?thesis using batch_index_at [OF i k] batch_vertex_at [OF i wf inr] by simp
  qed
  then show ?thesis
    using ub by (auto simp: fetch_def own_geometry_def ref_command_def g_index_count_def intro!: nth_equalityI)
qed

section \<open>The contract of a draw planner\<close>

text \<open>
  A planner turns a draw list into the commands for the static and for the dynamic batch.
  Its promise: whenever every input can be read and every handle is in range, the two command
  lists are the reference commands of the handles of each access, in draw-list order.
\<close>

locale draw_planner =
  fixes plan :: "bool \<Rightarrow> memory \<Rightarrow> RendererInput list \<Rightarrow> nat list \<Rightarrow>
      (DrawIndirectCommand list \<times> DrawIndirectCommand list) outcome"
  assumes plan_reference:
    "all_geometry mem inputs = Inr gs \<Longrightarrow> \<forall>h\<in>set draws. h < length inputs \<Longrightarrow>
     plan d mem inputs draws =
       Inr (map (ref_command gs) (draws_of gs StaticFixed draws),
            map (ref_command gs) (draws_of gs DynamicFixed draws))"
begin

lemma plan_total:
  "all_geometry mem inputs = Inr gs \<Longrightarrow> \<forall>h\<in>set draws. h < length inputs \<Longrightarrow>
   \<exists>st dy. plan d mem inputs draws = Inr (st, dy)"
  by (simp add: plan_reference)

lemma plan_every_draw_once:
  assumes "all_geometry mem inputs = Inr gs" "\<forall>h\<in>set draws. h < length inputs"
    and "plan d mem inputs draws = Inr (st, dy)"
  shows "length st + length dy = length draws"
proof -
  have "length (filter (\<lambda>h. g_access (gs ! h) = StaticFixed) draws) +
      length (filter (\<lambda>h. g_access (gs ! h) = DynamicFixed) draws) = length draws"
    by (induction draws) (auto, metis RendererInputDataAccess.exhaust)
  then show ?thesis
    using plan_reference [OF assms(1,2), of d] assms(3) by (auto simp: draws_of_def)
qed

lemma plan_fetches_geometry:
  assumes "all_geometry mem inputs = Inr gs" "\<forall>h\<in>set draws. h < length gs" "length gs = length inputs"
    and "\<forall>g\<in>set gs. wf_geometry g" "batch_fits gs" "plan d mem inputs draws = Inr (st, dy)"
  shows "map (fetch (batch_vertices gs StaticFixed) (batch_indices gs StaticFixed)) st =
      map (\<lambda>h. own_geometry (gs ! h)) (draws_of gs StaticFixed draws)"
    and "map (fetch (batch_vertices gs DynamicFixed) (batch_indices gs DynamicFixed)) dy =
      map (\<lambda>h. own_geometry (gs ! h)) (draws_of gs DynamicFixed draws)"
proof -
  have "\<forall>h\<in>set draws. h < length inputs" using assms(2,3) by simp
  then have p: "st = map (ref_command gs) (draws_of gs StaticFixed draws)"
    "dy = map (ref_command gs) (draws_of gs DynamicFixed draws)"
    using plan_reference [OF assms(1)] assms(6) by auto
  have one: "fetch (batch_vertices gs a) (batch_indices gs a) (ref_command gs h) = own_geometry (gs ! h)"
    if "h \<in> set draws" "g_access (gs ! h) = a" for h a
    using fetch_ref_command [of h gs] assms(2,4,5) that by blast
  show "map (fetch (batch_vertices gs StaticFixed) (batch_indices gs StaticFixed)) st =
      map (\<lambda>h. own_geometry (gs ! h)) (draws_of gs StaticFixed draws)"
    by (auto simp: p draws_of_def one)
  show "map (fetch (batch_vertices gs DynamicFixed) (batch_indices gs DynamicFixed)) dy =
      map (\<lambda>h. own_geometry (gs ! h)) (draws_of gs DynamicFixed draws)"
    by (auto simp: p draws_of_def one)
qed

end

section \<open>Reading all inputs\<close>

lemma all_geometry_length: "all_geometry mem is = Inr gs \<Longrightarrow> length gs = length is"
  by (induction "is" arbitrary: gs) (auto simp: outcome_simps)

lemma all_geometry_nth:
  "all_geometry mem is = Inr gs \<Longrightarrow> i < length is \<Longrightarrow> input_geometry mem (is ! i) = Inr (gs ! i)"
proof (induction "is" arbitrary: gs i)
  case (Cons inp inps)
  then show ?case by (cases i) (auto simp: outcome_simps)
qed simp

lemma all_geometry_append:
  "all_geometry mem (xs @ ys) =
     and_then (all_geometry mem xs) (\<lambda>as. and_then (all_geometry mem ys) (\<lambda>bs. Inr (as @ bs)))"
proof (induction xs)
  case (Cons x xs)
  then show ?case
    by (cases "input_geometry mem x"; cases "all_geometry mem xs"; cases "all_geometry mem ys") simp_all
qed simp

lemma input_geometry_Inr_iff:
  "input_geometry mem inp = Inr g \<longleftrightarrow>
     input_get_vertex_bytes mem inp = Inr (g_vertices g) \<and> input_get_indices mem inp = Inr (g_indices g) \<and>
     g_access g = input_data_access inp"
  by (cases g) (auto simp: input_geometry_def outcome_simps)

lemma input_counts:
  assumes "input_geometry mem inp = Inr g"
  shows "vertex_count mem inp = Inr (g_vertex_count g)" "index_count mem inp = Inr (g_index_count g)"
    "input_data_access inp = g_access g"
  using assms
  by (simp_all add: input_geometry_Inr_iff vertex_count_def vertex_count_bytes_def index_count_def
      g_vertex_count_def g_index_count_def vertex_stride_def)

end
