(* ===== verification/Draw_Plan.thy ===== *)
theory Draw_Plan
  imports Draw_Spec
begin

text \<open>
  \<open>RendererOGL::bind_draw_list\<close> and \<open>RendererProcessorVulkan::record_draw_list\<close> build the
  indirect commands by the same two loops; they differ in the width of the running counters,
  which are \<open>unsigned int\<close> in one and \<open>std::size_t\<close> in the other before they are stored in
  32-bit command fields.  The loops are given once, for counters of any width, and the width is
  fixed by the backend.  The tables keyed by input pointers are keyed by the position of the
  input, since each position holds its own object.
\<close>

record 'c counters =
  static_vtx_count :: 'c
  static_idx_count :: 'c
  dynamic_vtx_count :: 'c
  dynamic_idx_count :: 'c
  input_draws :: "nat \<Rightarrow> DrawIndirectCommand option"
  dynamic_input_draws :: "nat \<Rightarrow> DrawIndirectCommand option"

definition no_draws :: "'w::len word counters" where
  "no_draws = \<lparr>static_vtx_count = 0, static_idx_count = 0, dynamic_vtx_count = 0, dynamic_idx_count = 0,
     input_draws = (\<lambda>_. None), dynamic_input_draws = (\<lambda>_. None)\<rparr>"

text \<open>The first loop: one command for every input.\<close>

definition draw_table_step ::
    "memory \<Rightarrow> RendererInput list \<Rightarrow> nat \<Rightarrow> 'w::len word counters \<Rightarrow> 'w word counters outcome" where
  "draw_table_step mem inputs i s =
     and_then (at_index inputs i) (\<lambda>inp.
     and_then (index_count mem inp) (\<lambda>ic. and_then (vertex_count mem inp) (\<lambda>vc.
     case input_data_access inp of
       StaticFixed \<Rightarrow>
         Inr (s\<lparr>input_draws := (input_draws s)(i \<mapsto>
                 \<lparr>draw_count = of_nat ic, instanceCount = 1, firstIndex = ucast (static_idx_count s),
                  baseVertex = ucast (static_vtx_count s), baseInstance = 0\<rparr>),
               static_vtx_count := static_vtx_count s + of_nat vc,
               static_idx_count := static_idx_count s + of_nat ic\<rparr>)
     | DynamicFixed \<Rightarrow>
         Inr (s\<lparr>dynamic_input_draws := (dynamic_input_draws s)(i \<mapsto>
                 \<lparr>draw_count = of_nat ic, instanceCount = 1, firstIndex = ucast (dynamic_idx_count s),
                  baseVertex = ucast (dynamic_vtx_count s), baseInstance = 0\<rparr>),
               dynamic_vtx_count := dynamic_vtx_count s + of_nat vc,
               dynamic_idx_count := dynamic_idx_count s + of_nat ic\<rparr>))))"

definition draw_table :: "memory \<Rightarrow> RendererInput list \<Rightarrow> 'w::len word counters outcome" where
  "draw_table mem inputs = for_each (draw_table_step mem inputs) [0..<length inputs] no_draws"

text \<open>\<open>unordered_map::operator[]\<close> inserts a value-initialised command for a missing key.\<close>

definition table_lookup :: "(nat \<Rightarrow> DrawIndirectCommand option) \<Rightarrow> nat \<Rightarrow> DrawIndirectCommand" where
  "table_lookup m i =
     (case m i of Some c \<Rightarrow> c
      | None \<Rightarrow> \<lparr>draw_count = 0, instanceCount = 0, firstIndex = 0, baseVertex = 0, baseInstance = 0\<rparr>)"

text \<open>The second loop: the draw list as two lists of commands.\<close>

definition collect_step ::
    "RendererInput list \<Rightarrow> 'w::len word counters \<Rightarrow> nat \<Rightarrow> DrawIndirectCommand list \<times> DrawIndirectCommand list \<Rightarrow>
     (DrawIndirectCommand list \<times> DrawIndirectCommand list) outcome" where
  "collect_step inputs s handle_val acc =
     and_then (at_index inputs handle_val) (\<lambda>inp.
     case input_data_access inp of
       StaticFixed \<Rightarrow> Inr (fst acc @ [table_lookup (input_draws s) handle_val], snd acc)
     | DynamicFixed \<Rightarrow> Inr (fst acc, snd acc @ [table_lookup (dynamic_input_draws s) handle_val]))"

definition plan_draws ::
    "'w::len itself \<Rightarrow> bool \<Rightarrow> memory \<Rightarrow> RendererInput list \<Rightarrow> nat list \<Rightarrow>
     (DrawIndirectCommand list \<times> DrawIndirectCommand list) outcome" where
  "plan_draws w d mem inputs draws =
     and_then (draw_table mem inputs) (\<lambda>s :: 'w word counters.
     and_then (for_each (collect_step inputs s) draws ([], [])) (\<lambda>acc.
     and_then (tz_assert d (length (fst acc) + length (snd acc) = length draws)) (\<lambda>_. Inr acc)))"

section \<open>The loops compute the reference commands\<close>

definition prefix_of :: "geometry list \<Rightarrow> RendererInputDataAccess \<Rightarrow> nat \<Rightarrow> geometry list" where
  "prefix_of gs a k = filter (\<lambda>g. g_access g = a) (take k gs)"

definition table_at :: "geometry list \<Rightarrow> nat \<Rightarrow> 'w::len word counters" where
  "table_at gs k =
     \<lparr>static_vtx_count = of_nat (sum_list (map g_vertex_count (prefix_of gs StaticFixed k))),
      static_idx_count = of_nat (sum_list (map g_index_count (prefix_of gs StaticFixed k))),
      dynamic_vtx_count = of_nat (sum_list (map g_vertex_count (prefix_of gs DynamicFixed k))),
      dynamic_idx_count = of_nat (sum_list (map g_index_count (prefix_of gs DynamicFixed k))),
      input_draws = (\<lambda>i. if i < k \<and> g_access (gs ! i) = StaticFixed then Some (ref_command gs i) else None),
      dynamic_input_draws = (\<lambda>i. if i < k \<and> g_access (gs ! i) = DynamicFixed then Some (ref_command gs i) else None)\<rparr>"

lemma prefix_of_Suc:
  "k < length gs \<Longrightarrow> prefix_of gs a (Suc k) = prefix_of gs a k @ (if g_access (gs ! k) = a then [gs ! k] else [])"
  by (simp add: prefix_of_def take_Suc_conv_app_nth)

lemma ucast_of_nat_u32: "32 \<le> LENGTH('w::len) \<Longrightarrow> (ucast (of_nat n :: 'w word) :: u32) = of_nat n"
  by (simp add: unsigned_of_nat word_of_nat_eq_iff min_def)

lemma draw_table_step_at:
  assumes "all_geometry mem inputs = Inr gs" "k < length inputs" "32 \<le> LENGTH('w::len)"
  shows "draw_table_step mem inputs k (table_at gs k :: 'w word counters) = Inr (table_at gs (Suc k))"
proof -
  have g: "input_geometry mem (inputs ! k) = Inr (gs ! k)" and len: "length gs = length inputs"
    using all_geometry_nth [OF assms(1,2)] all_geometry_length [OF assms(1)] by simp_all
  note counts = input_counts [OF g]
  have ref: "ref_command gs k =
      \<lparr>draw_count = of_nat (g_index_count (gs ! k)), instanceCount = 1,
       firstIndex = of_nat (sum_list (map g_index_count (prefix_of gs (g_access (gs ! k)) k))),
       baseVertex = of_nat (sum_list (map g_vertex_count (prefix_of gs (g_access (gs ! k)) k))), baseInstance = 0\<rparr>"
    by (simp add: ref_command_def earlier_def prefix_of_def)
  show ?thesis
  proof (cases "g_access (gs ! k)")
    case StaticFixed
    then show ?thesis
      using assms(2) len counts ref
      by (auto simp: draw_table_step_def table_at_def prefix_of_Suc ucast_of_nat_u32 [OF assms(3)] less_Suc_eq
          fun_eq_iff)
  next
    case DynamicFixed
    then show ?thesis
      using assms(2) len counts ref
      by (auto simp: draw_table_step_def table_at_def prefix_of_Suc ucast_of_nat_u32 [OF assms(3)] less_Suc_eq
          fun_eq_iff)
  qed
qed

lemma draw_table_correct:
  assumes "all_geometry mem inputs = Inr gs" "32 \<le> LENGTH('w::len)"
  shows "draw_table mem inputs = Inr (table_at gs (length inputs) :: 'w word counters)"
  unfolding draw_table_def
proof (rule for_range_closed_form)
  show "(table_at gs 0 :: 'w word counters) = no_draws"
    by (simp add: table_at_def no_draws_def prefix_of_def)
next
  fix i assume "i < length inputs"
  then show "draw_table_step mem inputs i (table_at gs i :: 'w word counters) = Inr (table_at gs (Suc i))"
    using draw_table_step_at [OF assms(1)] assms(2) by blast
qed

lemma collect_correct:
  assumes "all_geometry mem inputs = Inr gs" "\<forall>h\<in>set draws. h < length inputs"
  shows "for_each (collect_step inputs (table_at gs (length inputs) :: 'w::len word counters)) draws acc =
    Inr (fst acc @ map (ref_command gs) (draws_of gs StaticFixed draws),
         snd acc @ map (ref_command gs) (draws_of gs DynamicFixed draws))"
  using assms(2)
proof (induction draws arbitrary: acc)
  case Nil
  then show ?case by (simp add: draws_of_def)
next
  case (Cons h draws)
  have "input_data_access (inputs ! h) = g_access (gs ! h)"
    using Cons.prems all_geometry_nth [OF assms(1), of h] by (intro input_counts(3)) simp
  then show ?case
    using Cons by (cases "g_access (gs ! h)")
      (simp_all add: collect_step_def table_lookup_def table_at_def draws_of_def)
qed

lemma plan_draws_reference:
  assumes "all_geometry mem inputs = Inr gs" "\<forall>h\<in>set draws. h < length inputs" "32 \<le> LENGTH('w::len)"
  shows "plan_draws TYPE('w) d mem inputs draws =
    Inr (map (ref_command gs) (draws_of gs StaticFixed draws),
         map (ref_command gs) (draws_of gs DynamicFixed draws))"
proof -
  have "length (filter (\<lambda>h. g_access (gs ! h) = StaticFixed) draws) +
      length (filter (\<lambda>h. g_access (gs ! h) = DynamicFixed) draws) = length draws"
    by (induction draws) (auto, metis RendererInputDataAccess.exhaust)
  then show ?thesis
    using assms
    by (simp add: plan_draws_def draw_table_correct collect_correct draws_of_def)
qed

lemma plan_draws_bad_handle:
  assumes "all_geometry mem inputs = Inr gs" "\<exists>h\<in>set draws. length inputs \<le> h" "32 \<le> LENGTH('w::len)"
  shows "plan_draws TYPE('w) d mem inputs draws = Inl OutOfBounds"
proof -
  have "for_each (collect_step inputs s) draws acc = Inl OutOfBounds" for s :: "'w word counters" and acc
    using assms(2)
  proof (induction draws arbitrary: acc)
    case (Cons h draws)
    show ?case
    proof (cases "h < length inputs")
      case True
      then show ?thesis
        using Cons by (auto simp: collect_step_def split: RendererInputDataAccess.splits)
    next
      case False
      then show ?thesis by (simp add: collect_step_def)
    qed
  qed simp
  then show ?thesis
    using draw_table_correct [OF assms(1,3)] by (simp add: plan_draws_def)
qed

section \<open>Counting draws and listing every input once\<close>

text \<open>
  The four \<open>std::accumulate\<close> counts of the two renderers, over the inputs and over the cached
  draw list, and \<open>all_inputs_once\<close>.
\<close>

definition count_inputs :: "RendererInputDataAccess \<Rightarrow> RendererInput list \<Rightarrow> nat" where
  "count_inputs a inputs =
     fold (\<lambda>inp acc. acc + (if input_data_access inp = a then 1 else 0)) inputs 0"

definition count_draws :: "RendererInputDataAccess \<Rightarrow> RendererInput list \<Rightarrow> nat list \<Rightarrow> nat outcome" where
  "count_draws a inputs draws =
     for_each (\<lambda>h acc. and_then (at_index inputs h) (\<lambda>inp.
       Inr (acc + (if input_data_access inp = a then 1 else 0)))) draws 0"

definition all_inputs_once :: "RendererInput list \<Rightarrow> nat list" where
  "all_inputs_once inputs = fold (\<lambda>i list. basic_list_add list i) [0..<length inputs] []"

lemma count_inputs_length: "count_inputs a inputs = length (filter (\<lambda>i. input_data_access i = a) inputs)"
proof -
  have "fold (\<lambda>inp acc. acc + (if input_data_access inp = a then 1 else 0)) inputs n =
      n + length (filter (\<lambda>i. input_data_access i = a) inputs)" for n
    by (induction inputs arbitrary: n) auto
  then show ?thesis by (simp add: count_inputs_def)
qed

lemma count_draws_length:
  assumes "\<forall>h\<in>set draws. h < length inputs"
  shows "count_draws a inputs draws = Inr (length (filter (\<lambda>h. input_data_access (inputs ! h) = a) draws))"
proof -
  have "for_each (\<lambda>h acc. and_then (at_index inputs h) (\<lambda>inp.
      Inr (acc + (if input_data_access inp = a then 1 else 0)))) draws n =
      Inr (n + length (filter (\<lambda>h. input_data_access (inputs ! h) = a) draws))" for n
    using assms by (induction draws arbitrary: n) auto
  then show ?thesis by (simp add: count_draws_def)
qed

lemma all_inputs_once_upt: "all_inputs_once inputs = [0..<length inputs]"
proof -
  have "fold (\<lambda>i list. basic_list_add list i) is acc = acc @ is" for "is" acc :: "nat list"
    by (induction "is" arbitrary: acc) (simp_all add: basic_list_add_def)
  then show ?thesis by (simp add: all_inputs_once_def)
qed

section \<open>Commands in memory\<close>

definition command_bytes :: "DrawIndirectCommand list \<Rightarrow> u8 list" where
  "command_bytes cmds =
     encode_u32s (concat (map (\<lambda>c. [draw_count c, instanceCount c, firstIndex c, baseVertex c, baseInstance c]) cmds))"

definition sizeof_DrawIndirectCommand :: nat where
  "sizeof_DrawIndirectCommand = 20"

fun decode_commands :: "u32 list \<Rightarrow> DrawIndirectCommand list" where
  "decode_commands (a # b # c # e # f # ws) =
     \<lparr>draw_count = a, instanceCount = b, firstIndex = c, baseVertex = e, baseInstance = f\<rparr> # decode_commands ws"
| "decode_commands _ = []"

lemma decode_commands_step:
  "decode_commands ([draw_count c, instanceCount c, firstIndex c, baseVertex c, baseInstance c] @ ws) = c # decode_commands ws"
  by simp

lemma decode_commands_concat:
  "decode_commands (concat (map (\<lambda>c. [draw_count c, instanceCount c, firstIndex c, baseVertex c, baseInstance c]) cmds) @ ws) =
   cmds @ decode_commands ws"
  by (induction cmds) simp_all

lemma decode_u32s_encode_append: "decode_u32s (encode_u32s ws @ bs) = ws @ decode_u32s bs"
proof (induction ws)
  case (Cons w ws)
  have "encode_u32s (w # ws) @ bs = u32_bytes w @ encode_u32s ws @ bs" by (simp add: encode_u32s_def)
  then show ?case using Cons by (simp add: decode_u32s_step)
qed (simp add: encode_u32s_def)

lemma length_command_bytes [layout_simps]: "length (command_bytes cmds) = 20 * length cmds"
proof -
  have "length (concat (map (\<lambda>c. [draw_count c, instanceCount c, firstIndex c, baseVertex c, baseInstance c]) cmds)) =
      5 * length cmds"
    by (induction cmds) simp_all
  then show ?thesis by (simp only: command_bytes_def length_encode_u32s)
qed

lemma decode_command_bytes:
  "decode_commands (decode_u32s (command_bytes cmds @ rest)) = cmds @ decode_commands (decode_u32s rest)"
  by (simp only: command_bytes_def decode_u32s_encode_append decode_commands_concat)

lemma decode_command_prefix:
  assumes "take (length (command_bytes cmds)) bytes = command_bytes cmds"
  shows "take (length cmds) (decode_commands (decode_u32s bytes)) = cmds"
proof -
  have "bytes = command_bytes cmds @ drop (length (command_bytes cmds)) bytes"
    using assms append_take_drop_id [of "length (command_bytes cmds)" bytes] by simp
  then show ?thesis
    using decode_command_bytes [of cmds "drop (length (command_bytes cmds)) bytes"] by simp
qed

text \<open>
  What an indexed indirect draw of \<open>n\<close> commands fetches, from the bytes of the bound vertex,
  index and indirect buffers.  Reading commands past the end of the buffer is not allowed.
\<close>

definition indirect_fetch :: "u8 list \<Rightarrow> u8 list \<Rightarrow> u8 list \<Rightarrow> nat \<Rightarrow> u8 list list list option" where
  "indirect_fetch vs es is n =
     (if n * sizeof_DrawIndirectCommand \<le> length is
      then Some (concat (map (\<lambda>c. replicate (unat (instanceCount c)) (fetch vs (decode_u32s es) c))
             (take n (decode_commands (decode_u32s is)))))
      else None)"

definition commands_of :: "geometry list \<Rightarrow> RendererInputDataAccess \<Rightarrow> nat list \<Rightarrow> DrawIndirectCommand list" where
  "commands_of gs a draws = map (ref_command gs) (draws_of gs a draws)"

definition batch_geometry :: "geometry list \<Rightarrow> RendererInputDataAccess \<Rightarrow> nat list \<Rightarrow> u8 list list list" where
  "batch_geometry gs a draws = map (\<lambda>h. own_geometry (gs ! h)) (draws_of gs a draws)"

lemma indirect_fetch_batch:
  assumes draws: "\<forall>h\<in>set draws. h < length gs" and wf: "\<forall>g\<in>set gs. wf_geometry g" "batch_fits gs"
    and cmds: "take (length (command_bytes (commands_of gs a draws))) bytes = command_bytes (commands_of gs a draws)"
  shows "indirect_fetch (batch_vertices gs a) (encode_u32s (batch_indices gs a)) bytes (length (commands_of gs a draws)) =
    Some (batch_geometry gs a draws)"
proof -
  have "length (command_bytes (commands_of gs a draws)) \<le> length bytes"
    using arg_cong [OF cmds, of length] by simp
  then have "length (commands_of gs a draws) * sizeof_DrawIndirectCommand \<le> length bytes"
    by (simp add: layout_simps sizeof_DrawIndirectCommand_def)
  moreover have one: "replicate (unat (instanceCount (ref_command gs h))) (fetch (batch_vertices gs a) (batch_indices gs a) (ref_command gs h)) =
      [own_geometry (gs ! h)]" if "h \<in> set (draws_of gs a draws)" for h
  proof -
    have "h < length gs" "g_access (gs ! h) = a" using that draws by (auto simp: draws_of_def)
    moreover have "unat (instanceCount (ref_command gs h)) = 1" by (simp add: ref_command_def)
    ultimately show ?thesis using fetch_ref_command [OF _ wf, of h] by simp
  qed
  have "map (\<lambda>c. replicate (unat (instanceCount c)) (fetch (batch_vertices gs a) (batch_indices gs a) c)) (commands_of gs a draws) =
      map (\<lambda>h. [own_geometry (gs ! h)]) (draws_of gs a draws)"
    by (simp add: commands_of_def one)
  ultimately show ?thesis
    using decode_command_prefix [OF cmds] by (simp add: indirect_fetch_def batch_geometry_def)
qed

end
