(* ===== verification/Input_Layout.thy ===== *)
theory Input_Layout
  imports Draw_Plan
begin

text \<open>
  What both renderers do with the data of their inputs: the first step of
  \<open>RendererOGL::RendererOGL\<close> and of \<open>RendererBufferManagerVulkan::setup_buffers\<close> concatenates the
  geometry of all inputs of one access, and the second lets every dynamic input read and write
  its part of a mapped buffer.  The lemmas show that the concatenations are the batches of
  \<open>Draw_Spec\<close>, and that an input whose bytes are already at its pointer keeps its geometry.
\<close>

section \<open>Compile all data\<close>

record DynamicInputMapRegion =
  region_input :: nat
  region_offset :: nat
  region_length :: nat

record compiled_data =
  total_vertices :: "u8 list"
  total_indices :: "u32 list"
  total_vertices_dynamic :: "u8 list"
  total_indices_dynamic :: "u32 list"
  vertex_regions :: "DynamicInputMapRegion list"
  index_regions :: "DynamicInputMapRegion list"
  any_static_geometry :: bool
  any_dynamic_geometry :: bool
  compiled_format :: "RendererElementFormat option"

definition nothing_compiled :: compiled_data where
  "nothing_compiled =
     \<lparr>total_vertices = [], total_indices = [], total_vertices_dynamic = [], total_indices_dynamic = [],
      vertex_regions = [], index_regions = [], any_static_geometry = False, any_dynamic_geometry = False,
      compiled_format = None\<rparr>"

definition compile_input ::
    "memory \<Rightarrow> RendererInput list \<Rightarrow> nat \<Rightarrow> compiled_data \<Rightarrow> compiled_data outcome" where
  "compile_input mem inps i c =
     and_then (at_index inps i) (\<lambda>inp.
     let c = c\<lparr>compiled_format := Some (input_get_format inp)\<rparr> in
     and_then (input_get_vertex_bytes mem inp) (\<lambda>input_vertices.
     and_then (input_get_indices mem inp) (\<lambda>input_indices.
     case input_data_access inp of
       StaticFixed \<Rightarrow>
         Inr (c\<lparr>total_vertices := total_vertices c @ input_vertices,
               total_indices := total_indices c @ input_indices,
               any_static_geometry := True\<rparr>)
     | DynamicFixed \<Rightarrow>
         Inr (c\<lparr>total_vertices_dynamic := total_vertices_dynamic c @ input_vertices,
               total_indices_dynamic := total_indices_dynamic c @ input_indices,
               any_dynamic_geometry := True,
               vertex_regions := vertex_regions c @
                 [\<lparr>region_input = i, region_offset = length (total_vertices_dynamic c), region_length = length input_vertices\<rparr>],
               index_regions := index_regions c @
                 [\<lparr>region_input = i, region_offset = length (total_indices_dynamic c), region_length = length input_indices\<rparr>]\<rparr>))))"

definition compile_data :: "memory \<Rightarrow> RendererInput list \<Rightarrow> compiled_data outcome" where
  "compile_data mem inps = for_each (compile_input mem inps) [0..<length inps] nothing_compiled"

section \<open>Pointing inputs into mapped memory\<close>

text \<open>\<open>set_vertex_data\<close> and \<open>set_index_data\<close> through a reference to a dynamic input.\<close>

definition map_vertex_region ::
    "ptr option \<Rightarrow> DynamicInputMapRegion \<Rightarrow> memory \<times> RendererInput list \<Rightarrow> (memory \<times> RendererInput list) outcome" where
  "map_vertex_region vtx_mem region s =
     (case s of (mem, inps) \<Rightarrow>
        case vtx_mem of None \<Rightarrow> Inl NullDereference | Some p \<Rightarrow>
        and_then (at_index inps (region_input region)) (\<lambda>inp.
        case inp of StaticInput _ \<Rightarrow> Inl IllFormedProgram | DynamicInput i \<Rightarrow>
        and_then (mesh_dynamic_set_vertex_data mem i (byte_ptr_add p (region_offset region))) (\<lambda>(mem, i).
        Inr (mem, inps[region_input region := DynamicInput i]))))"

definition map_index_region ::
    "ptr option \<Rightarrow> DynamicInputMapRegion \<Rightarrow> memory \<times> RendererInput list \<Rightarrow> (memory \<times> RendererInput list) outcome" where
  "map_index_region idx_mem region s =
     (case s of (mem, inps) \<Rightarrow>
        case idx_mem of None \<Rightarrow> Inl NullDereference | Some p \<Rightarrow>
        and_then (at_index inps (region_input region)) (\<lambda>inp.
        case inp of StaticInput _ \<Rightarrow> Inl IllFormedProgram | DynamicInput i \<Rightarrow>
        and_then (mesh_dynamic_set_index_data mem i (uint_ptr_add p (region_offset region))) (\<lambda>(mem, i).
        Inr (mem, inps[region_input region := DynamicInput i]))))"

section \<open>Compiling gives the batches\<close>

definition vertex_region :: "geometry list \<Rightarrow> nat \<Rightarrow> DynamicInputMapRegion" where
  "vertex_region gs i =
     \<lparr>region_input = i, region_offset = length (concat (map g_vertices (prefix_of gs DynamicFixed i))),
      region_length = length (g_vertices (gs ! i))\<rparr>"

definition index_region :: "geometry list \<Rightarrow> nat \<Rightarrow> DynamicInputMapRegion" where
  "index_region gs i =
     \<lparr>region_input = i, region_offset = length (concat (map g_indices (prefix_of gs DynamicFixed i))),
      region_length = length (g_indices (gs ! i))\<rparr>"

definition dynamic_positions :: "geometry list \<Rightarrow> nat \<Rightarrow> nat list" where
  "dynamic_positions gs k = filter (\<lambda>i. g_access (gs ! i) = DynamicFixed) [0..<k]"

definition compiled_at :: "RendererInput list \<Rightarrow> geometry list \<Rightarrow> nat \<Rightarrow> compiled_data" where
  "compiled_at inps gs k =
     \<lparr>total_vertices = concat (map g_vertices (prefix_of gs StaticFixed k)),
      total_indices = concat (map g_indices (prefix_of gs StaticFixed k)),
      total_vertices_dynamic = concat (map g_vertices (prefix_of gs DynamicFixed k)),
      total_indices_dynamic = concat (map g_indices (prefix_of gs DynamicFixed k)),
      vertex_regions = map (vertex_region gs) (dynamic_positions gs k),
      index_regions = map (index_region gs) (dynamic_positions gs k),
      any_static_geometry = (prefix_of gs StaticFixed k \<noteq> []),
      any_dynamic_geometry = (prefix_of gs DynamicFixed k \<noteq> []),
      compiled_format = (if k = 0 then None else Some (input_get_format (inps ! (k - 1))))\<rparr>"

lemma compile_input_at:
  assumes "all_geometry mem inps = Inr gs" "k < length inps"
  shows "compile_input mem inps k (compiled_at inps gs k) = Inr (compiled_at inps gs (Suc k))"
proof -
  have g: "input_geometry mem (inps ! k) = Inr (gs ! k)" and len: "length gs = length inps"
    using all_geometry_nth [OF assms] all_geometry_length [OF assms(1)] by simp_all
  have read: "input_get_vertex_bytes mem (inps ! k) = Inr (g_vertices (gs ! k))"
    "input_get_indices mem (inps ! k) = Inr (g_indices (gs ! k))"
    "input_data_access (inps ! k) = g_access (gs ! k)"
    using g by (simp_all add: input_geometry_Inr_iff)
  show ?thesis
    using assms(2) len read
    by (cases "g_access (gs ! k)")
      (simp_all add: compile_input_def compiled_at_def prefix_of_Suc dynamic_positions_def vertex_region_def
        index_region_def Let_def)
qed

lemma compile_data_correct:
  assumes "all_geometry mem inps = Inr gs"
  shows "compile_data mem inps = Inr (compiled_at inps gs (length inps))"
  unfolding compile_data_def
proof (rule for_range_closed_form)
  show "compiled_at inps gs 0 = nothing_compiled"
    by (simp add: compiled_at_def nothing_compiled_def prefix_of_def dynamic_positions_def)
qed (rule compile_input_at [OF assms])

lemma prefix_of_length: "prefix_of gs a (length gs) = of_access gs a"
  by (simp add: prefix_of_def of_access_def)

lemma compiled_totals:
  assumes "length gs = length inps"
  shows "total_vertices (compiled_at inps gs (length inps)) = batch_vertices gs StaticFixed"
    "total_indices (compiled_at inps gs (length inps)) = batch_indices gs StaticFixed"
    "total_vertices_dynamic (compiled_at inps gs (length inps)) = batch_vertices gs DynamicFixed"
    "total_indices_dynamic (compiled_at inps gs (length inps)) = batch_indices gs DynamicFixed"
    "any_static_geometry (compiled_at inps gs (length inps)) \<longleftrightarrow> of_access gs StaticFixed \<noteq> []"
    "any_dynamic_geometry (compiled_at inps gs (length inps)) \<longleftrightarrow> of_access gs DynamicFixed \<noteq> []"
  by (simp_all add: compiled_at_def batch_vertices_def batch_indices_def flip: assms prefix_of_length)

section \<open>Mapping the dynamic inputs\<close>

lemma overwrite_chunk: "off + n \<le> length xs \<Longrightarrow> overwrite xs off (chunk off n xs) = xs"
  by (simp add: overwrite_def chunk_def min_def) (metis append_take_drop_id take_drop add.commute drop_drop)

lemma mem_write_same:
  "mem (block p) = Some bs \<Longrightarrow> offset p + length ys \<le> length bs \<Longrightarrow> chunk (offset p) (length ys) bs = ys \<Longrightarrow>
   mem_write mem p ys = Inr mem"
  using overwrite_chunk [of "offset p" "length ys" bs] by (simp add: mem_write_def fun_upd_idem)

lemma encode_take_drop: "take (4 * n) (encode_u32s xs) = encode_u32s (take n xs)"
  "drop (4 * n) (encode_u32s xs) = encode_u32s (drop n xs)"
proof (induction xs arbitrary: n)
  case (Cons x xs)
  { case 1 show ?case using Cons by (cases n) (simp_all add: encode_u32s_def) }
  { case 2 show ?case using Cons by (cases n) (simp_all add: encode_u32s_def) }
qed (simp_all add: encode_u32s_def)

lemma chunk_encode: "chunk (4 * off) (4 * n) (encode_u32s xs) = encode_u32s (chunk off n xs)"
  by (simp add: chunk_def encode_take_drop)

text \<open>A loop that replaces the element at each of several distinct positions.\<close>

lemma for_each_replace:
  assumes "distinct (map pos rs)" "\<forall>r\<in>set rs. pos r < length xs"
    and "\<And>r ys. r \<in> set rs \<Longrightarrow> length ys = length xs \<Longrightarrow> ys ! pos r = xs ! pos r \<Longrightarrow>
      body r (m, ys) = Inr (m, ys[pos r := f r])"
  shows "\<exists>ys. for_each body rs (m, xs) = Inr (m, ys) \<and> length ys = length xs \<and>
    (\<forall>r\<in>set rs. ys ! pos r = f r) \<and> (\<forall>i. i \<notin> pos ` set rs \<longrightarrow> ys ! i = xs ! i)"
  using assms
proof (induction rs arbitrary: xs)
  case (Cons r rs)
  let ?xs = "xs[pos r := f r]"
  have "\<exists>ys. for_each body rs (m, ?xs) = Inr (m, ys) \<and> length ys = length ?xs \<and>
      (\<forall>r\<in>set rs. ys ! pos r = f r) \<and> (\<forall>i. i \<notin> pos ` set rs \<longrightarrow> ys ! i = ?xs ! i)"
  proof (rule Cons.IH)
    show "body s (m, ys) = Inr (m, ys[pos s := f s])"
      if "s \<in> set rs" "length ys = length ?xs" "ys ! pos s = ?xs ! pos s" for s ys
    proof (rule Cons.prems(3))
      have "pos r \<noteq> pos s" using Cons.prems(1) that(1) by auto
      then show "ys ! pos s = xs ! pos s" using that(3) by simp
    qed (use that in simp_all)
  qed (use Cons.prems in auto)
  then obtain ys where ys: "for_each body rs (m, ?xs) = Inr (m, ys)" "length ys = length ?xs"
    "\<forall>r\<in>set rs. ys ! pos r = f r" "\<forall>i. i \<notin> pos ` set rs \<longrightarrow> ys ! i = ?xs ! i" by blast
  moreover have "body r (m, xs) = Inr (m, ?xs)" using Cons.prems(3) [of r xs] by simp
  moreover have "ys ! pos r = f r" using ys(4) Cons.prems(1,2) by auto
  ultimately show ?case by (intro exI [of _ ys]) auto
qed simp

text \<open>Inputs as a renderer gets them: copies of meshes with whole vertices.\<close>

definition wf_input :: "RendererInput \<Rightarrow> bool" where
  "wf_input inp = (case inp of StaticInput i \<Rightarrow> wf_mesh (mesh i) | DynamicInput i \<Rightarrow> wf_mesh (initial_data i))"

definition is_unmapped :: "RendererInput \<Rightarrow> bool" where
  "is_unmapped inp = (case inp of StaticInput i \<Rightarrow> True | DynamicInput i \<Rightarrow> unmapped i)"

definition set_vertex_ptr :: "ptr \<Rightarrow> RendererInput \<Rightarrow> RendererInput" where
  "set_vertex_ptr p inp =
     (case inp of StaticInput i \<Rightarrow> StaticInput i | DynamicInput i \<Rightarrow> DynamicInput (i\<lparr>vertex_data := Some p\<rparr>))"

definition set_index_ptr :: "ptr \<Rightarrow> RendererInput \<Rightarrow> RendererInput" where
  "set_index_ptr p inp =
     (case inp of StaticInput i \<Rightarrow> StaticInput i | DynamicInput i \<Rightarrow> DynamicInput (i\<lparr>index_data := Some p\<rparr>))"

text \<open>The memory already holds an input's bytes at a pointer.\<close>

definition at_ptr :: "memory \<Rightarrow> ptr \<Rightarrow> u8 list \<Rightarrow> bool" where
  "at_ptr mem p bs \<longleftrightarrow> (\<exists>blk. mem (block p) = Some blk \<and> offset p + length bs \<le> length blk \<and>
     chunk (offset p) (length bs) blk = bs)"

lemma at_ptr_write: "at_ptr mem p bs \<Longrightarrow> mem_write mem p bs = Inr mem"
  by (auto simp: at_ptr_def mem_write_same)

lemma at_ptr_read: "at_ptr mem p bs \<Longrightarrow> mem_read mem p (length bs) = Inr bs"
  by (auto simp: at_ptr_def mem_read_def)

lemma set_vertex_ptr_keeps:
  assumes "wf_input inp" "input_geometry mem inp = Inr g" "g_access g = DynamicFixed"
    and "is_unmapped inp" "at_ptr mem p (g_vertices g)"
  shows "\<exists>i. inp = DynamicInput i \<and>
      mesh_dynamic_set_vertex_data mem i p = Inr (mem, i\<lparr>vertex_data := Some p\<rparr>)"
    and "input_geometry mem (set_vertex_ptr p inp) = Inr g"
proof -
  obtain i where i: "inp = DynamicInput i" "vertex_data i = None" "wf_mesh (initial_data i)"
    using assms(1,2,3,4)
    by (cases inp) (auto simp: input_geometry_Inr_iff input_data_access_def is_unmapped_def unmapped_def wf_input_def)
  have v: "g_vertices g = vertices_as_bytes (vertices (initial_data i))"
    using assms(2) i(1,2) by (simp add: input_geometry_Inr_iff input_get_vertex_bytes_def mesh_dynamic_get_vertex_bytes_def)
  then have len: "length (g_vertices g) = length (vertices (initial_data i)) * sizeof_Vertex"
    using i(3) by (simp add: wf_mesh_def layout_simps)
  show "\<exists>i. inp = DynamicInput i \<and>
      mesh_dynamic_set_vertex_data mem i p = Inr (mem, i\<lparr>vertex_data := Some p\<rparr>)"
    using i v at_ptr_write [OF assms(5)]
    by (simp add: mesh_dynamic_set_vertex_data_def mesh_dynamic_get_vertex_bytes_def Let_def)
  show "input_geometry mem (set_vertex_ptr p inp) = Inr g"
    using assms(2) i(1) len at_ptr_read [OF assms(5)]
    by (simp add: input_geometry_Inr_iff set_vertex_ptr_def input_get_vertex_bytes_def
      mesh_dynamic_get_vertex_bytes_def input_get_indices_def mesh_dynamic_get_indices_def input_data_access_def
      cong: option.case_cong)
qed

lemma set_index_ptr_keeps:
  assumes "input_geometry mem inp = Inr g" "inp = DynamicInput i" "index_data i = None"
    and "at_ptr mem p (encode_u32s (g_indices g))"
  shows "mesh_dynamic_set_index_data mem i p = Inr (mem, i\<lparr>index_data := Some p\<rparr>)"
    and "input_geometry mem (set_index_ptr p inp) = Inr g"
proof -
  have v: "g_indices g = indices (initial_data i)"
    using assms(1-3) by (simp add: input_geometry_Inr_iff input_get_indices_def mesh_dynamic_get_indices_def)
  show "mesh_dynamic_set_index_data mem i p = Inr (mem, i\<lparr>index_data := Some p\<rparr>)"
    using assms(3) v at_ptr_write [OF assms(4)]
    by (simp add: mesh_dynamic_set_index_data_def mesh_dynamic_get_indices_def Let_def)
  show "input_geometry mem (set_index_ptr p inp) = Inr g"
    using assms(1,2) v at_ptr_read [OF assms(4)]
    by (simp add: input_geometry_Inr_iff set_index_ptr_def input_get_vertex_bytes_def layout_simps
      mesh_dynamic_get_vertex_bytes_def input_get_indices_def mesh_dynamic_get_indices_def input_data_access_def
      cong: option.case_cong)
qed

lemma all_geometry_iff:
  "all_geometry mem inps = Inr gs \<longleftrightarrow>
     length gs = length inps \<and> (\<forall>i<length inps. input_geometry mem (inps ! i) = Inr (gs ! i))"
proof (induction inps arbitrary: gs)
  case (Cons inp inps)
  then show ?case
    by (cases gs) (auto simp: outcome_simps less_Suc_eq_0_disj nth_Cons')
qed auto

text \<open>Where the batch holds the geometry of a dynamic input.\<close>

lemma dynamic_position_props:
  assumes "i < length gs" "g_access (gs ! i) = DynamicFixed"
  shows "chunk (region_offset (vertex_region gs i)) (length (g_vertices (gs ! i))) (batch_vertices gs DynamicFixed) =
      g_vertices (gs ! i)"
    "region_offset (vertex_region gs i) + length (g_vertices (gs ! i)) \<le> length (batch_vertices gs DynamicFixed)"
    "chunk (region_offset (index_region gs i)) (length (g_indices (gs ! i))) (batch_indices gs DynamicFixed) =
      g_indices (gs ! i)"
    "region_offset (index_region gs i) + length (g_indices (gs ! i)) \<le> length (batch_indices gs DynamicFixed)"
proof -
  let ?n = "batch_slot gs i"
  let ?V = "map g_vertices (of_access gs DynamicFixed)" and ?I = "map g_indices (of_access gs DynamicFixed)"
  note slot = batch_slot_props [OF assms(1), unfolded assms(2)]
  have pre: "prefix_of gs DynamicFixed i = take ?n (of_access gs DynamicFixed)"
    using slot(3) assms(2) by (simp add: prefix_of_def earlier_def)
  have off: "region_offset (vertex_region gs i) = block_offset ?V ?n"
    "region_offset (index_region gs i) = block_offset ?I ?n"
    by (simp_all add: vertex_region_def index_region_def pre block_offset_def take_map length_concat)
  show "chunk (region_offset (vertex_region gs i)) (length (g_vertices (gs ! i))) (batch_vertices gs DynamicFixed) =
      g_vertices (gs ! i)"
    "region_offset (vertex_region gs i) + length (g_vertices (gs ! i)) \<le> length (batch_vertices gs DynamicFixed)"
    using chunk_concat_block [of ?n ?V] block_end_le_total [of ?n ?V] slot by (simp_all add: off batch_vertices_def)
  show "chunk (region_offset (index_region gs i)) (length (g_indices (gs ! i))) (batch_indices gs DynamicFixed) =
      g_indices (gs ! i)"
    "region_offset (index_region gs i) + length (g_indices (gs ! i)) \<le> length (batch_indices gs DynamicFixed)"
    using chunk_concat_block [of ?n ?I] block_end_le_total [of ?n ?I] slot by (simp_all add: off batch_indices_def)
qed

lemma vertex_region_at_ptr:
  assumes "i < length gs" "g_access (gs ! i) = DynamicFixed"
    and "mem (block p) = Some (batch_vertices gs DynamicFixed)" "offset p = 0"
  shows "at_ptr mem (byte_ptr_add p (region_offset (vertex_region gs i))) (g_vertices (gs ! i))"
  using dynamic_position_props(1,2) [OF assms(1,2)] assms(3,4)
  by (simp add: at_ptr_def byte_ptr_add_def)

lemma index_region_at_ptr:
  assumes "i < length gs" "g_access (gs ! i) = DynamicFixed"
    and "mem (block p) = Some (encode_u32s (batch_indices gs DynamicFixed))" "offset p = 0"
  shows "at_ptr mem (uint_ptr_add p (region_offset (index_region gs i))) (encode_u32s (g_indices (gs ! i)))"
  using dynamic_position_props(3,4) [OF assms(1,2)] assms(3,4)
  by (simp add: at_ptr_def uint_ptr_add_def chunk_encode layout_simps)

lemma dynamic_positions_props:
  "distinct (dynamic_positions gs k)"
  "i \<in> set (dynamic_positions gs k) \<longleftrightarrow> i < k \<and> g_access (gs ! i) = DynamicFixed"
  by (auto simp: dynamic_positions_def)

lemma map_vertex_regions:
  assumes all: "all_geometry mem inps = Inr gs" and ok: "\<forall>inp\<in>set inps. wf_input inp \<and> is_unmapped inp"
    and p: "mem (block p) = Some (batch_vertices gs DynamicFixed)" "offset p = 0"
  shows "\<exists>inps'. for_each (map_vertex_region (Some p)) (map (vertex_region gs) (dynamic_positions gs (length inps))) (mem, inps) =
      Inr (mem, inps') \<and> length inps' = length inps \<and>
    (\<forall>i<length inps. inps' ! i = (if g_access (gs ! i) = DynamicFixed
      then set_vertex_ptr (byte_ptr_add p (region_offset (vertex_region gs i))) (inps ! i) else inps ! i))"
proof -
  let ?rs = "map (vertex_region gs) (dynamic_positions gs (length inps))"
  let ?f = "\<lambda>r. set_vertex_ptr (byte_ptr_add p (region_offset r)) (inps ! region_input r)"
  have ri: "region_input (vertex_region gs i) = i" for i by (simp add: vertex_region_def)
  have len: "length gs = length inps" using all by (simp add: all_geometry_iff)
  have "\<exists>inps'. for_each (map_vertex_region (Some p)) ?rs (mem, inps) = Inr (mem, inps') \<and> length inps' = length inps \<and>
      (\<forall>r\<in>set ?rs. inps' ! region_input r = ?f r) \<and> (\<forall>i. i \<notin> region_input ` set ?rs \<longrightarrow> inps' ! i = inps ! i)"
  proof (rule for_each_replace)
    show "map_vertex_region (Some p) r (mem, ys) = Inr (mem, ys[region_input r := ?f r])"
      if r: "r \<in> set ?rs" and ys: "length ys = length inps" "ys ! region_input r = inps ! region_input r" for r ys
    proof -
      obtain i where i: "r = vertex_region gs i" "i < length inps" "g_access (gs ! i) = DynamicFixed"
        using r by (auto simp: dynamic_positions_props)
      have "\<exists>m. inps ! i = DynamicInput m \<and> mesh_dynamic_set_vertex_data mem m (byte_ptr_add p (region_offset r)) =
          Inr (mem, m\<lparr>vertex_data := Some (byte_ptr_add p (region_offset r))\<rparr>)"
        using all ok i len vertex_region_at_ptr [of i gs mem p] p unfolding i(1)
        by (intro set_vertex_ptr_keeps(1)) (auto simp: all_geometry_iff)
      then show ?thesis
        using i ys ri by (auto simp: map_vertex_region_def set_vertex_ptr_def)
    qed
  qed (auto simp: ri comp_def dynamic_positions_props)
  then obtain inps' where "for_each (map_vertex_region (Some p)) ?rs (mem, inps) = Inr (mem, inps')" "length inps' = length inps"
    "\<forall>r\<in>set ?rs. inps' ! region_input r = ?f r" "\<forall>i. i \<notin> region_input ` set ?rs \<longrightarrow> inps' ! i = inps ! i" by blast
  moreover have "i \<in> region_input ` set ?rs \<longleftrightarrow> g_access (gs ! i) = DynamicFixed" if "i < length inps" for i
    using that ri by (auto simp: dynamic_positions_props image_image)
  ultimately show ?thesis
    by (intro exI [of _ inps']) (auto simp: ri dynamic_positions_props)
qed

lemma map_index_regions:
  assumes all: "all_geometry mem inps = Inr gs"
    and ok: "\<forall>i<length inps. g_access (gs ! i) = DynamicFixed \<longrightarrow> (\<exists>m. inps ! i = DynamicInput m \<and> index_data m = None)"
    and p: "mem (block p) = Some (encode_u32s (batch_indices gs DynamicFixed))" "offset p = 0"
  shows "\<exists>inps'. for_each (map_index_region (Some p)) (map (index_region gs) (dynamic_positions gs (length inps))) (mem, inps) =
      Inr (mem, inps') \<and> length inps' = length inps \<and>
    (\<forall>i<length inps. inps' ! i = (if g_access (gs ! i) = DynamicFixed
      then set_index_ptr (uint_ptr_add p (region_offset (index_region gs i))) (inps ! i) else inps ! i))"
proof -
  let ?rs = "map (index_region gs) (dynamic_positions gs (length inps))"
  let ?f = "\<lambda>r. set_index_ptr (uint_ptr_add p (region_offset r)) (inps ! region_input r)"
  have ri: "region_input (index_region gs i) = i" for i by (simp add: index_region_def)
  have len: "length gs = length inps" using all by (simp add: all_geometry_iff)
  have "\<exists>inps'. for_each (map_index_region (Some p)) ?rs (mem, inps) = Inr (mem, inps') \<and> length inps' = length inps \<and>
      (\<forall>r\<in>set ?rs. inps' ! region_input r = ?f r) \<and> (\<forall>i. i \<notin> region_input ` set ?rs \<longrightarrow> inps' ! i = inps ! i)"
  proof (rule for_each_replace)
    show "map_index_region (Some p) r (mem, ys) = Inr (mem, ys[region_input r := ?f r])"
      if r: "r \<in> set ?rs" and ys: "length ys = length inps" "ys ! region_input r = inps ! region_input r" for r ys
    proof -
      obtain i where i: "r = index_region gs i" "i < length inps" "g_access (gs ! i) = DynamicFixed"
        using r by (auto simp: dynamic_positions_props)
      then obtain m where m: "inps ! i = DynamicInput m" "index_data m = None" using ok by blast
      have "mesh_dynamic_set_index_data mem m (uint_ptr_add p (region_offset r)) =
          Inr (mem, m\<lparr>index_data := Some (uint_ptr_add p (region_offset r))\<rparr>)"
        using all i len index_region_at_ptr [of i gs mem p] p unfolding i(1)
        by (intro set_index_ptr_keeps(1) [OF _ m]) (auto simp: all_geometry_iff)
      then show ?thesis
        using i ys ri m by (auto simp: map_index_region_def set_index_ptr_def)
    qed
  qed (auto simp: ri comp_def dynamic_positions_props)
  then obtain inps' where "for_each (map_index_region (Some p)) ?rs (mem, inps) = Inr (mem, inps')" "length inps' = length inps"
    "\<forall>r\<in>set ?rs. inps' ! region_input r = ?f r" "\<forall>i. i \<notin> region_input ` set ?rs \<longrightarrow> inps' ! i = inps ! i" by blast
  moreover have "i \<in> region_input ` set ?rs \<longleftrightarrow> g_access (gs ! i) = DynamicFixed" if "i < length inps" for i
    using that ri by (auto simp: dynamic_positions_props image_image)
  ultimately show ?thesis
    by (intro exI [of _ inps']) (auto simp: ri dynamic_positions_props)
qed

text \<open>The blocks an input reads, and that it reads nothing else.\<close>

definition input_blocks :: "RendererInput \<Rightarrow> nat set" where
  "input_blocks inp =
     (case inp of StaticInput _ \<Rightarrow> {} | DynamicInput i \<Rightarrow> block ` (set_option (vertex_data i) \<union> set_option (index_data i)))"

lemma input_geometry_blocks:
  assumes "\<forall>b\<in>input_blocks inp. mem' b = mem b"
  shows "input_geometry mem' inp = input_geometry mem inp"
proof (cases inp)
  case (DynamicInput i)
  have "mesh_dynamic_get_vertex_bytes mem' i = mesh_dynamic_get_vertex_bytes mem i"
    using assms DynamicInput
    by (auto simp: mesh_dynamic_get_vertex_bytes_def mem_read_def input_blocks_def split: option.splits)
  moreover have "mesh_dynamic_get_indices mem' i = mesh_dynamic_get_indices mem i"
    using assms DynamicInput
    by (auto simp: mesh_dynamic_get_indices_def mem_read_def input_blocks_def split: option.splits)
  ultimately show ?thesis
    using DynamicInput by (simp add: input_geometry_def input_get_vertex_bytes_def input_get_indices_def)
qed (simp add: input_geometry_def input_get_vertex_bytes_def input_get_indices_def)

text \<open>Both loops together.\<close>

lemma map_regions_correct:
  assumes all: "all_geometry mem inps = Inr gs" and ok: "\<forall>inp\<in>set inps. wf_input inp \<and> is_unmapped inp"
    and v: "mem (block vp) = Some (batch_vertices gs DynamicFixed)" "offset vp = 0"
    and i: "mem (block ip) = Some (encode_u32s (batch_indices gs DynamicFixed))" "offset ip = 0"
  shows "\<exists>inps'. and_then (for_each (map_vertex_region (Some vp))
        (map (vertex_region gs) (dynamic_positions gs (length inps))) (mem, inps))
      (for_each (map_index_region (Some ip)) (map (index_region gs) (dynamic_positions gs (length inps)))) =
      Inr (mem, inps') \<and> all_geometry mem inps' = Inr gs \<and>
    (\<forall>inp\<in>set inps'. input_blocks inp \<subseteq> {block vp, block ip})"
proof -
  have len: "length gs = length inps" using all by (simp add: all_geometry_iff)
  obtain inps1 where 1: "for_each (map_vertex_region (Some vp))
        (map (vertex_region gs) (dynamic_positions gs (length inps))) (mem, inps) = Inr (mem, inps1)"
    "length inps1 = length inps"
    "\<forall>i<length inps. inps1 ! i = (if g_access (gs ! i) = DynamicFixed
      then set_vertex_ptr (byte_ptr_add vp (region_offset (vertex_region gs i))) (inps ! i) else inps ! i)"
    using map_vertex_regions [OF all ok v] by blast
  have all1: "all_geometry mem inps1 = Inr gs"
    using all ok 1(2,3) len vertex_region_at_ptr [of _ gs mem vp] v by (auto simp: all_geometry_iff intro!: set_vertex_ptr_keeps(2))
  have dyn: "\<exists>m. inps ! i = DynamicInput m \<and> unmapped m"
    if "i < length inps" "g_access (gs ! i) = DynamicFixed" for i
    using all ok that
    by (cases "inps ! i") (auto simp: all_geometry_iff input_geometry_Inr_iff input_data_access_def is_unmapped_def
      dest!: bspec [OF _ nth_mem])
  have "\<forall>i<length inps1. g_access (gs ! i) = DynamicFixed \<longrightarrow> (\<exists>m. inps1 ! i = DynamicInput m \<and> index_data m = None)"
    using 1 dyn by (fastforce simp: set_vertex_ptr_def unmapped_def)
  from map_index_regions [OF all1 this i] obtain inps2 where 2: "for_each (map_index_region (Some ip))
        (map (index_region gs) (dynamic_positions gs (length inps))) (mem, inps1) = Inr (mem, inps2)"
    "length inps2 = length inps" "\<forall>i<length inps. inps2 ! i = (if g_access (gs ! i) = DynamicFixed
      then set_index_ptr (uint_ptr_add ip (region_offset (index_region gs i))) (inps1 ! i) else inps1 ! i)"
    using 1(2) by auto
  have "input_geometry mem (inps2 ! k) = Inr (gs ! k) \<and> input_blocks (inps2 ! k) \<subseteq> {block vp, block ip}"
    if k: "k < length inps" for k
  proof (cases "g_access (gs ! k) = DynamicFixed")
    case True
    obtain m where m: "inps ! k = DynamicInput m" "unmapped m" using dyn [OF k True] by blast
    then have m1: "inps1 ! k = DynamicInput (m\<lparr>vertex_data := Some (byte_ptr_add vp (region_offset (vertex_region gs k)))\<rparr>)"
      using 1(3) k True by (simp add: set_vertex_ptr_def)
    have "input_geometry mem (inps2 ! k) = Inr (gs ! k)"
      using all1 1(2) 2(3) k True len m(2) index_region_at_ptr [of k gs mem ip] i
      by (auto simp: all_geometry_iff unmapped_def intro!: set_index_ptr_keeps(2) [OF _ m1])
    then show ?thesis
      using 2(3) k True m1 by (simp add: set_index_ptr_def input_blocks_def byte_ptr_add_def uint_ptr_add_def)
  next
    case False
    then have same: "inps2 ! k = inps ! k" using 1(3) 2(3) k by simp
    have "g_access (gs ! k) = input_data_access (inps ! k)"
      using all k by (simp add: all_geometry_iff input_geometry_Inr_iff)
    then have "input_blocks (inps ! k) = {}"
      using False by (cases "inps ! k") (auto simp: input_blocks_def input_data_access_def)
    then show ?thesis using same all k by (simp add: all_geometry_iff)
  qed
  then have "all_geometry mem inps2 = Inr gs" "\<forall>inp\<in>set inps2. input_blocks inp \<subseteq> {block vp, block ip}"
    using 2(2) len by (simp add: all_geometry_iff, metis in_set_conv_nth)
  then show ?thesis using 1(1) 2(1) by (intro exI [of _ inps2]) simp
qed

end
