(* ===== verification/Renderer_Builder.thy ===== *)
theory Renderer_Builder
  imports Input_Layout
begin

text \<open>
  The renderer builders of both backends (\<open>RendererBuilderOGL\<close> in
  \<open>gl/impl/frontend/ogl/renderer.cpp\<close>, \<open>RendererBuilderVulkan\<close> in
  \<open>gl/impl/frontend/vk/renderer.cpp\<close>) and the renderer functions that give inputs and resources
  back by handle.  A builder keeps pointers to the caller's objects; the model keeps the objects
  they point to.  \<open>culling_strategy\<close> is \<open>None\<close> while the member has no determinate value.

  Both builders promise the handle contract of \<open>handle_table\<close> for inputs.  The last part shows
  for which orders of \<open>add_resource\<close> calls resource handles denote the right resource.
\<close>

datatype RendererOutput = WindowOutput | TextureOutput u32 u32

definition output_get_type :: "RendererOutput \<Rightarrow> RendererOutputType" where
  "output_get_type out = (case out of WindowOutput \<Rightarrow> OutputWindow | TextureOutput _ _ \<Rightarrow> OutputTexture)"

record 'sh renderer_builder =
  b_inputs :: "RendererInput list"
  b_pass :: RenderPassAttachment
  b_output :: "RendererOutput option"
  b_buffer_resources :: "Resource list"
  b_texture_resources :: "Resource list"
  b_culling_strategy :: "RendererCullingStrategy option"
  b_shader :: "'sh option"

section \<open>RendererBuilderOGL\<close>

definition ogl_builder_new :: "'sh renderer_builder" where
  "ogl_builder_new =
     \<lparr>b_inputs = [], b_pass = ColourDepth, b_output = None, b_buffer_resources = [],
      b_texture_resources = [], b_culling_strategy = None, b_shader = None\<rparr>"

definition ogl_add_input :: "'sh renderer_builder \<Rightarrow> RendererInput \<Rightarrow> 'sh renderer_builder \<times> nat" where
  "ogl_add_input self inp =
     (let sz = length (b_inputs self) in (self\<lparr>b_inputs := b_inputs self @ [inp]\<rparr>, sz))"

definition ogl_builder_get_input :: "bool \<Rightarrow> 'sh renderer_builder \<Rightarrow> nat \<Rightarrow> RendererInput outcome" where
  "ogl_builder_get_input d self handle_val =
     and_then (tz_assert d (handle_val < length (b_inputs self))) (\<lambda>_. at_index (b_inputs self) handle_val)"

definition ogl_set_pass :: "'sh renderer_builder \<Rightarrow> RenderPassAttachment \<Rightarrow> 'sh renderer_builder" where
  "ogl_set_pass self pass = self\<lparr>b_pass := pass\<rparr>"

definition ogl_set_output :: "'sh renderer_builder \<Rightarrow> RendererOutput \<Rightarrow> 'sh renderer_builder" where
  "ogl_set_output self out = self\<lparr>b_output := Some out\<rparr>"

definition ogl_add_resource :: "'sh renderer_builder \<Rightarrow> Resource \<Rightarrow> 'sh renderer_builder \<times> nat" where
  "ogl_add_resource self resource =
     (let total_resource_size = length (b_buffer_resources self) + length (b_texture_resources self)
      in case resource_get_type resource of
           BufferType \<Rightarrow>
             (self\<lparr>b_buffer_resources := b_buffer_resources self @ [resource]\<rparr>, total_resource_size)
         | TextureType \<Rightarrow>
             (self\<lparr>b_texture_resources := b_texture_resources self @ [resource]\<rparr>, total_resource_size))"

definition ogl_set_culling_strategy ::
    "'sh renderer_builder \<Rightarrow> RendererCullingStrategy \<Rightarrow> 'sh renderer_builder" where
  "ogl_set_culling_strategy self c = self\<lparr>b_culling_strategy := Some c\<rparr>"

definition ogl_get_culling_strategy :: "'sh renderer_builder \<Rightarrow> RendererCullingStrategy outcome" where
  "ogl_get_culling_strategy self =
     (case b_culling_strategy self of None \<Rightarrow> Inl UninitialisedRead | Some c \<Rightarrow> Inr c)"

definition ogl_set_shader :: "'sh renderer_builder \<Rightarrow> 'sh \<Rightarrow> 'sh renderer_builder" where
  "ogl_set_shader self sh = self\<lparr>b_shader := Some sh\<rparr>"

definition ogl_get_shader :: "'sh renderer_builder \<Rightarrow> 'sh outcome" where
  "ogl_get_shader self = (case b_shader self of None \<Rightarrow> Inl NullDereference | Some sh \<Rightarrow> Inr sh)"

section \<open>RendererBuilderVulkan\<close>

definition vk_builder_new :: "'sh renderer_builder" where
  "vk_builder_new =
     \<lparr>b_inputs = [], b_pass = ColourDepth, b_output = None, b_buffer_resources = [],
      b_texture_resources = [], b_culling_strategy = Some NoCulling, b_shader = None\<rparr>"

definition vk_add_input :: "'sh renderer_builder \<Rightarrow> RendererInput \<Rightarrow> 'sh renderer_builder \<times> nat" where
  "vk_add_input self inp =
     (let sz = length (b_inputs self) in (self\<lparr>b_inputs := b_inputs self @ [inp]\<rparr>, sz))"

definition vk_builder_get_input :: "bool \<Rightarrow> 'sh renderer_builder \<Rightarrow> nat \<Rightarrow> RendererInput outcome" where
  "vk_builder_get_input d self input_id =
     and_then (tz_assert d (input_id < length (b_inputs self))) (\<lambda>_. at_index (b_inputs self) input_id)"

definition vk_set_pass :: "'sh renderer_builder \<Rightarrow> RenderPassAttachment \<Rightarrow> 'sh renderer_builder" where
  "vk_set_pass self pass = self\<lparr>b_pass := pass\<rparr>"

definition vk_set_output :: "'sh renderer_builder \<Rightarrow> RendererOutput \<Rightarrow> 'sh renderer_builder" where
  "vk_set_output self out = self\<lparr>b_output := Some out\<rparr>"

definition vk_add_resource :: "'sh renderer_builder \<Rightarrow> Resource \<Rightarrow> 'sh renderer_builder \<times> nat" where
  "vk_add_resource self resource =
     (let total_resource_size = length (b_buffer_resources self) + length (b_texture_resources self)
      in case resource_get_type resource of
           BufferType \<Rightarrow>
             (self\<lparr>b_buffer_resources := b_buffer_resources self @ [resource]\<rparr>, total_resource_size)
         | TextureType \<Rightarrow>
             (self\<lparr>b_texture_resources := b_texture_resources self @ [resource]\<rparr>, total_resource_size))"

definition vk_set_culling_strategy ::
    "'sh renderer_builder \<Rightarrow> RendererCullingStrategy \<Rightarrow> 'sh renderer_builder" where
  "vk_set_culling_strategy self c = self\<lparr>b_culling_strategy := Some c\<rparr>"

definition vk_set_shader :: "'sh renderer_builder \<Rightarrow> 'sh \<Rightarrow> 'sh renderer_builder" where
  "vk_set_shader self sh = self\<lparr>b_shader := Some sh\<rparr>"

definition vk_get_shader :: "bool \<Rightarrow> 'sh renderer_builder \<Rightarrow> 'sh outcome" where
  "vk_get_shader d self =
     and_then (tz_assert d (b_shader self \<noteq> None)) (\<lambda>_.
     case b_shader self of None \<Rightarrow> Inl NullDereference | Some sh \<Rightarrow> Inr sh)"

section \<open>What the renderers keep of a builder\<close>

definition copy_inputs :: "bool \<Rightarrow> 'sh renderer_builder \<Rightarrow> RendererInput list outcome" where
  "copy_inputs d builder =
     for_each (\<lambda>inp inps. and_then (input_unique_clone d inp) (\<lambda>c. Inr (inps @ [c]))) (b_inputs builder) []"

text \<open>First every buffer resource is cloned, then every texture resource.\<close>

definition clone_resources :: "'sh renderer_builder \<Rightarrow> Resource list" where
  "clone_resources builder =
     (let resources = fold (\<lambda>r rs. rs @ [resource_unique_clone r]) (b_buffer_resources builder) []
      in fold (\<lambda>r rs. rs @ [resource_unique_clone r]) (b_texture_resources builder) resources)"

definition renderer_get_input :: "RendererInput list \<Rightarrow> nat \<Rightarrow> RendererInput option" where
  "renderer_get_input inps handle_val =
     (if length inps \<le> handle_val then None else Some (inps ! handle_val))"

definition renderer_get_resource :: "Resource list \<Rightarrow> nat \<Rightarrow> Resource option" where
  "renderer_get_resource resources handle_val =
     (if length resources \<le> handle_val then None else Some (resources ! handle_val))"

definition resource_count_of :: "ResourceType \<Rightarrow> Resource list \<Rightarrow> nat" where
  "resource_count_of ty resources =
     fold (\<lambda>r init. if resource_get_type r = ty then init + 1 else init) resources 0"

text \<open>Inputs that are not mapped are copied as they are.\<close>

lemma clone_unmapped: "is_unmapped inp \<Longrightarrow> input_unique_clone d inp = Inr inp"
  by (cases inp) (simp_all add: input_unique_clone_def is_unmapped_def unmapped_def mesh_dynamic_copy_def)

lemma copy_inputs_unmapped:
  assumes "\<forall>inp\<in>set (b_inputs builder). is_unmapped inp"
  shows "copy_inputs d builder = Inr (b_inputs builder)"
proof -
  have "for_each (\<lambda>inp inps. and_then (input_unique_clone d inp) (\<lambda>c. Inr (inps @ [c]))) xs acc = Inr (acc @ xs)"
    if "\<forall>inp\<in>set xs. is_unmapped inp" for xs acc
    using that by (induction xs arbitrary: acc) (simp_all add: clone_unmapped)
  then show ?thesis using assms by (simp add: copy_inputs_def)
qed

section \<open>The handle contract of inputs\<close>

interpretation ogl_input_table:
  handle_table ogl_add_input "ogl_builder_get_input d" "\<lambda>b. length (b_inputs b)" "\<lambda>_. True"
  for d :: bool
  by unfold_locales
    (auto simp: ogl_add_input_def ogl_builder_get_input_def at_index_def nth_append tz_assert_def)

interpretation vk_input_table:
  handle_table vk_add_input "vk_builder_get_input d" "\<lambda>b. length (b_inputs b)" "\<lambda>_. True"
  for d :: bool
  by unfold_locales
    (auto simp: vk_add_input_def vk_builder_get_input_def at_index_def nth_append tz_assert_def)

section \<open>Resource handles\<close>

lemma vk_add_resource_same: "vk_add_resource = ogl_add_resource"
  by (intro ext) (simp add: vk_add_resource_def ogl_add_resource_def)

primrec add_resources :: "'sh renderer_builder \<Rightarrow> Resource list \<Rightarrow> 'sh renderer_builder \<times> nat list" where
  "add_resources b [] = (b, [])"
| "add_resources b (r # rs) =
     (let (b1, h) = ogl_add_resource b r; (b2, hs) = add_resources b1 rs in (b2, h # hs))"

definition buffers_of :: "Resource list \<Rightarrow> Resource list" where
  "buffers_of rs = filter (\<lambda>r. resource_get_type r = BufferType) rs"

definition textures_of :: "Resource list \<Rightarrow> Resource list" where
  "textures_of rs = filter (\<lambda>r. resource_get_type r = TextureType) rs"

lemma add_resources_all:
  "b_buffer_resources (fst (add_resources b rs)) = b_buffer_resources b @ buffers_of rs \<and>
   b_texture_resources (fst (add_resources b rs)) = b_texture_resources b @ textures_of rs \<and>
   snd (add_resources b rs) =
     [length (b_buffer_resources b) + length (b_texture_resources b)..<
      length (b_buffer_resources b) + length (b_texture_resources b) + length rs]"
proof (induction rs arbitrary: b)
  case Nil
  then show ?case by (simp add: buffers_of_def textures_of_def)
next
  case (Cons r rs)
  have upt: "a # [Suc a..<Suc (a + n)] = [a..<Suc (a + n)]" for a n :: nat
    by (simp add: upt_conv_Cons del: upt_Suc)
  show ?case
    using Cons.IH [of "fst (ogl_add_resource b r)"]
    by (cases "resource_get_type r")
      (simp_all add: ogl_add_resource_def Let_def case_prod_beta buffers_of_def textures_of_def upt
        del: upt_Suc)
qed

lemma clone_resources_append:
  "clone_resources b = b_buffer_resources b @ b_texture_resources b"
  by (simp add: clone_resources_def fold_snoc_map resource_unique_clone_def Let_def)

definition buffers_first :: "Resource list \<Rightarrow> bool" where
  "buffers_first rs \<longleftrightarrow>
     (\<forall>i j. i < j \<longrightarrow> j < length rs \<longrightarrow> resource_get_type (rs ! i) = TextureType \<longrightarrow>
        resource_get_type (rs ! j) = TextureType)"

lemma buffers_first_Cons:
  "buffers_first (r # rs) \<longleftrightarrow>
     buffers_first rs \<and> (resource_get_type r = TextureType \<longrightarrow> (\<forall>s\<in>set rs. resource_get_type s = TextureType))"
  (is "?L \<longleftrightarrow> ?R")
proof
  assume L: ?L
  have "buffers_first rs"
    unfolding buffers_first_def
  proof (intro allI impI)
    fix i j assume "i < j" "j < length rs" "resource_get_type (rs ! i) = TextureType"
    then show "resource_get_type (rs ! j) = TextureType"
      using L unfolding buffers_first_def by (metis Suc_less_eq length_Cons nth_Cons_Suc)
  qed
  moreover have "resource_get_type s = TextureType"
    if r: "resource_get_type r = TextureType" and s: "s \<in> set rs" for s
  proof -
    obtain k where "k < length rs" "s = rs ! k" using s by (auto simp: in_set_conv_nth)
    then show ?thesis
      using L r unfolding buffers_first_def by (metis Suc_less_eq length_Cons nth_Cons_0 nth_Cons_Suc zero_less_Suc)
  qed
  ultimately show ?R by blast
next
  assume ?R
  then show ?L by (auto simp: buffers_first_def nth_Cons split: nat.splits)
qed

lemma not_buffer_texture: "resource_get_type r \<noteq> BufferType \<longleftrightarrow> resource_get_type r = TextureType"
  by (cases "resource_get_type r") simp_all

lemma buffers_of_Nil_iff:
  "buffers_of rs = [] \<longleftrightarrow> (\<forall>s\<in>set rs. resource_get_type s = TextureType)"
  by (simp add: buffers_of_def filter_empty_conv not_buffer_texture)

lemma textures_of_all: "buffers_of rs = [] \<Longrightarrow> textures_of rs = rs"
  by (simp add: buffers_of_Nil_iff textures_of_def)

lemma buffers_of_type: "s \<in> set (buffers_of rs) \<Longrightarrow> resource_get_type s = BufferType"
  by (simp add: buffers_of_def)

lemma buffers_then_textures_texture:
  assumes "resource_get_type r = TextureType"
  shows "buffers_of (r # rs) @ textures_of (r # rs) = r # rs \<longleftrightarrow> buffers_of rs = []"
proof (cases "buffers_of rs")
  case Nil
  then show ?thesis
    using assms textures_of_all [OF Nil] by (simp add: buffers_of_def textures_of_def)
next
  case (Cons s ss)
  have "s \<noteq> r"
    using buffers_of_type [of s rs] assms Cons by auto
  then show ?thesis
    using Cons assms by (simp add: buffers_of_def)
qed

lemma buffers_first_iff: "buffers_first rs \<longleftrightarrow> buffers_of rs @ textures_of rs = rs"
proof (induction rs)
  case Nil
  then show ?case by (simp add: buffers_first_def buffers_of_def textures_of_def)
next
  case (Cons r rs)
  show ?case
  proof (cases "resource_get_type r")
    case BufferType
    then show ?thesis using Cons.IH by (simp add: buffers_first_Cons buffers_of_def textures_of_def)
  next
    case TextureType
    then show ?thesis
      using Cons.IH textures_of_all [of rs]
      by (auto simp: buffers_first_Cons buffers_then_textures_texture simp flip: buffers_of_Nil_iff)
  qed
qed

section \<open>Properties\<close>

text \<open>
  C17. Input handles keep their meaning in both builders: after adding any list of inputs to a
  fresh builder, the handles are distinct and each one retrieves exactly the input it was given
  for, in debug and in release builds.
\<close>

theorem input_handles_denote_inputs:
  "(case ogl_input_table.insert_many (ogl_builder_new :: 'sh renderer_builder) inps of (b, hs) \<Rightarrow>
      distinct hs \<and> map (ogl_builder_get_input d b) hs = map Inr inps) \<and>
   (case vk_input_table.insert_many (vk_builder_new :: 'sh renderer_builder) inps of (b, hs) \<Rightarrow>
      distinct hs \<and> map (vk_builder_get_input d b) hs = map Inr inps)"
  using ogl_input_table.handles_retrieve [of d "ogl_builder_new :: 'sh renderer_builder" inps]
    vk_input_table.handles_retrieve [of d "vk_builder_new :: 'sh renderer_builder" inps]
    ogl_input_table.handles_distinct [of "ogl_builder_new :: 'sh renderer_builder" inps]
    vk_input_table.handles_distinct [of "vk_builder_new :: 'sh renderer_builder" inps]
  by (simp add: case_prod_beta)

text \<open>
  C18. Resource handles denote the right resources exactly when no buffer resource was added
  after a texture resource: handles count all resources in the order they were added, while
  the renderer stores every buffer before every texture.
\<close>

theorem resource_handles_correct_iff:
  "(case add_resources (ogl_builder_new :: 'sh renderer_builder) rs of (b, hs) \<Rightarrow>
      map (renderer_get_resource (clone_resources b)) hs = map Some rs) \<longleftrightarrow> buffers_first rs"
proof -
  define b0 :: "'sh renderer_builder" where "b0 = ogl_builder_new"
  have cl: "clone_resources (fst (add_resources b0 rs)) = buffers_of rs @ textures_of rs"
    using add_resources_all [of b0 rs] by (simp add: clone_resources_append b0_def ogl_builder_new_def)
  have hs: "snd (add_resources b0 rs) = [0..<length rs]"
    using add_resources_all [of b0 rs] by (simp add: b0_def ogl_builder_new_def)
  have len: "length (buffers_of rs @ textures_of rs) = length rs"
    by (induction rs) (auto simp: buffers_of_def textures_of_def not_buffer_texture)
  have "map (renderer_get_resource (buffers_of rs @ textures_of rs)) [0..<length rs] = map Some rs \<longleftrightarrow>
      buffers_of rs @ textures_of rs = rs"
    unfolding list_eq_iff_nth_eq using len by (simp add: renderer_get_resource_def)
  then show ?thesis by (simp add: cl hs buffers_first_iff case_prod_beta flip: b0_def)
qed

end
