(* ===== verification/Ogl_Renderer.thy ===== *)
theory Ogl_Renderer
  imports Ogl_Buffer Ogl_Shader Input_Layout Renderer_Builder
begin

text \<open>
  \<open>RendererOGL\<close> of \<open>gl/impl/frontend/ogl/renderer.cpp\<close>: the constructor in the order of its
  steps, the draw list, rendering, the counters, moving and destruction.  The diagnostic
  \<open>tz_report\<close> lines are left out.  Inputs and resources the renderer owns are kept in lists, and
  a reference to one of them is its position.
\<close>

record RendererOGL =
  vao :: u32
  vbo :: "Buffer option"
  ibo :: "Buffer option"
  vbo_dynamic :: "Buffer option"
  ibo_dynamic :: "Buffer option"
  indirect_buffer :: "Buffer option"
  indirect_buffer_dynamic :: "Buffer option"
  resources :: "Resource list"
  resource_ubos :: "u32 list"
  resource_textures :: "u32 list"
  r_format :: "RendererElementFormat option"
  pass_attachment :: RenderPassAttachment
  r_shader :: "ShaderOGL option"
  inputs :: "RendererInput list"
  r_output :: "RendererOutput option"
  draw_cache :: "nat list"

section \<open>Step 2: fill buffers and map them\<close>

definition fill_static :: "gl_driver \<Rightarrow> compiled_data \<Rightarrow> RendererOGL \<Rightarrow> gl_world \<Rightarrow> (RendererOGL \<times> gl_world) outcome" where
  "fill_static drv c r w =
     (if any_static_geometry c then
        (let (b, w) = optional_assign_new drv (vbo r) VertexBuf StaticDraw ReadWrite (length (total_vertices c)) w;
             r = r\<lparr>vbo := Some b\<rparr>
         in and_then (buffer_write b (total_vertices c) w) (\<lambda>w.
         let total_indices_size = length (total_indices c) * 4;
             (b, w) = optional_assign_new drv (ibo r) IndexBuf StaticDraw ReadWrite total_indices_size w;
             r = r\<lparr>ibo := Some b\<rparr>
         in and_then (buffer_write b (encode_u32s (total_indices c)) w) (\<lambda>w. Inr (r, w))))
      else Inr (r, w))"

definition fill_dynamic :: "gl_driver \<Rightarrow> compiled_data \<Rightarrow> RendererOGL \<Rightarrow> gl_world \<Rightarrow> (RendererOGL \<times> gl_world) outcome" where
  "fill_dynamic drv c r w =
     (if any_dynamic_geometry c then
        (let (vb, w) = optional_assign_new drv (vbo_dynamic r) VertexBuf DynamicDraw PersistentMapped
               (length (total_vertices_dynamic c)) w
         in and_then (buffer_write vb (total_vertices_dynamic c) w) (\<lambda>w.
         let total_indices_dynamic_size = length (total_indices_dynamic c) * 4;
             (ib, w) = optional_assign_new drv (ibo_dynamic r) IndexBuf DynamicDraw PersistentMapped
               total_indices_dynamic_size w
         in and_then (buffer_write ib (encode_u32s (total_indices_dynamic c)) w) (\<lambda>w.
         let (vtx_data, vb, w) = buffer_map_memory drv vb w;
             (idx_data, ib, w) = buffer_map_memory drv ib w
         in and_then (for_each (map_vertex_region vtx_data) (vertex_regions c) (gl_memory w, inputs r)) (\<lambda>s.
            and_then (for_each (map_index_region idx_data) (index_regions c) s) (\<lambda>(mem, inps).
            Inr (r\<lparr>vbo_dynamic := Some vb, ibo_dynamic := Some ib, inputs := inps\<rparr>, w\<lparr>gl_memory := mem\<rparr>))))))
      else Inr (r, w))"

section \<open>Step 3: vertex array attributes\<close>

definition attribute_components :: "RendererComponentType \<Rightarrow> nat" where
  "attribute_components ty = (case ty of Float32 \<Rightarrow> 1 | Float32x2 \<Rightarrow> 2 | Float32x3 \<Rightarrow> 3)"

definition setup_attributes ::
    "bool \<Rightarrow> u32 \<Rightarrow> RendererElementFormat \<Rightarrow> gl_world \<Rightarrow> gl_world outcome" where
  "setup_attributes d va fmt w =
     and_then (tz_assert d (basis fmt = PerVertexBasis)) (\<lambda>_.
     for_each (\<lambda>attrib_id w.
       and_then (at_index (binding_attributes fmt) attrib_id) (\<lambda>attrib_format.
       Inr (emit_all
         [GlEnableVertexArrayAttrib va attrib_id,
          GlVertexArrayAttribFormat va attrib_id (attribute_components (attribute_type attrib_format))
            (element_attribute_offset attrib_format),
          GlVertexArrayAttribBinding va attrib_id 0] w)))
       [0..<length (binding_attributes fmt)] w)"

section \<open>Resources\<close>

definition upload_buffer_resource ::
    "gl_driver \<Rightarrow> nat \<Rightarrow> RendererOGL \<times> gl_world \<Rightarrow> (RendererOGL \<times> gl_world) outcome" where
  "upload_buffer_resource drv i s =
     (case s of (r, w) \<Rightarrow>
        and_then (at_index (resources r) i) (\<lambda>res.
        let b = new_name drv (calls w) BufferObj;
            w = emit (GlCreateBuffers b) w;
            r = r\<lparr>resource_ubos := resource_ubos r @ [b]\<rparr>
        in case res of
             StaticBuffer s \<Rightarrow>
               Inr (r, emit (GlNamedBufferData b (length (buffer_get_bytes s)) (Some (buffer_get_bytes s)) StaticDraw) w)
           | DynamicBuffer dynamic_buf \<Rightarrow>
               and_then (dynamic_buffer_get_bytes (gl_memory w) dynamic_buf) (\<lambda>bytes.
               let buf_bytes = length bytes;
                   w = emit (GlNamedBufferStorage b buf_bytes (Some bytes)) w;
                   answer = map_range drv (calls w) b 0 buf_bytes;
                   w = emit (GlMapNamedBufferRange b 0 buf_bytes True (map_option fst answer)) w
               in case answer of
                    None \<Rightarrow> Inl NullDereference
                  | Some (blk, bs) \<Rightarrow>
                      and_then (dynamic_buffer_set_data ((gl_memory w)(blk \<mapsto> bs)) dynamic_buf \<lparr>block = blk, offset = 0\<rparr>)
                        (\<lambda>(mem, dynamic_buf).
                      Inr (r\<lparr>resources := (resources r)[i := DynamicBuffer dynamic_buf]\<rparr>, w\<lparr>gl_memory := mem\<rparr>)))
           | TextureRes _ \<Rightarrow> Inl IllFormedProgram))"

definition texture_formats :: "TextureFormat \<Rightarrow> gl_internal_format \<times> gl_pixel_format \<times> gl_pixel_type" where
  "texture_formats f =
     (case f of
        Rgba32Signed \<Rightarrow> (GL_RGBA8, GL_RGBA, GL_BYTE)
      | Rgba32Unsigned \<Rightarrow> (GL_RGBA8, GL_RGBA, GL_UNSIGNED_BYTE)
      | Rgba32sRGB \<Rightarrow> (GL_SRGB8_ALPHA8, GL_RGBA, GL_UNSIGNED_BYTE)
      | DepthFloat32 \<Rightarrow> (GL_DEPTH_COMPONENT32F, GL_DEPTH_COMPONENT, GL_FLOAT))"

definition convert_filter :: "TexturePropertyFilter \<Rightarrow> gl_texture_value" where
  "convert_filter f = (case f of Nearest \<Rightarrow> GL_NEAREST | Linear \<Rightarrow> GL_LINEAR)"

definition convert_address_mode :: "TextureAddressMode \<Rightarrow> gl_texture_value" where
  "convert_address_mode m = (case m of ClampToEdge \<Rightarrow> GL_CLAMP_TO_EDGE)"

definition texture_calls :: "u32 \<Rightarrow> TextureResource \<Rightarrow> gl_call list" where
  "texture_calls tex t =
     (let (internal_format, format, ty) = texture_formats (texture_format t);
          gl_props = texture_properties t
      in [GlCreateTextures tex,
          GlTextureParameteri tex GL_TEXTURE_WRAP_S (convert_address_mode (address_mode_u gl_props)),
          GlTextureParameteri tex GL_TEXTURE_WRAP_T (convert_address_mode (address_mode_v gl_props)),
          GlTextureParameteri tex GL_TEXTURE_WRAP_R (convert_address_mode (address_mode_w gl_props)),
          GlTextureParameteri tex GL_TEXTURE_MIN_FILTER (convert_filter (min_filter gl_props)),
          GlTextureParameteri tex GL_TEXTURE_MAG_FILTER (convert_filter (min_filter gl_props)),
          GlTextureStorage2D tex internal_format (texture_get_width t) (texture_get_height t),
          GlTextureSubImage2D tex (texture_get_width t) (texture_get_height t) format ty (texture_get_bytes t)])"

definition upload_texture_resource ::
    "gl_driver \<Rightarrow> nat \<Rightarrow> RendererOGL \<times> gl_world \<Rightarrow> (RendererOGL \<times> gl_world) outcome" where
  "upload_texture_resource drv i s =
     (case s of (r, w) \<Rightarrow>
        and_then (at_index (resources r) i) (\<lambda>res.
        case res of
          TextureRes t \<Rightarrow>
            (let tex = new_name drv (calls w) TextureObj
             in Inr (r\<lparr>resource_textures := resource_textures r @ [tex]\<rparr>, emit_all (texture_calls tex t) w))
        | _ \<Rightarrow> Inl IllFormedProgram))"

section \<open>Draw lists\<close>

definition ogl_plan ::
    "bool \<Rightarrow> memory \<Rightarrow> RendererInput list \<Rightarrow> nat list \<Rightarrow> (DrawIndirectCommand list \<times> DrawIndirectCommand list) outcome" where
  "ogl_plan = plan_draws TYPE(32)"

text \<open>The update of one of the two indirect buffers.\<close>

definition write_indirect ::
    "gl_driver \<Rightarrow> Buffer option \<Rightarrow> DrawIndirectCommand list \<Rightarrow> gl_world \<Rightarrow> (Buffer option \<times> gl_world) outcome" where
  "write_indirect drv opt internal_draws w =
     (if internal_draws = [] then Inr (None, optional_reset opt w)
      else
        (let draw_size_bytes = length internal_draws * sizeof_DrawIndirectCommand;
             (b, w) = (case opt of
                 None \<Rightarrow> optional_assign_new drv opt DrawIndirectBuf StaticDraw ReadWrite draw_size_bytes w
               | Some b \<Rightarrow> (b, w))
         in and_then (buffer_write b (command_bytes internal_draws) w) (\<lambda>w. Inr (Some b, w))))"

definition draws_match_cache :: "RendererOGL \<Rightarrow> nat list \<Rightarrow> bool" where
  "draws_match_cache r list = (draw_cache r = list)"

definition bind_draw_list ::
    "bool \<Rightarrow> gl_driver \<Rightarrow> RendererOGL \<Rightarrow> nat list \<Rightarrow> gl_world \<Rightarrow> (RendererOGL \<times> gl_world) outcome" where
  "bind_draw_list d drv r draws w =
     (if draws_match_cache r draws then Inr (r, w)
      else
        and_then (ogl_plan d (gl_memory w) (inputs r) draws) (\<lambda>(internal_draws, internal_draws_dynamic).
        and_then (write_indirect drv (indirect_buffer r) internal_draws w) (\<lambda>(b, w).
        and_then (write_indirect drv (indirect_buffer_dynamic r) internal_draws_dynamic w) (\<lambda>(bd, w).
        Inr (r\<lparr>indirect_buffer := b, indirect_buffer_dynamic := bd, draw_cache := draws\<rparr>, w)))))"

section \<open>The constructor\<close>

definition initial_calls :: "RenderPassAttachment \<Rightarrow> RendererCullingStrategy \<Rightarrow> gl_call list" where
  "initial_calls pass culling =
     (if pass \<noteq> Colour then [GlEnable GL_DEPTH_TEST] else [GlDisable GL_DEPTH_TEST]) @
     (case culling of
        NoCulling \<Rightarrow> [GlDisable GL_CULL_FACE]
      | CullFrontFaces \<Rightarrow> [GlEnable GL_CULL_FACE, GlCullFace GL_FRONT]
      | CullBackFaces \<Rightarrow> [GlEnable GL_CULL_FACE, GlCullFace GL_BACK]
      | CullEverything \<Rightarrow> [GlEnable GL_CULL_FACE, GlCullFace GL_FRONT_AND_BACK])"

definition setup_inputs ::
    "bool \<Rightarrow> gl_driver \<Rightarrow> RendererOGL \<Rightarrow> gl_world \<Rightarrow> (RendererOGL \<times> gl_world) outcome" where
  "setup_inputs d drv r w =
     and_then (compile_data (gl_memory w) (inputs r)) (\<lambda>c.
     and_then (fill_static drv c (r\<lparr>r_format := compiled_format c\<rparr>) w) (\<lambda>(r, w).
     and_then (fill_dynamic drv c r w) (\<lambda>(r, w).
     case r_format r of
       None \<Rightarrow> Inl UninitialisedRead
     | Some fmt \<Rightarrow> and_then (setup_attributes d (vao r) fmt w) (\<lambda>w. Inr (r, w)))))"

definition setup_resources ::
    "gl_driver \<Rightarrow> ShaderOGL renderer_builder \<Rightarrow> RendererOGL \<Rightarrow> gl_world \<Rightarrow> (RendererOGL \<times> gl_world) outcome" where
  "setup_resources drv builder r w =
     (let nb = length (b_buffer_resources builder);
          nt = length (b_texture_resources builder);
          r = r\<lparr>resources := clone_resources builder\<rparr>
      in and_then (for_each (upload_buffer_resource drv) [0..<nb] (r, w)) (\<lambda>s.
         for_each (\<lambda>i. upload_texture_resource drv (nb + i)) [0..<nt] s))"

definition empty_renderer :: RendererOGL where
  "empty_renderer =
     \<lparr>vao = 0, vbo = None, ibo = None, vbo_dynamic = None, ibo_dynamic = None, indirect_buffer = None,
      indirect_buffer_dynamic = None, resources = [], resource_ubos = [], resource_textures = [],
      r_format = None, pass_attachment = ColourDepth, r_shader = None, inputs = [], r_output = None,
      draw_cache = []\<rparr>"

definition renderer_new ::
    "bool \<Rightarrow> gl_driver \<Rightarrow> ShaderOGL renderer_builder \<Rightarrow> gl_world \<Rightarrow> (RendererOGL \<times> gl_world) outcome" where
  "renderer_new d drv builder w =
     and_then (ogl_get_shader builder) (\<lambda>sh.
     and_then (copy_inputs d builder) (\<lambda>inps.
     and_then (ogl_get_culling_strategy builder) (\<lambda>culling.
     let w = emit_all (initial_calls (b_pass builder) culling) w;
         va = new_name drv (calls w) VertexArrayObj;
         w = emit_all [GlCreateVertexArrays va, GlBindVertexArray va] w;
         r = empty_renderer\<lparr>vao := va, pass_attachment := b_pass builder, r_shader := Some sh, inputs := inps,
               r_output := b_output builder\<rparr>
     in and_then (if b_inputs builder \<noteq> [] then setup_inputs d drv r w else Inr (r, w)) (\<lambda>(r, w).
        and_then (setup_resources drv builder r w) (\<lambda>(r, w).
        bind_draw_list d drv r (all_inputs_once (inputs r)) w)))))"

section \<open>Rendering\<close>

definition num_static_draws :: "RendererOGL \<Rightarrow> nat outcome" where
  "num_static_draws r = count_draws StaticFixed (inputs r) (draw_cache r)"

definition num_dynamic_draws :: "RendererOGL \<Rightarrow> nat outcome" where
  "num_dynamic_draws r = count_draws DynamicFixed (inputs r) (draw_cache r)"

definition num_static_inputs :: "RendererOGL \<Rightarrow> nat" where
  "num_static_inputs r = count_inputs StaticFixed (inputs r)"

definition num_dynamic_inputs :: "RendererOGL \<Rightarrow> nat" where
  "num_dynamic_inputs r = count_inputs DynamicFixed (inputs r)"

definition input_count_of :: "RendererOGL \<Rightarrow> RendererInputDataAccess \<Rightarrow> nat" where
  "input_count_of r access =
     fold (\<lambda>inp init. if input_data_access inp = access then init + 1 else init) (inputs r) 0"

definition clear_bits :: "RenderPassAttachment \<Rightarrow> bool \<times> bool" where
  "clear_bits pass =
     (case pass of Colour \<Rightarrow> (True, False) | Depth \<Rightarrow> (False, True) | ColourDepth \<Rightarrow> (True, True))"

definition bind_output :: "gl_driver \<Rightarrow> RendererOutput option \<Rightarrow> gl_world \<Rightarrow> gl_world" where
  "bind_output drv out w =
     (case out of
        None \<Rightarrow> w
      | Some out \<Rightarrow>
          if output_get_type out = OutputWindow
          then (let (width, height) = window_size drv (calls w)
                in emit_all [GlBindFramebuffer 0, GlViewport width height] w)
          else w)"

text \<open>The draw of one of the two batches.\<close>

definition draw_batch ::
    "RendererOGL \<Rightarrow> Buffer option \<Rightarrow> Buffer option \<Rightarrow> Buffer option \<Rightarrow> nat outcome \<Rightarrow> gl_world \<Rightarrow> gl_world outcome" where
  "draw_batch r indirect vb ib count w =
     (case indirect of
        None \<Rightarrow> Inr w
      | Some b \<Rightarrow>
          and_then (value_of vb) (\<lambda>vb. and_then (value_of ib) (\<lambda>ib. and_then count (\<lambda>n.
          case r_format r of None \<Rightarrow> Inl UninitialisedRead | Some fmt \<Rightarrow>
          Inr (emit (GlMultiDrawElementsIndirect n sizeof_DrawIndirectCommand)
            (buffer_bind b (emit_all
              [GlVertexArrayVertexBuffer (vao r) 0 (buf vb) 0 (binding_size fmt),
               GlVertexArrayElementBuffer (vao r) (buf ib)] w)))))))"

definition texture_bind_calls :: "RendererOGL \<Rightarrow> u32 \<Rightarrow> gl_call list" where
  "texture_bind_calls r prog =
     concat (map (\<lambda>i. let tex_location = length (resource_ubos r) + i
       in [GlBindTextureUnit tex_location (resource_textures r ! i),
           GlProgramUniform1i prog tex_location tex_location]) [0..<length (resource_textures r)])"

definition render :: "gl_driver \<Rightarrow> RendererOGL \<Rightarrow> gl_world \<Rightarrow> gl_world outcome" where
  "render drv r w =
     (let w = bind_output drv (r_output r) w;
          (colour_bit, depth_bit) = clear_bits (pass_attachment r);
          w = emit_all [GlClear colour_bit depth_bit, GlBindVertexArray (vao r)] w;
          w = emit_all (map (\<lambda>i. GlBindBufferBase i (resource_ubos r ! i)) [0..<length (resource_ubos r)]) w
      in case r_shader r of
           None \<Rightarrow> Inl NullDereference
         | Some sh \<Rightarrow>
             (let w = emit (GlUseProgram (ogl_get_program_handle sh)) w;
                  w = emit_all (texture_bind_calls r (ogl_get_program_handle sh)) w
              in and_then (draw_batch r (indirect_buffer r) (vbo r) (ibo r) (num_static_draws r) w) (\<lambda>w.
                 draw_batch r (indirect_buffer_dynamic r) (vbo_dynamic r) (ibo_dynamic r) (num_dynamic_draws r) w)))"

definition render_list ::
    "bool \<Rightarrow> gl_driver \<Rightarrow> RendererOGL \<Rightarrow> nat list \<Rightarrow> gl_world \<Rightarrow> (RendererOGL \<times> gl_world) outcome" where
  "render_list d drv r draw_list w =
     and_then (if \<not> draws_match_cache r draw_list then bind_draw_list d drv r draw_list w else Inr (r, w)) (\<lambda>(r, w).
     and_then (render drv r w) (\<lambda>w. Inr (r, w)))"

definition set_clear_colour :: "u32 list \<Rightarrow> gl_world \<Rightarrow> gl_world outcome" where
  "set_clear_colour clear_colour w =
     and_then (at_index clear_colour 0) (\<lambda>a. and_then (at_index clear_colour 1) (\<lambda>b.
     and_then (at_index clear_colour 2) (\<lambda>c. and_then (at_index clear_colour 3) (\<lambda>e.
     Inr (emit (GlClearColor [a, b, c, e]) w)))))"

definition get_clear_colour :: "gl_driver \<Rightarrow> gl_world \<Rightarrow> u32 list outcome" where
  "get_clear_colour drv w =
     (let rgba = clear_value drv (calls w)
      in and_then (at_index rgba 0) (\<lambda>a. and_then (at_index rgba 1) (\<lambda>b.
         and_then (at_index rgba 2) (\<lambda>c. and_then (at_index rgba 3) (\<lambda>e. Inr [a, b, c, e])))))"

section \<open>Moving and destruction\<close>

text \<open>The move assignment swaps ten of the members; the result is the pair of both objects.\<close>

definition renderer_move_assign :: "RendererOGL \<Rightarrow> RendererOGL \<Rightarrow> RendererOGL \<times> RendererOGL" where
  "renderer_move_assign self rhs =
     (self\<lparr>vao := vao rhs, vbo := vbo rhs, ibo := ibo rhs, resource_ubos := resource_ubos rhs,
        resource_textures := resource_textures rhs, r_format := r_format rhs,
        pass_attachment := pass_attachment rhs, r_shader := r_shader rhs, inputs := inputs rhs,
        r_output := r_output rhs\<rparr>,
      rhs\<lparr>vao := vao self, vbo := vbo self, ibo := ibo self, resource_ubos := resource_ubos self,
        resource_textures := resource_textures self, r_format := r_format self,
        pass_attachment := pass_attachment self, r_shader := r_shader self, inputs := inputs self,
        r_output := r_output self\<rparr>)"

definition renderer_move_new :: "RendererOGL \<Rightarrow> RendererOGL \<times> RendererOGL" where
  "renderer_move_new move = renderer_move_assign empty_renderer move"

text \<open>The destructor body, then the destructors of the buffer members in reverse order.\<close>

definition renderer_destroy :: "RendererOGL \<Rightarrow> gl_world \<Rightarrow> gl_world" where
  "renderer_destroy r w =
     (let w = emit_all [GlDeleteBuffers (resource_ubos r), GlDeleteTextures (resource_textures r)] w;
          w = (if vao r \<noteq> 0 then emit (GlDeleteVertexArrays (vao r)) w else w)
      in fold optional_reset
           [indirect_buffer_dynamic r, indirect_buffer r, ibo_dynamic r, vbo_dynamic r, ibo r, vbo r] w)"

end
