(* ===== verification/Ogl_Inputs.thy ===== *)
theory Ogl_Inputs
  imports Ogl_Renderer
begin

text \<open>
  Correctness of the first two steps of the \<open>RendererOGL\<close> constructor: compiling the data of all
  inputs gives the batches of \<open>Draw_Spec\<close>, the static buffers hold the static batch, the
  persistently mapped buffers hold the dynamic batch, and every dynamic input, now reading
  through mapped memory, still has its own geometry.
\<close>

section \<open>The static buffers\<close>

definition static_buffers_ok :: "geometry list \<Rightarrow> RendererOGL \<Rightarrow> gl_world \<Rightarrow> bool" where
  "static_buffers_ok gs r w \<longleftrightarrow>
     (if of_access gs StaticFixed = [] then vbo r = None \<and> ibo r = None
      else \<exists>vb ib. vbo r = Some vb \<and> ibo r = Some ib \<and> holds w vb (batch_vertices gs StaticFixed) \<and>
        holds w ib (encode_u32s (batch_indices gs StaticFixed)))"

lemma fill_static_as_fills:
  assumes "vbo r = None" "ibo r = None"
  shows "fill_static drv c r w =
    (if any_static_geometry c
     then and_then (fill_new drv VertexBuf StaticDraw ReadWrite (total_vertices c) w) (\<lambda>(vb, w).
          and_then (fill_new drv IndexBuf StaticDraw ReadWrite (encode_u32s (total_indices c)) w) (\<lambda>(ib, w).
          Inr (r\<lparr>vbo := Some vb, ibo := Some ib\<rparr>, w)))
     else Inr (r, w))"
  using assms
  by (simp add: fill_static_def fill_new_def Let_def case_prod_beta and_then_assoc layout_simps mult.commute)

lemma fill_static_correct:
  assumes "gl_documented drv" "length (calls w) + 8 < 2 ^ 31" "length gs = length inps"
    and "vbo r = None" "ibo r = None" "c = compiled_at inps gs (length inps)"
  shows "\<exists>vb ib w'. fill_static drv c r w = Inr (r\<lparr>vbo := vb, ibo := ib\<rparr>, w') \<and> frame {} 8 w w' \<and>
    static_buffers_ok gs (r\<lparr>vbo := vb, ibo := ib\<rparr>) w'"
proof (cases "of_access gs StaticFixed = []")
  case True
  then show ?thesis
    using assms by (intro exI [of _ None] exI [of _ w])
      (simp add: fill_static_def compiled_totals static_buffers_ok_def)
next
  case False
  obtain vb w1 where 1: "fill_new drv VertexBuf StaticDraw ReadWrite (batch_vertices gs StaticFixed) w = Inr (vb, w1)"
    "frame {} 4 w w1" "holds w1 vb (batch_vertices gs StaticFixed)"
    using fill_new_effect [OF assms(1), of w] assms(2) by fastforce
  have "length (calls w1) < 2 ^ 31" using frame_length [OF 1(2)] assms(2) by simp
  then obtain ib w2 where 2: "fill_new drv IndexBuf StaticDraw ReadWrite (encode_u32s (batch_indices gs StaticFixed)) w1 = Inr (ib, w2)"
    "frame {} 4 w1 w2" "holds w2 ib (encode_u32s (batch_indices gs StaticFixed))"
    using fill_new_effect [OF assms(1), of w1] by fastforce
  have "frame {} 8 w w2" by (rule frame_chain [OF 1(2) 2(2)]) simp_all
  then show ?thesis
    using False assms(3-) 1(1) 2(1,3) holds_frame [OF 1(3) 2(2)]
    by (intro exI [of _ "Some vb"] exI [of _ "Some ib"] exI [of _ w2])
      (simp add: fill_static_as_fills compiled_totals static_buffers_ok_def)
qed

section \<open>The dynamic buffers\<close>

lemma all_geometry_frame:
  assumes "all_geometry (gl_memory w) inps = Inr gs" "frame S n w w'"
    and "\<forall>inp\<in>set inps. input_blocks inp \<subseteq> set (used_blocks (calls w))"
  shows "all_geometry (gl_memory w') inps = Inr gs"
proof -
  have "input_geometry (gl_memory w') inp = input_geometry (gl_memory w) inp" if "inp \<in> set inps" for inp
    using assms(3) that frame_memory [OF assms(2)] by (intro input_geometry_blocks) blast
  then show ?thesis using assms(1) by (simp add: all_geometry_iff)
qed

definition dynamic_buffers_ok :: "geometry list \<Rightarrow> RendererOGL \<Rightarrow> gl_world \<Rightarrow> bool" where
  "dynamic_buffers_ok gs r w \<longleftrightarrow>
     (if of_access gs DynamicFixed = [] then vbo_dynamic r = None \<and> ibo_dynamic r = None
      else \<exists>vb ib. vbo_dynamic r = Some vb \<and> ibo_dynamic r = Some ib \<and>
        holds w vb (batch_vertices gs DynamicFixed) \<and> holds w ib (encode_u32s (batch_indices gs DynamicFixed)))"

definition inputs_ok :: "geometry list \<Rightarrow> RendererInput list \<Rightarrow> gl_world \<Rightarrow> bool" where
  "inputs_ok gs inps w \<longleftrightarrow> all_geometry (gl_memory w) inps = Inr gs \<and>
     (\<forall>inp\<in>set inps. input_blocks inp \<subseteq> set (used_blocks (calls w)))"

text \<open>A dynamic batch can be mapped when it is not empty and its size fits a \<open>GLint\<close>.\<close>

definition mappable :: "geometry list \<Rightarrow> bool" where
  "mappable gs \<longleftrightarrow> of_access gs DynamicFixed = [] \<or>
     batch_vertices gs DynamicFixed \<noteq> [] \<and> length (batch_vertices gs DynamicFixed) < 2 ^ 31 \<and>
     batch_indices gs DynamicFixed \<noteq> [] \<and> 4 * length (batch_indices gs DynamicFixed) < 2 ^ 31"

lemma fill_dynamic_as_fills:
  assumes "vbo_dynamic r = None" "ibo_dynamic r = None"
  shows "fill_dynamic drv c r w =
    (if any_dynamic_geometry c
     then and_then (fill_new drv VertexBuf DynamicDraw PersistentMapped (total_vertices_dynamic c) w) (\<lambda>(vb, w).
          and_then (fill_new drv IndexBuf DynamicDraw PersistentMapped (encode_u32s (total_indices_dynamic c)) w) (\<lambda>(ib, w).
          let (vtx_data, vb, w) = buffer_map_memory drv vb w;
              (idx_data, ib, w) = buffer_map_memory drv ib w
          in and_then (for_each (map_vertex_region vtx_data) (vertex_regions c) (gl_memory w, inputs r)) (\<lambda>s.
             and_then (for_each (map_index_region idx_data) (index_regions c) s) (\<lambda>(mem, inps).
             Inr (r\<lparr>vbo_dynamic := Some vb, ibo_dynamic := Some ib, inputs := inps\<rparr>, w\<lparr>gl_memory := mem\<rparr>)))))
     else Inr (r, w))"
  using assms
  by (simp add: fill_dynamic_def fill_new_def Let_def case_prod_beta and_then_assoc layout_simps mult.commute)

text \<open>Creating, filling and mapping both buffers.\<close>

definition two_mapped :: "gl_driver \<Rightarrow> u8 list \<Rightarrow> u8 list \<Rightarrow> gl_world \<Rightarrow> (ptr option \<times> Buffer \<times> ptr option \<times> Buffer \<times> gl_world) outcome" where
  "two_mapped drv vs is w =
     and_then (fill_new drv VertexBuf DynamicDraw PersistentMapped vs w) (\<lambda>(vb, w).
     and_then (fill_new drv IndexBuf DynamicDraw PersistentMapped is w) (\<lambda>(ib, w).
     let (vtx_data, vb, w) = buffer_map_memory drv vb w;
         (idx_data, ib, w) = buffer_map_memory drv ib w
     in Inr (vtx_data, vb, idx_data, ib, w)))"

lemma two_mapped_effect:
  assumes doc: "gl_documented drv" "length (calls w) + 12 < 2 ^ 31"
    and sz: "vs \<noteq> []" "length vs < 2 ^ 31" "is \<noteq> []" "length is < 2 ^ 31"
  shows "\<exists>vp vb ip ib w'. two_mapped drv vs is w = Inr (Some vp, vb, Some ip, ib, w') \<and> frame {} 12 w w' \<and>
    offset vp = 0 \<and> offset ip = 0 \<and> gl_memory w' (block vp) = Some vs \<and> gl_memory w' (block ip) = Some is \<and>
    {block vp, block ip} \<subseteq> set (used_blocks (calls w')) \<and> holds w' vb vs \<and> holds w' ib is"
proof -
  obtain vb w1 where 1: "fill_new drv VertexBuf DynamicDraw PersistentMapped vs w = Inr (vb, w1)" "frame {} 4 w w1"
    "holds w1 vb vs" "unmapped_buffer w1 vb" "contents (buf vb) (calls w1) = map Some vs" "buf vb \<notin> set (live BufferObj (calls w))"
    using fill_new_effect [OF doc(1), of w] doc(2) by fastforce
  have l1: "length (calls w1) + 8 < 2 ^ 31" using frame_length [OF 1(2)] doc(2) by simp
  then obtain ib w2 where 2: "fill_new drv IndexBuf DynamicDraw PersistentMapped is w1 = Inr (ib, w2)" "frame {} 4 w1 w2"
    "holds w2 ib is" "unmapped_buffer w2 ib" "contents (buf ib) (calls w2) = map Some is" "buf ib \<notin> set (live BufferObj (calls w1))"
    using fill_new_effect [OF doc(1), of w1] by fastforce
  have l2: "length (calls w2) + 4 < 2 ^ 31" using frame_length [OF 2(2)] l1 by simp
  have vb1: "buf vb \<in> set (live BufferObj (calls w1))" using 1(3) by (simp add: holds_def)
  then have ne: "buf vb \<noteq> buf ib" using 2(6) by auto
  have vb2: "unmapped_buffer w2 vb" "buf vb \<in> set (live BufferObj (calls w2))" "contents (buf vb) (calls w2) = map Some vs"
    using 1(4,5) frame_history [OF 2(2) vb1] frame_live [OF 2(2) vb1] by (simp_all add: unmapped_buffer_def)
  obtain vp w3 where 3: "buffer_map_memory drv vb w2 = (Some vp, vb\<lparr>mapped_ptr := Some vp\<rparr>, w3)" "offset vp = 0"
    "gl_memory w3 (block vp) = Some vs" "block vp \<in> set (used_blocks (calls w3))"
    "holds w3 (vb\<lparr>mapped_ptr := Some vp\<rparr>) vs" "frame {buf vb} 2 w2 w3"
    using map_memory_effect [OF doc(1) _ vb2 sz(1,2)] l2 by auto
  have ib3: "unmapped_buffer w3 ib" "buf ib \<in> set (live BufferObj (calls w3))" "contents (buf ib) (calls w3) = map Some is"
    using 2(3,4,5) frame_history [OF 3(6), of "buf ib"] frame_live [OF 3(6), of "buf ib"] ne
    by (auto simp: unmapped_buffer_def holds_def)
  have "length (calls w3) + 2 < 2 ^ 31" using frame_length [OF 3(6)] l2 by simp
  then obtain ip w4 where 4: "buffer_map_memory drv ib w3 = (Some ip, ib\<lparr>mapped_ptr := Some ip\<rparr>, w4)" "offset ip = 0"
    "gl_memory w4 (block ip) = Some is" "block ip \<in> set (used_blocks (calls w4))"
    "holds w4 (ib\<lparr>mapped_ptr := Some ip\<rparr>) is" "frame {buf ib} 2 w3 w4"
    using map_memory_effect [OF doc(1) _ ib3 sz(3,4)] by auto
  have "frame {} 8 w w2" by (rule frame_chain [OF 1(2) 2(2)]) simp_all
  moreover have "frame {buf vb, buf ib} 4 w2 w4" by (rule frame_chain [OF 3(6) 4(6)]) simp_all
  ultimately have "frame {buf vb, buf ib} 12 w w4" by (rule frame_chain) simp_all
  moreover have "buf ib \<notin> set (live BufferObj (calls w))" using 2(6) frame_live [OF 1(2), of "buf ib"] by auto
  ultimately have "frame {} 12 w w4" using 1(6) by (auto elim!: frame_forget)
  moreover have "gl_memory w4 (block vp) = Some vs" "block vp \<in> set (used_blocks (calls w4))"
    using 3(3) frame_memory [OF 4(6) 3(4)] frame_used [OF 4(6)] 3(4) by auto
  moreover have "holds w4 (vb\<lparr>mapped_ptr := Some vp\<rparr>) vs" using holds_frame [OF 3(5) 4(6)] ne by simp
  ultimately show ?thesis
    using 1(1) 2(1) 3(1,2) 4 by (simp add: two_mapped_def)
qed

lemma fill_dynamic_two_mapped:
  assumes "vbo_dynamic r = None" "ibo_dynamic r = None" "any_dynamic_geometry c"
    and "two_mapped drv (total_vertices_dynamic c) (encode_u32s (total_indices_dynamic c)) w = Inr (vtx, vb, idx, ib, w')"
  shows "fill_dynamic drv c r w =
    and_then (and_then (for_each (map_vertex_region vtx) (vertex_regions c) (gl_memory w', inputs r))
      (for_each (map_index_region idx) (index_regions c))) (\<lambda>(mem, inps).
    Inr (r\<lparr>vbo_dynamic := Some vb, ibo_dynamic := Some ib, inputs := inps\<rparr>, w'\<lparr>gl_memory := mem\<rparr>))"
proof -
  obtain vb0 w1 ib0 w2 where "fill_new drv VertexBuf DynamicDraw PersistentMapped (total_vertices_dynamic c) w = Inr (vb0, w1)"
    "fill_new drv IndexBuf DynamicDraw PersistentMapped (encode_u32s (total_indices_dynamic c)) w1 = Inr (ib0, w2)"
    "vtx = fst (buffer_map_memory drv vb0 w2)" "vb = fst (snd (buffer_map_memory drv vb0 w2))"
    "buffer_map_memory drv ib0 (snd (snd (buffer_map_memory drv vb0 w2))) = (idx, ib, w')"
    using assms(4) by (auto simp: two_mapped_def outcome_simps Let_def case_prod_beta prod_eq_iff)
  then show ?thesis
    using assms(1-3) by (simp add: fill_dynamic_as_fills and_then_assoc Let_def case_prod_beta)
qed

lemma fill_dynamic_correct:
  assumes doc: "gl_documented drv" "length (calls w) + 12 < 2 ^ 31"
    and r: "vbo_dynamic r = None" "ibo_dynamic r = None" "inputs r = inps"
    and inps: "all_geometry (gl_memory w) inps = Inr gs" "\<forall>inp\<in>set inps. wf_input inp \<and> is_unmapped inp"
    and fits: "mappable gs" and c: "c = compiled_at inps gs (length inps)"
  shows "\<exists>vb ib inps' w'. fill_dynamic drv c r w = Inr (r\<lparr>vbo_dynamic := vb, ibo_dynamic := ib, inputs := inps'\<rparr>, w') \<and>
    frame {} 12 w w' \<and> dynamic_buffers_ok gs (r\<lparr>vbo_dynamic := vb, ibo_dynamic := ib, inputs := inps'\<rparr>) w' \<and>
    inputs_ok gs inps' w'"
proof -
  have len: "length gs = length inps" using inps(1) by (simp add: all_geometry_iff)
  have none: "input_blocks inp = {}" if "inp \<in> set inps" for inp
    using inps(2) that by (cases inp) (auto simp: input_blocks_def is_unmapped_def unmapped_def)
  show ?thesis
  proof (cases "of_access gs DynamicFixed = []")
    case True
    have "r\<lparr>vbo_dynamic := None, ibo_dynamic := None, inputs := inps\<rparr> = r" using r by simp
    then show ?thesis
      using True r inps none c compiled_totals(6) [OF len]
      by (intro exI [of _ None] exI [of _ inps] exI [of _ w])
        (simp add: fill_dynamic_def dynamic_buffers_ok_def inputs_ok_def)
  next
    case False
    let ?V = "batch_vertices gs DynamicFixed" and ?I = "encode_u32s (batch_indices gs DynamicFixed)"
    have "?V \<noteq> []" "length ?V < 2 ^ 31" "?I \<noteq> []" "length ?I < 2 ^ 31"
      using fits False length_encode_u32s [of "batch_indices gs DynamicFixed"] unfolding mappable_def by auto
    from two_mapped_effect [OF doc this]
    obtain vp vb ip ib w' where m: "two_mapped drv ?V ?I w = Inr (Some vp, vb, Some ip, ib, w')" "frame {} 12 w w'"
      "offset vp = 0" "offset ip = 0" "gl_memory w' (block vp) = Some ?V" "gl_memory w' (block ip) = Some ?I"
      "{block vp, block ip} \<subseteq> set (used_blocks (calls w'))" "holds w' vb ?V" "holds w' ib ?I" by blast
    have "all_geometry (gl_memory w') inps = Inr gs"
      using none by (intro all_geometry_frame [OF inps(1) m(2)]) auto
    from map_regions_correct [OF this inps(2) m(5,3) m(6,4)]
    obtain inps' where i: "and_then (for_each (map_vertex_region (Some vp)) (vertex_regions c) (gl_memory w', inputs r))
        (for_each (map_index_region (Some ip)) (index_regions c)) = Inr (gl_memory w', inps')"
      "all_geometry (gl_memory w') inps' = Inr gs" "\<forall>inp\<in>set inps'. input_blocks inp \<subseteq> {block vp, block ip}"
      unfolding c r(3) by (auto simp: compiled_at_def)
    have "fill_dynamic drv c r w = Inr (r\<lparr>vbo_dynamic := Some vb, ibo_dynamic := Some ib, inputs := inps'\<rparr>, w')"
      using fill_dynamic_two_mapped [OF r(1,2), of c drv w] m(1) i(1) compiled_totals [OF len] False c by simp
    moreover have "inputs_ok gs inps' w'" using i(2,3) m(7) by (fastforce simp: inputs_ok_def)
    ultimately show ?thesis
      using m(2,8,9) False
      by (intro exI [of _ "Some vb"] exI [of _ "Some ib"] exI [of _ inps'] exI [of _ w'])
        (simp add: dynamic_buffers_ok_def)
  qed
qed

end
