(* ===== verification/Ogl_Resources.thy ===== *)
theory Ogl_Resources
  imports Ogl_Inputs
begin

text \<open>
  Correctness of the remaining steps of the \<open>RendererOGL\<close> constructor: vertex array attributes,
  uniform buffers and textures.  Each leaves the buffers made before it alone, and the uniform
  buffer of every buffer resource holds the bytes of that resource.
\<close>

section \<open>Attributes\<close>

lemma setup_attributes_frame:
  assumes "basis fmt = PerVertexBasis"
  shows "\<exists>w'. setup_attributes d va fmt w = Inr w' \<and> frame {} (3 * length (binding_attributes fmt)) w w'"
proof -
  have "\<exists>w'. for_each (\<lambda>attrib_id w.
       and_then (at_index (binding_attributes fmt) attrib_id) (\<lambda>attrib_format.
       Inr (emit_all
         [GlEnableVertexArrayAttrib va attrib_id,
          GlVertexArrayAttribFormat va attrib_id (attribute_components (attribute_type attrib_format))
            (element_attribute_offset attrib_format),
          GlVertexArrayAttribBinding va attrib_id 0] w)))
       [0..<length (binding_attributes fmt)] w = Inr w' \<and> frame {} (3 * length (binding_attributes fmt)) w w'"
  proof (rule for_range_invariant [where I = "\<lambda>i. frame {} (3 * i) w"])
    fix i s assume "i < length (binding_attributes fmt)" "frame {} (3 * i) w s"
    moreover have "frame {} 3 s (emit_all
         [GlEnableVertexArrayAttrib va i,
          GlVertexArrayAttribFormat va i (attribute_components (attribute_type (binding_attributes fmt ! i)))
            (element_attribute_offset (binding_attributes fmt ! i)),
          GlVertexArrayAttribBinding va i 0] s)"
      by (rule frame_emit_all_bufferless) (simp_all add: bufferless_def)
    ultimately show "\<exists>s'. and_then (at_index (binding_attributes fmt) i) (\<lambda>attrib_format.
       Inr (emit_all
         [GlEnableVertexArrayAttrib va i,
          GlVertexArrayAttribFormat va i (attribute_components (attribute_type attrib_format))
            (element_attribute_offset attrib_format),
          GlVertexArrayAttribBinding va i 0] s)) = Inr s' \<and> frame {} (3 * Suc i) w s'"
      by (simp add: frame_chain)
  qed simp
  then show ?thesis using assms by (simp add: setup_attributes_def)
qed

lemma input_format_attributes: "length (binding_attributes (input_get_format inp)) \<le> 5"
  "basis (input_get_format inp) = PerVertexBasis"
proof -
  have "length (binding_attributes (mesh_format igns)) \<le> 5" for igns
    using length_filter_le [of "\<lambda>f. f \<notin> ef_set igns" all_flags]
    by (simp add: mesh_format_attributes all_flags_def)
  then show "length (binding_attributes (input_get_format inp)) \<le> 5" "basis (input_get_format inp) = PerVertexBasis"
    by (cases inp; simp add: input_get_format_def mesh_input_get_format_def mesh_dynamic_get_format_def)+
qed

section \<open>Buffer resources\<close>

text \<open>A buffer resource that has not been mapped, with a size that can be.\<close>

definition buffer_ready :: "Resource \<Rightarrow> bool" where
  "buffer_ready res =
     (case res of
        StaticBuffer b \<Rightarrow> True
      | DynamicBuffer b \<Rightarrow> resource_data b = None \<and> buffer_bytes (initial_buffer b) \<noteq> [] \<and>
          length (buffer_bytes (initial_buffer b)) < 2 ^ 31
      | TextureRes _ \<Rightarrow> False)"

definition ubo_holds :: "gl_world \<Rightarrow> u32 \<Rightarrow> u8 list \<Rightarrow> bool" where
  "ubo_holds w b bytes \<longleftrightarrow> b \<in> set (live BufferObj (calls w)) \<and> gpu_bytes w b = Some bytes"

lemma ubo_holds_frame: "ubo_holds w b bytes \<Longrightarrow> frame S n w w' \<Longrightarrow> b \<notin> S \<Longrightarrow> ubo_holds w' b bytes"
  by (simp add: ubo_holds_def frame_live frame_gpu_bytes)

lemma upload_static:
  assumes doc: "gl_documented drv" "length (calls w) + 3 < 2 ^ 31"
    and r: "i < length (resources r)" "resources r ! i = StaticBuffer s"
  shows "\<exists>b w'. upload_buffer_resource drv i (r, w) = Inr (r\<lparr>resource_ubos := resource_ubos r @ [b]\<rparr>, w') \<and>
    frame {} 3 w w' \<and> ubo_holds w' b (buffer_get_bytes s)"
proof -
  define b where "b = new_name drv (calls w) BufferObj"
  have b: "b \<noteq> 0" "b \<notin> set (live BufferObj (calls w))"
    using documented_name [OF doc(1), of "calls w"] doc(2) by (auto simp: b_def)
  define cs where "cs = [GlCreateBuffers b, GlNamedBufferData b (length (buffer_get_bytes s)) (Some (buffer_get_bytes s)) StaticDraw]"
  have "upload_buffer_resource drv i (r, w) = Inr (r\<lparr>resource_ubos := resource_ubos r @ [b]\<rparr>, emit_all cs w)"
    using r by (simp add: upload_buffer_resource_def Let_def b_def cs_def emit_def emit_all_def)
  moreover have "frame {} 3 w (emit_all cs w)"
    using b by (intro frame_emit_all) (auto simp: cs_def)
  moreover have "ubo_holds (emit_all cs w) b (buffer_get_bytes s)"
    by (simp add: ubo_holds_def gpu_bytes_def history_fold cs_def live_step_def)
  ultimately show ?thesis by blast
qed

lemma upload_dynamic:
  assumes doc: "gl_documented drv" "length (calls w) + 3 < 2 ^ 31"
    and r: "i < length (resources r)" "resources r ! i = DynamicBuffer s" "buffer_ready (DynamicBuffer s)"
  shows "\<exists>b p w'. upload_buffer_resource drv i (r, w) =
      Inr (r\<lparr>resource_ubos := resource_ubos r @ [b], resources := (resources r)[i := DynamicBuffer (s\<lparr>resource_data := Some p\<rparr>)]\<rparr>, w') \<and>
    frame {} 3 w w' \<and> ubo_holds w' b (buffer_bytes (initial_buffer s))"
proof -
  let ?bytes = "buffer_bytes (initial_buffer s)"
  have s: "resource_data s = None" "?bytes \<noteq> []" "length ?bytes < 2 ^ 31"
    using r(3) by (simp_all add: buffer_ready_def)
  define b where "b = new_name drv (calls w) BufferObj"
  have b: "b \<noteq> 0" "b \<notin> set (live BufferObj (calls w))"
    using documented_name [OF doc(1), of "calls w"] doc(2) by (auto simp: b_def)
  define w1 where "w1 = emit_all [GlCreateBuffers b, GlNamedBufferStorage b (length ?bytes) (Some ?bytes)] w"
  have h1: "contents b (calls w1) = map Some ?bytes" "b \<in> set (live BufferObj (calls w1))"
    "used_blocks (calls w1) = used_blocks (calls w)"
    by (simp_all add: w1_def history_fold live_step_def used_blocks_Cons)
  obtain blk where ans: "map_range drv (calls w1) b 0 (length ?bytes) = Some (blk, ?bytes)"
    "blk \<notin> set (used_blocks (calls w))"
    using documented_map [OF doc(1), of "calls w1" b] h1 s(2) doc(2) by (auto simp: w1_def agrees_defined)
  define w2 where "w2 = (emit (GlMapNamedBufferRange b 0 (length ?bytes) True (Some blk)) w1)
    \<lparr>gl_memory := (gl_memory w)(blk \<mapsto> ?bytes)\<rparr>"
  let ?p = "\<lparr>block = blk, offset = 0\<rparr>"
  have "dynamic_buffer_set_data ((gl_memory w)(blk \<mapsto> ?bytes)) s ?p =
      Inr ((gl_memory w)(blk \<mapsto> ?bytes), s\<lparr>resource_data := Some ?p\<rparr>)"
    using s(1) mem_write_same [of "(gl_memory w)(blk \<mapsto> ?bytes)" ?p ?bytes ?bytes]
    by (simp add: dynamic_buffer_set_data_def dynamic_buffer_get_bytes_def Let_def)
  moreover have "map_range drv (calls w @ [GlCreateBuffers b, GlNamedBufferStorage b (length ?bytes) (Some ?bytes)])
      b 0 (length ?bytes) = Some (blk, ?bytes)"
    using ans(1) by (simp add: w1_def)
  ultimately have "upload_buffer_resource drv i (r, w) =
      Inr (r\<lparr>resource_ubos := resource_ubos r @ [b], resources := (resources r)[i := DynamicBuffer (s\<lparr>resource_data := Some ?p\<rparr>)]\<rparr>, w2)"
    using r(1,2) s(1)
    by (simp add: upload_buffer_resource_def Let_def dynamic_buffer_get_bytes_def w2_def w1_def emit_def
      emit_all_def flip: b_def)
  moreover have c2: "calls w2 = calls w @ [GlCreateBuffers b, GlNamedBufferStorage b (length ?bytes) (Some ?bytes),
      GlMapNamedBufferRange b 0 (length ?bytes) True (Some blk)]"
    by (simp add: w2_def w1_def)
  moreover have m2: "gl_memory w2 = (gl_memory w)(blk \<mapsto> ?bytes)" by (simp add: w2_def)
  moreover have "frame {} 3 w w2" using b ans(2) by (auto simp: frame_def c2 m2)
  moreover have "ubo_holds w2 b ?bytes"
    by (simp add: ubo_holds_def gpu_bytes_def c2 m2 history_fold live_step_def)
  ultimately show ?thesis by blast
qed

definition ubos_ok :: "Resource list \<Rightarrow> u32 list \<Rightarrow> gl_world \<Rightarrow> bool" where
  "ubos_ok bs ubos w \<longleftrightarrow> length ubos = length bs \<and> (\<forall>j<length bs. ubo_holds w (ubos ! j) (ready_bytes (bs ! j)))"

lemma ubos_ok_frame: "ubos_ok bs ubos w \<Longrightarrow> frame S n w w' \<Longrightarrow> set ubos \<inter> S = {} \<Longrightarrow> ubos_ok bs ubos w'"
  unfolding ubos_ok_def by (metis disjoint_iff nth_mem ubo_holds_frame)

lemma upload_ready:
  assumes "gl_documented drv" "length (calls w) + 3 < 2 ^ 31" "i < length (resources r)" "buffer_ready (resources r ! i)"
  shows "\<exists>b res' w'. upload_buffer_resource drv i (r, w) =
      Inr (r\<lparr>resource_ubos := resource_ubos r @ [b], resources := (resources r)[i := res']\<rparr>, w') \<and>
    frame {} 3 w w' \<and> ubo_holds w' b (ready_bytes (resources r ! i))"
proof (cases "resources r ! i")
  case (StaticBuffer s)
  have "r\<lparr>resource_ubos := x, resources := (resources r)[i := resources r ! i]\<rparr> = r\<lparr>resource_ubos := x\<rparr>" for x
    by simp
  then show ?thesis
    using upload_static [OF assms(1-3) StaticBuffer] StaticBuffer by (metis Resource.simps(10) ready_bytes_def)
next
  case (DynamicBuffer s)
  then show ?thesis
    using upload_dynamic [OF assms(1-3) DynamicBuffer] assms(4) by (fastforce simp: ready_bytes_def)
qed (use assms(4) in \<open>simp add: buffer_ready_def\<close>)

lemma upload_buffers_correct:
  assumes doc: "gl_documented drv" "length (calls w) + 3 * length bs < 2 ^ 31"
    and r: "resources r = bs @ ts" "resource_ubos r = []" "\<forall>res\<in>set bs. buffer_ready res"
  shows "\<exists>ubos bs' w'. for_each (upload_buffer_resource drv) [0..<length bs] (r, w) =
      Inr (r\<lparr>resource_ubos := ubos, resources := bs' @ ts\<rparr>, w') \<and> length bs' = length bs \<and>
    frame {} (3 * length bs) w w' \<and> ubos_ok bs ubos w'"
proof -
  define I where "I k s \<longleftrightarrow> (\<exists>ubos bs' w'. s = (r\<lparr>resource_ubos := ubos, resources := bs' @ ts\<rparr>, w') \<and>
    length bs' = length bs \<and> (\<forall>j. k \<le> j \<longrightarrow> j < length bs \<longrightarrow> bs' ! j = bs ! j) \<and>
    frame {} (3 * k) w w' \<and> ubos_ok (take k bs) ubos w')" for k s
  have "\<exists>s'. for_each (upload_buffer_resource drv) [0..<length bs] (r, w) = Inr s' \<and> I (length bs) s'"
  proof (rule for_range_invariant)
    show "I 0 (r, w)"
      unfolding I_def using r by (intro exI [of _ "[]"] exI [of _ bs] exI [of _ w]) (simp add: ubos_ok_def)
  next
    fix k s assume k: "k < length bs" and "I k s"
    then obtain ubos bs' w1 where s: "s = (r\<lparr>resource_ubos := ubos, resources := bs' @ ts\<rparr>, w1)" "length bs' = length bs"
      "\<forall>j. k \<le> j \<longrightarrow> j < length bs \<longrightarrow> bs' ! j = bs ! j" "frame {} (3 * k) w w1" "ubos_ok (take k bs) ubos w1"
      unfolding I_def by blast
    let ?r = "r\<lparr>resource_ubos := ubos, resources := bs' @ ts\<rparr>"
    have "length (calls w1) + 3 < 2 ^ 31" using frame_length [OF s(4)] doc(2) k by simp
    moreover have at: "resources ?r ! k = bs ! k" using s(2,3) k by (simp add: nth_append)
    ultimately obtain b res' w2 where u: "upload_buffer_resource drv k (?r, w1) =
        Inr (?r\<lparr>resource_ubos := resource_ubos ?r @ [b], resources := (resources ?r)[k := res']\<rparr>, w2)"
      "frame {} 3 w1 w2" "ubo_holds w2 b (ready_bytes (bs ! k))"
      using upload_ready [OF doc(1), of w1 k ?r] r(3) k s(2) by fastforce
    have "ubos_ok (take (Suc k) bs) (ubos @ [b]) w2"
      using ubos_ok_frame [OF s(5) u(2)] u(3) k
      by (auto simp: ubos_ok_def take_Suc_conv_app_nth nth_append less_Suc_eq)
    moreover have "frame {} (3 * Suc k) w w2" using frame_chain [OF s(4) u(2), of "{}" "3 * Suc k"] by simp
    ultimately have "I (Suc k) (?r\<lparr>resource_ubos := resource_ubos ?r @ [b], resources := (resources ?r)[k := res']\<rparr>, w2)"
      unfolding I_def using s(2,3) k
      by (intro exI [of _ "ubos @ [b]"] exI [of _ "bs'[k := res']"] exI [of _ w2]) (simp add: list_update_append)
    then show "\<exists>s'. upload_buffer_resource drv k s = Inr s' \<and> I (Suc k) s'"
      using u(1) s(1) by blast
  qed
  then show ?thesis unfolding I_def by auto
qed

section \<open>Texture resources\<close>

lemma texture_calls_bufferless: "\<forall>c\<in>set (texture_calls tex t). bufferless c" "length (texture_calls tex t) = 8"
  by (auto simp: texture_calls_def Let_def case_prod_beta bufferless_def)

lemma upload_textures_correct:
  assumes "resources r = bs @ ts" "\<forall>res\<in>set ts. is_texture res"
  shows "\<exists>texs w'. for_each (\<lambda>i. upload_texture_resource drv (length bs + i)) [0..<length ts] (r, w) =
      Inr (r\<lparr>resource_textures := texs\<rparr>, w') \<and> frame {} (8 * length ts) w w' \<and>
    length texs = length (resource_textures r) + length ts"
proof -
  define I where "I k s \<longleftrightarrow> (\<exists>texs w'. s = (r\<lparr>resource_textures := texs\<rparr>, w') \<and> frame {} (8 * k) w w' \<and>
    length texs = length (resource_textures r) + k)" for k s
  have "\<exists>s'. for_each (\<lambda>i. upload_texture_resource drv (length bs + i)) [0..<length ts] (r, w) = Inr s' \<and> I (length ts) s'"
  proof (rule for_range_invariant)
    show "I 0 (r, w)" unfolding I_def by (intro exI [of _ "resource_textures r"] exI [of _ w]) simp
  next
    fix k s assume k: "k < length ts" and "I k s"
    then obtain texs w1 where s: "s = (r\<lparr>resource_textures := texs\<rparr>, w1)" "frame {} (8 * k) w w1"
      "length texs = length (resource_textures r) + k" unfolding I_def by blast
    obtain t where t: "ts ! k = TextureRes t"
      using assms(2) k by (cases "ts ! k") (auto simp: is_texture_def resource_get_type_def dest!: bspec [OF _ nth_mem])
    let ?tex = "new_name drv (calls w1) TextureObj"
    have "frame {} 8 w1 (emit_all (texture_calls ?tex t) w1)"
      by (intro frame_emit_all_bufferless) (simp_all add: texture_calls_bufferless)
    then have "frame {} (8 * Suc k) w (emit_all (texture_calls ?tex t) w1)"
      using frame_chain [OF s(2), of "{}" 8] by simp
    then show "\<exists>s'. upload_texture_resource drv (length bs + k) s = Inr s' \<and> I (Suc k) s'"
      using s assms(1) k t by (auto simp: upload_texture_resource_def I_def nth_append Let_def)
  qed
  then show ?thesis unfolding I_def by auto
qed

lemma setup_resources_correct:
  assumes doc: "gl_documented drv"
    and len: "length (calls w) + 3 * length (b_buffer_resources builder) < 2 ^ 31"
    and b: "\<forall>res\<in>set (b_buffer_resources builder). buffer_ready res" "\<forall>res\<in>set (b_texture_resources builder). is_texture res"
    and r: "resource_ubos r = []" "resource_textures r = []"
  shows "\<exists>ubos texs res w'. setup_resources drv builder r w =
      Inr (r\<lparr>resource_ubos := ubos, resource_textures := texs, resources := res\<rparr>, w') \<and>
    frame {} (3 * length (b_buffer_resources builder) + 8 * length (b_texture_resources builder)) w w' \<and>
    ubos_ok (b_buffer_resources builder) ubos w' \<and> length texs = length (b_texture_resources builder)"
proof -
  let ?bs = "b_buffer_resources builder" and ?ts = "b_texture_resources builder"
  let ?r = "r\<lparr>resources := clone_resources builder\<rparr>"
  have res: "resources ?r = ?bs @ ?ts" by (simp add: clone_resources_append)
  obtain ubos bs' w1 where 1: "for_each (upload_buffer_resource drv) [0..<length ?bs] (?r, w) =
      Inr (?r\<lparr>resource_ubos := ubos, resources := bs' @ ?ts\<rparr>, w1)" "length bs' = length ?bs"
    "frame {} (3 * length ?bs) w w1" "ubos_ok ?bs ubos w1"
    using upload_buffers_correct [OF doc len res _ b(1)] r(1) by auto
  let ?r1 = "?r\<lparr>resource_ubos := ubos, resources := bs' @ ?ts\<rparr>"
  obtain texs w2 where 2: "for_each (\<lambda>i. upload_texture_resource drv (length bs' + i)) [0..<length ?ts] (?r1, w1) =
      Inr (?r1\<lparr>resource_textures := texs\<rparr>, w2)" "frame {} (8 * length ?ts) w1 w2" "length texs = length ?ts"
    using upload_textures_correct [of ?r1 bs' ?ts drv w1] b(2) r(2) by auto
  have "frame {} (3 * length ?bs + 8 * length ?ts) w w2" using frame_chain [OF 1(3) 2(2)] by simp
  moreover have "ubos_ok ?bs ubos w2" using ubos_ok_frame [OF 1(4) 2(2)] by simp
  ultimately show ?thesis
    using 1(1,2) 2(1,3) by (intro exI [of _ ubos] exI [of _ texs] exI [of _ "bs' @ ?ts"] exI [of _ w2])
      (simp add: setup_resources_def Let_def)
qed

end
