(* ===== verification/Ogl_Correct.thy ===== *)
theory Ogl_Correct
  imports Ogl_Resources
begin

text \<open>
  The invariant of a \<open>RendererOGL\<close> and what it gives.  \<open>renderer_ok\<close> relates a renderer to the
  geometry of its inputs: the batches are in the GPU buffers, the inputs still read their own
  geometry, and the indirect buffers hold the commands of the cached draw list.  The
  constructor establishes it, binding a draw list whose commands fit the indirect buffers keeps
  it, and rendering under it draws exactly the cached draw list.  What a draw call fetches is
  given by \<open>drawn\<close>, which executes the calls of \<open>render\<close> on the contents of the buffers.
\<close>

section \<open>What the draw calls fetch\<close>

definition multi_draw :: "gl_world \<Rightarrow> u32 \<Rightarrow> u32 \<Rightarrow> u32 \<Rightarrow> nat \<Rightarrow> u8 list list list option" where
  "multi_draw w vb eb ib n =
     (case (gpu_bytes w vb, gpu_bytes w eb, gpu_bytes w ib) of
        (Some vs, Some es, Some is) \<Rightarrow> indirect_fetch vs es is n
      | _ \<Rightarrow> None)"

record draw_state =
  bound_vertex :: u32
  bound_element :: u32
  bound_indirect :: u32
  fetched :: "u8 list list list option"

fun draw_step :: "gl_world \<Rightarrow> gl_call \<Rightarrow> draw_state \<Rightarrow> draw_state" where
  "draw_step w (GlVertexArrayVertexBuffer _ _ b _ _) s = s\<lparr>bound_vertex := b\<rparr>"
| "draw_step w (GlVertexArrayElementBuffer _ b) s = s\<lparr>bound_element := b\<rparr>"
| "draw_step w (GlBindBuffer k b) s = (if k = DrawIndirectBuf then s\<lparr>bound_indirect := b\<rparr> else s)"
| "draw_step w (GlMultiDrawElementsIndirect n _) s =
     s\<lparr>fetched := (case (fetched s, multi_draw w (bound_vertex s) (bound_element s) (bound_indirect s) n) of
        (Some xs, Some ys) \<Rightarrow> Some (xs @ ys) | _ \<Rightarrow> None)\<rparr>"
| "draw_step w _ s = s"

definition drawn :: "gl_world \<Rightarrow> gl_call list \<Rightarrow> u8 list list list option" where
  "drawn w cs = fetched (fold (draw_step w) cs
     \<lparr>bound_vertex = 0, bound_element = 0, bound_indirect = 0, fetched = Some []\<rparr>)"

section \<open>Indirect buffers\<close>

text \<open>An optional indirect buffer holds the given commands at its start.\<close>

definition slot_ok :: "gl_world \<Rightarrow> Buffer option \<Rightarrow> DrawIndirectCommand list \<Rightarrow> bool" where
  "slot_ok w opt cmds \<longleftrightarrow>
     (if cmds = [] then opt = None
      else \<exists>b bytes. opt = Some b \<and> buf_kind b = DrawIndirectBuf \<and> holds w b bytes \<and> unmapped_buffer w b \<and>
        take (length (command_bytes cmds)) bytes = command_bytes cmds)"

definition slot_names :: "Buffer option \<Rightarrow> u32 set" where
  "slot_names opt = buf ` set_option opt"

text \<open>New commands can be written: there is no buffer yet, or it is large enough.\<close>

definition slot_fits :: "gl_world \<Rightarrow> Buffer option \<Rightarrow> DrawIndirectCommand list \<Rightarrow> bool" where
  "slot_fits w opt cmds \<longleftrightarrow>
     (case opt of None \<Rightarrow> True
      | Some b \<Rightarrow> 20 * length cmds \<le> length (contents (buf b) (calls w)))"

lemma slot_ok_frame: "slot_ok w opt cmds \<Longrightarrow> frame S n w w' \<Longrightarrow> slot_names opt \<inter> S = {} \<Longrightarrow> slot_ok w' opt cmds"
proof (cases opt)
  case (Some b)
  assume ok: "slot_ok w opt cmds" and fr: "frame S n w w'" and "slot_names opt \<inter> S = {}"
  then have nS: "buf b \<notin> S" using Some by (simp add: slot_names_def)
  obtain bytes where h: "holds w b bytes" "unmapped_buffer w b" "buf_kind b = DrawIndirectBuf"
    "take (length (command_bytes cmds)) bytes = command_bytes cmds" and ne: "cmds \<noteq> []"
    using ok Some by (auto simp: slot_ok_def split: if_splits)
  have "buf b \<in> set (live BufferObj (calls w))" using h(1) by (simp add: holds_def)
  then have "unmapped_buffer w' b"
    using h(2) frame_history [OF fr _ nS] by (simp add: unmapped_buffer_def)
  then show "slot_ok w' opt cmds"
    using h holds_frame [OF h(1) fr nS] ne Some by (auto simp: slot_ok_def)
qed (auto simp: slot_ok_def split: if_splits)

lemma those_Some_iff: "those xs = Some ys \<longleftrightarrow> xs = map Some ys"
  by (induction xs arbitrary: ys) (auto split: option.splits)

lemma overwrite_map: "overwrite (map f xs) off (map f ys) = map f (overwrite xs off ys)"
  by (simp add: overwrite_def take_map drop_map)

lemma write_indirect_new:
  assumes "gl_documented drv" "length (calls w) + 4 < 2 ^ 31" "cmds \<noteq> []"
  shows "\<exists>b w'. write_indirect drv None cmds w = Inr (Some b, w') \<and> frame {} 4 w w' \<and> slot_ok w' (Some b) cmds \<and>
    buf b \<notin> set (live BufferObj (calls w))"
proof -
  have "length (calls w) < 2 ^ 31" using assms(2) by simp
  then obtain b w' where "fill_new drv DrawIndirectBuf StaticDraw ReadWrite (command_bytes cmds) w = Inr (b, w')"
    "frame {} 4 w w'" "holds w' b (command_bytes cmds)" "unmapped_buffer w' b" "buf b \<notin> set (live BufferObj (calls w))"
    "buf_kind b = DrawIndirectBuf"
    using fill_new_effect [OF assms(1)] by blast
  moreover have "write_indirect drv None cmds w =
      and_then (fill_new drv DrawIndirectBuf StaticDraw ReadWrite (command_bytes cmds) w) (\<lambda>(b, w). Inr (Some b, w))"
    using assms(3)
    by (simp add: write_indirect_def fill_new_def layout_simps sizeof_DrawIndirectCommand_def mult.commute
      case_prod_beta and_then_assoc Let_def)
  moreover have "take (length (command_bytes cmds)) (command_bytes cmds) = command_bytes cmds" by simp
  ultimately show ?thesis using assms(3) unfolding slot_ok_def by auto
qed

lemma write_indirect_reuse:
  assumes "slot_ok w (Some b) old" "slot_fits w (Some b) cmds" "cmds \<noteq> []"
  shows "\<exists>w'. write_indirect drv (Some b) cmds w = Inr (Some b, w') \<and> frame {buf b} 4 w w' \<and> slot_ok w' (Some b) cmds"
proof -
  obtain bytes where b: "holds w b bytes" "unmapped_buffer w b" "buf_kind b = DrawIndirectBuf"
    using assms(1) by (auto simp: slot_ok_def split: if_splits)
  then have c: "contents (buf b) (calls w) = map Some bytes"
    by (simp add: holds_def unmapped_buffer_def gpu_bytes_def those_Some_iff)
  define w' where "w' = emit (GlNamedBufferSubData (buf b) 0 (command_bytes cmds)) w"
  have fit: "length (command_bytes cmds) \<le> length bytes"
    using assms(2) c by (simp add: slot_fits_def layout_simps)
  then have "contents (buf b) (calls w') = map Some (overwrite bytes 0 (command_bytes cmds))"
    by (simp add: w'_def history_append c overwrite_map)
  moreover have "mapping_of (buf b) (calls w') = None" "buf b \<in> set (live BufferObj (calls w'))"
    using b by (simp_all add: w'_def history_append unmapped_buffer_def holds_def live_step_def)
  ultimately have "holds w' b (overwrite bytes 0 (command_bytes cmds))" "unmapped_buffer w' b"
    using b(2) by (simp_all add: holds_def gpu_bytes_def unmapped_buffer_def)
  then have "slot_ok w' (Some b) cmds"
    using assms(3) fit b(3) by (auto simp: slot_ok_def overwrite_def)
  moreover have "frame {buf b} 4 w w'"
    unfolding w'_def by (rule frame_weaken [OF frame_emit [where S = "{buf b}"]]) auto
  moreover have "write_indirect drv (Some b) cmds w = Inr (Some b, w')"
    using assms(3) b(2) by (simp add: write_indirect_def w'_def buffer_write_def unmapped_buffer_def)
  ultimately show ?thesis by blast
qed

lemma write_indirect_none:
  assumes "opt \<noteq> None \<Longrightarrow> slot_ok w opt old"
  shows "\<exists>w'. write_indirect drv opt [] w = Inr (None, w') \<and> frame (slot_names opt) 4 w w' \<and> slot_ok w' None []"
proof (cases opt)
  case None
  then show ?thesis by (simp add: write_indirect_def optional_reset_def slot_ok_def)
next
  case (Some b)
  then have "mapped_ptr b = None"
    using assms by (auto simp: slot_ok_def unmapped_buffer_def split: if_splits)
  then have "write_indirect drv opt [] w = Inr (None, emit (GlDeleteBuffers [buf b]) w)"
    using Some by (simp add: write_indirect_def optional_reset_def buffer_destroy_def release_block_def)
  moreover have "frame (slot_names opt) 4 w (emit (GlDeleteBuffers [buf b]) w)"
    using Some by (intro frame_weaken [OF frame_emit [where S = "slot_names opt"]]) (auto simp: slot_names_def)
  ultimately show ?thesis by (simp add: slot_ok_def)
qed

lemma write_indirect_correct:
  assumes "gl_documented drv" "length (calls w) + 4 < 2 ^ 31" "slot_ok w opt old" "slot_fits w opt cmds"
  shows "\<exists>opt' w'. write_indirect drv opt cmds w = Inr (opt', w') \<and> frame (slot_names opt) 4 w w' \<and> slot_ok w' opt' cmds \<and>
    (\<forall>n\<in>slot_names opt'. n \<in> slot_names opt \<or> n \<notin> set (live BufferObj (calls w)))"
proof (cases "cmds = []")
  case True
  obtain w' where "write_indirect drv opt [] w = Inr (None, w')" "frame (slot_names opt) 4 w w'" "slot_ok w' None []"
    using write_indirect_none [of opt w old drv] assms(3) by blast
  then show ?thesis
    using True by (intro exI [of _ None] exI [of _ w']) (simp add: slot_names_def)
next
  case False
  show ?thesis
  proof (cases opt)
    case None
    then show ?thesis
      using write_indirect_new [OF assms(1,2) False] by (auto simp: slot_names_def)
  next
    case (Some b)
    then show ?thesis
      using write_indirect_reuse [of w b old cmds drv] assms(3,4) False by (auto simp: slot_names_def)
  qed
qed

section \<open>Planning\<close>

interpretation ogl_planner: draw_planner ogl_plan
proof
  fix mem inputs gs draws d
  assume "all_geometry mem inputs = Inr gs" "\<forall>h\<in>set draws. h < length inputs"
  then show "ogl_plan d mem inputs draws =
      Inr (map (ref_command gs) (draws_of gs StaticFixed draws), map (ref_command gs) (draws_of gs DynamicFixed draws))"
    unfolding ogl_plan_def by (rule plan_draws_reference) simp
qed

section \<open>The invariant\<close>

definition fixed_names :: "RendererOGL \<Rightarrow> u32 set" where
  "fixed_names r =
     slot_names (vbo r) \<union> slot_names (ibo r) \<union> slot_names (vbo_dynamic r) \<union> slot_names (ibo_dynamic r) \<union>
     set (resource_ubos r)"

definition renderer_ok :: "geometry list \<Rightarrow> RendererOGL \<Rightarrow> gl_world \<Rightarrow> bool" where
  "renderer_ok gs r w \<longleftrightarrow>
     inputs_ok gs (inputs r) w \<and> static_buffers_ok gs r w \<and> dynamic_buffers_ok gs r w \<and>
     (gs \<noteq> [] \<longrightarrow> r_format r \<noteq> None) \<and> r_shader r \<noteq> None \<and>
     (\<forall>h\<in>set (draw_cache r). h < length gs) \<and>
     slot_ok w (indirect_buffer r) (commands_of gs StaticFixed (draw_cache r)) \<and>
     slot_ok w (indirect_buffer_dynamic r) (commands_of gs DynamicFixed (draw_cache r)) \<and>
     slot_names (indirect_buffer r) \<inter> slot_names (indirect_buffer_dynamic r) = {} \<and>
     (slot_names (indirect_buffer r) \<union> slot_names (indirect_buffer_dynamic r)) \<inter> fixed_names r = {} \<and>
     fixed_names r \<subseteq> set (live BufferObj (calls w))"

lemma static_buffers_ok_frame:
  "static_buffers_ok gs r w \<Longrightarrow> frame S n w w' \<Longrightarrow> fixed_names r \<inter> S = {} \<Longrightarrow> static_buffers_ok gs r w'"
  using holds_frame [of w _ _ S n w']
  by (auto simp: static_buffers_ok_def fixed_names_def slot_names_def split: if_splits)

lemma dynamic_buffers_ok_frame:
  "dynamic_buffers_ok gs r w \<Longrightarrow> frame S n w w' \<Longrightarrow> fixed_names r \<inter> S = {} \<Longrightarrow> dynamic_buffers_ok gs r w'"
  using holds_frame [of w _ _ S n w']
  by (auto simp: dynamic_buffers_ok_def fixed_names_def slot_names_def split: if_splits)

lemma buffers_ok_cong:
  "vbo r = vbo r' \<Longrightarrow> ibo r = ibo r' \<Longrightarrow> static_buffers_ok gs r w = static_buffers_ok gs r' w"
  "vbo_dynamic r = vbo_dynamic r' \<Longrightarrow> ibo_dynamic r = ibo_dynamic r' \<Longrightarrow>
   dynamic_buffers_ok gs r w = dynamic_buffers_ok gs r' w"
  by (simp_all add: static_buffers_ok_def dynamic_buffers_ok_def)

lemma inputs_ok_frame: "inputs_ok gs inps w \<Longrightarrow> frame S n w w' \<Longrightarrow> inputs_ok gs inps w'"
  using all_geometry_frame [of w inps gs S n w'] frame_used [of S n w w'] by (fastforce simp: inputs_ok_def)

lemma fixed_live_frame:
  "fixed_names r \<subseteq> set (live BufferObj (calls w)) \<Longrightarrow> frame S n w w' \<Longrightarrow> fixed_names r \<inter> S = {} \<Longrightarrow>
   fixed_names r \<subseteq> set (live BufferObj (calls w'))"
  using frame_live by blast

lemma renderer_ok_frame:
  assumes "renderer_ok gs r w" "frame {} n w w'"
  shows "renderer_ok gs r w'"
  using assms(1) inputs_ok_frame [of gs "inputs r", OF _ assms(2)] static_buffers_ok_frame [of gs r, OF _ assms(2)]
    dynamic_buffers_ok_frame [of gs r, OF _ assms(2)] fixed_live_frame [of r, OF _ assms(2)]
    slot_ok_frame [of w "indirect_buffer r", OF _ assms(2)] slot_ok_frame [of w "indirect_buffer_dynamic r", OF _ assms(2)]
  unfolding renderer_ok_def by simp

section \<open>Binding a draw list\<close>

lemma slot_fits_frame:
  assumes "slot_fits w opt cmds" "frame S n w w'" "slot_names opt \<inter> S = {}" "slot_ok w opt old"
  shows "slot_fits w' opt cmds"
proof (cases opt)
  case (Some b)
  then have "buf b \<in> set (live BufferObj (calls w))"
    using assms(4) by (auto simp: slot_ok_def holds_def split: if_splits)
  then show ?thesis
    using assms(1,3) Some frame_history(1) [OF assms(2)] by (simp add: slot_fits_def slot_names_def)
qed (simp add: slot_fits_def)

lemma slot_live: "slot_ok w opt cmds \<Longrightarrow> slot_names opt \<subseteq> set (live BufferObj (calls w))"
  by (auto simp: slot_ok_def slot_names_def holds_def split: if_splits)

lemma two_slots_written:
  assumes doc: "gl_documented drv" "length (calls w) + 8 < 2 ^ 31"
    and ok: "slot_ok w o1 old1" "slot_ok w o2 old2" "slot_fits w o1 c1" "slot_fits w o2 c2"
    and dis: "slot_names o1 \<inter> slot_names o2 = {}"
  shows "\<exists>p1 p2 w'. and_then (write_indirect drv o1 c1 w) (\<lambda>(b, w).
      and_then (write_indirect drv o2 c2 w) (\<lambda>(bd, w). Inr (b, bd, w))) = Inr (p1, p2, w') \<and>
    frame (slot_names o1 \<union> slot_names o2) 8 w w' \<and> slot_ok w' p1 c1 \<and> slot_ok w' p2 c2 \<and>
    slot_names p1 \<inter> slot_names p2 = {} \<and>
    (\<forall>n\<in>slot_names p1 \<union> slot_names p2. n \<in> slot_names o1 \<union> slot_names o2 \<or> n \<notin> set (live BufferObj (calls w)))"
proof -
  have l0: "length (calls w) + 4 < 2 ^ 31" using doc(2) by simp
  obtain p1 w1 where 1: "write_indirect drv o1 c1 w = Inr (p1, w1)" "frame (slot_names o1) 4 w w1" "slot_ok w1 p1 c1"
    "\<forall>n\<in>slot_names p1. n \<in> slot_names o1 \<or> n \<notin> set (live BufferObj (calls w))"
    using write_indirect_correct [OF doc(1) l0 ok(1,3)] by blast
  have dis': "slot_names o2 \<inter> slot_names o1 = {}" using dis by blast
  have "slot_ok w1 o2 old2" "slot_fits w1 o2 c2" "length (calls w1) + 4 < 2 ^ 31"
    using slot_ok_frame [OF ok(2) 1(2) dis'] slot_fits_frame [OF ok(4) 1(2) dis' ok(2)] frame_length [OF 1(2)] doc(2)
    by simp_all
  then obtain p2 w2 where 2: "write_indirect drv o2 c2 w1 = Inr (p2, w2)" "frame (slot_names o2) 4 w1 w2" "slot_ok w2 p2 c2"
    "\<forall>n\<in>slot_names p2. n \<in> slot_names o2 \<or> n \<notin> set (live BufferObj (calls w1))"
    using write_indirect_correct [OF doc(1)] by blast
  have live1: "slot_names p1 \<subseteq> set (live BufferObj (calls w1))" using slot_live [OF 1(3)] .
  have d1: "slot_names p1 \<inter> slot_names o2 = {}"
    using 1(4) dis slot_live [OF ok(2)] by blast
  then have "slot_ok w2 p1 c1" using slot_ok_frame [OF 1(3) 2(2)] by blast
  moreover have "slot_names p1 \<inter> slot_names p2 = {}" using 2(4) d1 live1 by blast
  moreover have "frame (slot_names o1 \<union> slot_names o2) 8 w w2" using frame_chain [OF 1(2) 2(2)] by simp
  moreover have "n \<in> slot_names o1 \<union> slot_names o2 \<or> n \<notin> set (live BufferObj (calls w))" if "n \<in> slot_names p2" for n
    using 2(4) that frame_live [OF 1(2)] by blast
  ultimately show ?thesis using 1(1,4) 2(1,3) by auto
qed

lemma bind_draw_list_correct:
  assumes ok: "renderer_ok gs r w" and doc: "gl_documented drv" "length (calls w) + 8 < 2 ^ 31"
    and draws: "\<forall>h\<in>set draws. h < length gs"
    and fits: "slot_fits w (indirect_buffer r) (commands_of gs StaticFixed draws)"
      "slot_fits w (indirect_buffer_dynamic r) (commands_of gs DynamicFixed draws)"
  shows "\<exists>o1 o2 w'. bind_draw_list d drv r draws w =
      Inr (r\<lparr>indirect_buffer := o1, indirect_buffer_dynamic := o2, draw_cache := draws\<rparr>, w') \<and>
    renderer_ok gs (r\<lparr>indirect_buffer := o1, indirect_buffer_dynamic := o2, draw_cache := draws\<rparr>) w' \<and>
    frame (slot_names (indirect_buffer r) \<union> slot_names (indirect_buffer_dynamic r)) 8 w w'"
proof (cases "draw_cache r = draws")
  case True
  let ?r = "r\<lparr>indirect_buffer := indirect_buffer r, indirect_buffer_dynamic := indirect_buffer_dynamic r, draw_cache := draws\<rparr>"
  have "?r = r" using True by simp
  then have "bind_draw_list d drv r draws w = Inr (?r, w)" "renderer_ok gs ?r w"
    using True ok unfolding \<open>?r = r\<close> by (simp_all add: bind_draw_list_def draws_match_cache_def)
  moreover have "frame (slot_names (indirect_buffer r) \<union> slot_names (indirect_buffer_dynamic r)) 8 w w" by simp
  ultimately show ?thesis by blast
next
  case False
  note okd = ok [unfolded renderer_ok_def]
  have plan: "ogl_plan d (gl_memory w) (inputs r) draws = Inr (commands_of gs StaticFixed draws, commands_of gs DynamicFixed draws)"
    using okd draws unfolding commands_of_def inputs_ok_def
    by (intro ogl_planner.plan_reference) (auto dest: all_geometry_length)
  obtain p1 p2 w' where p: "and_then (write_indirect drv (indirect_buffer r) (commands_of gs StaticFixed draws) w) (\<lambda>(b, w).
      and_then (write_indirect drv (indirect_buffer_dynamic r) (commands_of gs DynamicFixed draws) w) (\<lambda>(bd, w).
      Inr (b, bd, w))) = Inr (p1, p2, w')"
    "frame (slot_names (indirect_buffer r) \<union> slot_names (indirect_buffer_dynamic r)) 8 w w'"
    "slot_ok w' p1 (commands_of gs StaticFixed draws)" "slot_ok w' p2 (commands_of gs DynamicFixed draws)"
    "slot_names p1 \<inter> slot_names p2 = {}"
    "\<forall>n\<in>slot_names p1 \<union> slot_names p2. n \<in> slot_names (indirect_buffer r) \<union> slot_names (indirect_buffer_dynamic r) \<or>
      n \<notin> set (live BufferObj (calls w))"
    using two_slots_written [OF doc _ _ fits] okd by blast
  let ?r = "r\<lparr>indirect_buffer := p1, indirect_buffer_dynamic := p2, draw_cache := draws\<rparr>"
  have fn: "fixed_names ?r = fixed_names r" by (simp add: fixed_names_def)
  have sep: "fixed_names r \<inter> (slot_names (indirect_buffer r) \<union> slot_names (indirect_buffer_dynamic r)) = {}"
    using okd by blast
  have "bind_draw_list d drv r draws w = Inr (?r, w')"
    using p(1) False by (auto simp: bind_draw_list_def draws_match_cache_def plan outcome_simps split: prod.splits)
  moreover have "static_buffers_ok gs ?r w'" "dynamic_buffers_ok gs ?r w'"
    using static_buffers_ok_frame [OF _ p(2) sep] dynamic_buffers_ok_frame [OF _ p(2) sep] okd
      buffers_ok_cong [of ?r r] by simp_all
  moreover have "inputs_ok gs (inputs ?r) w'" using inputs_ok_frame [OF _ p(2)] okd by simp
  moreover have "fixed_names ?r \<subseteq> set (live BufferObj (calls w'))"
    using fixed_live_frame [OF _ p(2) sep] okd fn by simp
  moreover have "(slot_names p1 \<union> slot_names p2) \<inter> fixed_names ?r = {}"
    using p(6) okd fn by blast
  ultimately have "renderer_ok gs ?r w'"
    using okd draws p(3-5) by (simp add: renderer_ok_def)
  then show ?thesis
    using \<open>bind_draw_list d drv r draws w = Inr (?r, w')\<close> p(2) by blast
qed

section \<open>The constructor\<close>

lemma setup_inputs_correct:
  assumes doc: "gl_documented drv" "length (calls w) + 35 < 2 ^ 31"
    and r: "vbo r = None" "ibo r = None" "vbo_dynamic r = None" "ibo_dynamic r = None" "inputs r = inps" "inps \<noteq> []"
    and inps: "all_geometry (gl_memory w) inps = Inr gs" "\<forall>inp\<in>set inps. wf_input inp \<and> is_unmapped inp"
    and fits: "mappable gs"
  shows "\<exists>a b c e fmt inps' w'. setup_inputs d drv r w = Inr (r\<lparr>r_format := Some fmt, vbo := a, ibo := b, vbo_dynamic := c,
      ibo_dynamic := e, inputs := inps'\<rparr>, w') \<and> frame {} 35 w w' \<and>
    static_buffers_ok gs (r\<lparr>vbo := a, ibo := b\<rparr>) w' \<and> dynamic_buffers_ok gs (r\<lparr>vbo_dynamic := c, ibo_dynamic := e\<rparr>) w' \<and>
    inputs_ok gs inps' w'"
proof -
  define c where "c = compiled_at inps gs (length inps)"
  have len: "length gs = length inps" using inps(1) by (simp add: all_geometry_iff)
  define fmt where "fmt = input_get_format (inps ! (length inps - 1))"
  have cf: "compiled_format c = Some fmt" using r(6) by (simp add: c_def compiled_at_def fmt_def)
  let ?r = "r\<lparr>r_format := Some fmt\<rparr>"
  have "length (calls w) + 8 < 2 ^ 31" using doc(2) by simp
  then obtain a b w1 where 1: "fill_static drv c ?r w = Inr (?r\<lparr>vbo := a, ibo := b\<rparr>, w1)" "frame {} 8 w w1"
    "static_buffers_ok gs (?r\<lparr>vbo := a, ibo := b\<rparr>) w1"
    using fill_static_correct [OF doc(1) _ len _ _ c_def, of w ?r] r(1,2) by auto
  let ?r1 = "?r\<lparr>vbo := a, ibo := b\<rparr>"
  have none: "\<forall>inp\<in>set inps. input_blocks inp \<subseteq> set (used_blocks (calls w))"
    using inps(2) by (auto simp: input_blocks_def is_unmapped_def unmapped_def split: RendererInput.splits)
  have "length (calls w1) + 12 < 2 ^ 31" "all_geometry (gl_memory w1) inps = Inr gs"
    using frame_length [OF 1(2)] doc(2) all_geometry_frame [OF inps(1) 1(2) none] by simp_all
  then obtain e f inps' w2 where 2: "fill_dynamic drv c ?r1 w1 = Inr (?r1\<lparr>vbo_dynamic := e, ibo_dynamic := f, inputs := inps'\<rparr>, w2)"
    "frame {} 12 w1 w2" "dynamic_buffers_ok gs (?r1\<lparr>vbo_dynamic := e, ibo_dynamic := f, inputs := inps'\<rparr>) w2" "inputs_ok gs inps' w2"
    using fill_dynamic_correct [OF doc(1) _ _ _ _ _ inps(2) fits c_def, of w1 ?r1] r(3,4,5) by auto
  have "basis fmt = PerVertexBasis" "3 * length (binding_attributes fmt) \<le> 15"
    using input_format_attributes [of "inps ! (length inps - 1)"] by (simp_all add: fmt_def)
  then obtain w3 where 3: "setup_attributes d (vao r) fmt w2 = Inr w3" "frame {} 15 w2 w3"
    using setup_attributes_frame [of fmt d "vao r" w2] frame_weaken by blast
  have "frame {} 20 w w2" using frame_chain [OF 1(2) 2(2)] by simp
  then have "frame {} 35 w w3" by (rule frame_chain [OF _ 3(2)]) simp_all
  moreover have "frame {} 27 w1 w3" using frame_chain [OF 2(2) 3(2)] by simp
  then have "static_buffers_ok gs (r\<lparr>vbo := a, ibo := b\<rparr>) w3"
    using static_buffers_ok_frame [OF 1(3)] buffers_ok_cong(1) [of "r\<lparr>vbo := a, ibo := b\<rparr>" ?r1] by simp
  moreover have "dynamic_buffers_ok gs (r\<lparr>vbo_dynamic := e, ibo_dynamic := f\<rparr>) w3"
    using dynamic_buffers_ok_frame [OF 2(3) 3(2)]
      buffers_ok_cong(2) [of "r\<lparr>vbo_dynamic := e, ibo_dynamic := f\<rparr>" "?r1\<lparr>vbo_dynamic := e, ibo_dynamic := f, inputs := inps'\<rparr>"]
    by simp
  moreover have "setup_inputs d drv r w = Inr (r\<lparr>r_format := Some fmt, vbo := a, ibo := b, vbo_dynamic := e,
      ibo_dynamic := f, inputs := inps'\<rparr>, w3)"
    using compile_data_correct [OF inps(1)] r(5) 1(1) 2(1) 3(1) cf by (simp add: setup_inputs_def flip: c_def)
  ultimately show ?thesis using inputs_ok_frame [OF 2(4) 3(2)] by blast
qed

text \<open>A builder whose parts are all in place, for inputs of geometry \<open>gs\<close>.\<close>

definition builder_ready :: "geometry list \<Rightarrow> ShaderOGL renderer_builder \<Rightarrow> gl_world \<Rightarrow> bool" where
  "builder_ready gs builder w \<longleftrightarrow>
     b_shader builder \<noteq> None \<and> b_culling_strategy builder \<noteq> None \<and>
     all_geometry (gl_memory w) (b_inputs builder) = Inr gs \<and>
     (\<forall>inp\<in>set (b_inputs builder). wf_input inp \<and> is_unmapped inp) \<and> mappable gs \<and>
     (\<forall>res\<in>set (b_buffer_resources builder). buffer_ready res) \<and>
     (\<forall>res\<in>set (b_texture_resources builder). is_texture res) \<and>
     length (calls w) + 48 + 3 * length (b_buffer_resources builder) + 8 * length (b_texture_resources builder) < 2 ^ 31"

lemma initial_calls_bufferless: "\<forall>c\<in>set (initial_calls pass culling). bufferless c" "length (initial_calls pass culling) \<le> 3"
  by (cases culling; auto simp: initial_calls_def bufferless_def)+

lemma static_fixed_live:
  assumes "static_buffers_ok gs r w" "dynamic_buffers_ok gs r w" "ubos_ok bs (resource_ubos r) w"
  shows "fixed_names r \<subseteq> set (live BufferObj (calls w))"
proof -
  have "slot_names (vbo r) \<union> slot_names (ibo r) \<subseteq> set (live BufferObj (calls w))"
    using assms(1) by (auto simp: static_buffers_ok_def slot_names_def holds_def split: if_splits)
  moreover have "slot_names (vbo_dynamic r) \<union> slot_names (ibo_dynamic r) \<subseteq> set (live BufferObj (calls w))"
    using assms(2) by (auto simp: dynamic_buffers_ok_def slot_names_def holds_def split: if_splits)
  moreover have "set (resource_ubos r) \<subseteq> set (live BufferObj (calls w))"
    using assms(3) by (auto simp: ubos_ok_def ubo_holds_def in_set_conv_nth)
  ultimately show ?thesis by (auto simp: fixed_names_def)
qed

text \<open>The state of the renderer just before the first draw list is bound.\<close>

lemma before_binding:
  assumes doc: "gl_documented drv" and b: "builder_ready gs builder w"
    and r0: "r0 = empty_renderer\<lparr>vao := va, pass_attachment := pa, r_shader := Some sh, inputs := b_inputs builder, r_output := out\<rparr>"
    and w0: "frame {} 5 w w0"
  shows "\<exists>r1 w1 r2 w2. (if b_inputs builder \<noteq> [] then setup_inputs d drv r0 w0 else Inr (r0, w0)) = Inr (r1, w1) \<and>
    setup_resources drv builder r1 w1 = Inr (r2, w2) \<and> renderer_ok gs r2 w2 \<and> draw_cache r2 = [] \<and>
    indirect_buffer r2 = None \<and> indirect_buffer_dynamic r2 = None \<and> length (inputs r2) = length gs \<and>
    ubos_ok (b_buffer_resources builder) (resource_ubos r2) w2 \<and>
    length (calls w2) + 8 \<le> length (calls w) + 48 + 3 * length (b_buffer_resources builder) + 8 * length (b_texture_resources builder)"
proof -
  note bd = b [unfolded builder_ready_def]
  have none: "\<forall>inp\<in>set (b_inputs builder). input_blocks inp \<subseteq> set (used_blocks (calls w))"
    using bd by (auto simp: input_blocks_def is_unmapped_def unmapped_def split: RendererInput.splits)
  have g0: "all_geometry (gl_memory w0) (b_inputs builder) = Inr gs" using all_geometry_frame [OF _ w0 none] bd by blast
  have l0: "length (calls w0) + 43 + 3 * length (b_buffer_resources builder) + 8 * length (b_texture_resources builder) < 2 ^ 31"
    using frame_length [OF w0] bd by simp
  have "\<exists>r1 w1. (if b_inputs builder \<noteq> [] then setup_inputs d drv r0 w0 else Inr (r0, w0)) = Inr (r1, w1) \<and> frame {} 35 w0 w1 \<and>
      static_buffers_ok gs r1 w1 \<and> dynamic_buffers_ok gs r1 w1 \<and> inputs_ok gs (inputs r1) w1 \<and> (gs \<noteq> [] \<longrightarrow> r_format r1 \<noteq> None) \<and>
      r_shader r1 = Some sh \<and> indirect_buffer r1 = None \<and> indirect_buffer_dynamic r1 = None \<and> draw_cache r1 = [] \<and>
      resource_ubos r1 = [] \<and> resource_textures r1 = []"
  proof (cases "b_inputs builder = []")
    case True
    then have "gs = []" using bd by simp
    then show ?thesis
      using True r0 by (simp add: static_buffers_ok_def dynamic_buffers_ok_def of_access_def empty_renderer_def inputs_ok_def)
  next
    case False
    have "length (calls w0) + 35 < 2 ^ 31" using l0 by simp
    then obtain a b c e fmt inps' w1 where "setup_inputs d drv r0 w0 = Inr (r0\<lparr>r_format := Some fmt, vbo := a, ibo := b,
        vbo_dynamic := c, ibo_dynamic := e, inputs := inps'\<rparr>, w1)" "frame {} 35 w0 w1"
      "static_buffers_ok gs (r0\<lparr>vbo := a, ibo := b\<rparr>) w1" "dynamic_buffers_ok gs (r0\<lparr>vbo_dynamic := c, ibo_dynamic := e\<rparr>) w1"
      "inputs_ok gs inps' w1"
      using setup_inputs_correct [OF doc _ _ _ _ _ _ False g0, of r0 d] bd r0 by (auto simp: empty_renderer_def)
    moreover define r1 where "r1 = r0\<lparr>r_format := Some fmt, vbo := a, ibo := b, vbo_dynamic := c, ibo_dynamic := e, inputs := inps'\<rparr>"
    ultimately show ?thesis
      using False r0 buffers_ok_cong(1) [of r1 "r0\<lparr>vbo := a, ibo := b\<rparr>"]
        buffers_ok_cong(2) [of r1 "r0\<lparr>vbo_dynamic := c, ibo_dynamic := e\<rparr>"]
      by (intro exI [of _ r1] exI [of _ w1]) (simp add: empty_renderer_def)
  qed
  then obtain r1 w1 where 1: "(if b_inputs builder \<noteq> [] then setup_inputs d drv r0 w0 else Inr (r0, w0)) = Inr (r1, w1)"
    "frame {} 35 w0 w1" "static_buffers_ok gs r1 w1" "dynamic_buffers_ok gs r1 w1" "inputs_ok gs (inputs r1) w1"
    "gs \<noteq> [] \<longrightarrow> r_format r1 \<noteq> None" "r_shader r1 = Some sh" "indirect_buffer r1 = None" "indirect_buffer_dynamic r1 = None"
    "draw_cache r1 = []" "resource_ubos r1 = []" "resource_textures r1 = []" by blast
  have l1: "length (calls w1) + 3 * length (b_buffer_resources builder) < 2 ^ 31" using frame_length [OF 1(2)] l0 by simp
  obtain ubos texs res w2 where 2: "setup_resources drv builder r1 w1 =
      Inr (r1\<lparr>resource_ubos := ubos, resource_textures := texs, resources := res\<rparr>, w2)"
    "frame {} (3 * length (b_buffer_resources builder) + 8 * length (b_texture_resources builder)) w1 w2"
    "ubos_ok (b_buffer_resources builder) ubos w2"
    using setup_resources_correct [OF doc l1 _ _ 1(11,12)] bd by blast
  let ?r2 = "r1\<lparr>resource_ubos := ubos, resource_textures := texs, resources := res\<rparr>"
  have s2: "static_buffers_ok gs ?r2 w2" "dynamic_buffers_ok gs ?r2 w2" "inputs_ok gs (inputs ?r2) w2"
    using static_buffers_ok_frame [OF 1(3) 2(2)] dynamic_buffers_ok_frame [OF 1(4) 2(2)] inputs_ok_frame [OF 1(5) 2(2)]
      buffers_ok_cong [of ?r2 r1] by simp_all
  have "renderer_ok gs ?r2 w2"
    using s2 1(6-10) static_fixed_live [OF s2(1,2)] 2(3)
    by (simp add: renderer_ok_def commands_of_def draws_of_def slot_ok_def slot_names_def)
  moreover have "length (calls w2) + 8 \<le> length (calls w) + 48 + 3 * length (b_buffer_resources builder) + 8 * length (b_texture_resources builder)"
    using frame_length [OF w0] frame_length [OF 1(2)] frame_length [OF 2(2)] by simp
  moreover have "length (inputs ?r2) = length gs" using s2(3) by (simp add: inputs_ok_def all_geometry_iff)
  ultimately show ?thesis using 1(1,8-10) 2(1,3) by (intro exI [of _ r1] exI [of _ w1] exI [of _ ?r2] exI [of _ w2]) simp
qed

lemma renderer_new_correct:
  assumes doc: "gl_documented drv" and b: "builder_ready gs builder w"
  shows "\<exists>r w'. renderer_new d drv builder w = Inr (r, w') \<and> renderer_ok gs r w' \<and> draw_cache r = [0..<length gs] \<and>
    ubos_ok (b_buffer_resources builder) (resource_ubos r) w' \<and>
    length (calls w') \<le> length (calls w) + 48 + 3 * length (b_buffer_resources builder) + 8 * length (b_texture_resources builder)"
proof -
  note bd = b [unfolded builder_ready_def]
  obtain sh cull where sc: "b_shader builder = Some sh" "b_culling_strategy builder = Some cull" using bd by blast
  have cp: "copy_inputs d builder = Inr (b_inputs builder)" using copy_inputs_unmapped bd by blast
  define wa where "wa = emit_all (initial_calls (b_pass builder) cull) w"
  define va where "va = new_name drv (calls wa) VertexArrayObj"
  define wb where "wb = emit_all [GlCreateVertexArrays va, GlBindVertexArray va] wa"
  define r0 where "r0 = empty_renderer\<lparr>vao := va, pass_attachment := b_pass builder, r_shader := Some sh,
    inputs := b_inputs builder, r_output := b_output builder\<rparr>"
  have "frame {} 3 w wa" unfolding wa_def using initial_calls_bufferless by (intro frame_emit_all_bufferless)
  moreover have "frame {} 2 wa wb" unfolding wb_def by (intro frame_emit_all_bufferless) (simp_all add: bufferless_def)
  ultimately have "frame {} 5 w wb" by (rule frame_chain) simp_all
  from before_binding [OF doc b r0_def this, of d]
  obtain r1 w1 r2 w2 where s: "(if b_inputs builder \<noteq> [] then setup_inputs d drv r0 wb else Inr (r0, wb)) = Inr (r1, w1)"
    "setup_resources drv builder r1 w1 = Inr (r2, w2)" "renderer_ok gs r2 w2" "indirect_buffer r2 = None"
    "indirect_buffer_dynamic r2 = None" "length (inputs r2) = length gs" "length (calls w2) + 8 \<le> length (calls w) + 48 + 3 * length (b_buffer_resources builder) + 8 * length (b_texture_resources builder)"
    "ubos_ok (b_buffer_resources builder) (resource_ubos r2) w2" by blast
  have l2: "length (calls w2) + 8 < 2 ^ 31" using s(7) bd by simp
  have "\<exists>o1 o2 w'. bind_draw_list d drv r2 [0..<length gs] w2 =
      Inr (r2\<lparr>indirect_buffer := o1, indirect_buffer_dynamic := o2, draw_cache := [0..<length gs]\<rparr>, w') \<and>
    renderer_ok gs (r2\<lparr>indirect_buffer := o1, indirect_buffer_dynamic := o2, draw_cache := [0..<length gs]\<rparr>) w' \<and>
    frame (slot_names (indirect_buffer r2) \<union> slot_names (indirect_buffer_dynamic r2)) 8 w2 w'"
    using s(4,5) by (intro bind_draw_list_correct [OF s(3) doc l2]) (simp_all add: slot_fits_def)
  then obtain o1 o2 w' where bl: "bind_draw_list d drv r2 [0..<length gs] w2 =
      Inr (r2\<lparr>indirect_buffer := o1, indirect_buffer_dynamic := o2, draw_cache := [0..<length gs]\<rparr>, w')"
    "renderer_ok gs (r2\<lparr>indirect_buffer := o1, indirect_buffer_dynamic := o2, draw_cache := [0..<length gs]\<rparr>) w'"
    "frame (slot_names (indirect_buffer r2) \<union> slot_names (indirect_buffer_dynamic r2)) 8 w2 w'" by blast
  have "ubos_ok (b_buffer_resources builder) (resource_ubos r2) w'"
    using ubos_ok_frame [OF s(8) bl(3)] s(4,5) by (simp add: slot_names_def)
  moreover have "renderer_new d drv builder w = bind_draw_list d drv r2 (all_inputs_once (inputs r2)) w2"
    using sc cp s(1) [unfolded r0_def wb_def va_def wa_def] s(2)
    by (simp add: renderer_new_def ogl_get_shader_def ogl_get_culling_strategy_def Let_def split del: if_split)
  ultimately show ?thesis using bl(1,2) s(6,7) frame_length [OF bl(3)] by (simp add: all_inputs_once_upt)
qed

end
