(* ===== verification/Ogl_Render.thy ===== *)
theory Ogl_Render
  imports Ogl_Correct
begin

text \<open>
  What \<open>RendererOGL::render\<close> draws: under the invariant of \<open>Ogl_Correct\<close>, executing the calls it
  makes fetches the geometry of exactly the inputs of the cached draw list, the static ones in
  order and then the dynamic ones.  The properties of the OpenGL renderer are at the end.
\<close>

section \<open>Rendering\<close>

definition neutral :: "gl_call \<Rightarrow> bool" where
  "neutral c \<longleftrightarrow> (\<forall>w s. draw_step w c s = s) \<and> bufferless c"

definition batch_calls :: "RendererOGL \<Rightarrow> Buffer \<Rightarrow> Buffer \<Rightarrow> Buffer \<Rightarrow> nat \<Rightarrow> nat \<Rightarrow> gl_call list" where
  "batch_calls r b vb ib stride n =
     [GlVertexArrayVertexBuffer (vao r) 0 (buf vb) 0 stride, GlVertexArrayElementBuffer (vao r) (buf ib),
      GlBindBuffer (buf_kind b) (buf b), GlMultiDrawElementsIndirect n sizeof_DrawIndirectCommand]"

lemma fold_neutral: "\<forall>c\<in>set cs. neutral c \<Longrightarrow> fold (draw_step w) cs s = s"
  by (induction cs) (simp_all add: neutral_def)

lemma fold_batch_calls:
  assumes "buf_kind b = DrawIndirectBuf" "fetched s = Some xs" "multi_draw w (buf vb) (buf ib) (buf b) n = Some ys"
  shows "fetched (fold (draw_step w) (batch_calls r b vb ib stride n) s) = Some (xs @ ys)"
  using assms by (simp add: batch_calls_def)

lemma batch_calls_bufferless: "\<forall>c\<in>set (batch_calls r b vb ib stride n). bufferless c"
  by (simp add: batch_calls_def bufferless_def)

lemma multi_draw_batch:
  assumes draws: "\<forall>h\<in>set draws. h < length gs" and wf: "\<forall>g\<in>set gs. wf_geometry g" "batch_fits gs"
    and buffers: "gpu_bytes w vb = Some (batch_vertices gs a)" "gpu_bytes w eb = Some (encode_u32s (batch_indices gs a))"
      "gpu_bytes w ib = Some bytes"
    and cmds: "take (length (command_bytes (commands_of gs a draws))) bytes = command_bytes (commands_of gs a draws)"
  shows "multi_draw w vb eb ib (length (commands_of gs a draws)) = Some (batch_geometry gs a draws)"
  using indirect_fetch_batch [OF draws wf cmds] buffers by (simp add: multi_draw_def)

lemma count_draws_commands:
  assumes "inputs_ok gs (inputs r) w" "\<forall>h\<in>set draws. h < length gs"
  shows "count_draws a (inputs r) draws = Inr (length (commands_of gs a draws))"
proof -
  have len: "length gs = length (inputs r)" and acc: "\<forall>i<length gs. input_data_access (inputs r ! i) = g_access (gs ! i)"
    using assms(1) by (auto simp: inputs_ok_def all_geometry_iff input_geometry_Inr_iff)
  have "filter (\<lambda>h. input_data_access (inputs r ! h) = a) draws = draws_of gs a draws"
    using assms(2) acc by (auto simp: draws_of_def intro!: filter_cong)
  then show ?thesis using count_draws_length [of draws "inputs r" a] assms(2) len by (simp add: commands_of_def)
qed

lemma draw_batch_correct:
  assumes slot: "slot_ok w opt (commands_of gs a draws)" and draws: "\<forall>h\<in>set draws. h < length gs"
    and wf: "\<forall>g\<in>set gs. wf_geometry g" "batch_fits gs" and fmt: "gs \<noteq> [] \<longrightarrow> r_format r \<noteq> None"
    and bufs: "of_access gs a \<noteq> [] \<Longrightarrow> \<exists>v i. vb = Some v \<and> ib = Some i \<and> holds w v (batch_vertices gs a) \<and>
      holds w i (encode_u32s (batch_indices gs a))"
    and count: "count = Inr (length (commands_of gs a draws))" and fr: "frame {} k w w1"
  shows "\<exists>cs. draw_batch r opt vb ib count w1 = Inr (emit_all cs w1) \<and> (\<forall>c\<in>set cs. bufferless c) \<and>
    (\<forall>w' n s xs. frame {} n w w' \<longrightarrow> fetched s = Some xs \<longrightarrow>
      fetched (fold (draw_step w') cs s) = Some (xs @ batch_geometry gs a draws))"
proof (cases "commands_of gs a draws = []")
  case True
  then show ?thesis
    using slot by (intro exI [of _ "[]"])
      (simp add: slot_ok_def draw_batch_def emit_all_def commands_of_def batch_geometry_def)
next
  case False
  obtain b bytes where b: "opt = Some b" "buf_kind b = DrawIndirectBuf" "holds w b bytes"
    "take (length (command_bytes (commands_of gs a draws))) bytes = command_bytes (commands_of gs a draws)"
    using slot False by (auto simp: slot_ok_def)
  obtain h where h: "h \<in> set draws" "g_access (gs ! h) = a"
    using False by (auto simp: commands_of_def draws_of_def filter_empty_conv)
  then have "gs ! h \<in> set (of_access gs a)" using draws by (simp add: of_access_def)
  then obtain v i where v: "vb = Some v" "ib = Some i" "holds w v (batch_vertices gs a)" "holds w i (encode_u32s (batch_indices gs a))"
    using bufs by fastforce
  have "gs \<noteq> []" using h(1) draws by auto
  then obtain f where f: "r_format r = Some f" using fmt by blast
  let ?cs = "batch_calls r b v i (binding_size f) (length (commands_of gs a draws))"
  have "draw_batch r opt vb ib count w1 = Inr (emit_all ?cs w1)"
    using b(1) v(1,2) f count by (simp add: draw_batch_def batch_calls_def buffer_bind_def emit_def emit_all_def)
  moreover have "fetched (fold (draw_step w') ?cs s) = Some (xs @ batch_geometry gs a draws)"
    if "frame {} n w w'" "fetched s = Some xs" for w' n s xs
  proof (rule fold_batch_calls [OF b(2) that(2)], rule multi_draw_batch [OF draws wf _ _ _ b(4)])
    show "gpu_bytes w' (buf v) = Some (batch_vertices gs a)" "gpu_bytes w' (buf b) = Some bytes"
      "gpu_bytes w' (buf i) = Some (encode_u32s (batch_indices gs a))"
      using holds_frame [OF v(3) that(1)] holds_frame [OF b(3) that(1)] holds_frame [OF v(4) that(1)]
      by (simp_all add: holds_def)
  qed
  ultimately show ?thesis using batch_calls_bufferless by blast
qed

lemma emit_all_emit_all: "emit_all ds (emit_all cs w) = emit_all (cs @ ds) w" "emit c w = emit_all [c] w"
  by (simp_all add: emit_def emit_all_def)

definition output_calls :: "gl_driver \<Rightarrow> RendererOutput option \<Rightarrow> gl_world \<Rightarrow> gl_call list" where
  "output_calls drv out w =
     (if map_option output_get_type out = Some OutputWindow
      then [GlBindFramebuffer 0, GlViewport (fst (window_size drv (calls w))) (snd (window_size drv (calls w)))] else [])"

lemma bind_output_calls: "bind_output drv out w = emit_all (output_calls drv out w) w"
  by (auto simp: bind_output_def output_calls_def emit_all_def case_prod_beta split: option.splits)

text \<open>Everything \<open>render\<close> does before the draws.\<close>

definition prologue :: "gl_driver \<Rightarrow> RendererOGL \<Rightarrow> ShaderOGL \<Rightarrow> gl_world \<Rightarrow> gl_call list" where
  "prologue drv r sh w =
     output_calls drv (r_output r) w @
     [GlClear (fst (clear_bits (pass_attachment r))) (snd (clear_bits (pass_attachment r))), GlBindVertexArray (vao r)] @
     map (\<lambda>i. GlBindBufferBase i (resource_ubos r ! i)) [0..<length (resource_ubos r)] @
     [GlUseProgram (ogl_get_program_handle sh)] @ texture_bind_calls r (ogl_get_program_handle sh)"

lemma prologue_neutral: "\<forall>c\<in>set (prologue drv r sh w). neutral c"
  by (auto simp: prologue_def output_calls_def texture_bind_calls_def neutral_def bufferless_def Let_def)

lemma render_as_batches:
  assumes "r_shader r = Some sh"
  shows "render drv r w =
    and_then (draw_batch r (indirect_buffer r) (vbo r) (ibo r) (num_static_draws r) (emit_all (prologue drv r sh w) w))
      (draw_batch r (indirect_buffer_dynamic r) (vbo_dynamic r) (ibo_dynamic r) (num_dynamic_draws r))"
  using assms
  by (simp add: render_def Let_def bind_output_calls emit_all_emit_all prologue_def case_prod_beta)

lemma frame_bufferless: "\<forall>c\<in>set cs. bufferless c \<Longrightarrow> frame {} (length cs) w (emit_all cs w)"
  by (rule frame_emit_all_bufferless) simp_all

lemma render_correct:
  assumes ok: "renderer_ok gs r w" and wf: "\<forall>g\<in>set gs. wf_geometry g" "batch_fits gs"
  shows "\<exists>cs. render drv r w = Inr (emit_all cs w) \<and> renderer_ok gs r (emit_all cs w) \<and>
    drawn (emit_all cs w) cs =
      Some (batch_geometry gs StaticFixed (draw_cache r) @ batch_geometry gs DynamicFixed (draw_cache r))"
proof -
  note okd = ok [unfolded renderer_ok_def]
  have draws: "\<forall>h\<in>set (draw_cache r). h < length gs" using okd by blast
  obtain sh where sh: "r_shader r = Some sh" using okd by blast
  let ?p = "prologue drv r sh w"
  have pb: "\<forall>c\<in>set ?p. bufferless c" using prologue_neutral by (auto simp: neutral_def)
  have counts: "num_static_draws r = Inr (length (commands_of gs StaticFixed (draw_cache r)))"
    "num_dynamic_draws r = Inr (length (commands_of gs DynamicFixed (draw_cache r)))"
    unfolding num_static_draws_def num_dynamic_draws_def using count_draws_commands [OF _ draws] okd by blast+
  have "\<exists>cs. draw_batch r (indirect_buffer r) (vbo r) (ibo r) (num_static_draws r) (emit_all ?p w) = Inr (emit_all cs (emit_all ?p w)) \<and>
      (\<forall>c\<in>set cs. bufferless c) \<and> (\<forall>w' n s xs. frame {} n w w' \<longrightarrow> fetched s = Some xs \<longrightarrow>
      fetched (fold (draw_step w') cs s) = Some (xs @ batch_geometry gs StaticFixed (draw_cache r)))"
    using okd by (intro draw_batch_correct [OF _ draws wf _ _ counts(1) frame_bufferless [OF pb]])
      (auto simp: static_buffers_ok_def)
  then obtain c1 where c1: "draw_batch r (indirect_buffer r) (vbo r) (ibo r) (num_static_draws r) (emit_all ?p w) =
      Inr (emit_all c1 (emit_all ?p w))" "\<forall>c\<in>set c1. bufferless c" "\<forall>w' n s xs. frame {} n w w' \<longrightarrow> fetched s = Some xs \<longrightarrow>
      fetched (fold (draw_step w') c1 s) = Some (xs @ batch_geometry gs StaticFixed (draw_cache r))"
    by blast
  have b1: "\<forall>c\<in>set (?p @ c1). bufferless c" using pb c1(2) by auto
  have "\<exists>cs. draw_batch r (indirect_buffer_dynamic r) (vbo_dynamic r) (ibo_dynamic r) (num_dynamic_draws r) (emit_all (?p @ c1) w) =
      Inr (emit_all cs (emit_all (?p @ c1) w)) \<and> (\<forall>c\<in>set cs. bufferless c) \<and>
      (\<forall>w' n s xs. frame {} n w w' \<longrightarrow> fetched s = Some xs \<longrightarrow>
      fetched (fold (draw_step w') cs s) = Some (xs @ batch_geometry gs DynamicFixed (draw_cache r)))"
    using okd by (intro draw_batch_correct [OF _ draws wf _ _ counts(2) frame_bufferless [OF b1]])
      (auto simp: dynamic_buffers_ok_def)
  then obtain c2 where c2: "draw_batch r (indirect_buffer_dynamic r) (vbo_dynamic r) (ibo_dynamic r) (num_dynamic_draws r)
      (emit_all (?p @ c1) w) = Inr (emit_all c2 (emit_all (?p @ c1) w))" "\<forall>c\<in>set c2. bufferless c"
    "\<forall>w' n s xs. frame {} n w w' \<longrightarrow> fetched s = Some xs \<longrightarrow>
      fetched (fold (draw_step w') c2 s) = Some (xs @ batch_geometry gs DynamicFixed (draw_cache r))"
    by blast
  let ?cs = "?p @ c1 @ c2"
  have fr: "frame {} (length ?cs) w (emit_all ?cs w)" using b1 c2(2) by (intro frame_bufferless) auto
  have "render drv r w = Inr (emit_all ?cs w)" using render_as_batches [OF sh] c1(1) c2(1) by (simp add: emit_all_emit_all)
  moreover have "drawn (emit_all ?cs w) ?cs =
      Some (batch_geometry gs StaticFixed (draw_cache r) @ batch_geometry gs DynamicFixed (draw_cache r))"
    unfolding drawn_def
    using c2(3) [rule_format, OF fr c1(3) [rule_format, OF fr]] fold_neutral [OF prologue_neutral] by simp
  ultimately show ?thesis using renderer_ok_frame [OF ok fr] by blast
qed

section \<open>Properties\<close>

text \<open>
  C1. Constructing a renderer and rendering it draws every input once.  For a driver that
  behaves as documented and a complete builder, the constructor and \<open>render\<close> return, and the
  draw calls fetch, from the buffers as they are on the GPU, the geometry of every static
  input in the order they were added followed by that of every dynamic input, vertex for
  vertex as the input describes it.
\<close>

theorem renderer_draws_every_input:
  assumes "gl_documented drv" "builder_ready gs builder w" "\<forall>g\<in>set gs. wf_geometry g" "batch_fits gs"
  shows "\<exists>r w1 cs. renderer_new d drv builder w = Inr (r, w1) \<and> render drv r w1 = Inr (emit_all cs w1) \<and>
    drawn (emit_all cs w1) cs =
      Some (map own_geometry (of_access gs StaticFixed) @ map own_geometry (of_access gs DynamicFixed))"
proof -
  obtain r w1 where r: "renderer_new d drv builder w = Inr (r, w1)" "renderer_ok gs r w1" "draw_cache r = [0..<length gs]"
    using renderer_new_correct [OF assms(1,2)] by blast
  have "map own_geometry (of_access gs a) = batch_geometry gs a [0..<length gs]" for a
    using filter_map [of "\<lambda>g. g_access g = a" "(!) gs" "[0..<length gs]"]
    by (simp add: batch_geometry_def draws_of_def of_access_def map_nth comp_def)
  then show ?thesis using r render_correct [OF r(2) assms(3,4), of drv] by auto
qed

definition example_builder :: "ShaderOGL renderer_builder" where
  "example_builder =
     fst (ogl_add_input (ogl_set_shader (ogl_set_culling_strategy ogl_builder_new NoCulling)
       \<lparr>program = 1, vertex_shader = 2, fragment_shader = 3\<rparr>)
       (StaticInput (mesh_input example_mesh (enum_field_of []))))"

definition example_geometry :: geometry where
  "example_geometry =
     \<lparr>g_access = StaticFixed, g_vertices = vertices_as_bytes (vertices example_mesh), g_indices = [0, 0, 0]\<rparr>"

definition empty_world :: gl_world where
  "empty_world = \<lparr>calls = [], gl_memory = (\<lambda>_. None)\<rparr>"

lemma example_ready: "builder_ready [example_geometry] example_builder empty_world"
  by (simp add: builder_ready_def example_builder_def ogl_add_input_def ogl_set_shader_def ogl_set_culling_strategy_def
    ogl_builder_new_def input_geometry_def input_get_vertex_bytes_def input_get_indices_def mesh_input_get_vertex_bytes_def
    mesh_input_get_indices_def input_data_access_def mesh_input_def example_geometry_def wf_input_def is_unmapped_def
    mappable_def of_access_def empty_world_def wf_mesh_def) (simp add: example_mesh_def wf_vertex_def)

lemma example_geometry_wf: "wf_geometry example_geometry" "batch_fits [example_geometry]"
proof -
  have "length (vertices_as_bytes (vertices example_mesh)) = 56"
    using length_vertices_as_bytes [of "vertices example_mesh"]
    by (simp add: example_mesh_def wf_vertex_def sizeof_Vertex_def)
  then show "wf_geometry example_geometry" "batch_fits [example_geometry]"
    by (simp_all add: wf_geometry_def example_geometry_def g_vertex_count_def vertex_stride_def batch_fits_def g_index_count_def)
qed

theorem renderer_draws_every_input_witness:
  "\<exists>r w1 cs. renderer_new True simple_driver example_builder empty_world = Inr (r, w1) \<and>
    render simple_driver r w1 = Inr (emit_all cs w1) \<and> drawn (emit_all cs w1) cs = Some [own_geometry example_geometry]"
proof -
  have "of_access [example_geometry] StaticFixed = [example_geometry]" "of_access [example_geometry] DynamicFixed = []"
    by (simp_all add: of_access_def example_geometry_def)
  then show ?thesis
    using renderer_draws_every_input [OF simple_driver_documented example_ready, of True] example_geometry_wf by auto
qed

lemma render_list_correct:
  assumes "renderer_ok gs r w" "gl_documented drv" "length (calls w) + 8 < 2 ^ 31"
    and "\<forall>h\<in>set draws. h < length gs" "\<forall>g\<in>set gs. wf_geometry g" "batch_fits gs"
    and "slot_fits w (indirect_buffer r) (commands_of gs StaticFixed draws)"
    and "slot_fits w (indirect_buffer_dynamic r) (commands_of gs DynamicFixed draws)"
  shows "\<exists>r' w1 cs. render_list d drv r draws w = Inr (r', emit_all cs w1) \<and> draw_cache r' = draws \<and>
    renderer_ok gs r' (emit_all cs w1) \<and>
    drawn (emit_all cs w1) cs = Some (batch_geometry gs StaticFixed draws @ batch_geometry gs DynamicFixed draws)"
proof -
  obtain o1 o2 w1 where b: "bind_draw_list d drv r draws w =
      Inr (r\<lparr>indirect_buffer := o1, indirect_buffer_dynamic := o2, draw_cache := draws\<rparr>, w1)"
    "renderer_ok gs (r\<lparr>indirect_buffer := o1, indirect_buffer_dynamic := o2, draw_cache := draws\<rparr>) w1"
    using bind_draw_list_correct [OF assms(1-4,7,8), of d] by blast
  let ?r = "r\<lparr>indirect_buffer := o1, indirect_buffer_dynamic := o2, draw_cache := draws\<rparr>"
  obtain cs where "render drv ?r w1 = Inr (emit_all cs w1)" "renderer_ok gs ?r (emit_all cs w1)"
    "drawn (emit_all cs w1) cs = Some (batch_geometry gs StaticFixed draws @ batch_geometry gs DynamicFixed draws)"
    using render_correct [OF b(2) assms(5,6), of drv] by auto
  moreover have "(if \<not> draws_match_cache r draws then bind_draw_list d drv r draws w else Inr (r, w)) = Inr (?r, w1)"
    using b(1) by (auto simp: bind_draw_list_def)
  ultimately show ?thesis by (intro exI [of _ ?r] exI [of _ w1] exI [of _ cs]) (simp add: render_list_def)
qed



text \<open>
  C9. Buffer resources reach the shader.  After construction the uniform buffer of every buffer
  resource holds the bytes of that resource, for static and for dynamic resources alike.
\<close>

theorem resource_bytes_uploaded:
  assumes "gl_documented drv" "builder_ready gs builder w" "renderer_new d drv builder w = Inr (r, w')"
  shows "map (gpu_bytes w') (resource_ubos r) = map (\<lambda>res. Some (ready_bytes res)) (b_buffer_resources builder)"
proof -
  have "ubos_ok (b_buffer_resources builder) (resource_ubos r) w'"
    using renderer_new_correct [OF assms(1,2), of d] assms(3) by auto
  then show ?thesis by (auto simp: ubos_ok_def ubo_holds_def intro!: nth_equalityI)
qed

theorem resource_bytes_uploaded_witness:
  "\<exists>r w'. renderer_new True simple_driver
      (fst (ogl_add_resource example_builder (StaticBuffer \<lparr>buffer_data = \<lparr>buffer_bytes = [1, 2]\<rparr>\<rparr>))) empty_world = Inr (r, w') \<and>
    map (gpu_bytes w') (resource_ubos r) = [Some [1, 2]]"
proof -
  let ?b = "fst (ogl_add_resource example_builder (StaticBuffer \<lparr>buffer_data = \<lparr>buffer_bytes = [1, 2]\<rparr>\<rparr>))"
  have res: "b_buffer_resources ?b = [StaticBuffer \<lparr>buffer_data = \<lparr>buffer_bytes = [1, 2]\<rparr>\<rparr>]"
    by (simp add: ogl_add_resource_def resource_get_type_def example_builder_def ogl_add_input_def ogl_set_shader_def
      ogl_set_culling_strategy_def ogl_builder_new_def)
  have ready: "builder_ready [example_geometry] ?b empty_world"
    using example_ready
    by (simp add: builder_ready_def ogl_add_resource_def resource_get_type_def buffer_ready_def example_builder_def
      ogl_add_input_def ogl_set_shader_def ogl_set_culling_strategy_def ogl_builder_new_def empty_world_def)
  then obtain r w' where r: "renderer_new True simple_driver ?b empty_world = Inr (r, w')"
    using renderer_new_correct [OF simple_driver_documented] by blast
  show ?thesis
    using resource_bytes_uploaded [OF simple_driver_documented ready r] r
    by (simp add: res ready_bytes_def buffer_get_bytes_def)
qed

text \<open>
  C11. An indirect buffer does not grow.  Binding a draw list with more static draws than the
  existing indirect buffer can hold succeeds and updates the cached list, but the driver
  rejects the update: the buffer keeps the commands of the previous list.
\<close>

theorem longer_draw_list_is_lost:
  assumes "draw_cache r \<noteq> draws" "ogl_plan d (gl_memory w) (inputs r) draws = Inr (cmds, [])"
    and "indirect_buffer r = Some b" "indirect_buffer_dynamic r = None" "unmapped_buffer w b"
    and "length (contents (buf b) (calls w)) < length cmds * sizeof_DrawIndirectCommand"
  shows "\<exists>w'. bind_draw_list d drv r draws w = Inr (r\<lparr>draw_cache := draws\<rparr>, w') \<and>
    gpu_bytes w' (buf b) = gpu_bytes w (buf b)"
proof -
  have "length (contents (buf b) (calls w)) < length (command_bytes cmds)" "cmds \<noteq> []"
    using assms(6) by (auto simp: layout_simps sizeof_DrawIndirectCommand_def)
  moreover obtain w' where w': "buffer_write b (command_bytes cmds) w = Inr w'" "gpu_bytes w' (buf b) = gpu_bytes w (buf b)"
    using buffer_write_too_long [OF assms(5) calculation(1)] by blast
  ultimately have "write_indirect drv (Some b) cmds w = Inr (Some b, w')" by (simp add: write_indirect_def)
  note w' = this w'(2)
  have "r\<lparr>indirect_buffer := Some b, indirect_buffer_dynamic := None, draw_cache := draws\<rparr> = r\<lparr>draw_cache := draws\<rparr>"
    using assms(3,4) by simp
  then show ?thesis
    using assms(1-4) w'
    by (simp add: bind_draw_list_def draws_match_cache_def write_indirect_def [where internal_draws = "[]"] optional_reset_def)
qed

definition one_draw_renderer :: RendererOGL where
  "one_draw_renderer = empty_renderer\<lparr>inputs := b_inputs example_builder, draw_cache := [0],
     indirect_buffer := Some \<lparr>buf = 1, buf_kind = DrawIndirectBuf, buf_usage = ReadWrite, mapped_ptr = None\<rparr>\<rparr>"

definition one_draw_world :: gl_world where
  "one_draw_world = emit_all [GlCreateBuffers 1, GlNamedBufferData 1 20 None StaticDraw,
     GlNamedBufferSubData 1 0 (command_bytes [ref_command [example_geometry] 0])] empty_world"

theorem longer_draw_list_is_lost_witness:
  "\<exists>w'. bind_draw_list True simple_driver one_draw_renderer [0, 0] one_draw_world =
      Inr (one_draw_renderer\<lparr>draw_cache := [0, 0]\<rparr>, w') \<and>
    gpu_bytes w' 1 = Some (command_bytes [ref_command [example_geometry] 0])"
proof -
  let ?c = "ref_command [example_geometry] 0"
  have inp: "inputs one_draw_renderer = b_inputs example_builder" "all_geometry m (b_inputs example_builder) = Inr [example_geometry]"
    "length (b_inputs example_builder) = 1" for m
    using example_ready by (simp_all add: one_draw_renderer_def builder_ready_def empty_world_def example_builder_def
      ogl_add_input_def ogl_set_shader_def ogl_set_culling_strategy_def ogl_builder_new_def input_geometry_def
      input_get_vertex_bytes_def input_get_indices_def)
  have "ogl_plan True (gl_memory one_draw_world) (b_inputs example_builder) [0, 0] = Inr ([?c, ?c], [])"
    using ogl_planner.plan_reference [OF inp(2), of "[0, 0]"] inp(3) by (simp add: draws_of_def example_geometry_def)
  moreover have "contents 1 (calls one_draw_world) = map Some (command_bytes [?c])" "mapping_of 1 (calls one_draw_world) = None"
    by (simp_all add: one_draw_world_def history_fold layout_simps overwrite_all)
  ultimately show ?thesis
    using longer_draw_list_is_lost [of one_draw_renderer "[0, 0]" True one_draw_world "[?c, ?c]"
        "\<lparr>buf = 1, buf_kind = DrawIndirectBuf, buf_usage = ReadWrite, mapped_ptr = None\<rparr>" simple_driver]
    by (simp add: inp(1)) (simp add: one_draw_renderer_def empty_renderer_def unmapped_buffer_def layout_simps
      sizeof_DrawIndirectCommand_def gpu_bytes_def)
qed



lemma texture_calls_ignore_mag_filter:
  "texture_calls tex (t\<lparr>texture_properties := (texture_properties t)\<lparr>mag_filter := f\<rparr>\<rparr>) = texture_calls tex t"
  by (simp add: texture_calls_def texture_get_width_def texture_get_height_def texture_get_bytes_def
    case_prod_beta Let_def)

end
