(* ===== verification/Vk_Hardware.thy ===== *)
theory Vk_Hardware
  imports Containers "HOL-Library.Multiset"
begin

text \<open>
  Vulkan hardware queries: \<open>gl/impl/backend/vk/hardware/\<close> (physical devices, queue families,
  device filters, memory modules, swapchain selection).

  What the Vulkan loader, the window system and the C++ heap answer is a parameter:
  \<open>vk_platform\<close> holds the answers of the \<open>vkGetPhysicalDevice...\<close> queries, \<open>host_memory\<close> the
  addresses \<open>make_unique\<close> returns and the word that lies behind the last element of the
  vector of a \<open>PolymorphicList\<close>, which its iterator reads.
\<close>

section \<open>Vulkan's answers\<close>

type_synonym VkPhysicalDevice = nat
type_synonym VkSurfaceKHR = nat
type_synonym VkPresentModeKHR = u32

datatype VkPhysicalDeviceType =
    DeviceTypeOther | DeviceTypeIntegratedGpu | DeviceTypeDiscreteGpu | DeviceTypeVirtualGpu
  | DeviceTypeCpu

record VkSurfaceFormatKHR =
  surface_format :: u32
  color_space :: u32

record VkExtent2D =
  extent_width :: u32
  extent_height :: u32

record VkSurfaceCapabilitiesKHR =
  minImageCount :: u32
  maxImageCount :: u32
  currentExtent :: VkExtent2D
  minImageExtent :: VkExtent2D
  maxImageExtent :: VkExtent2D
  currentTransform :: u32

record vk_platform =
  physical_devices :: "VkPhysicalDevice list"
  device_type :: "VkPhysicalDevice \<Rightarrow> VkPhysicalDeviceType"
  queue_flags :: "VkPhysicalDevice \<Rightarrow> u32 list"
  surface_support :: "VkPhysicalDevice \<Rightarrow> nat \<Rightarrow> VkSurfaceKHR \<Rightarrow> bool"
  device_extensions :: "VkPhysicalDevice \<Rightarrow> string list"
  surface_capabilities :: "VkPhysicalDevice \<Rightarrow> VkSurfaceKHR \<Rightarrow> VkSurfaceCapabilitiesKHR"
  surface_formats :: "VkPhysicalDevice \<Rightarrow> VkSurfaceKHR \<Rightarrow> VkSurfaceFormatKHR list"
  surface_present_modes :: "VkPhysicalDevice \<Rightarrow> VkSurfaceKHR \<Rightarrow> VkPresentModeKHR list"
  memory_types :: "VkPhysicalDevice \<Rightarrow> (u32 \<times> u32) list"
  framebuffer_size :: "int \<times> int"

record host_memory =
  new_address :: "nat \<Rightarrow> nat"
  past_end :: "nat outcome"

definition VK_NULL_HANDLE :: nat where
  "VK_NULL_HANDLE = 0"

section \<open>Queue families\<close>

datatype QueueFamilyType = Graphics | Compute | Transfer | SparseBinding | Present

record Device =
  dev :: VkPhysicalDevice

record DeviceQueueFamily =
  family_dev :: "Device option"
  family_index :: nat
  types_supported :: "QueueFamilyType EnumField"

definition device_is_null :: "Device \<Rightarrow> bool" where
  "device_is_null self = (dev self = VK_NULL_HANDLE)"

definition device_null :: Device where
  "device_null = \<lparr>dev = VK_NULL_HANDLE\<rparr>"

definition type_as_flag :: "bool \<Rightarrow> QueueFamilyType \<Rightarrow> u32 outcome" where
  "type_as_flag TZ_DEBUG type = (case type of
       Graphics \<Rightarrow> Inr 1
     | Compute \<Rightarrow> Inr 2
     | Transfer \<Rightarrow> Inr 4
     | SparseBinding \<Rightarrow> Inr 8
     | Present \<Rightarrow> and_then (tz_error TZ_DEBUG) (\<lambda>_. Inl UninitialisedRead))"

definition get_queue_family ::
    "bool \<Rightarrow> vk_platform \<Rightarrow> VkSurfaceKHR option \<Rightarrow> Device \<Rightarrow> nat \<Rightarrow> u32 \<Rightarrow> DeviceQueueFamily outcome" where
  "get_queue_family TZ_DEBUG vk surf self i flag =
     and_then
       (for_each (\<lambda>type fam. and_then (type_as_flag TZ_DEBUG type) (\<lambda>f.
            Inr (if and flag f \<noteq> 0
                 then fam\<lparr>types_supported := ef_or_assign (types_supported fam) type\<rparr> else fam)))
          [Graphics, Compute, Transfer, SparseBinding]
          \<lparr>family_dev = Some self, family_index = i, types_supported = enum_field_of []\<rparr>)
       (\<lambda>fam. Inr (case surf of
            None \<Rightarrow> fam
          | Some surface \<Rightarrow>
              (if surface_support vk (dev self) i surface
               then fam\<lparr>types_supported := ef_or_assign (types_supported fam) Present\<rparr> else fam)))"

definition get_queue_families ::
    "bool \<Rightarrow> vk_platform \<Rightarrow> VkSurfaceKHR option \<Rightarrow> Device \<Rightarrow> DeviceQueueFamily BasicList outcome" where
  "get_queue_families TZ_DEBUG vk surf self =
     and_then
       (for_each (\<lambda>flag (queue_families, i).
            and_then (get_queue_family TZ_DEBUG vk surf self i flag) (\<lambda>fam.
            Inr (basic_list_add queue_families fam, i + 1)))
          (queue_flags vk (dev self)) ([], 0))
       (\<lambda>(queue_families, i). Inr queue_families)"

definition device_get_properties :: "bool \<Rightarrow> vk_platform \<Rightarrow> Device \<Rightarrow> VkPhysicalDeviceType outcome" where
  "device_get_properties TZ_DEBUG vk self =
     and_then (tz_assert TZ_DEBUG (\<not> device_is_null self)) (\<lambda>_.
     if device_is_null self then Inl NullDereference else Inr (device_type vk (dev self)))"

definition get_extension_properties :: "vk_platform \<Rightarrow> Device \<Rightarrow> string BasicList" where
  "get_extension_properties vk self = device_extensions vk (dev self)"

definition get_all_devices :: "bool \<Rightarrow> vk_platform \<Rightarrow> bool \<Rightarrow> Device BasicList outcome" where
  "get_all_devices TZ_DEBUG vk initialised =
     and_then (tz_assert TZ_DEBUG initialised) (\<lambda>_.
     and_then (if initialised then Inr () else Inl NullDereference) (\<lambda>_.
     and_then (tz_assert TZ_DEBUG (length (physical_devices vk) > 0)) (\<lambda>_.
     Inr (fold (\<lambda>dev_handle devices. basic_list_add devices \<lparr>dev = dev_handle\<rparr>)
            (physical_devices vk) []))))"

section \<open>Device filters\<close>

text \<open>
  The subclasses of \<open>IDeviceFilter\<close> are the constructors of \<open>device_filter\<close>; a
  \<open>DeviceFilterList\<close> is a \<open>PolymorphicList\<close> of them.
\<close>

datatype device_filter =
    DeviceQueueFamilyFilter "QueueFamilyType EnumField"
  | DeviceExtensionSupportFilter "string BasicList"
  | DeviceTypeFilter VkPhysicalDeviceType
  | DeviceAnyGPUFilter

type_synonym DeviceFilterList = "device_filter PolymorphicList"

primrec queue_family_filter_loop :: "QueueFamilyType EnumField \<Rightarrow> DeviceQueueFamily list \<Rightarrow> bool" where
  "queue_family_filter_loop types [] = False"
| "queue_family_filter_loop types (family # families) =
     (if ef_contains_field (types_supported family) types then True
      else queue_family_filter_loop types families)"

definition queue_family_filter_satisfies ::
    "bool \<Rightarrow> vk_platform \<Rightarrow> VkSurfaceKHR option \<Rightarrow> QueueFamilyType EnumField \<Rightarrow> Device \<Rightarrow> bool outcome" where
  "queue_family_filter_satisfies TZ_DEBUG vk surf types device =
     and_then (get_queue_families TZ_DEBUG vk surf device) (\<lambda>families.
     Inr (queue_family_filter_loop types families))"

primrec extension_filter_loop :: "string list \<Rightarrow> string list \<Rightarrow> bool" where
  "extension_filter_loop extensions [] = True"
| "extension_filter_loop extensions (required_extension # required_extensions) =
     (let found = fold (\<lambda>supported_extension found.
            if required_extension = supported_extension then True else found) extensions False
      in if \<not> found then False else extension_filter_loop extensions required_extensions)"

definition extension_filter_satisfies :: "vk_platform \<Rightarrow> string BasicList \<Rightarrow> Device \<Rightarrow> bool" where
  "extension_filter_satisfies vk required_extensions device =
     extension_filter_loop (get_extension_properties vk device) required_extensions"

definition type_filter_satisfies ::
    "bool \<Rightarrow> vk_platform \<Rightarrow> VkPhysicalDeviceType \<Rightarrow> Device \<Rightarrow> bool outcome" where
  "type_filter_satisfies TZ_DEBUG vk type device =
     and_then (device_get_properties TZ_DEBUG vk device) (\<lambda>deviceType. Inr (deviceType = type))"

definition or_else :: "bool outcome \<Rightarrow> bool outcome \<Rightarrow> bool outcome" where
  "or_else a b = and_then a (\<lambda>x. if x then Inr True else b)"

definition any_gpu_filter_satisfies :: "bool \<Rightarrow> vk_platform \<Rightarrow> Device \<Rightarrow> bool outcome" where
  "any_gpu_filter_satisfies TZ_DEBUG vk device =
     or_else (type_filter_satisfies TZ_DEBUG vk DeviceTypeIntegratedGpu device)
       (or_else (type_filter_satisfies TZ_DEBUG vk DeviceTypeDiscreteGpu device)
          (type_filter_satisfies TZ_DEBUG vk DeviceTypeVirtualGpu device))"

definition filter_satisfies ::
    "bool \<Rightarrow> vk_platform \<Rightarrow> VkSurfaceKHR option \<Rightarrow> device_filter \<Rightarrow> Device \<Rightarrow> bool outcome" where
  "filter_satisfies TZ_DEBUG vk surf self device = (case self of
       DeviceQueueFamilyFilter types \<Rightarrow> queue_family_filter_satisfies TZ_DEBUG vk surf types device
     | DeviceExtensionSupportFilter exts \<Rightarrow> Inr (extension_filter_satisfies vk exts device)
     | DeviceTypeFilter type \<Rightarrow> type_filter_satisfies TZ_DEBUG vk type device
     | DeviceAnyGPUFilter \<Rightarrow> any_gpu_filter_satisfies TZ_DEBUG vk device)"

text \<open>
  The loop of \<open>DeviceFilterList::satisfies\<close> compares its iterator with \<open>end()\<close>, which reads
  the word behind the last element.  \<open>iter_equal_in\<close> is \<open>InterfaceIterator::operator==\<close> with
  that word, \<open>past_end\<close>, as a parameter; standard C++ has \<open>past_end m = Inl OutOfBounds\<close>.
\<close>

definition iter_arrow_in :: "host_memory \<Rightarrow> 'a PolymorphicList \<Rightarrow> InterfaceIterator \<Rightarrow> nat outcome" where
  "iter_arrow_in m es it =
     (if loc it = length es then past_end m else iter_arrow es it)"

definition iter_equal_in ::
    "host_memory \<Rightarrow> 'a PolymorphicList \<Rightarrow> InterfaceIterator \<Rightarrow> InterfaceIterator \<Rightarrow> bool outcome" where
  "iter_equal_in m es lhs rhs =
     and_then (iter_arrow_in m es lhs) (\<lambda>a.
     and_then (iter_arrow_in m es rhs) (\<lambda>b. Inr (a = b)))"

lemma and_then_cong [fundef_cong]:
  assumes "m = m'" and "\<And>x. m' = Inr x \<Longrightarrow> f x = f' x"
  shows "and_then m f = and_then m' f'"
  using assms by (cases m') auto

lemma iter_equal_in_advances:
  assumes "iter_equal_in m es it (poly_end es) = Inr False"
  shows "loc it < length es"
  using assms
  by (auto simp: iter_equal_in_def iter_arrow_in_def iter_arrow_def poly_end_def
      basic_list_length_def outcome_simps split: if_splits)

function filter_list_loop ::
    "bool \<Rightarrow> host_memory \<Rightarrow> vk_platform \<Rightarrow> VkSurfaceKHR option \<Rightarrow> DeviceFilterList \<Rightarrow> Device \<Rightarrow>
     InterfaceIterator \<Rightarrow> bool outcome" where
  "filter_list_loop TZ_DEBUG m vk surf self device iter =
     and_then (iter_equal_in m self iter (poly_end self)) (\<lambda>at_end.
     if at_end then Inr True
     else
       and_then (iter_deref self iter) (\<lambda>f.
       and_then (filter_satisfies TZ_DEBUG vk surf f device) (\<lambda>satisfied.
       if \<not> satisfied then Inr False
       else filter_list_loop TZ_DEBUG m vk surf self device (fst (iter_post_increment iter)))))"
  by pat_completeness auto

termination
  by (relation "measure (\<lambda>(d, m, vk, surf, self, device, iter). length self - loc iter)")
    (auto simp: iter_post_increment_def Let_def dest: iter_equal_in_advances)

definition filter_list_satisfies ::
    "bool \<Rightarrow> host_memory \<Rightarrow> vk_platform \<Rightarrow> VkSurfaceKHR option \<Rightarrow> DeviceFilterList \<Rightarrow> Device \<Rightarrow> bool outcome" where
  "filter_list_satisfies TZ_DEBUG m vk surf self device =
     filter_list_loop TZ_DEBUG m vk surf self device (poly_begin self)"

definition filter_all ::
    "bool \<Rightarrow> host_memory \<Rightarrow> vk_platform \<Rightarrow> VkSurfaceKHR option \<Rightarrow> DeviceFilterList \<Rightarrow>
     Device BasicList \<Rightarrow> Device BasicList outcome" where
  "filter_all TZ_DEBUG m vk surf self devices =
     for_each (\<lambda>dev kept. and_then (filter_list_satisfies TZ_DEBUG m vk surf self dev) (\<lambda>satisfied.
       Inr (if \<not> satisfied then kept else kept @ [dev]))) devices []"

text \<open>\<open>emplace<T>(...)\<close> on a filter list; the address is the next one the heap returns.\<close>

definition emplace_filter :: "host_memory \<Rightarrow> device_filter \<Rightarrow> DeviceFilterList \<Rightarrow> DeviceFilterList outcome" where
  "emplace_filter m f self =
     and_then (poly_emplace self (new_address m (basic_list_length self)) f) (\<lambda>(self', _). Inr self')"

definition remove_non_gpus ::
    "bool \<Rightarrow> host_memory \<Rightarrow> vk_platform \<Rightarrow> VkSurfaceKHR option \<Rightarrow> Device BasicList \<Rightarrow> Device BasicList outcome" where
  "remove_non_gpus TZ_DEBUG m vk surf devices =
     and_then (emplace_filter m DeviceAnyGPUFilter []) (\<lambda>filters.
     filter_all TZ_DEBUG m vk surf filters devices)"

definition preserve_only_discrete_gpus ::
    "bool \<Rightarrow> host_memory \<Rightarrow> vk_platform \<Rightarrow> VkSurfaceKHR option \<Rightarrow> Device BasicList \<Rightarrow> Device BasicList outcome" where
  "preserve_only_discrete_gpus TZ_DEBUG m vk surf devices =
     and_then (emplace_filter m (DeviceTypeFilter DeviceTypeDiscreteGpu) []) (\<lambda>filters.
     filter_all TZ_DEBUG m vk surf filters devices)"

definition preserve_only_integrated_gpus ::
    "bool \<Rightarrow> host_memory \<Rightarrow> vk_platform \<Rightarrow> VkSurfaceKHR option \<Rightarrow> Device BasicList \<Rightarrow> Device BasicList outcome" where
  "preserve_only_integrated_gpus TZ_DEBUG m vk surf devices =
     and_then (emplace_filter m (DeviceTypeFilter DeviceTypeIntegratedGpu) []) (\<lambda>filters.
     filter_all TZ_DEBUG m vk surf filters devices)"

definition preserve_only_with_appropriate_queue ::
    "bool \<Rightarrow> host_memory \<Rightarrow> vk_platform \<Rightarrow> VkSurfaceKHR option \<Rightarrow> QueueFamilyType EnumField \<Rightarrow>
     Device BasicList \<Rightarrow> Device BasicList outcome" where
  "preserve_only_with_appropriate_queue TZ_DEBUG m vk surf field devices =
     and_then (emplace_filter m (DeviceQueueFamilyFilter field) []) (\<lambda>filters.
     filter_all TZ_DEBUG m vk surf filters devices)"

definition supports_swapchain ::
    "bool \<Rightarrow> host_memory \<Rightarrow> vk_platform \<Rightarrow> VkSurfaceKHR option \<Rightarrow> Device \<Rightarrow> bool outcome" where
  "supports_swapchain TZ_DEBUG m vk surf self =
     and_then (emplace_filter m (DeviceExtensionSupportFilter [''VK_KHR_swapchain'']) []) (\<lambda>filter.
     filter_list_satisfies TZ_DEBUG m vk surf filter self)"

section \<open>Surface queries\<close>

record SwapchainSupportDetails =
  capabilities :: VkSurfaceCapabilitiesKHR
  formats :: "VkSurfaceFormatKHR BasicList"
  present_modes :: "VkPresentModeKHR BasicList"
  details_supports_swapchain :: bool

definition window_surface_native :: "VkSurfaceKHR option \<Rightarrow> VkSurfaceKHR outcome" where
  "window_surface_native surf = (case surf of None \<Rightarrow> Inl NullDereference | Some s \<Rightarrow> Inr s)"

definition assert_swapchain_support ::
    "bool \<Rightarrow> host_memory \<Rightarrow> vk_platform \<Rightarrow> VkSurfaceKHR option \<Rightarrow> Device \<Rightarrow> unit outcome" where
  "assert_swapchain_support TZ_DEBUG m vk surf self =
     and_then (supports_swapchain TZ_DEBUG m vk surf self) (tz_assert TZ_DEBUG)"

definition get_window_surface_capabilities ::
    "bool \<Rightarrow> host_memory \<Rightarrow> vk_platform \<Rightarrow> VkSurfaceKHR option \<Rightarrow> Device \<Rightarrow> VkSurfaceCapabilitiesKHR outcome" where
  "get_window_surface_capabilities TZ_DEBUG m vk surf self =
     and_then (window_surface_native surf) (\<lambda>custom_surface.
     and_then (assert_swapchain_support TZ_DEBUG m vk surf self) (\<lambda>_.
     Inr (surface_capabilities vk (dev self) custom_surface)))"

definition get_window_surface_formats ::
    "bool \<Rightarrow> host_memory \<Rightarrow> vk_platform \<Rightarrow> VkSurfaceKHR option \<Rightarrow> Device \<Rightarrow> VkSurfaceFormatKHR BasicList outcome" where
  "get_window_surface_formats TZ_DEBUG m vk surf self =
     and_then (window_surface_native surf) (\<lambda>custom_surface.
     and_then (assert_swapchain_support TZ_DEBUG m vk surf self) (\<lambda>_.
     Inr (surface_formats vk (dev self) custom_surface)))"

definition get_window_surface_present_modes ::
    "bool \<Rightarrow> host_memory \<Rightarrow> vk_platform \<Rightarrow> VkSurfaceKHR option \<Rightarrow> Device \<Rightarrow> VkPresentModeKHR BasicList outcome" where
  "get_window_surface_present_modes TZ_DEBUG m vk surf self =
     and_then (window_surface_native surf) (\<lambda>custom_surface.
     and_then (assert_swapchain_support TZ_DEBUG m vk surf self) (\<lambda>_.
     Inr (surface_present_modes vk (dev self) custom_surface)))"

definition get_window_swapchain_support ::
    "bool \<Rightarrow> host_memory \<Rightarrow> vk_platform \<Rightarrow> VkSurfaceKHR option \<Rightarrow> Device \<Rightarrow> SwapchainSupportDetails outcome" where
  "get_window_swapchain_support TZ_DEBUG m vk surf self =
     and_then (get_window_surface_capabilities TZ_DEBUG m vk surf self) (\<lambda>c.
     and_then (get_window_surface_formats TZ_DEBUG m vk surf self) (\<lambda>f.
     and_then (get_window_surface_present_modes TZ_DEBUG m vk surf self) (\<lambda>p.
     and_then (supports_swapchain TZ_DEBUG m vk surf self) (\<lambda>b.
     Inr \<lparr>capabilities = c, formats = f, present_modes = p, details_supports_swapchain = b\<rparr>))))"

section \<open>Memory modules\<close>

datatype MemoryType = DeviceLocal | HostVisible | HostCoherent | HostCached

datatype MemoryResidency = CPU | CPUPersistent | GPU

record MemoryModule =
  module_device :: Device
  module_types :: "MemoryType EnumField"
  module_index :: u32
  heap_index :: u32

primrec memory_type_bit :: "MemoryType \<Rightarrow> u32" where
  "memory_type_bit DeviceLocal = 1"
| "memory_type_bit HostVisible = 2"
| "memory_type_bit HostCoherent = 4"
| "memory_type_bit HostCached = 8"

definition parse_field :: "u32 \<Rightarrow> MemoryType EnumField" where
  "parse_field flags =
     fold (\<lambda>t field. if and flags (memory_type_bit t) \<noteq> 0 then ef_or_assign field t else field)
       [DeviceLocal, HostVisible, HostCoherent, HostCached] (enum_field_of [])"

definition memory_properties :: "vk_platform \<Rightarrow> Device \<Rightarrow> MemoryModule list" where
  "memory_properties vk device =
     map (\<lambda>(i, flags, heap). \<lparr>module_device = device, module_types = parse_field flags,
            module_index = of_nat i, heap_index = heap\<rparr>)
       (enumerate 0 (memory_types vk (dev device)))"

definition get_modules_matching :: "MemoryModule list \<Rightarrow> MemoryType EnumField \<Rightarrow> MemoryModule BasicList" where
  "get_modules_matching modules field =
     fold (\<lambda>md matching_modules.
       if module_types md = field then basic_list_add matching_modules md else matching_modules)
       modules []"

definition unsafe_get_some_module_matching ::
    "MemoryModule list \<Rightarrow> MemoryType EnumField \<Rightarrow> MemoryModule outcome" where
  "unsafe_get_some_module_matching modules field = at_index (get_modules_matching modules field) 0"

section \<open>Swapchain selection\<close>

datatype SwapchainFormatPreferences = Goldilocks | FlexibleGoldilocks | FormatDontCare

datatype SwapchainPresentModePreferences = PreferTripleBuffering | PresentModeDontCare

record SwapchainSelectorPreferences =
  format_pref :: "SwapchainFormatPreferences list"
  present_mode_pref :: "SwapchainPresentModePreferences list"

definition default_swapchain_preferences :: SwapchainSelectorPreferences where
  "default_swapchain_preferences =
     \<lparr>format_pref = [FormatDontCare], present_mode_pref = [PresentModeDontCare]\<rparr>"

definition perfect_format :: VkSurfaceFormatKHR where
  "perfect_format = \<lparr>surface_format = 44, color_space = 0\<rparr>"

definition is_perfect :: "VkSurfaceFormatKHR \<Rightarrow> bool" where
  "is_perfect f \<longleftrightarrow>
     surface_format f = surface_format perfect_format \<and> color_space f = color_space perfect_format"

definition rate_perfect :: "VkSurfaceFormatKHR \<Rightarrow> int" where
  "rate_perfect f = 0"

text \<open>
  \<open>std::sort\<close> leaves the order of equivalent elements open, so the algorithm is an argument; it
  takes the comparison and the range.
\<close>

type_synonym 'a sorter = "('a \<Rightarrow> 'a \<Rightarrow> bool) \<Rightarrow> 'a list \<Rightarrow> 'a list"

definition sort_by_rate_perfect ::
    "VkSurfaceFormatKHR sorter \<Rightarrow> VkSurfaceFormatKHR list \<Rightarrow> VkSurfaceFormatKHR list" where
  "sort_by_rate_perfect std_sort fs = std_sort (\<lambda>lhs rhs. rate_perfect lhs < rate_perfect rhs) fs"

text \<open>The range is a span over the caller's list: the selection returns it as it leaves it.\<close>

definition select_swapchain_format ::
    "VkSurfaceFormatKHR sorter \<Rightarrow> VkSurfaceFormatKHR list \<Rightarrow> SwapchainFormatPreferences \<Rightarrow>
     VkSurfaceFormatKHR list \<times> VkSurfaceFormatKHR option" where
  "select_swapchain_format std_sort fs preference = (case preference of
       Goldilocks \<Rightarrow> (fs, find is_perfect fs)
     | FlexibleGoldilocks \<Rightarrow>
         (if fs \<noteq> [] then let sorted = sort_by_rate_perfect std_sort fs in (sorted, Some (hd sorted))
          else (fs, None))
     | FormatDontCare \<Rightarrow> (if fs \<noteq> [] then (fs, Some (hd fs)) else (fs, None)))"

primrec select_swapchain_format_pref ::
    "VkSurfaceFormatKHR sorter \<Rightarrow> VkSurfaceFormatKHR list \<Rightarrow> SwapchainFormatPreferences list \<Rightarrow>
     VkSurfaceFormatKHR option" where
  "select_swapchain_format_pref std_sort fs [] = None"
| "select_swapchain_format_pref std_sort fs (pref # preferences) =
     (let (fs', maybe_format) = select_swapchain_format std_sort fs pref
      in if maybe_format \<noteq> None then maybe_format
         else select_swapchain_format_pref std_sort fs' preferences)"

definition VK_PRESENT_MODE_MAILBOX_KHR :: VkPresentModeKHR where
  "VK_PRESENT_MODE_MAILBOX_KHR = 1"

definition select_swapchain_present_mode ::
    "VkPresentModeKHR list \<Rightarrow> SwapchainPresentModePreferences \<Rightarrow> VkPresentModeKHR option" where
  "select_swapchain_present_mode modes preference = (case preference of
       PreferTripleBuffering \<Rightarrow> find (\<lambda>present_mode. present_mode = VK_PRESENT_MODE_MAILBOX_KHR) modes
     | PresentModeDontCare \<Rightarrow> (if modes \<noteq> [] then Some (hd modes) else None))"

primrec select_swapchain_present_mode_pref ::
    "VkPresentModeKHR list \<Rightarrow> SwapchainPresentModePreferences list \<Rightarrow> VkPresentModeKHR option" where
  "select_swapchain_present_mode_pref modes [] = None"
| "select_swapchain_present_mode_pref modes (pref # preferences) =
     (let maybe_present_mode = select_swapchain_present_mode modes pref
      in if maybe_present_mode \<noteq> None then maybe_present_mode
         else select_swapchain_present_mode_pref modes preferences)"

definition std_clamp :: "u32 \<Rightarrow> u32 \<Rightarrow> u32 \<Rightarrow> u32" where
  "std_clamp v lo hi = (if v < lo then lo else if hi < v then hi else v)"

definition fix_to_extremes :: "VkSurfaceCapabilitiesKHR \<Rightarrow> VkExtent2D \<Rightarrow> VkExtent2D" where
  "fix_to_extremes caps extent =
     (let extent = extent\<lparr>extent_width := std_clamp (extent_width extent)
            (extent_width (minImageExtent caps)) (extent_width (maxImageExtent caps))\<rparr>;
          extent = extent\<lparr>extent_height := std_clamp (extent_height extent)
            (extent_height (minImageExtent caps)) (extent_height (maxImageExtent caps))\<rparr>
      in extent)"

definition get_real_swap_extent :: "vk_platform \<Rightarrow> VkSurfaceCapabilitiesKHR \<Rightarrow> VkExtent2D" where
  "get_real_swap_extent vk caps =
     (if extent_width (currentExtent caps) \<noteq> - 1 then currentExtent caps
      else let (w, h) = framebuffer_size vk;
               actual_extent = \<lparr>extent_width = word_of_int w, extent_height = word_of_int h\<rparr>
           in fix_to_extremes caps actual_extent)"

section \<open>What the queries compute\<close>

lemma and_bit_iff:
  fixes flag :: u32
  shows "and flag 1 \<noteq> 0 \<longleftrightarrow> bit flag 0" "and flag 2 \<noteq> 0 \<longleftrightarrow> bit flag 1"
    "and flag 4 \<noteq> 0 \<longleftrightarrow> bit flag 2" "and flag 8 \<noteq> 0 \<longleftrightarrow> bit flag 3"
  using and_exp_eq_0_iff_not_bit [of flag 0] and_exp_eq_0_iff_not_bit [of flag 1]
    and_exp_eq_0_iff_not_bit [of flag 2] and_exp_eq_0_iff_not_bit [of flag 3]
  by simp_all

text \<open>The types a queue family supports, read off its flags and the window surface.\<close>

definition family_types :: "vk_platform \<Rightarrow> VkSurfaceKHR option \<Rightarrow> VkPhysicalDevice \<Rightarrow> nat \<Rightarrow> QueueFamilyType set" where
  "family_types vk surf h i =
     (let flag = queue_flags vk h ! i in
      {t. case t of Graphics \<Rightarrow> bit flag 0 | Compute \<Rightarrow> bit flag 1 | Transfer \<Rightarrow> bit flag 2
          | SparseBinding \<Rightarrow> bit flag 3
          | Present \<Rightarrow> (\<exists>s. surf = Some s \<and> surface_support vk h i s)})"

definition families_spec ::
    "vk_platform \<Rightarrow> VkSurfaceKHR option \<Rightarrow> Device \<Rightarrow> DeviceQueueFamily list \<Rightarrow> bool" where
  "families_spec vk surf self families \<longleftrightarrow>
     length families \<le> length (queue_flags vk (dev self)) \<and>
     (\<forall>i < length families. family_dev (families ! i) = Some self \<and> family_index (families ! i) = i \<and>
        ef_set (types_supported (families ! i)) = family_types vk surf (dev self) i)"

lemma get_queue_family_ok:
  assumes "i < length (queue_flags vk (dev self))"
  shows "\<exists>fam. get_queue_family d vk surf self i (queue_flags vk (dev self) ! i) = Inr fam \<and>
    family_dev fam = Some self \<and> family_index fam = i \<and>
    ef_set (types_supported fam) = family_types vk surf (dev self) i"
proof -
  define flag where "flag = queue_flags vk (dev self) ! i"
  have types: "family_types vk surf (dev self) i =
    (if bit flag 0 then {Graphics} else {}) \<union> (if bit flag 1 then {Compute} else {}) \<union>
    (if bit flag 2 then {Transfer} else {}) \<union> (if bit flag 3 then {SparseBinding} else {}) \<union>
    (case surf of None \<Rightarrow> {} | Some s \<Rightarrow> if surface_support vk (dev self) i s then {Present} else {})"
    by (auto simp: family_types_def flag_def split: QueueFamilyType.splits option.splits if_splits)
  show ?thesis
    unfolding flag_def [symmetric] types
    by (cases surf) (auto simp: get_queue_family_def type_as_flag_def and_bit_iff)
qed

lemma get_queue_families_ok:
  "\<exists>families. get_queue_families d vk surf self = Inr families \<and> families_spec vk surf self families \<and>
    length families = length (queue_flags vk (dev self))"
proof -
  let ?flags = "queue_flags vk (dev self)"
  let ?body = "\<lambda>flag (fams, i). and_then (get_queue_family d vk surf self i flag)
    (\<lambda>fam. Inr (basic_list_add fams fam, i + 1))"
  have "\<exists>s'. for_each ?body ?flags ([], 0) = Inr s' \<and>
    (snd s' = length ?flags \<and> length (fst s') = length ?flags \<and> families_spec vk surf self (fst s'))"
  proof (rule for_each_invariant_list [where I =
        "\<lambda>ys s. snd s = length ys \<and> length (fst s) = length ys \<and> families_spec vk surf self (fst s)"])
    fix ys x zs and s :: "DeviceQueueFamily list \<times> nat"
    assume flags: "?flags = ys @ x # zs"
      and s: "snd s = length ys \<and> length (fst s) = length ys \<and> families_spec vk surf self (fst s)"
    have "length ys < length ?flags" "?flags ! length ys = x"
      by (simp_all add: flags)
    then obtain fam where "get_queue_family d vk surf self (length ys) x = Inr fam"
        "family_dev fam = Some self" "family_index fam = length ys"
        "ef_set (types_supported fam) = family_types vk surf (dev self) (length ys)"
      using get_queue_family_ok [of "length ys" vk self d surf] by metis
    with s flags show "\<exists>s'. ?body x s = Inr s' \<and> snd s' = length (ys @ [x]) \<and>
        length (fst s') = length (ys @ [x]) \<and> families_spec vk surf self (fst s')"
      by (auto simp: case_prod_beta families_spec_def basic_list_add_def nth_append less_Suc_eq)
  qed (simp add: families_spec_def)
  then show ?thesis
    by (auto simp: get_queue_families_def)
qed

text \<open>The meaning of a filter on a device handle.\<close>

definition filter_holds :: "vk_platform \<Rightarrow> VkSurfaceKHR option \<Rightarrow> device_filter \<Rightarrow> VkPhysicalDevice \<Rightarrow> bool" where
  "filter_holds vk surf f h = (case f of
       DeviceQueueFamilyFilter types \<Rightarrow>
         (\<exists>i < length (queue_flags vk h). ef_set types \<subseteq> family_types vk surf h i)
     | DeviceExtensionSupportFilter exts \<Rightarrow> set exts \<subseteq> set (device_extensions vk h)
     | DeviceTypeFilter type \<Rightarrow> device_type vk h = type
     | DeviceAnyGPUFilter \<Rightarrow>
         device_type vk h \<in> {DeviceTypeIntegratedGpu, DeviceTypeDiscreteGpu, DeviceTypeVirtualGpu})"

lemma queue_family_filter_loop_iff:
  "queue_family_filter_loop types families \<longleftrightarrow>
    (\<exists>fam \<in> set families. ef_set types \<subseteq> ef_set (types_supported fam))"
  by (induction families) (auto simp: ef_contains_field_iff)

lemma found_iff: "fold (\<lambda>x found. if r = x then True else found) xs b \<longleftrightarrow> b \<or> r \<in> set xs"
  by (induction xs arbitrary: b) auto

lemma extension_filter_loop_iff: "extension_filter_loop exts required \<longleftrightarrow> set required \<subseteq> set exts"
  by (induction required) (auto simp: found_iff)

lemma queue_family_filter_satisfies_ok:
  "queue_family_filter_satisfies d vk surf types device =
    Inr (filter_holds vk surf (DeviceQueueFamilyFilter types) (dev device))"
proof -
  obtain families where "get_queue_families d vk surf device = Inr families"
      "families_spec vk surf device families" "length families = length (queue_flags vk (dev device))"
    using get_queue_families_ok by blast
  then show ?thesis
    by (simp add: queue_family_filter_satisfies_def queue_family_filter_loop_iff filter_holds_def
        families_spec_def Bex_def in_set_conv_nth) metis
qed

lemma type_filter_satisfies_ok:
  "\<not> device_is_null device \<Longrightarrow>
    type_filter_satisfies d vk type device = Inr (device_type vk (dev device) = type)"
  by (simp add: type_filter_satisfies_def device_get_properties_def)

lemma filter_satisfies_ok:
  assumes "\<not> device_is_null device"
  shows "filter_satisfies d vk surf f device = Inr (filter_holds vk surf f (dev device))"
proof (cases f)
  case DeviceAnyGPUFilter
  then show ?thesis
    using assms by (auto simp: filter_satisfies_def filter_holds_def any_gpu_filter_satisfies_def
        type_filter_satisfies_ok or_else_def)
qed (use assms in \<open>auto simp: filter_satisfies_def filter_holds_def queue_family_filter_satisfies_ok
  type_filter_satisfies_ok extension_filter_satisfies_def extension_filter_loop_iff get_extension_properties_def\<close>)

text \<open>Evaluating a sequence of filters from left to right, stopping at the first that fails.\<close>

primrec filters_hold ::
    "bool \<Rightarrow> vk_platform \<Rightarrow> VkSurfaceKHR option \<Rightarrow> Device \<Rightarrow> device_filter list \<Rightarrow> bool outcome" where
  "filters_hold TZ_DEBUG vk surf device [] = Inr True"
| "filters_hold TZ_DEBUG vk surf device (f # fs) =
     and_then (filter_satisfies TZ_DEBUG vk surf f device) (\<lambda>satisfied.
       if \<not> satisfied then Inr False else filters_hold TZ_DEBUG vk surf device fs)"

lemma filters_hold_ok:
  "\<not> device_is_null device \<Longrightarrow>
    filters_hold d vk surf device fs = Inr (\<forall>f \<in> set fs. filter_holds vk surf f (dev device))"
  by (induction fs) (simp_all add: filter_satisfies_ok)

declare filter_list_loop.simps [simp del]

lemma iter_equal_in_end:
  assumes "k \<le> length es"
  shows "iter_equal_in m es \<lparr>loc = k\<rparr> (poly_end es) =
    and_then (past_end m) (\<lambda>g. Inr (k = length es \<or> fst (es ! k) = g))"
  using assms
  by (cases "past_end m")
    (auto simp: iter_equal_in_def iter_arrow_in_def iter_arrow_def poly_end_def basic_list_length_def)

lemma filter_list_loop_from:
  assumes "past_end m = Inr g" and "k \<le> length self"
  shows "filter_list_loop d m vk surf self device \<lparr>loc = k\<rparr> =
    filters_hold d vk surf device (map snd (takeWhile (\<lambda>p. fst p \<noteq> g) (drop k self)))"
  using assms(2)
proof (induction "length self - k" arbitrary: k)
  case 0
  then show ?case
    using assms(1) by (subst filter_list_loop.simps) (simp add: iter_equal_in_end)
next
  case (Suc n)
  then have k: "k < length self" by simp
  then have "drop k self = self ! k # drop (Suc k) self"
    by (simp add: Cons_nth_drop_Suc)
  moreover have "filter_list_loop d m vk surf self device \<lparr>loc = Suc k\<rparr> =
    filters_hold d vk surf device (map snd (takeWhile (\<lambda>p. fst p \<noteq> g) (drop (Suc k) self)))"
    using Suc k by simp
  ultimately show ?case
    using assms(1) k
    by (subst filter_list_loop.simps)
      (simp add: iter_equal_in_end iter_deref_def iter_post_increment_def Let_def cong: if_cong)
qed

text \<open>
  What \<open>DeviceFilterList::satisfies\<close> returns for every list of filters and every
  content of the word behind the list's last element: the filters in front of the first one whose
  address is that word, evaluated in order.  In standard C++, where the read itself is out of
  bounds, the call never returns.
\<close>

theorem filter_list_satisfies_reads_past_end:
  "filter_list_satisfies d m vk surf self device = (case past_end m of
      Inl e \<Rightarrow> Inl e
    | Inr g \<Rightarrow> filters_hold d vk surf device (map snd (takeWhile (\<lambda>p. fst p \<noteq> g) self)))"
proof (cases "past_end m")
  case (Inl e)
  then show ?thesis
    unfolding filter_list_satisfies_def poly_begin_def
    by (subst filter_list_loop.simps) (simp add: iter_equal_in_end)
next
  case (Inr g)
  then show ?thesis
    using filter_list_loop_from [of m g 0 self d vk surf device]
    by (simp add: filter_list_satisfies_def poly_begin_def)
qed

text \<open>
  A heap whose word behind the list is no address of a filter: the list then decides as its
  filters do.
\<close>

definition benign_memory :: "host_memory \<Rightarrow> bool" where
  "benign_memory m \<longleftrightarrow> (case past_end m of Inl e \<Rightarrow> False | Inr g \<Rightarrow> g \<notin> range (new_address m))"

definition built_by :: "host_memory \<Rightarrow> DeviceFilterList \<Rightarrow> device_filter list \<Rightarrow> bool" where
  "built_by m self fs \<longleftrightarrow> map snd self = fs \<and> fst ` set self \<subseteq> range (new_address m)"

lemma built_by_empty: "built_by m [] []"
  by (simp add: built_by_def)

lemma emplace_filter_built:
  assumes "built_by m self fs"
  shows "\<exists>self'. emplace_filter m f self = Inr self' \<and> built_by m self' (fs @ [f])"
  using assms by (auto simp: emplace_filter_def poly_emplace_ok built_by_def)

lemma filter_list_satisfies_ok:
  assumes "benign_memory m" "built_by m self fs" "\<not> device_is_null device"
  shows "filter_list_satisfies d m vk surf self device = Inr (\<forall>f \<in> set fs. filter_holds vk surf f (dev device))"
proof -
  obtain g where g: "past_end m = Inr g" "g \<notin> range (new_address m)"
    using assms(1) by (auto simp: benign_memory_def split: sum.splits)
  have "filter_list_satisfies d m vk surf self device =
    filters_hold d vk surf device (map snd (takeWhile (\<lambda>p. fst p \<noteq> g) self))"
    using filter_list_loop_from [OF g(1), of 0 self d vk surf device]
    by (simp add: filter_list_satisfies_def poly_begin_def)
  also have "takeWhile (\<lambda>p. fst p \<noteq> g) self = self"
    using assms(2) g(2) by (auto simp: built_by_def takeWhile_eq_all_conv)
  finally have "filter_list_satisfies d m vk surf self device =
    Inr (\<forall>f \<in> set (map snd self). filter_holds vk surf f (dev device))"
    using assms(3) by (simp add: filters_hold_ok)
  then show ?thesis
    using assms(2) by (simp only: built_by_def)
qed

lemma filter_all_ok:
  assumes "benign_memory m" "built_by m self fs" "\<forall>device \<in> set devices. \<not> device_is_null device"
  shows "filter_all d m vk surf self devices =
    Inr (filter (\<lambda>device. \<forall>f \<in> set fs. filter_holds vk surf f (dev device)) devices)"
proof -
  let ?ok = "\<lambda>device. \<forall>f \<in> set fs. filter_holds vk surf f (dev device)"
  have "for_each (\<lambda>dev kept. and_then (filter_list_satisfies d m vk surf self dev) (\<lambda>satisfied.
       Inr (if \<not> satisfied then kept else kept @ [dev]))) devices acc = Inr (acc @ filter ?ok devices)" for acc
    using assms(3) by (induction devices arbitrary: acc) (simp_all add: filter_list_satisfies_ok [OF assms(1,2)])
  then show ?thesis
    by (simp add: filter_all_def)
qed

lemma quick_filter_ok:
  assumes "benign_memory m" "\<forall>device \<in> set devices. \<not> device_is_null device"
  shows "and_then (emplace_filter m f []) (\<lambda>filters. filter_all d m vk surf filters devices) =
    Inr (filter (\<lambda>device. filter_holds vk surf f (dev device)) devices)"
  using emplace_filter_built [OF built_by_empty, of m f] filter_all_ok [OF assms(1) _ assms(2)]
  by fastforce

text \<open>A machine with an integrated and a discrete device, for the examples below.\<close>

definition example_platform :: "u32 list \<Rightarrow> vk_platform" where
  "example_platform flags = \<lparr>physical_devices = [1, 2],
     device_type = (\<lambda>h. if h = 1 then DeviceTypeIntegratedGpu else DeviceTypeDiscreteGpu),
     queue_flags = (\<lambda>h. flags),
     surface_support = (\<lambda>h i s. i = 0),
     device_extensions = (\<lambda>h. [''VK_KHR_maintenance1'', ''VK_KHR_swapchain'']),
     surface_capabilities = (\<lambda>h s. \<lparr>minImageCount = 2, maxImageCount = 8,
       currentExtent = \<lparr>extent_width = - 1, extent_height = - 1\<rparr>,
       minImageExtent = \<lparr>extent_width = 1, extent_height = 1\<rparr>,
       maxImageExtent = \<lparr>extent_width = 4096, extent_height = 4096\<rparr>, currentTransform = 1\<rparr>),
     surface_formats = (\<lambda>h s. [\<lparr>surface_format = 44, color_space = 0\<rparr>]),
     surface_present_modes = (\<lambda>h s. [2]),
     memory_types = (\<lambda>h. [(1, 0), (6, 1)]),
     framebuffer_size = (1280, 720)\<rparr>"

lemma example_platform_simps [simp]:
  "physical_devices (example_platform flags) = [1, 2]"
  "queue_flags (example_platform flags) h = flags"
  "surface_support (example_platform flags) h i s = (i = 0)"
  "device_extensions (example_platform flags) h = [''VK_KHR_maintenance1'', ''VK_KHR_swapchain'']"
  "surface_formats (example_platform flags) h s = [\<lparr>surface_format = 44, color_space = 0\<rparr>]"
  "surface_present_modes (example_platform flags) h s = [2]"
  by (simp_all add: example_platform_def)

definition example_memory :: host_memory where
  "example_memory = \<lparr>new_address = Suc, past_end = Inr 0\<rparr>"

lemma example_memory_benign: "benign_memory example_memory"
  by (auto simp: benign_memory_def example_memory_def)

text \<open>
  The filters of \<open>quick_filters\<close> keep, in their order, exactly the devices that have the
  property each is named after.
\<close>

theorem quick_filters_keep_matching:
  assumes "benign_memory m" and "\<forall>device \<in> set devices. \<not> device_is_null device"
  shows "remove_non_gpus d m vk surf devices = Inr (filter (\<lambda>device. device_type vk (dev device) \<in>
      {DeviceTypeIntegratedGpu, DeviceTypeDiscreteGpu, DeviceTypeVirtualGpu}) devices)
     \<and> preserve_only_discrete_gpus d m vk surf devices =
      Inr (filter (\<lambda>device. device_type vk (dev device) = DeviceTypeDiscreteGpu) devices)
     \<and> preserve_only_integrated_gpus d m vk surf devices =
      Inr (filter (\<lambda>device. device_type vk (dev device) = DeviceTypeIntegratedGpu) devices)
     \<and> preserve_only_with_appropriate_queue d m vk surf field devices =
      Inr (filter (\<lambda>device. \<exists>i < length (queue_flags vk (dev device)).
        ef_set field \<subseteq> family_types vk surf (dev device) i) devices)"
  unfolding remove_non_gpus_def preserve_only_discrete_gpus_def preserve_only_integrated_gpus_def
    preserve_only_with_appropriate_queue_def
  using quick_filter_ok [OF assms] by (simp_all add: filter_holds_def)

theorem quick_filters_keep_matching_witness:
  "preserve_only_discrete_gpus True example_memory (example_platform [5]) None [\<lparr>dev = 1\<rparr>, \<lparr>dev = 2\<rparr>] =
     Inr [\<lparr>dev = 2\<rparr>]"
proof -
  have "\<forall>device \<in> set [\<lparr>dev = 1\<rparr>, \<lparr>dev = 2\<rparr>]. \<not> device_is_null device"
    by (simp add: device_is_null_def VK_NULL_HANDLE_def)
  from quick_filters_keep_matching [OF example_memory_benign this, of True "example_platform [5]" None]
  show ?thesis by (simp add: example_platform_def)
qed

lemma supports_swapchain_ok:
  assumes "benign_memory m" "\<not> device_is_null device"
  shows "supports_swapchain d m vk surf device = Inr (''VK_KHR_swapchain'' \<in> set (device_extensions vk (dev device)))"
  using emplace_filter_built [OF built_by_empty, of m "DeviceExtensionSupportFilter [''VK_KHR_swapchain'']"]
    filter_list_satisfies_ok [OF assms(1) _ assms(2)]
  by (fastforce simp: supports_swapchain_def filter_holds_def)

lemma get_window_swapchain_support_ok:
  assumes "benign_memory m" "\<not> device_is_null device" "''VK_KHR_swapchain'' \<in> set (device_extensions vk (dev device))"
  shows "get_window_swapchain_support d m vk (Some s) device =
    Inr \<lparr>capabilities = surface_capabilities vk (dev device) s, formats = surface_formats vk (dev device) s,
      present_modes = surface_present_modes vk (dev device) s, details_supports_swapchain = True\<rparr>"
  using assms supports_swapchain_ok [OF assms(1,2)]
  by (simp add: get_window_swapchain_support_def get_window_surface_capabilities_def
      get_window_surface_formats_def get_window_surface_present_modes_def
      assert_swapchain_support_def window_surface_native_def)

section \<open>Swapchain selection is correct\<close>

text \<open>What is documented of \<open>std::sort\<close> that the selection relies on: it permutes its range.\<close>

definition permutes_range :: "'a sorter \<Rightarrow> bool" where
  "permutes_range std_sort \<longleftrightarrow> (\<forall>lt xs. mset (std_sort lt xs) = mset xs)"

lemma permutes_range_set: "permutes_range srt \<Longrightarrow> set (srt lt xs) = set xs"
  by (metis permutes_range_def set_mset_mset)

lemma hd_sorted_in:
  "permutes_range srt \<Longrightarrow> xs \<noteq> [] \<Longrightarrow> hd (srt lt xs) \<in> set xs"
  by (metis hd_in_set permutes_range_set set_empty)

lemma is_perfect_iff: "is_perfect f \<longleftrightarrow> f = perfect_format"
  by (cases f) (simp add: is_perfect_def perfect_format_def)

lemma find_perfect: "find is_perfect fs = (if perfect_format \<in> set fs then Some perfect_format else None)"
  by (induction fs) (auto simp: is_perfect_iff)

lemma find_mode: "find (\<lambda>x. x = a) xs = (if a \<in> set xs then Some a else None)"
  by (induction xs) auto

lemma select_format_in:
  assumes "permutes_range srt" "select_swapchain_format_pref srt fs prefs = Some f"
  shows "f \<in> set fs"
  using assms(2)
proof (induction prefs arbitrary: fs)
  case (Cons pref prefs)
  then show ?case
    using permutes_range_set [OF assms(1)] hd_sorted_in [OF assms(1), of fs] Cons.IH [of "[]"]
    by (cases pref)
      (auto simp: select_swapchain_format_def sort_by_rate_perfect_def find_perfect Let_def
        split: if_splits)
qed simp

definition device_format_preferences :: "SwapchainFormatPreferences list" where
  "device_format_preferences = [Goldilocks, FlexibleGoldilocks, FormatDontCare]"

definition device_present_preferences :: "SwapchainPresentModePreferences list" where
  "device_present_preferences = [PreferTripleBuffering, PresentModeDontCare]"

lemma swapchain_selected:
  assumes "permutes_range srt" "fs \<noteq> []"
  shows "\<exists>f \<in> set fs. select_swapchain_format_pref srt fs device_format_preferences = Some f"
proof -
  have "select_swapchain_format_pref srt fs device_format_preferences \<noteq> None"
    using assms(2) by (auto simp: device_format_preferences_def select_swapchain_format_def find_perfect
        sort_by_rate_perfect_def Let_def)
  then show ?thesis
    using select_format_in [OF assms(1)] by blast
qed

lemma present_mode_selected:
  "modes \<noteq> [] \<Longrightarrow>
    \<exists>p \<in> set modes. select_swapchain_present_mode_pref modes device_present_preferences = Some p"
  by (simp add: device_present_preferences_def select_swapchain_present_mode_def find_mode)

text \<open>
  C31. With the preferences of the Vulkan device, a swapchain format is chosen exactly when the
  surface offers one; the choice is one of the offered formats, and it is 8-bit BGRA in the sRGB
  colour space whenever that is offered.  The present mode is mailbox when offered and otherwise
  the first one.
\<close>

theorem swapchain_selection:
  assumes "permutes_range srt"
  shows "(select_swapchain_format_pref srt fs device_format_preferences = None \<longleftrightarrow> fs = [])
    \<and> (\<forall>f. select_swapchain_format_pref srt fs device_format_preferences = Some f \<longrightarrow>
         f \<in> set fs \<and> (perfect_format \<in> set fs \<longrightarrow> f = perfect_format))
    \<and> select_swapchain_present_mode_pref modes device_present_preferences =
        (if VK_PRESENT_MODE_MAILBOX_KHR \<in> set modes then Some VK_PRESENT_MODE_MAILBOX_KHR
         else if modes = [] then None else Some (hd modes))"
proof -
  have "select_swapchain_format_pref srt fs device_format_preferences = None \<longleftrightarrow> fs = []"
    by (auto simp: device_format_preferences_def select_swapchain_format_def find_perfect
        sort_by_rate_perfect_def Let_def)
  moreover have "f = perfect_format"
    if "select_swapchain_format_pref srt fs device_format_preferences = Some f" "perfect_format \<in> set fs" for f
    using that by (simp add: device_format_preferences_def select_swapchain_format_def find_perfect)
  moreover have "select_swapchain_present_mode_pref modes device_present_preferences =
      (if VK_PRESENT_MODE_MAILBOX_KHR \<in> set modes then Some VK_PRESENT_MODE_MAILBOX_KHR
       else if modes = [] then None else Some (hd modes))"
    by (simp add: device_present_preferences_def select_swapchain_present_mode_def find_mode)
  ultimately show ?thesis
    using select_format_in [OF assms] by blast
qed

theorem swapchain_selection_witness:
  "select_swapchain_format_pref (\<lambda>lt xs. rev xs)
     [\<lparr>surface_format = 37, color_space = 0\<rparr>, perfect_format] device_format_preferences \<noteq> None"
proof -
  have "permutes_range (\<lambda>lt xs. rev xs :: VkSurfaceFormatKHR list)"
    by (simp add: permutes_range_def)
  from swapchain_selection [OF this, of "[\<lparr>surface_format = 37, color_space = 0\<rparr>, perfect_format]" "[]"]
  show ?thesis by blast
qed

definition between :: "u32 \<Rightarrow> u32 \<Rightarrow> u32 \<Rightarrow> bool" where
  "between lo hi v \<longleftrightarrow> lo \<le> v \<and> v \<le> hi"

lemma std_clamp_between: "lo \<le> hi \<Longrightarrow> between lo hi (std_clamp v lo hi)"
  by (auto simp: between_def std_clamp_def not_less)

lemma std_clamp_id: "between lo hi v \<Longrightarrow> std_clamp v lo hi = v"
  by (auto simp: between_def std_clamp_def)



section \<open>Memory modules match exactly\<close>

lemma parse_field_elements:
  "elements (parse_field flags) =
    filter (\<lambda>t. and flags (memory_type_bit t) \<noteq> 0) [DeviceLocal, HostVisible, HostCoherent, HostCached]"
  unfolding parse_field_def
  by (cases "and flags 1 = 0"; cases "and flags 2 = 0"; cases "and flags 4 = 0"; cases "and flags 8 = 0")
    (simp_all add: ef_or_assign_def enum_field_of_def ef_set_def)

lemma get_modules_matching_filter:
  "get_modules_matching modules field = filter (\<lambda>md. module_types md = field) modules"
proof -
  have "fold (\<lambda>md acc. if module_types md = field then basic_list_add acc md else acc) modules acc =
    acc @ filter (\<lambda>md. module_types md = field) modules" for acc
    by (induction modules arbitrary: acc) (simp_all add: basic_list_add_def)
  then show ?thesis by (simp add: get_modules_matching_def)
qed

text \<open>
  A device's memory module matches a request exactly when its property bits, among the four
  the engine names, are the requested ones listed in the order of \<open>MemoryType\<close>; the unsafe
  lookup reads out of bounds exactly when there is no such module.
\<close>

theorem memory_modules_match_exactly:
  "(\<exists>e. unsafe_get_some_module_matching (memory_properties vk device) field = Inl e) \<longleftrightarrow>
     (\<forall>(flags, heap) \<in> set (memory_types vk (dev device)).
        filter (\<lambda>t. and flags (memory_type_bit t) \<noteq> 0)
          [DeviceLocal, HostVisible, HostCoherent, HostCached] \<noteq> elements field)"
proof -
  have eq: "parse_field flags = field \<longleftrightarrow> elements (parse_field flags) = elements field" for flags
    by (cases "parse_field flags"; cases field) simp
  have "unsafe_get_some_module_matching (memory_properties vk device) field = Inl e \<longleftrightarrow>
      e = OutOfBounds \<and> get_modules_matching (memory_properties vk device) field = []" for e
    by (auto simp: unsafe_get_some_module_matching_def at_index_def)
  then have "(\<exists>e. unsafe_get_some_module_matching (memory_properties vk device) field = Inl e) \<longleftrightarrow>
      (\<forall>md \<in> set (memory_properties vk device). module_types md \<noteq> field)"
    by (simp add: get_modules_matching_filter filter_empty_conv)
  also have "\<dots> \<longleftrightarrow> (\<forall>types \<in> set (map module_types (memory_properties vk device)). types \<noteq> field)"
    by simp
  also have "map module_types (memory_properties vk device) = map (parse_field \<circ> fst) (memory_types vk (dev device))"
    by (rule nth_equalityI) (simp_all add: memory_properties_def nth_enumerate_eq case_prod_beta)
  also have "(\<forall>types \<in> set (map (parse_field \<circ> fst) (memory_types vk (dev device))). types \<noteq> field) \<longleftrightarrow>
      (\<forall>(flags, heap) \<in> set (memory_types vk (dev device)). parse_field flags \<noteq> field)"
    by auto
  finally show ?thesis
    by (simp only: eq parse_field_elements)
qed

theorem memory_modules_match_exactly_witness:
  "\<exists>e. unsafe_get_some_module_matching (memory_properties (example_platform [5]) \<lparr>dev = 1\<rparr>)
     (enum_field_of [HostCoherent, HostVisible]) = Inl e"
  by (subst memory_modules_match_exactly) (simp add: example_platform_def enum_field_of_def)

end
