(* ===== verification/Vk_Device.thy ===== *)
theory Vk_Device
  imports Vk_Hardware
begin

text \<open>
  The Vulkan device of the engine: \<open>LogicalDevice\<close>, \<open>Swapchain\<close> and the constructor of
  \<open>DeviceVulkan\<close> (\<open>gl/impl/backend/vk/logical_device.cpp\<close>, \<open>swapchain.cpp\<close>,
  \<open>gl/impl/frontend/vk/device.cpp\<close>), which picks a physical device and a queue family and builds
  the window's image chain.  The Vulkan calls that create objects are arguments
  (\<open>vk_device_driver\<close>); each may fail.
\<close>

section \<open>Objects and the calls that create them\<close>

record VkDeviceCreateInfo =
  queueFamilyIndex :: nat
  enabledExtensionNames :: "string list"

record VkSwapchainCreateInfoKHR =
  create_surface :: VkSurfaceKHR
  create_minImageCount :: u32
  create_imageFormat :: u32
  create_imageColorSpace :: u32
  create_imageExtent :: VkExtent2D
  create_imageArrayLayers :: u32
  create_imageUsage :: u32
  create_preTransform :: u32
  create_compositeAlpha :: u32
  create_presentMode :: VkPresentModeKHR
  create_clipped :: bool
  create_oldSwapchain :: nat

record VkImageCreateInfo =
  image_width :: u32
  image_height :: u32
  image_format :: u32
  image_usage :: u32

record vk_device_driver =
  create_device :: "VkPhysicalDevice \<Rightarrow> VkDeviceCreateInfo \<Rightarrow> nat option"
  create_allocator :: "nat \<Rightarrow> nat option"
  create_swapchain :: "nat \<Rightarrow> VkSwapchainCreateInfoKHR \<Rightarrow> nat option"
  swapchain_images :: "nat \<Rightarrow> nat list"
  create_image_view :: "nat \<Rightarrow> u32 \<Rightarrow> nat option"
  create_image :: "VkImageCreateInfo \<Rightarrow> MemoryResidency \<Rightarrow> nat option"

text \<open>A failed creation stops a debug build and leaves the null handle in a release build.\<close>

definition created :: "bool \<Rightarrow> nat option \<Rightarrow> nat outcome" where
  "created TZ_DEBUG res =
     and_then (tz_assert TZ_DEBUG (res \<noteq> None)) (\<lambda>_.
     Inr (case res of None \<Rightarrow> VK_NULL_HANDLE | Some h \<Rightarrow> h))"

lemma created_Some [simp]: "created d (Some h) = Inr h"
  by (simp add: created_def)

section \<open>Logical devices\<close>

record LogicalDevice =
  device_handle :: nat
  queue_family :: DeviceQueueFamily
  vma :: "nat option"

definition logical_device_null :: LogicalDevice where
  "logical_device_null = \<lparr>device_handle = VK_NULL_HANDLE,
     queue_family = \<lparr>family_dev = None, family_index = 0, types_supported = enum_field_of []\<rparr>,
     vma = None\<rparr>"

definition logical_device_is_null :: "LogicalDevice \<Rightarrow> bool" where
  "logical_device_is_null self = (device_handle self = VK_NULL_HANDLE)"

definition deref_device :: "Device option \<Rightarrow> Device outcome" where
  "deref_device p = (case p of None \<Rightarrow> Inl NullDereference | Some x \<Rightarrow> Inr x)"

definition logical_device_new ::
    "bool \<Rightarrow> vk_device_driver \<Rightarrow> DeviceQueueFamily \<Rightarrow> string BasicList \<Rightarrow> LogicalDevice outcome" where
  "logical_device_new TZ_DEBUG drv family exts =
     (let create = \<lparr>queueFamilyIndex = family_index family, enabledExtensionNames = exts\<rparr> in
      and_then (deref_device (family_dev family)) (\<lambda>phys.
      and_then (created TZ_DEBUG (create_device drv (dev phys) create)) (\<lambda>h.
      and_then (created TZ_DEBUG (create_allocator drv h)) (\<lambda>a.
      Inr \<lparr>device_handle = h, queue_family = family, vma = Some a\<rparr>))))"

section \<open>Swapchains\<close>

record Swapchain =
  swapchain :: nat
  swapchain_device :: "LogicalDevice option"
  image_views :: "nat list"
  chain_format :: u32
  chain_extent :: VkExtent2D

definition swapchain_null :: Swapchain where
  "swapchain_null = \<lparr>swapchain = VK_NULL_HANDLE, swapchain_device = None, image_views = [],
     chain_format = 0, chain_extent = \<lparr>extent_width = 0, extent_height = 0\<rparr>\<rparr>"

text \<open>\<open>operator->\<close> on an optional that holds nothing reads an object that was never constructed.\<close>

definition arrow :: "'a option \<Rightarrow> 'a outcome" where
  "arrow x = (case x of None \<Rightarrow> Inl UninitialisedRead | Some v \<Rightarrow> Inr v)"

lemma arrow_simps [simp]: "arrow None = Inl UninitialisedRead" "arrow (Some v) = Inr v"
  by (simp_all add: arrow_def)

definition swapchain_create_info ::
    "bool \<Rightarrow> host_memory \<Rightarrow> vk_platform \<Rightarrow> VkSurfaceFormatKHR sorter \<Rightarrow> VkSurfaceKHR option \<Rightarrow>
     DeviceQueueFamily \<Rightarrow> VkSurfaceKHR \<Rightarrow> SwapchainSelectorPreferences \<Rightarrow>
     VkSwapchainCreateInfoKHR outcome" where
  "swapchain_create_info TZ_DEBUG m vk std_sort surf family surface preferences =
     and_then (tz_assert TZ_DEBUG (family_dev family \<noteq> None)) (\<lambda>_.
     and_then (deref_device (family_dev family)) (\<lambda>phys.
     and_then (get_window_swapchain_support TZ_DEBUG m vk surf phys) (\<lambda>support.
     let maybe_format = select_swapchain_format_pref std_sort (formats support) (format_pref preferences);
         maybe_present_mode =
           select_swapchain_present_mode_pref (present_modes support) (present_mode_pref preferences);
         extent = get_real_swap_extent vk (capabilities support)
     in
     and_then (tz_assert TZ_DEBUG (maybe_format \<noteq> None)) (\<lambda>_.
     and_then (tz_assert TZ_DEBUG (maybe_present_mode \<noteq> None)) (\<lambda>_.
     let image_count = minImageCount (capabilities support);
         image_count = min image_count (maxImageCount (capabilities support))
     in
     and_then (arrow maybe_format) (\<lambda>format.
     and_then (tz_assert TZ_DEBUG
        (ef_contains_field (types_supported family) (enum_field_of [Graphics, Present]))) (\<lambda>_.
     and_then (value_of maybe_present_mode) (\<lambda>present_mode.
     Inr \<lparr>create_surface = surface, create_minImageCount = image_count,
       create_imageFormat = surface_format format, create_imageColorSpace = color_space format,
       create_imageExtent = extent, create_imageArrayLayers = 1, create_imageUsage = 16,
       create_preTransform = currentTransform (capabilities support), create_compositeAlpha = 1,
       create_presentMode = present_mode, create_clipped = (surf \<noteq> None),
       create_oldSwapchain = VK_NULL_HANDLE\<rparr>))))))))"

definition swapchain_image_views ::
    "bool \<Rightarrow> vk_device_driver \<Rightarrow> nat \<Rightarrow> u32 \<Rightarrow> nat list outcome" where
  "swapchain_image_views TZ_DEBUG drv chain format =
     for_each (\<lambda>image_native views. and_then (created TZ_DEBUG (create_image_view drv image_native format))
       (\<lambda>view. Inr (basic_list_add views view))) (swapchain_images drv chain) []"

definition swapchain_new ::
    "bool \<Rightarrow> host_memory \<Rightarrow> vk_platform \<Rightarrow> VkSurfaceFormatKHR sorter \<Rightarrow> vk_device_driver \<Rightarrow>
     VkSurfaceKHR option \<Rightarrow> LogicalDevice \<Rightarrow> VkSurfaceKHR \<Rightarrow> SwapchainSelectorPreferences \<Rightarrow>
     Swapchain outcome" where
  "swapchain_new TZ_DEBUG m vk std_sort drv surf device surface preferences =
     and_then (swapchain_create_info TZ_DEBUG m vk std_sort surf (queue_family device) surface preferences)
       (\<lambda>create.
     and_then (created TZ_DEBUG (create_swapchain drv (device_handle device) create)) (\<lambda>chain.
     and_then (swapchain_image_views TZ_DEBUG drv chain (create_imageFormat create)) (\<lambda>views.
     Inr \<lparr>swapchain = chain, swapchain_device = Some device, image_views = views,
       chain_format = create_imageFormat create, chain_extent = create_imageExtent create\<rparr>)))"

definition swapchain_for_window ::
    "bool \<Rightarrow> host_memory \<Rightarrow> vk_platform \<Rightarrow> VkSurfaceFormatKHR sorter \<Rightarrow> vk_device_driver \<Rightarrow>
     VkSurfaceKHR option \<Rightarrow> LogicalDevice \<Rightarrow> SwapchainSelectorPreferences \<Rightarrow> Swapchain outcome" where
  "swapchain_for_window TZ_DEBUG m vk std_sort drv surf device preferences =
     and_then (window_surface_native surf) (\<lambda>surface.
     swapchain_new TZ_DEBUG m vk std_sort drv surf device surface preferences)"

datatype AcquireResponseType = Fine | ErrorSwapchainOutOfDate | ErrorUnknown

datatype VkAcquireAnswer = VkSuccess u32 | VkErrorOutOfDate | VkOtherResult

definition acquire_next_image_index :: "VkAcquireAnswer \<Rightarrow> u32 option \<times> AcquireResponseType" where
  "acquire_next_image_index res = (case res of
       VkSuccess image_index \<Rightarrow> (Some image_index, Fine)
     | VkErrorOutOfDate \<Rightarrow> (None, ErrorSwapchainOutOfDate)
     | VkOtherResult \<Rightarrow> (None, ErrorUnknown))"

section \<open>The device\<close>

datatype GraphicsPrimitiveType = Triangles

datatype PrimitiveTopology = PointList | LineList | LineStrips | TriangleList | TriangleStrips

record DeviceBuilderVulkan =
  primitive_type :: GraphicsPrimitiveType

definition device_builder_new :: DeviceBuilderVulkan where
  "device_builder_new = \<lparr>primitive_type = Triangles\<rparr>"

definition set_primitive_type :: "DeviceBuilderVulkan \<Rightarrow> GraphicsPrimitiveType \<Rightarrow> DeviceBuilderVulkan" where
  "set_primitive_type self type = self\<lparr>primitive_type := type\<rparr>"

definition vk_get_primitive_topology :: "DeviceBuilderVulkan \<Rightarrow> PrimitiveTopology" where
  "vk_get_primitive_topology self = (case primitive_type self of Triangles \<Rightarrow> TriangleList)"

text \<open>The window buffer is a swapchain, or an image when the application is headless.\<close>

record OffscreenImage =
  offscreen_handle :: nat
  offscreen_width :: u32
  offscreen_height :: u32
  offscreen_format :: u32

datatype DeviceWindowBufferVulkan = WindowMonostate | WindowSwapchain Swapchain | WindowImage OffscreenImage

record DeviceVulkan =
  physical_device :: Device
  logical_device :: LogicalDevice
  window_buffer :: DeviceWindowBufferVulkan
  device_topology :: PrimitiveTopology

definition device_extension_list :: "VkSurfaceKHR option \<Rightarrow> string BasicList" where
  "device_extension_list surf =
     (let extensions = [''VK_KHR_maintenance1'']
      in if surf \<noteq> None then basic_list_add extensions ''VK_KHR_swapchain'' else extensions)"

definition type_requirements :: "QueueFamilyType EnumField" where
  "type_requirements = enum_field_of [Graphics, Transfer]"

definition choose_queue_family :: "DeviceQueueFamily list \<Rightarrow> DeviceQueueFamily option" where
  "choose_queue_family families =
     fold (\<lambda>family maybe_chosen_queue_family.
       if ef_contains_field (types_supported family) type_requirements then Some family
       else maybe_chosen_queue_family) families None"

definition select_device ::
    "bool \<Rightarrow> host_memory \<Rightarrow> vk_platform \<Rightarrow> VkSurfaceKHR option \<Rightarrow> bool \<Rightarrow>
     (Device \<times> DeviceQueueFamily) outcome" where
  "select_device TZ_DEBUG m vk surf initialised =
     (let extensions = device_extension_list surf in
      and_then (get_all_devices TZ_DEBUG vk initialised) (\<lambda>all_devices.
      and_then (emplace_filter m (DeviceQueueFamilyFilter type_requirements) []) (\<lambda>filters.
      and_then (emplace_filter m (DeviceExtensionSupportFilter extensions) filters) (\<lambda>filters.
      and_then (filter_all TZ_DEBUG m vk surf filters all_devices) (\<lambda>all_devices.
      and_then (tz_assert TZ_DEBUG (all_devices \<noteq> [])) (\<lambda>_.
      and_then (basic_list_front all_devices) (\<lambda>phys.
      and_then (get_queue_families TZ_DEBUG vk surf phys) (\<lambda>families.
      let maybe_chosen_queue_family = choose_queue_family families in
      and_then (tz_assert TZ_DEBUG (maybe_chosen_queue_family \<noteq> None)) (\<lambda>_.
      and_then (value_of maybe_chosen_queue_family) (\<lambda>family.
      Inr (phys, family)))))))))))"

definition device_preferences :: SwapchainSelectorPreferences where
  "device_preferences =
     \<lparr>format_pref = device_format_preferences, present_mode_pref = device_present_preferences\<rparr>"

definition headless_image_info :: VkImageCreateInfo where
  "headless_image_info = \<lparr>image_width = 800, image_height = 600, image_format = 43, image_usage = 17\<rparr>"

definition device_new ::
    "bool \<Rightarrow> host_memory \<Rightarrow> vk_platform \<Rightarrow> VkSurfaceFormatKHR sorter \<Rightarrow> vk_device_driver \<Rightarrow>
     VkSurfaceKHR option \<Rightarrow> bool \<Rightarrow> DeviceBuilderVulkan \<Rightarrow> DeviceVulkan outcome" where
  "device_new TZ_DEBUG m vk std_sort drv surf initialised builder =
     and_then (select_device TZ_DEBUG m vk surf initialised) (\<lambda>(phys, family).
     and_then (logical_device_new TZ_DEBUG drv family (device_extension_list surf)) (\<lambda>device.
     and_then (if surf = None
         then and_then (created TZ_DEBUG (create_image drv headless_image_info GPU)) (\<lambda>h.
           Inr (WindowImage \<lparr>offscreen_handle = h, offscreen_width = image_width headless_image_info,
             offscreen_height = image_height headless_image_info,
             offscreen_format = image_format headless_image_info\<rparr>))
         else and_then (swapchain_for_window TZ_DEBUG m vk std_sort drv surf device device_preferences)
           (\<lambda>chain. Inr (WindowSwapchain chain))) (\<lambda>buffer.
     Inr \<lparr>physical_device = phys, logical_device = device, window_buffer = buffer,
       device_topology = vk_get_primitive_topology builder\<rparr>)))"

definition window_buffer_extent :: "DeviceWindowBufferVulkan \<Rightarrow> VkSurfaceKHR option \<Rightarrow> VkExtent2D outcome" where
  "window_buffer_extent self surf = (case surf of
       None \<Rightarrow> (case self of WindowImage i \<Rightarrow>
           Inr \<lparr>extent_width = offscreen_width i, extent_height = offscreen_height i\<rparr>
         | _ \<Rightarrow> Inl BadVariantAccess)
     | Some _ \<Rightarrow> (case self of WindowSwapchain c \<Rightarrow> Inr (chain_extent c) | _ \<Rightarrow> Inl BadVariantAccess))"

text \<open>A resize replaces the swapchain in place; the callbacks of the renderers run afterwards.\<close>

definition on_window_resize ::
    "bool \<Rightarrow> host_memory \<Rightarrow> vk_platform \<Rightarrow> VkSurfaceFormatKHR sorter \<Rightarrow> vk_device_driver \<Rightarrow>
     VkSurfaceKHR option \<Rightarrow> ('r \<Rightarrow> 'r outcome) option list \<Rightarrow> DeviceVulkan \<times> 'r \<Rightarrow> (DeviceVulkan \<times> 'r) outcome" where
  "on_window_resize TZ_DEBUG m vk std_sort drv surf callbacks = (\<lambda>(self, r).
     and_then (case surf of
         None \<Rightarrow> Inr self
       | Some _ \<Rightarrow> (case window_buffer self of
           WindowSwapchain _ \<Rightarrow>
             and_then (swapchain_for_window TZ_DEBUG m vk std_sort drv surf (logical_device self) device_preferences)
               (\<lambda>chain. Inr (self\<lparr>window_buffer := WindowSwapchain chain\<rparr>))
         | _ \<Rightarrow> Inl BadVariantAccess)) (\<lambda>self.
     and_then (for_each (\<lambda>callback r. case callback of None \<Rightarrow> Inr r | Some f \<Rightarrow> f r) callbacks r) (\<lambda>r.
     Inr (self, r))))"

section \<open>Which device is chosen\<close>

definition qualifies :: "vk_platform \<Rightarrow> VkSurfaceKHR option \<Rightarrow> VkPhysicalDevice \<Rightarrow> bool" where
  "qualifies vk surf h \<longleftrightarrow>
     (\<exists>i < length (queue_flags vk h). {Graphics, Transfer} \<subseteq> family_types vk surf h i) \<and>
     set (device_extension_list surf) \<subseteq> set (device_extensions vk h)"

text \<open>The last queue family of a device with graphics and transfer.\<close>

definition last_family :: "vk_platform \<Rightarrow> VkSurfaceKHR option \<Rightarrow> VkPhysicalDevice \<Rightarrow> nat" where
  "last_family vk surf h =
     Max {i. i < length (queue_flags vk h) \<and> {Graphics, Transfer} \<subseteq> family_types vk surf h i}"

lemma fold_last_match:
  "fold (\<lambda>x acc. if P x then Some x else acc) xs acc =
    (if \<exists>x \<in> set xs. P x then Some (last (filter P xs)) else acc)"
  by (induction xs arbitrary: acc) (auto simp: filter_empty_conv)

lemma choose_queue_family_last:
  assumes "i < length families" "{Graphics, Transfer} \<subseteq> ef_set (types_supported (families ! i))"
    and "\<And>j. i < j \<Longrightarrow> j < length families \<Longrightarrow> \<not> {Graphics, Transfer} \<subseteq> ef_set (types_supported (families ! j))"
  shows "choose_queue_family families = Some (families ! i)"
proof -
  let ?P = "\<lambda>fam. ef_contains_field (types_supported fam) type_requirements"
  have P: "?P fam \<longleftrightarrow> {Graphics, Transfer} \<subseteq> ef_set (types_supported fam)" for fam
    by (simp add: ef_contains_field_iff type_requirements_def)
  have at: "?P (families ! i)"
    using assms(2) by (simp only: P)
  have after: "filter ?P (drop (Suc i) families) = []"
    using assms(3) by (force simp: filter_empty_conv P in_set_conv_nth)
  have "filter ?P families = filter ?P (take i families @ families ! i # drop (Suc i) families)"
    using assms(1) id_take_nth_drop by (metis (no_types, lifting))
  also have "\<dots> = filter ?P (take i families) @ [families ! i]"
    using at after by simp
  finally have "last (filter ?P families) = families ! i" by simp
  moreover have "\<exists>fam \<in> set families. ?P fam"
    using assms(1) at by auto
  ultimately show ?thesis
    by (simp add: choose_queue_family_def fold_last_match)
qed

lemma chosen_family:
  assumes "qualifies vk surf (dev phys)"
  shows "\<exists>families fam. get_queue_families d vk surf phys = Inr families \<and>
    choose_queue_family families = Some fam \<and> family_dev fam = Some phys \<and>
    family_index fam = last_family vk surf (dev phys) \<and>
    ef_set (types_supported fam) = family_types vk surf (dev phys) (last_family vk surf (dev phys))"
proof -
  let ?I = "{i. i < length (queue_flags vk (dev phys)) \<and> {Graphics, Transfer} \<subseteq> family_types vk surf (dev phys) i}"
  have fin: "finite ?I" "?I \<noteq> {}"
    using assms by (auto simp: qualifies_def)
  have mem: "last_family vk surf (dev phys) \<in> ?I"
    unfolding last_family_def using Max_in [OF fin] .
  have later: "\<not> {Graphics, Transfer} \<subseteq> family_types vk surf (dev phys) j"
    if "last_family vk surf (dev phys) < j" "j < length (queue_flags vk (dev phys))" for j
    using that Max_ge [OF fin(1), of j] unfolding last_family_def by fastforce
  obtain families where fams: "get_queue_families d vk surf phys = Inr families"
      "families_spec vk surf phys families" "length families = length (queue_flags vk (dev phys))"
    using get_queue_families_ok by blast
  then have "choose_queue_family families = Some (families ! last_family vk surf (dev phys))"
    using mem later by (intro choose_queue_family_last) (auto simp: families_spec_def)
  with fams mem show ?thesis
    by (auto simp: families_spec_def)
qed

lemma filter_eq_find_hd: "filter P xs \<noteq> [] \<Longrightarrow> find P xs = Some (hd (filter P xs))"
  by (induction xs) auto

lemma get_all_devices_ok:
  assumes "physical_devices vk \<noteq> []"
  shows "get_all_devices d vk True = Inr (map (\<lambda>h. \<lparr>dev = h\<rparr>) (physical_devices vk))"
  using assms by (simp add: get_all_devices_def basic_list_add_def fold_snoc_map)

lemma filtered_devices:
  assumes "benign_memory m" "0 \<notin> set (physical_devices vk)"
  shows "and_then (emplace_filter m (DeviceQueueFamilyFilter type_requirements) []) (\<lambda>filters.
      and_then (emplace_filter m (DeviceExtensionSupportFilter (device_extension_list surf)) filters) (\<lambda>filters.
      and_then (filter_all d m vk surf filters (map (\<lambda>h. \<lparr>dev = h\<rparr>) (physical_devices vk))) f)) =
    f (map (\<lambda>h. \<lparr>dev = h\<rparr>) (filter (qualifies vk surf) (physical_devices vk)))"
proof -
  obtain fs1 where fs1: "emplace_filter m (DeviceQueueFamilyFilter type_requirements) [] = Inr fs1"
      "built_by m fs1 [DeviceQueueFamilyFilter type_requirements]"
    using emplace_filter_built [OF built_by_empty] by fastforce
  obtain fs2 where fs2: "emplace_filter m (DeviceExtensionSupportFilter (device_extension_list surf)) fs1 = Inr fs2"
      "built_by m fs2 [DeviceQueueFamilyFilter type_requirements,
         DeviceExtensionSupportFilter (device_extension_list surf)]"
    using emplace_filter_built [OF fs1(2)] by fastforce
  have "\<forall>device \<in> set (map (\<lambda>h. \<lparr>dev = h\<rparr>) (physical_devices vk)). \<not> device_is_null device"
    using assms(2) by (auto simp: device_is_null_def VK_NULL_HANDLE_def intro: gr0I)
  then have "filter_all d m vk surf fs2 (map (\<lambda>h. \<lparr>dev = h\<rparr>) (physical_devices vk)) =
      Inr (map (\<lambda>h. \<lparr>dev = h\<rparr>) (filter (qualifies vk surf) (physical_devices vk)))"
    by (simp add: filter_all_ok [OF assms(1) fs2(2)] filter_map comp_def qualifies_def [abs_def]
        filter_holds_def type_requirements_def)
  with fs1(1) fs2(1) show ?thesis by simp
qed

lemma select_device_found:
  assumes "benign_memory m" "0 \<notin> set (physical_devices vk)"
    and "find (qualifies vk surf) (physical_devices vk) = Some h"
  shows "\<exists>fam. select_device d m vk surf True = Inr (\<lparr>dev = h\<rparr>, fam) \<and> family_dev fam = Some \<lparr>dev = h\<rparr> \<and>
    family_index fam = last_family vk surf h \<and>
    ef_set (types_supported fam) = family_types vk surf h (last_family vk surf h)"
proof -
  have q: "qualifies vk surf h" and ne: "physical_devices vk \<noteq> []"
    using assms(3) by (auto simp: find_Some_iff)
  have "filter (qualifies vk surf) (physical_devices vk) \<noteq> []"
    using assms(3) by (metis filter_empty_conv find_None_iff option.distinct(1))
  moreover have "hd (filter (qualifies vk surf) (physical_devices vk)) = h"
    using filter_eq_find_hd [OF calculation] assms(3) by simp
  ultimately obtain rest where rest: "filter (qualifies vk surf) (physical_devices vk) = h # rest"
    by (cases "filter (qualifies vk surf) (physical_devices vk)") auto
  show ?thesis
    using chosen_family [of vk surf "\<lparr>dev = h\<rparr>" d] q
    by (auto simp: select_device_def get_all_devices_ok [OF ne] filtered_devices [OF assms(1,2)]
        rest basic_list_front_def)
qed

lemma select_device_none:
  assumes "benign_memory m" "0 \<notin> set (physical_devices vk)" "physical_devices vk \<noteq> []"
    and "find (qualifies vk surf) (physical_devices vk) = None"
  shows "select_device d m vk surf True = Inl (if d then AssertionFailure else OutOfBounds)"
proof -
  have "filter (qualifies vk surf) (physical_devices vk) = []"
    using assms(4) by (simp add: find_None_iff filter_empty_conv)
  then show ?thesis
    by (cases d) (simp_all add: select_device_def get_all_devices_ok [OF assms(3)]
        filtered_devices [OF assms(1,2)] basic_list_front_def)
qed

lemma last_family_types:
  assumes "qualifies vk surf h"
  shows "{Graphics, Transfer} \<subseteq> family_types vk surf h (last_family vk surf h)"
proof -
  have "{i. i < length (queue_flags vk h) \<and> {Graphics, Transfer} \<subseteq> family_types vk surf h i} \<noteq> {}"
    using assms by (auto simp: qualifies_def)
  from Max_in [OF _ this] show ?thesis
    by (simp add: last_family_def)
qed


lemma example_families:
  "family_types (example_platform [5, 5]) (Some 7) h 0 = {Graphics, Transfer, Present}"
  "family_types (example_platform [5, 5]) (Some 7) h 1 = {Graphics, Transfer}"
  by (auto simp: family_types_def split: QueueFamilyType.splits)

lemma example_qualifies: "qualifies (example_platform [5, 5]) (Some 7) h"
proof -
  have "\<exists>i < Suc (Suc 0). {Graphics, Transfer} \<subseteq> family_types (example_platform [5, 5]) (Some 7) h i"
    using example_families(1) [of h] by (intro exI [of _ 0]) simp
  then show ?thesis
    by (simp add: qualifies_def device_extension_list_def basic_list_add_def)
qed

lemma example_last: "last_family (example_platform [5, 5]) (Some 7) h = 1"
proof -
  have "{i. i < length (queue_flags (example_platform [5, 5]) h) \<and>
      {Graphics, Transfer} \<subseteq> family_types (example_platform [5, 5]) (Some 7) h i} = {0, 1}"
    using example_families [of h] by (auto simp: less_Suc_eq)
  then show ?thesis by (simp add: last_family_def)
qed


section \<open>Building the device\<close>

definition driver_succeeds :: "vk_device_driver \<Rightarrow> bool" where
  "driver_succeeds drv \<longleftrightarrow>
     (\<forall>h c. create_device drv h c \<noteq> None) \<and> (\<forall>h. create_allocator drv h \<noteq> None) \<and>
     (\<forall>h c. create_swapchain drv h c \<noteq> None) \<and> (\<forall>i f. create_image_view drv i f \<noteq> None) \<and>
     (\<forall>c r. create_image drv c r \<noteq> None)"

lemma created_ok: "res \<noteq> None \<Longrightarrow> created d res = Inr (the res)"
  by auto

lemma logical_device_new_ok:
  assumes "driver_succeeds drv" "family_dev family = Some phys"
  shows "\<exists>ld. logical_device_new d drv family exts = Inr ld \<and> queue_family ld = family"
  using assms by (auto simp: logical_device_new_def deref_device_def created_ok driver_succeeds_def Let_def)

lemma swapchain_image_views_ok:
  assumes "driver_succeeds drv"
  shows "\<exists>views. swapchain_image_views d drv chain f = Inr views \<and>
    length views = length (swapchain_images drv chain)"
proof -
  have "for_each (\<lambda>i views. and_then (created d (create_image_view drv i f))
      (\<lambda>view. Inr (basic_list_add views view))) images acc =
    Inr (acc @ map (\<lambda>i. the (create_image_view drv i f)) images)" for images acc
    using assms
    by (induction images arbitrary: acc) (simp_all add: created_ok driver_succeeds_def basic_list_add_def)
  then show ?thesis
    by (simp add: swapchain_image_views_def)
qed

lemma swapchain_create_info_ok:
  assumes "benign_memory m" "permutes_range srt" "family_dev family = Some \<lparr>dev = h\<rparr>" "h \<noteq> 0"
    and "''VK_KHR_swapchain'' \<in> set (device_extensions vk h)"
    and "{Graphics, Present} \<subseteq> ef_set (types_supported family)"
    and "surface_formats vk h s \<noteq> []" "surface_present_modes vk h s \<noteq> []"
  shows "\<exists>ci. swapchain_create_info d m vk srt (Some s) family s device_preferences = Inr ci \<and>
    create_imageFormat ci \<in> surface_format ` set (surface_formats vk h s) \<and>
    create_presentMode ci \<in> set (surface_present_modes vk h s) \<and>
    create_imageExtent ci = get_real_swap_extent vk (surface_capabilities vk h s)"
proof -
  have nn: "\<not> device_is_null \<lparr>dev = h\<rparr>"
    using assms(4) by (simp add: device_is_null_def VK_NULL_HANDLE_def)
  obtain f where f: "select_swapchain_format_pref srt (surface_formats vk h s) device_format_preferences = Some f"
      "f \<in> set (surface_formats vk h s)"
    using swapchain_selected [OF assms(2), of "surface_formats vk h s"] assms(7) by blast
  obtain p where p: "select_swapchain_present_mode_pref (surface_present_modes vk h s) device_present_preferences = Some p"
      "p \<in> set (surface_present_modes vk h s)"
    using present_mode_selected [OF assms(8)] by blast
  show ?thesis
    using assms f p get_window_swapchain_support_ok [OF assms(1) nn, of vk d s]
    by (auto simp: swapchain_create_info_def deref_device_def device_preferences_def ef_contains_field_iff)
qed


definition example_driver :: vk_device_driver where
  "example_driver = \<lparr>create_device = (\<lambda>h c. Some 10), create_allocator = (\<lambda>h. Some 11),
     create_swapchain = (\<lambda>h c. Some 12), swapchain_images = (\<lambda>c. [20, 21, 22]),
     create_image_view = (\<lambda>i f. Some (i + 10)), create_image = (\<lambda>c r. Some 40)\<rparr>"

lemma example_driver_succeeds: "driver_succeeds example_driver"
  by (simp add: driver_succeeds_def example_driver_def)

lemma rev_permutes: "permutes_range (\<lambda>lt xs. rev xs)"
  by (simp add: permutes_range_def)

lemma example_one_family:
  "qualifies (example_platform [5]) (Some 7) h"
  "last_family (example_platform [5]) (Some 7) h = 0"
  "Present \<in> family_types (example_platform [5]) (Some 7) h 0"
proof -
  have types: "family_types (example_platform [5]) (Some 7) h 0 = {Graphics, Transfer, Present}"
    by (auto simp: family_types_def split: QueueFamilyType.splits)
  then show "Present \<in> family_types (example_platform [5]) (Some 7) h 0" by simp
  show "qualifies (example_platform [5]) (Some 7) h"
    using types by (simp add: qualifies_def device_extension_list_def basic_list_add_def)
  have "{i. i < length (queue_flags (example_platform [5]) h) \<and>
      {Graphics, Transfer} \<subseteq> family_types (example_platform [5]) (Some 7) h i} = {0}"
    using types by auto
  then show "last_family (example_platform [5]) (Some 7) h = 0"
    by (simp add: last_family_def)
qed


lemma swapchain_needs_present:
  assumes "Present \<notin> ef_set (types_supported family)" "family_dev family = Some phys"
    and "get_window_swapchain_support True m vk surf phys = Inr support"
  shows "swapchain_create_info True m vk srt surf family s prefs = Inl AssertionFailure"
  using assms
  by (auto simp: swapchain_create_info_def ef_contains_field_iff deref_device_def tz_assert_def Let_def)



text \<open>
  The number of images a swapchain asks for is the smaller of the surface's two limits: it
  reaches the surface's minimum only when the maximum does, and it is zero for a surface that
  reports no maximum (\<open>maxImageCount = 0\<close>).
\<close>

theorem swapchain_image_count:
  assumes "swapchain_create_info d m vk srt surf family s prefs = Inr ci"
  shows "\<exists>phys support. family_dev family = Some phys \<and>
    get_window_swapchain_support d m vk surf phys = Inr support \<and>
    (minImageCount (capabilities support) \<le> create_minImageCount ci \<longleftrightarrow>
       minImageCount (capabilities support) \<le> maxImageCount (capabilities support)) \<and>
    (maxImageCount (capabilities support) = 0 \<longrightarrow> create_minImageCount ci = 0)"
proof -
  obtain phys support where ps: "family_dev family = Some phys"
      "get_window_swapchain_support d m vk surf phys = Inr support"
    using assms
    by (auto simp: swapchain_create_info_def outcome_simps deref_device_def split: option.splits)
  have "create_minImageCount ci = min (minImageCount (capabilities support)) (maxImageCount (capabilities support))"
    using assms ps by (auto simp: swapchain_create_info_def outcome_simps deref_device_def Let_def)
  with ps show ?thesis by (auto simp: min_def)
qed

theorem swapchain_image_count_witness:
  "\<exists>ci. swapchain_create_info True example_memory
       (example_platform [5]\<lparr>surface_capabilities := \<lambda>h s. \<lparr>minImageCount = 2, maxImageCount = 0,
          currentExtent = \<lparr>extent_width = 640, extent_height = 480\<rparr>,
          minImageExtent = \<lparr>extent_width = 1, extent_height = 1\<rparr>,
          maxImageExtent = \<lparr>extent_width = 4096, extent_height = 4096\<rparr>, currentTransform = 1\<rparr>\<rparr>)
       (\<lambda>lt xs. xs) (Some 7)
       \<lparr>family_dev = Some \<lparr>dev = 1\<rparr>, family_index = 0, types_supported = enum_field_of [Graphics, Present]\<rparr>
       7 device_preferences = Inr ci \<and> create_minImageCount ci = 0"
  (is "\<exists>ci. swapchain_create_info True _ ?vk _ _ ?fam _ _ = _ \<and> _")
proof -
  have perm: "permutes_range (\<lambda>lt xs. xs :: VkSurfaceFormatKHR list)"
    by (simp add: permutes_range_def)
  obtain ci where ci: "swapchain_create_info True example_memory ?vk (\<lambda>lt xs. xs) (Some 7) ?fam 7 device_preferences = Inr ci"
    using swapchain_create_info_ok [OF example_memory_benign perm, of ?fam 1 ?vk 7 True]
    by (auto simp: example_platform_def)
  have "get_window_swapchain_support True example_memory ?vk (Some 7) \<lparr>dev = 1\<rparr> = Inr support \<Longrightarrow>
      maxImageCount (capabilities support) = 0" for support
    using get_window_swapchain_support_ok [OF example_memory_benign, of "\<lparr>dev = 1\<rparr>" ?vk True 7]
    by (auto simp: example_platform_def device_is_null_def VK_NULL_HANDLE_def)
  with swapchain_image_count [OF ci] ci show ?thesis by auto
qed

end
