(* ===== verification/Vk_Frames.thy ===== *)
theory Vk_Frames
  imports Vk_Device
begin

text \<open>
  Frames in flight: \<open>Fence\<close>, \<open>Semaphore\<close>, \<open>Submit\<close>, \<open>Present\<close> and \<open>FrameAdmin\<close> of
  \<open>gl/impl/backend/vk/\<close>.

  The host code is modelled as the sequence of synchronisation calls it makes, one constructor of
  \<open>sync_call\<close> for each Vulkan function.  The queue that executes submissions in parallel with the
  host is the step relation \<open>sync_step\<close>: at any moment it may complete a pending submission, and
  the host makes its next call when that call does not block.  \<open>sync_exec\<close> writes out the
  documented behaviour and the valid-usage rules of those Vulkan functions.
\<close>

section \<open>Synchronisation calls\<close>

datatype sync_call =
    WaitForFence nat
  | ResetFence nat
  | AcquireNextImage nat
  | QueueSubmit "nat list" "nat list" "u32 list" "nat list" nat
  | QueuePresent "nat list" u32
  | DeviceWaitIdle

record sync_driver =
  create_semaphore :: "nat \<Rightarrow> nat option"
  create_fence :: "nat \<Rightarrow> nat option"

section \<open>Fences and submissions\<close>

definition fence_wait_for :: "nat \<Rightarrow> sync_call list" where
  "fence_wait_for fence = [WaitForFence fence]"

definition fence_signal :: "nat \<Rightarrow> sync_call list" where
  "fence_signal fence = [ResetFence fence]"

definition fence_wait_then_signal :: "nat \<Rightarrow> sync_call list" where
  "fence_wait_then_signal fence = fence_wait_for fence @ fence_signal fence"

datatype WaitStage = ColourAttachmentOutput

record Submit =
  wait_semaphore_natives :: "nat list"
  command_buffer_natives :: "nat list"
  signal_semaphore_natives :: "nat list"
  submit_wait_stages :: "u32 list"

definition wait_stage_bit :: "WaitStage \<Rightarrow> u32" where
  "wait_stage_bit stage = (case stage of ColourAttachmentOutput \<Rightarrow> 1024)"

definition submit_new :: "nat list \<Rightarrow> nat list \<Rightarrow> WaitStage list \<Rightarrow> nat list \<Rightarrow> Submit" where
  "submit_new buffers wait_semaphores stages signal_semaphores =
     \<lparr>wait_semaphore_natives = fold (\<lambda>sem natives. natives @ [sem]) wait_semaphores [],
      command_buffer_natives = fold (\<lambda>buf natives. natives @ [buf]) buffers [],
      signal_semaphore_natives = fold (\<lambda>sem natives. natives @ [sem]) signal_semaphores [],
      submit_wait_stages = fold (\<lambda>stage natives. natives @ [wait_stage_bit stage]) stages []\<rparr>"

definition submit_to :: "Submit \<Rightarrow> nat \<Rightarrow> sync_call list" where
  "submit_to self fence = [QueueSubmit (command_buffer_natives self) (wait_semaphore_natives self)
     (submit_wait_stages self) (signal_semaphore_natives self) fence]"

definition present_to :: "bool \<Rightarrow> bool \<Rightarrow> nat list \<Rightarrow> u32 \<Rightarrow> sync_call list outcome" where
  "present_to TZ_DEBUG presented semaphores image_index =
     and_then (tz_assert TZ_DEBUG presented) (\<lambda>_.
     Inr [QueuePresent (fold (\<lambda>sem natives. natives @ [sem]) semaphores []) image_index])"

section \<open>The frame administrator\<close>

text \<open>
  \<open>images_in_flight\<close> holds pointers to elements of \<open>in_flight_fences\<close>; they are indices here.
\<close>

record FrameAdmin =
  frame_depth :: nat
  image_index_at_frame :: "nat list"
  frame_counter :: nat
  cur_image_index :: u32
  image_available_semaphores :: "nat list"
  render_finish_semaphores :: "nat list"
  in_flight_fences :: "nat list"
  images_in_flight :: "nat option list"
  regenerate_function :: "(unit outcome) option"

definition std_size_max :: nat where
  "std_size_max = 2 ^ 64 - 1"

definition frame_admin_new :: "bool \<Rightarrow> sync_driver \<Rightarrow> nat \<Rightarrow> FrameAdmin outcome" where
  "frame_admin_new TZ_DEBUG drv depth =
     for_each (\<lambda>i self.
         and_then (created TZ_DEBUG (create_semaphore drv (2 * i))) (\<lambda>available.
         and_then (created TZ_DEBUG (create_semaphore drv (2 * i + 1))) (\<lambda>finish.
         and_then (created TZ_DEBUG (create_fence drv i)) (\<lambda>fence.
         Inr (self\<lparr>image_available_semaphores := image_available_semaphores self @ [available],
                   render_finish_semaphores := render_finish_semaphores self @ [finish],
                   in_flight_fences := in_flight_fences self @ [fence]\<rparr>)))))
       [0..<depth]
       \<lparr>frame_depth = depth, image_index_at_frame = replicate depth std_size_max, frame_counter = 0,
        cur_image_index = 0, image_available_semaphores = [], render_finish_semaphores = [],
        in_flight_fences = [], images_in_flight = [], regenerate_function = None\<rparr>"

definition set_regeneration_function :: "FrameAdmin \<Rightarrow> unit outcome \<Rightarrow> FrameAdmin" where
  "set_regeneration_function self f = self\<lparr>regenerate_function := Some f\<rparr>"

definition get_image_index :: "FrameAdmin \<Rightarrow> nat" where
  "get_image_index self = unat (cur_image_index self)"

text \<open>Waiting for the fence that guards an image, when one does.\<close>

definition wait_image :: "FrameAdmin \<Rightarrow> nat \<Rightarrow> sync_call list outcome" where
  "wait_image self img =
     and_then (at_index (images_in_flight self) img) (\<lambda>p.
     case p of
       None \<Rightarrow> Inr []
     | Some j \<Rightarrow> and_then (at_index (in_flight_fences self) j) (\<lambda>fence. Inr (fence_wait_for fence)))"

text \<open>The branch of \<open>render_frame\<close> for an acquisition that returned no image.\<close>

definition acquisition_failed :: "bool \<Rightarrow> FrameAdmin \<Rightarrow> AcquireResponseType \<Rightarrow> unit outcome" where
  "acquisition_failed TZ_DEBUG self response = (case response of
       ErrorSwapchainOutOfDate \<Rightarrow>
         (case regenerate_function self of Some f \<Rightarrow> f | None \<Rightarrow> tz_error TZ_DEBUG)
     | _ \<Rightarrow> tz_error TZ_DEBUG)"

definition render_frame ::
    "bool \<Rightarrow> nat \<Rightarrow> nat list \<Rightarrow> WaitStage list \<Rightarrow> VkAcquireAnswer \<Rightarrow> bool \<Rightarrow> FrameAdmin \<Rightarrow>
     (FrameAdmin \<times> sync_call list) outcome" where
  "render_frame TZ_DEBUG view_count command_pool stages answer presented self =
     (let self = (if images_in_flight self = [] then self\<lparr>images_in_flight := replicate view_count None\<rparr>
                  else self);
          i = frame_counter self in
      and_then (at_index (in_flight_fences self) i) (\<lambda>fence.
      and_then (at_index (image_available_semaphores self) i) (\<lambda>available.
      and_then (at_index (render_finish_semaphores self) i) (\<lambda>finish.
      let (index, response) = acquire_next_image_index answer in
      and_then (if index = None then acquisition_failed TZ_DEBUG self response else Inr ()) (\<lambda>_.
      and_then (value_of index) (\<lambda>img.
      let self = self\<lparr>cur_image_index := img\<rparr>;
          cur = unat (cur_image_index self) in
      and_then (wait_image self cur) (\<lambda>waits.
      and_then (set_index (images_in_flight self) cur (Some i)) (\<lambda>in_flight.
      and_then (set_index (image_index_at_frame self) cur i) (\<lambda>at_frame.
      let self = self\<lparr>images_in_flight := in_flight, image_index_at_frame := at_frame\<rparr> in
      and_then (at_index command_pool cur) (\<lambda>command_buffer.
      let submit = submit_new [command_buffer] [available] stages [finish] in
      and_then (present_to TZ_DEBUG presented [finish] img) (\<lambda>present.
      Inr (self\<lparr>frame_counter := (i + 1) mod frame_depth self\<rparr>,
           fence_wait_for fence @ [AcquireNextImage available] @ waits @
           fence_signal fence @ submit_to submit fence @ present))))))))))))"

definition render_frame_headless ::
    "nat list \<Rightarrow> WaitStage list \<Rightarrow> FrameAdmin \<Rightarrow> (FrameAdmin \<times> sync_call list) outcome" where
  "render_frame_headless command_pool stages self =
     (let self = (if images_in_flight self = []
                  then self\<lparr>images_in_flight := replicate (frame_depth self) None\<rparr> else self);
          self = self\<lparr>cur_image_index := of_nat (frame_counter self)\<rparr>;
          i = frame_counter self;
          cur = unat (cur_image_index self) in
      and_then (wait_image self cur) (\<lambda>waits.
      and_then (at_index (in_flight_fences self) i) (\<lambda>fence.
      and_then (set_index (images_in_flight self) cur (Some i)) (\<lambda>in_flight.
      let self = self\<lparr>images_in_flight := in_flight\<rparr> in
      and_then (at_index command_pool cur) (\<lambda>command_buffer.
      let submit = submit_new [command_buffer] [] stages [] in
      Inr (self\<lparr>frame_counter := (i + 1) mod frame_depth self\<rparr>,
           waits @ fence_signal fence @ submit_to submit fence))))))"

definition frame_wait_for :: "FrameAdmin \<Rightarrow> nat \<Rightarrow> sync_call list outcome" where
  "frame_wait_for self cmd_buf_id =
     and_then (at_index (image_index_at_frame self) cmd_buf_id) (\<lambda>image_index.
     if image_index = std_size_max then Inr []
     else and_then (at_index (in_flight_fences self) image_index) (\<lambda>fence. Inr (fence_wait_for fence)))"

definition frame_admin_destroy :: "sync_call list" where
  "frame_admin_destroy = [DeviceWaitIdle]"

section \<open>The queue\<close>

text \<open>
  A pending submission is its command buffers, the semaphores it waits for and its fence.
  Valid usage of the calls: a fence is reset or submitted only when no pending submission
  uses it, and submitted only when it is unsignalled; a command buffer is submitted only when it
  is not pending; a semaphore is handed to an acquisition only when no pending submission waits
  for it; a submission has one stage mask for each semaphore it waits for.
\<close>

record submission =
  sub_commands :: "nat list"
  sub_waits :: "nat list"
  sub_fence :: nat

record queue_state =
  signalled :: "nat set"
  pending :: "submission set"

datatype exec_result = Blocked | Invalid | Done queue_state

definition fence_pending :: "queue_state \<Rightarrow> nat \<Rightarrow> bool" where
  "fence_pending q f \<longleftrightarrow> (\<exists>p \<in> pending q. sub_fence p = f)"

definition command_pending :: "queue_state \<Rightarrow> nat \<Rightarrow> bool" where
  "command_pending q c \<longleftrightarrow> (\<exists>p \<in> pending q. c \<in> set (sub_commands p))"

definition wait_pending :: "queue_state \<Rightarrow> nat \<Rightarrow> bool" where
  "wait_pending q s \<longleftrightarrow> (\<exists>p \<in> pending q. s \<in> set (sub_waits p))"

fun sync_exec :: "sync_call \<Rightarrow> queue_state \<Rightarrow> exec_result" where
  "sync_exec (WaitForFence f) q = (if f \<in> signalled q then Done q else Blocked)"
| "sync_exec (ResetFence f) q =
     (if fence_pending q f then Invalid else Done (q\<lparr>signalled := signalled q - {f}\<rparr>))"
| "sync_exec (AcquireNextImage s) q = (if wait_pending q s then Invalid else Done q)"
| "sync_exec (QueueSubmit cs ws stages ss f) q =
     (if f \<in> signalled q \<or> fence_pending q f \<or> (\<exists>c \<in> set cs. command_pending q c) \<or> length stages < length ws
      then Invalid
      else Done (q\<lparr>pending := insert \<lparr>sub_commands = cs, sub_waits = ws, sub_fence = f\<rparr> (pending q)\<rparr>))"
| "sync_exec (QueuePresent ss i) q = Done q"
| "sync_exec DeviceWaitIdle q = (if pending q = {} then Done q else Blocked)"

definition complete :: "submission \<Rightarrow> queue_state \<Rightarrow> queue_state" where
  "complete p q = \<lparr>signalled = insert (sub_fence p) (signalled q), pending = pending q - {p}\<rparr>"

inductive sync_step :: "sync_call list \<times> queue_state \<Rightarrow> sync_call list \<times> queue_state \<Rightarrow> bool" where
  gpu: "p \<in> pending q \<Longrightarrow> sync_step (cs, q) (cs, complete p q)"
| host: "sync_exec c q = Done q' \<Longrightarrow> sync_step (c # cs, q) (cs, q')"

inductive_cases sync_stepE: "sync_step (cs, q) cfg"

text \<open>
  What a run of calls owes its caller: no call ever breaks a valid-usage rule, whatever the queue
  has completed by then, and the host is never blocked for good: while calls remain, a step is
  possible.
\<close>

definition run_ok :: "sync_call list \<times> queue_state \<Rightarrow> bool" where
  "run_ok cfg \<longleftrightarrow> (\<forall>cs q. sync_step\<^sup>*\<^sup>* cfg (cs, q) \<longrightarrow>
     (cs \<noteq> [] \<longrightarrow> sync_exec (hd cs) q \<noteq> Invalid \<and> (\<exists>cfg'. sync_step (cs, q) cfg')))"

text \<open>Every step uses up a call or a pending submission, so no run goes on for ever.\<close>

definition step_measure :: "sync_call list \<times> queue_state \<Rightarrow> nat" where
  "step_measure cfg = 2 * length (fst cfg) + card (pending (snd cfg))"

lemma sync_exec_pending:
  assumes "sync_exec c q = Done q'" "finite (pending q)"
  shows "finite (pending q') \<and> card (pending q') \<le> Suc (card (pending q))"
  using assms by (cases c) (auto split: if_splits simp: card_insert_if)

lemma sync_step_measure:
  assumes "sync_step cfg cfg'" "finite (pending (snd cfg))"
  shows "finite (pending (snd cfg')) \<and> step_measure cfg' < step_measure cfg"
  using assms
proof (induction rule: sync_step.induct)
  case (gpu p q cs)
  then have "card (pending q - {p}) < card (pending q)"
    by (intro card_Diff1_less) simp_all
  with gpu show ?case by (simp add: complete_def step_measure_def)
next
  case (host c q q' cs)
  then show ?case
    using sync_exec_pending [of c q q'] by (simp add: step_measure_def)
qed

section \<open>Assertions between calls\<close>

text \<open>
  A proof of a call sequence is an assertion in front of every call.  Assertions are stable under
  completion, since the queue may complete submissions at any moment.
\<close>

definition gpu_stable :: "(queue_state \<Rightarrow> bool) \<Rightarrow> bool" where
  "gpu_stable P \<longleftrightarrow> (\<forall>q p. P q \<longrightarrow> p \<in> pending q \<longrightarrow> P (complete p q))"

definition call_ok :: "(queue_state \<Rightarrow> bool) \<Rightarrow> sync_call \<Rightarrow> (queue_state \<Rightarrow> bool) \<Rightarrow> bool" where
  "call_ok P c Q \<longleftrightarrow> (\<forall>q. P q \<longrightarrow> (case sync_exec c q of
     Invalid \<Rightarrow> False | Blocked \<Rightarrow> pending q \<noteq> {} | Done q' \<Rightarrow> Q q'))"

lemma call_ok_post: "call_ok P c Q \<Longrightarrow> (\<And>q. Q q \<Longrightarrow> Q' q) \<Longrightarrow> call_ok P c Q'"
  unfolding call_ok_def by (auto split: exec_result.splits)

inductive calls_ok :: "(queue_state \<Rightarrow> bool) \<Rightarrow> sync_call list \<Rightarrow> (queue_state \<Rightarrow> bool) \<Rightarrow> bool" where
  no_call: "gpu_stable P \<Longrightarrow> calls_ok P [] P"
| next_call: "gpu_stable P \<Longrightarrow> call_ok P c Q \<Longrightarrow> calls_ok Q cs R \<Longrightarrow> calls_ok P (c # cs) R"

inductive_cases calls_ok_NilE: "calls_ok P [] R"
inductive_cases calls_ok_ConsE: "calls_ok P (c # cs) R"

lemma calls_ok_stable: "calls_ok P cs R \<Longrightarrow> gpu_stable P"
  by (cases rule: calls_ok.cases) auto

lemma calls_ok_append: "calls_ok P cs Q \<Longrightarrow> calls_ok Q ds R \<Longrightarrow> calls_ok P (cs @ ds) R"
  by (induction rule: calls_ok.induct) (auto intro: calls_ok.intros)

lemma calls_ok_step:
  assumes "sync_step (cs, q) (cs', q')" "calls_ok P cs R" "P q"
  shows "\<exists>P'. calls_ok P' cs' R \<and> P' q'"
  using assms(1)
proof (cases rule: sync_step.cases)
  case (gpu p)
  then show ?thesis
    using assms(2,3) calls_ok_stable [OF assms(2)] by (auto simp: gpu_stable_def)
next
  case (host c)
  then obtain Q where Q: "call_ok P c Q" "calls_ok Q cs' R"
    using assms(2) by (auto elim: calls_ok_ConsE)
  have "Q q'"
    using Q(1) [unfolded call_ok_def, rule_format, OF assms(3)] host by simp
  with Q(2) show ?thesis by blast
qed

lemma calls_ok_steps:
  assumes "sync_step\<^sup>*\<^sup>* cfg cfg'" "calls_ok P (fst cfg) R" "P (snd cfg)"
  shows "\<exists>P'. calls_ok P' (fst cfg') R \<and> P' (snd cfg')"
  using assms
proof (induction rule: rtranclp_induct)
  case (step y z)
  then show ?case using calls_ok_step [of "fst y" "snd y" "fst z" "snd z"] by auto
qed blast

text \<open>The assertions prove the run, and its last assertion holds at the end.\<close>

lemma calls_ok_run:
  assumes "calls_ok P cs R" "P q"
  shows "run_ok (cs, q)"
  unfolding run_ok_def
proof (intro allI impI)
  fix cs' q' assume run: "sync_step\<^sup>*\<^sup>* (cs, q) (cs', q')" and ne: "cs' \<noteq> []"
  obtain P' where P': "calls_ok P' cs' R" "P' q'"
    using calls_ok_steps [OF run] assms by auto
  then obtain c ds Q where c: "cs' = c # ds" "call_ok P' c Q"
    using ne by (cases cs') (auto elim!: calls_ok_ConsE)
  show "sync_exec (hd cs') q' \<noteq> Invalid \<and> (\<exists>cfg'. sync_step (cs', q') cfg')"
    using c(2) [unfolded call_ok_def, rule_format, OF P'(2)] c(1)
    by (cases "sync_exec c q'") (auto intro: sync_step.host, metis ex_in_conv sync_step.gpu)
qed

lemma calls_ok_final:
  assumes "calls_ok P cs R" "P q" "sync_step\<^sup>*\<^sup>* (cs, q) ([], q')"
  shows "R q'"
  using calls_ok_steps [OF assms(3)] assms(1,2) by (auto elim: calls_ok_NilE)

section \<open>The invariant of frames in flight\<close>

text \<open>
  Every pending submission executes the command buffer of one image, and that image's entry of
  \<open>images_in_flight\<close> is the submission's fence; no two pending submissions share a fence; a fence
  is signalled unless it is pending or, in \<open>X\<close>, reset for the next submission.
\<close>

definition guarded ::
    "nat list \<Rightarrow> nat list \<Rightarrow> nat list \<Rightarrow> nat option list \<Rightarrow> submission \<Rightarrow> bool" where
  "guarded pool fences available imgs p \<longleftrightarrow>
     (\<exists>k j. k < length imgs \<and> k < length pool \<and> imgs ! k = Some j \<and> j < length fences \<and>
        j < length available \<and> sub_commands p = [pool ! k] \<and> sub_fence p = fences ! j \<and>
        set (sub_waits p) \<subseteq> {available ! j})"

definition flight_inv ::
    "nat list \<Rightarrow> nat list \<Rightarrow> nat list \<Rightarrow> nat option list \<Rightarrow> nat set \<Rightarrow> queue_state \<Rightarrow> bool" where
  "flight_inv pool fences available imgs X q \<longleftrightarrow>
     finite (pending q) \<and> inj_on sub_fence (pending q) \<and>
     (\<forall>f \<in> X. \<not> fence_pending q f) \<and>
     signalled q = {f \<in> set fences. \<not> fence_pending q f} - X \<and>
     (\<forall>p \<in> pending q. guarded pool fences available imgs p)"

lemma fence_pending_complete:
  "inj_on sub_fence (pending q) \<Longrightarrow> p \<in> pending q \<Longrightarrow>
    fence_pending (complete p q) f \<longleftrightarrow> fence_pending q f \<and> f \<noteq> sub_fence p"
  by (auto simp: fence_pending_def complete_def inj_on_def)

lemma gpu_stable_conj: "gpu_stable P \<Longrightarrow> gpu_stable Q \<Longrightarrow> gpu_stable (\<lambda>q. P q \<and> Q q)"
  by (simp add: gpu_stable_def)

lemma gpu_stable_fence_free: "gpu_stable (\<lambda>q. \<not> fence_pending q f)"
  by (auto simp: gpu_stable_def fence_pending_def complete_def)

lemma gpu_stable_command_free: "gpu_stable (\<lambda>q. \<not> command_pending q c)"
  by (auto simp: gpu_stable_def command_pending_def complete_def)

lemma gpu_stable_flight_inv: "gpu_stable (flight_inv pool fences available imgs X)"
  unfolding gpu_stable_def
proof (intro allI impI)
  fix q p assume inv: "flight_inv pool fences available imgs X q" and p: "p \<in> pending q"
  have inj: "inj_on sub_fence (pending q)"
    using inv by (simp add: flight_inv_def)
  have "sub_fence p \<in> set fences"
    using inv p by (auto simp: flight_inv_def guarded_def)
  moreover have "sub_fence p \<notin> X"
    using inv p by (auto simp: flight_inv_def fence_pending_def)
  ultimately show "flight_inv pool fences available imgs X (complete p q)"
    using inv p inj_on_diff [OF inj, of "{p}"]
    by (auto simp: flight_inv_def fence_pending_complete [OF inj p]) (auto simp: complete_def)
qed

lemmas flight_stable = gpu_stable_conj gpu_stable_flight_inv gpu_stable_fence_free gpu_stable_command_free

lemma wait_call_ok:
  assumes "f \<in> set fences"
  shows "call_ok (\<lambda>q. flight_inv pool fences available imgs {} q \<and> R q) (WaitForFence f)
    (\<lambda>q. (flight_inv pool fences available imgs {} q \<and> R q) \<and> \<not> fence_pending q f)"
  using assms by (auto simp: call_ok_def flight_inv_def fence_pending_def)

lemma acquire_call_ok:
  assumes "distinct available" "i < length available"
  shows "call_ok (\<lambda>q. flight_inv pool fences available imgs {} q \<and> \<not> fence_pending q (fences ! i))
    (AcquireNextImage (available ! i))
    (\<lambda>q. flight_inv pool fences available imgs {} q \<and> \<not> fence_pending q (fences ! i))"
proof -
  have "\<not> wait_pending q (available ! i)"
    if "flight_inv pool fences available imgs {} q" "\<not> fence_pending q (fences ! i)" for q
  proof
    assume "wait_pending q (available ! i)"
    then obtain p where p: "p \<in> pending q" "available ! i \<in> set (sub_waits p)"
      by (auto simp: wait_pending_def)
    then have "guarded pool fences available imgs p"
      using \<open>flight_inv pool fences available imgs {} q\<close> by (simp add: flight_inv_def)
    then obtain j where "j < length available" "sub_fence p = fences ! j" "set (sub_waits p) \<subseteq> {available ! j}"
      unfolding guarded_def by blast
    then have "j < length available" "sub_fence p = fences ! j" "available ! i = available ! j"
      using p(2) by auto
    then have "sub_fence p = fences ! i"
      using assms by (simp add: nth_eq_iff_index_eq)
    with p(1) \<open>\<not> fence_pending q (fences ! i)\<close> show False
      by (auto simp: fence_pending_def)
  qed
  then show ?thesis by (auto simp: call_ok_def)
qed

lemma image_free:
  assumes "flight_inv pool fences available imgs X q" "distinct pool" "c < length imgs" "c < length pool"
    and "\<And>j. imgs ! c = Some j \<Longrightarrow> \<not> fence_pending q (fences ! j)"
  shows "\<not> command_pending q (pool ! c)"
proof
  assume "command_pending q (pool ! c)"
  then obtain p where p: "p \<in> pending q" "pool ! c \<in> set (sub_commands p)"
    by (auto simp: command_pending_def)
  then have "guarded pool fences available imgs p"
    using assms(1) by (simp add: flight_inv_def)
  then obtain k j where "k < length pool" "imgs ! k = Some j" "sub_commands p = [pool ! k]" "sub_fence p = fences ! j"
    unfolding guarded_def by blast
  moreover have "k = c"
    using calculation p(2) assms(2,4) by (simp add: nth_eq_iff_index_eq)
  ultimately show False
    using assms(5) p(1) by (auto simp: fence_pending_def)
qed

lemma reset_call_ok:
  assumes "f \<in> set fences"
  shows "call_ok (\<lambda>q. (flight_inv pool fences available imgs {} q \<and> \<not> fence_pending q f) \<and> R (pending q))
    (ResetFence f)
    (\<lambda>q. (flight_inv pool fences available imgs {f} q \<and> \<not> fence_pending q f) \<and> R (pending q))"
  using assms by (auto simp: call_ok_def flight_inv_def fence_pending_def)

lemma guarded_update:
  assumes "guarded pool fences available imgs p" "distinct pool" "c < length imgs" "c < length pool"
    and "pool ! c \<notin> set (sub_commands p)"
  shows "guarded pool fences available (imgs[c := Some i]) p"
  using assms unfolding guarded_def
  by (metis (no_types, lifting) length_list_update list.set_intros(1) nth_list_update_neq)

lemma submit_call_ok:
  assumes "distinct pool" "c < length imgs" "c < length pool" "i < length fences" "i < length available"
    and "set ws \<subseteq> {available ! i}" "length ws \<le> length stages"
  shows "call_ok (\<lambda>q. (flight_inv pool fences available imgs {fences ! i} q \<and> \<not> fence_pending q (fences ! i)) \<and>
      \<not> command_pending q (pool ! c))
    (QueueSubmit [pool ! c] ws stages ss (fences ! i))
    (flight_inv pool fences available (imgs[c := Some i]) {})"
proof -
  let ?new = "\<lparr>sub_commands = [pool ! c], sub_waits = ws, sub_fence = fences ! i\<rparr>"
  have "flight_inv pool fences available (imgs[c := Some i]) {} (q\<lparr>pending := insert ?new (pending q)\<rparr>)"
    if inv: "flight_inv pool fences available imgs {fences ! i} q" and f: "\<not> fence_pending q (fences ! i)"
      and c: "\<not> command_pending q (pool ! c)" for q
  proof -
    have "guarded pool fences available (imgs[c := Some i]) p" if "p \<in> pending q" for p
      using that inv c assms(1-3) by (intro guarded_update) (auto simp: flight_inv_def command_pending_def)
    moreover have "guarded pool fences available (imgs[c := Some i]) ?new"
      unfolding guarded_def using assms by (intro exI [of _ c] exI [of _ i]) simp
    moreover have "fences ! i \<notin> sub_fence ` pending q"
      using f by (auto simp: fence_pending_def)
    ultimately show ?thesis
      using inv assms(4) by (auto simp: flight_inv_def fence_pending_def)
  qed
  moreover have "fences ! i \<notin> signalled q" if "flight_inv pool fences available imgs {fences ! i} q" for q
    using that by (simp add: flight_inv_def)
  ultimately show ?thesis
    using assms(7) by (auto simp: call_ok_def)
qed

section \<open>Frames\<close>

text \<open>The table of images, as \<open>render_frame\<close> sees it after its first statement.\<close>

definition image_table :: "nat \<Rightarrow> FrameAdmin \<Rightarrow> nat option list" where
  "image_table n a = (if images_in_flight a = [] then replicate n None else images_in_flight a)"

definition admin_inv :: "nat \<Rightarrow> nat list \<Rightarrow> FrameAdmin \<Rightarrow> queue_state \<Rightarrow> bool" where
  "admin_inv n pool a =
     flight_inv pool (in_flight_fences a) (image_available_semaphores a) (image_table n a) {}"

definition admin_wf :: "nat \<Rightarrow> FrameAdmin \<Rightarrow> bool" where
  "admin_wf n a \<longleftrightarrow>
     frame_counter a < frame_depth a \<and> length (in_flight_fences a) = frame_depth a \<and>
     length (image_available_semaphores a) = frame_depth a \<and>
     length (render_finish_semaphores a) = frame_depth a \<and>
     length (image_index_at_frame a) = frame_depth a \<and>
     distinct (in_flight_fences a) \<and> distinct (image_available_semaphores a) \<and>
     frame_depth a < std_size_max \<and> length (image_table n a) = n \<and>
     (\<forall>k < n. \<forall>j. image_table n a ! k = Some j \<longrightarrow> j < frame_depth a) \<and>
     (\<forall>k < min n (frame_depth a). image_index_at_frame a ! k =
        (case image_table n a ! k of None \<Rightarrow> std_size_max | Some j \<Rightarrow> j))"

definition same_sync :: "FrameAdmin \<Rightarrow> FrameAdmin \<Rightarrow> bool" where
  "same_sync a a' \<longleftrightarrow> in_flight_fences a' = in_flight_fences a \<and> frame_depth a' = frame_depth a \<and>
     image_available_semaphores a' = image_available_semaphores a"

lemma wait_image_ok:
  assumes "c < length (images_in_flight a)"
    and "\<And>j. images_in_flight a ! c = Some j \<Longrightarrow> j < length (in_flight_fences a)"
  shows "wait_image a c = Inr (case images_in_flight a ! c of None \<Rightarrow> []
    | Some j \<Rightarrow> [WaitForFence (in_flight_fences a ! j)])"
  using assms by (simp add: wait_image_def fence_wait_for_def split: option.splits)

lemma wait_image_calls:
  assumes "\<And>j. imgs ! c = Some j \<Longrightarrow> fences ! j \<in> set fences"
    and "distinct pool" "c < length imgs" "c < length pool" and R: "gpu_stable R"
    and rest: "calls_ok (\<lambda>q. (flight_inv pool fences available imgs {} q \<and> R q) \<and> \<not> command_pending q (pool ! c)) cs S"
  shows "calls_ok (\<lambda>q. flight_inv pool fences available imgs {} q \<and> R q)
    ((case imgs ! c of None \<Rightarrow> [] | Some j \<Rightarrow> [WaitForFence (fences ! j)]) @ cs) S"
proof (cases "imgs ! c")
  case None
  have free: "\<not> command_pending q (pool ! c)" if "flight_inv pool fences available imgs {} q" for q
    using image_free [OF that assms(2-4)] None by simp
  have "(\<lambda>q. (flight_inv pool fences available imgs {} q \<and> R q) \<and> \<not> command_pending q (pool ! c)) =
      (\<lambda>q. flight_inv pool fences available imgs {} q \<and> R q)"
    using free by blast
  then show ?thesis using rest None by simp
next
  case (Some j)
  have "call_ok (\<lambda>q. flight_inv pool fences available imgs {} q \<and> R q) (WaitForFence (fences ! j))
      (\<lambda>q. (flight_inv pool fences available imgs {} q \<and> R q) \<and> \<not> command_pending q (pool ! c))"
  proof (rule call_ok_post [OF wait_call_ok [OF assms(1) [OF Some]]])
    fix q assume q: "(flight_inv pool fences available imgs {} q \<and> R q) \<and> \<not> fence_pending q (fences ! j)"
    with image_free [OF _ assms(2-4), of fences available "{}" q] Some
    show "(flight_inv pool fences available imgs {} q \<and> R q) \<and> \<not> command_pending q (pool ! c)"
      by auto
  qed
  from calls_ok.next_call [OF _ this rest] Some R show ?thesis
    by (simp add: flight_stable)
qed

lemma render_frame_calls_ok:
  assumes "distinct pool" "distinct available" "c < length imgs" "c < length pool"
    and "i < length fences" "i < length available" "1 \<le> length stages"
    and "\<And>j. imgs ! c = Some j \<Longrightarrow> fences ! j \<in> set fences"
  shows "calls_ok (flight_inv pool fences available imgs {})
    ([WaitForFence (fences ! i), AcquireNextImage (available ! i)] @
     (case imgs ! c of None \<Rightarrow> [] | Some j \<Rightarrow> [WaitForFence (fences ! j)]) @
     [ResetFence (fences ! i), QueueSubmit [pool ! c] [available ! i] stages ss (fences ! i), QueuePresent ps img])
    (flight_inv pool fences available (imgs[c := Some i]) {})"
proof -
  let ?I = "flight_inv pool fences available imgs"
  let ?free = "\<lambda>q. \<not> fence_pending q (fences ! i)"
  have i: "fences ! i \<in> set fences" using assms(5) by simp
  let ?J = "flight_inv pool fences available (imgs[c := Some i]) {}"
  let ?own = "\<lambda>q. \<not> command_pending q (pool ! c)"
  have present: "calls_ok ?J [QueuePresent ps img] ?J"
    by (rule calls_ok.next_call [OF gpu_stable_flight_inv _ calls_ok.no_call [OF gpu_stable_flight_inv]])
      (simp add: call_ok_def)
  have "call_ok (\<lambda>q. (?I {fences ! i} q \<and> ?free q) \<and> ?own q)
      (QueueSubmit [pool ! c] [available ! i] stages ss (fences ! i)) ?J"
    using assms(7) by (intro submit_call_ok assms(1,3-6)) simp_all
  from calls_ok.next_call [OF _ this present]
  have submit: "calls_ok (\<lambda>q. (?I {fences ! i} q \<and> ?free q) \<and> ?own q)
      [QueueSubmit [pool ! c] [available ! i] stages ss (fences ! i), QueuePresent ps img] ?J"
    by (simp add: flight_stable)
  have "call_ok (\<lambda>q. (?I {} q \<and> ?free q) \<and> ?own q) (ResetFence (fences ! i))
      (\<lambda>q. (?I {fences ! i} q \<and> ?free q) \<and> ?own q)"
    using reset_call_ok [OF i, of pool available imgs "\<lambda>P. \<not> (\<exists>p \<in> P. pool ! c \<in> set (sub_commands p))"]
    by (simp add: command_pending_def)
  from calls_ok.next_call [OF _ this submit]
  have "calls_ok (\<lambda>q. (?I {} q \<and> ?free q) \<and> ?own q)
      [ResetFence (fences ! i), QueueSubmit [pool ! c] [available ! i] stages ss (fences ! i), QueuePresent ps img] ?J"
    by (simp add: flight_stable)
  from wait_image_calls [OF assms(8) assms(1,3,4) gpu_stable_fence_free this]
  have wait: "calls_ok (\<lambda>q. ?I {} q \<and> ?free q)
      ((case imgs ! c of None \<Rightarrow> [] | Some j \<Rightarrow> [WaitForFence (fences ! j)]) @
      [ResetFence (fences ! i), QueueSubmit [pool ! c] [available ! i] stages ss (fences ! i), QueuePresent ps img]) ?J" .
  from calls_ok.next_call [OF _ acquire_call_ok [OF assms(2,6)] wait]
  have acquire: "calls_ok (\<lambda>q. ?I {} q \<and> ?free q) (AcquireNextImage (available ! i) #
      (case imgs ! c of None \<Rightarrow> [] | Some j \<Rightarrow> [WaitForFence (fences ! j)]) @
      [ResetFence (fences ! i), QueueSubmit [pool ! c] [available ! i] stages ss (fences ! i), QueuePresent ps img]) ?J"
    by (simp add: flight_stable)
  have "call_ok (?I {}) (WaitForFence (fences ! i)) (\<lambda>q. ?I {} q \<and> ?free q)"
    using wait_call_ok [OF i, of pool available imgs "\<lambda>q. True"] by simp
  from calls_ok.next_call [OF gpu_stable_flight_inv this acquire] show ?thesis by simp
qed

definition frame_calls :: "nat \<Rightarrow> nat list \<Rightarrow> WaitStage list \<Rightarrow> u32 \<Rightarrow> FrameAdmin \<Rightarrow> sync_call list" where
  "frame_calls n pool stages img a =
     (let i = frame_counter a; fence = in_flight_fences a ! i; available = image_available_semaphores a ! i;
          finish = render_finish_semaphores a ! i in
      [WaitForFence fence, AcquireNextImage available] @
      (case image_table n a ! unat img of None \<Rightarrow> [] | Some j \<Rightarrow> [WaitForFence (in_flight_fences a ! j)]) @
      [ResetFence fence, QueueSubmit [pool ! unat img] [available] (map wait_stage_bit stages) [finish] fence,
       QueuePresent [finish] img])"

definition frame_after :: "nat \<Rightarrow> u32 \<Rightarrow> FrameAdmin \<Rightarrow> FrameAdmin" where
  "frame_after n img a = a\<lparr>cur_image_index := img,
     images_in_flight := (image_table n a)[unat img := Some (frame_counter a)],
     image_index_at_frame := (image_index_at_frame a)[unat img := frame_counter a],
     frame_counter := (frame_counter a + 1) mod frame_depth a\<rparr>"

lemma fold_snoc_id: "fold (\<lambda>x acc. acc @ [x]) xs acc = acc @ xs"
  by (induction xs arbitrary: acc) simp_all

lemma render_frame_eq:
  assumes "admin_wf n a" "unat img < n" "unat img < frame_depth a" "n \<le> length pool"
  shows "render_frame d n pool stages (VkSuccess img) True a =
    Inr (frame_after n img a, frame_calls n pool stages img a)"
proof -
  have b: "(if images_in_flight a = [] then a\<lparr>images_in_flight := replicate n None\<rparr> else a) = a\<lparr>images_in_flight := image_table n a\<rparr>"
    by (simp add: image_table_def)
  have table: "unat img < length (image_table n a)"
    using assms by (simp add: admin_wf_def)
  have "wait_image (a\<lparr>images_in_flight := image_table n a, cur_image_index := img\<rparr>) (unat img) =
      Inr (case image_table n a ! unat img of None \<Rightarrow> [] | Some j \<Rightarrow> [WaitForFence (in_flight_fences a ! j)])"
    using assms by (subst wait_image_ok) (auto simp: admin_wf_def cong: option.case_cong)
  then show ?thesis
    using assms table unfolding render_frame_def b
    by (simp add: admin_wf_def acquire_next_image_index_def present_to_def submit_new_def submit_to_def
        fence_wait_for_def fence_signal_def fold_snoc_id fold_snoc_map frame_after_def frame_calls_def Let_def)
qed

lemma image_table_after:
  assumes "admin_wf n a" "unat img < n"
  shows "image_table n (frame_after n img a) = (image_table n a)[unat img := Some (frame_counter a)]"
  using assms by (auto simp: image_table_def frame_after_def admin_wf_def split: if_splits)

lemma frame_after_wf:
  assumes "admin_wf n a" "unat img < n" "unat img < frame_depth a"
  shows "admin_wf n (frame_after n img a)"
proof -
  have table: "image_table n (frame_after n img a) = (image_table n a)[unat img := Some (frame_counter a)]"
    using image_table_after [OF assms(1,2)] .
  show ?thesis
    using assms unfolding admin_wf_def table
    by (auto simp: frame_after_def nth_list_update split: option.splits)
qed

lemma frame_after_inv:
  assumes "admin_wf n a" "distinct pool" "n \<le> length pool" "unat img < n" "unat img < frame_depth a" "stages \<noteq> []"
  shows "calls_ok (admin_inv n pool a) (frame_calls n pool stages img a) (admin_inv n pool (frame_after n img a))"
proof -
  have stages: "1 \<le> length (map wait_stage_bit stages)"
    using assms(6) by (cases stages) simp_all
  have "admin_inv n pool (frame_after n img a) = flight_inv pool (in_flight_fences a) (image_available_semaphores a)
      ((image_table n a)[unat img := Some (frame_counter a)]) {}"
    by (simp add: admin_inv_def image_table_after [OF assms(1,4)]) (simp add: frame_after_def)
  then show ?thesis
    using assms unfolding admin_inv_def frame_calls_def Let_def
    by (simp only:) (intro render_frame_calls_ok stages; force simp: admin_wf_def)
qed

text \<open>Frame after frame, each with the image the presentation engine returned for it.\<close>

primrec run_frames ::
    "bool \<Rightarrow> nat \<Rightarrow> nat list \<Rightarrow> WaitStage list \<Rightarrow> u32 list \<Rightarrow> FrameAdmin \<Rightarrow> (FrameAdmin \<times> sync_call list) outcome" where
  "run_frames TZ_DEBUG n pool stages [] a = Inr (a, [])"
| "run_frames TZ_DEBUG n pool stages (img # imgs) a =
     and_then (render_frame TZ_DEBUG n pool stages (VkSuccess img) True a) (\<lambda>(a, calls).
     and_then (run_frames TZ_DEBUG n pool stages imgs a) (\<lambda>(a, calls'). Inr (a, calls @ calls')))"

lemma run_frames_ok:
  assumes "admin_wf n a" "distinct pool" "n \<le> length pool" "stages \<noteq> []"
    and "\<forall>img \<in> set imgs. unat img < n \<and> unat img < frame_depth a"
  shows "\<exists>a' calls. run_frames d n pool stages imgs a = Inr (a', calls) \<and> admin_wf n a' \<and>
    frame_depth a' = frame_depth a \<and> calls_ok (admin_inv n pool a) calls (admin_inv n pool a')"
  using assms(1,5)
proof (induction imgs arbitrary: a)
  case Nil
  then show ?case
    by (auto simp: admin_inv_def intro: calls_ok.no_call gpu_stable_flight_inv)
next
  case (Cons img imgs)
  then have img: "unat img < n" "unat img < frame_depth a" by simp_all
  have depth: "frame_depth (frame_after n img a) = frame_depth a"
    by (simp add: frame_after_def)
  obtain a' calls where IH: "run_frames d n pool stages imgs (frame_after n img a) = Inr (a', calls)" "admin_wf n a'"
      "frame_depth a' = frame_depth a"
      "calls_ok (admin_inv n pool (frame_after n img a)) calls (admin_inv n pool a')"
    using Cons.IH [OF frame_after_wf [OF Cons.prems(1) img]] Cons.prems(2) depth by auto
  then show ?case
    using calls_ok_append [OF frame_after_inv [OF Cons.prems(1) assms(2,3) img assms(4)] IH(4)]
    by (simp add: render_frame_eq [OF Cons.prems(1) img assms(3)])
qed

section \<open>What the administrator guarantees\<close>

text \<open>Documented of Vulkan: creations succeed and return handles that differ from each other.\<close>

definition sync_driver_documented :: "sync_driver \<Rightarrow> bool" where
  "sync_driver_documented drv \<longleftrightarrow>
     (\<forall>k. create_semaphore drv k \<noteq> None \<and> create_fence drv k \<noteq> None) \<and>
     inj (create_semaphore drv) \<and> inj (create_fence drv)"

lemma frame_admin_new_eq:
  assumes "sync_driver_documented drv"
  shows "frame_admin_new d drv depth = Inr
    \<lparr>frame_depth = depth, image_index_at_frame = replicate depth std_size_max, frame_counter = 0,
     cur_image_index = 0,
     image_available_semaphores = map (\<lambda>i. the (create_semaphore drv (2 * i))) [0..<depth],
     render_finish_semaphores = map (\<lambda>i. the (create_semaphore drv (2 * i + 1))) [0..<depth],
     in_flight_fences = map (\<lambda>i. the (create_fence drv i)) [0..<depth],
     images_in_flight = [], regenerate_function = None\<rparr>"
  unfolding frame_admin_new_def
  using assms
  by (intro for_range_closed_form [where F = "\<lambda>k.
       \<lparr>frame_depth = depth, image_index_at_frame = replicate depth std_size_max, frame_counter = 0,
        cur_image_index = 0,
        image_available_semaphores = map (\<lambda>i. the (create_semaphore drv (2 * i))) [0..<k],
        render_finish_semaphores = map (\<lambda>i. the (create_semaphore drv (2 * i + 1))) [0..<k],
        in_flight_fences = map (\<lambda>i. the (create_fence drv i)) [0..<k],
        images_in_flight = [], regenerate_function = None\<rparr>"])
    (auto simp: sync_driver_documented_def created_ok)

lemma inj_the: "(\<And>k. f k \<noteq> None) \<Longrightarrow> inj f \<Longrightarrow> inj (\<lambda>k. the (f k))"
  by (metis (no_types, lifting) injD injI option.expand)

lemma frame_admin_new_wf:
  assumes "sync_driver_documented drv" "0 < depth" "depth < std_size_max"
  shows "\<exists>a. frame_admin_new d drv depth = Inr a \<and> admin_wf n a \<and> frame_depth a = depth \<and> images_in_flight a = []"
proof -
  have fences: "inj (\<lambda>i. the (create_fence drv i))" and sems: "inj (\<lambda>i. the (create_semaphore drv i))"
    using assms(1) inj_the [of "create_fence drv"] inj_the [of "create_semaphore drv"]
    by (simp_all add: sync_driver_documented_def)
  have "inj_on (\<lambda>i. the (create_fence drv i)) {0..<depth}"
    by (rule inj_on_subset [OF fences]) simp
  moreover have "inj_on (\<lambda>i. the (create_semaphore drv (2 * i))) {0..<depth}"
    by (intro inj_onI) (drule injD [OF sems], simp)
  ultimately show ?thesis
    using assms(2,3)
    by (simp add: frame_admin_new_eq [OF assms(1)] admin_wf_def image_table_def distinct_map)
qed

definition idle_queue :: "FrameAdmin \<Rightarrow> queue_state" where
  "idle_queue a = \<lparr>signalled = set (in_flight_fences a), pending = {}\<rparr>"

lemma idle_queue_inv: "admin_inv n pool a (idle_queue a)"
  by (simp add: admin_inv_def flight_inv_def idle_queue_def fence_pending_def)

lemma card_pending_le:
  assumes "flight_inv pool fences available imgs X q"
  shows "card (pending q) \<le> length fences"
proof -
  have "sub_fence ` pending q \<subseteq> set fences"
    using assms by (auto simp: flight_inv_def guarded_def)
  then have "card (sub_fence ` pending q) \<le> card (set fences)"
    by (intro card_mono) simp_all
  also have "\<dots> \<le> length fences" by (rule card_length)
  finally show ?thesis
    using assms by (simp add: flight_inv_def card_image)
qed


declare run_frames.simps [simp del]

definition example_sync :: sync_driver where
  "example_sync = \<lparr>create_semaphore = (\<lambda>k. Some (100 + k)), create_fence = (\<lambda>k. Some (10 + k))\<rparr>"

lemma example_sync_documented: "sync_driver_documented example_sync"
  by (simp add: sync_driver_documented_def example_sync_def inj_def)

lemma two_below_size_max: "2 < std_size_max"
  by (simp add: std_size_max_def)


lemma run_ok_step: "run_ok cfg \<Longrightarrow> sync_step cfg cfg' \<Longrightarrow> run_ok cfg'"
  unfolding run_ok_def by (meson converse_rtranclp_into_rtranclp)

lemma run_ok_steps: "sync_step\<^sup>*\<^sup>* cfg cfg' \<Longrightarrow> run_ok cfg \<Longrightarrow> run_ok cfg'"
  by (induction rule: rtranclp_induct) (auto intro: run_ok_step)

lemma finite_pending_steps:
  "sync_step\<^sup>*\<^sup>* cfg cfg' \<Longrightarrow> finite (pending (snd cfg)) \<Longrightarrow> finite (pending (snd cfg'))"
  by (induction rule: rtranclp_induct) (auto dest: sync_step_measure)

lemma run_ok_finishes:
  assumes "run_ok cfg" "finite (pending (snd cfg))"
  shows "\<exists>q. sync_step\<^sup>*\<^sup>* cfg ([], q)"
  using assms
proof (induction "step_measure cfg" arbitrary: cfg rule: less_induct)
  case less
  show ?case
  proof (cases "fst cfg = []")
    case True
    then show ?thesis by (metis prod.collapse rtranclp.rtrancl_refl)
  next
    case False
    then obtain cfg' where step: "sync_step cfg cfg'"
      using less.prems(1) unfolding run_ok_def by (metis prod.collapse rtranclp.rtrancl_refl)
    with less.prems sync_step_measure [OF step] obtain q where "sync_step\<^sup>*\<^sup>* cfg' ([], q)"
      using less.hyps run_ok_step by blast
    with step show ?thesis by (meson converse_rtranclp_into_rtranclp)
  qed
qed

lemma no_infinite_run:
  assumes "finite (pending (snd (f 0)))" "\<And>k. sync_step (f k) (f (Suc k))"
  shows False
proof -
  have fin: "finite (pending (snd (f k)))" for k
    by (induction k) (use assms sync_step_measure in blast)+
  have "step_measure (f k) + k \<le> step_measure (f 0)" for k
  proof (induction k)
    case (Suc k)
    with sync_step_measure [OF assms(2) fin, of k] show ?case by linarith
  qed simp
  from this [of "Suc (step_measure (f 0))"] show False by simp
qed

text \<open>
  C7. Frames always finish: whatever the interleaving, the host is never blocked for good.  From
  every state that the calls and the queue can reach, the remaining calls can be carried out,
  and no run goes on for ever.
\<close>

theorem frames_always_finish:
  assumes "sync_driver_documented drv" and "0 < depth" and "depth < std_size_max"
    and "distinct pool" and "n \<le> length pool" and "stages \<noteq> []"
    and "\<forall>img \<in> set imgs. unat img < n \<and> unat img < depth"
  shows "\<exists>a a' calls. frame_admin_new d drv depth = Inr a \<and>
    run_frames d n pool stages imgs a = Inr (a', calls) \<and>
    (\<forall>cfg. sync_step\<^sup>*\<^sup>* (calls, idle_queue a) cfg \<longrightarrow> (\<exists>q. sync_step\<^sup>*\<^sup>* cfg ([], q))) \<and>
    (\<nexists>run. run 0 = (calls, idle_queue a) \<and> (\<forall>k. sync_step (run k) (run (Suc k))))"
proof -
  obtain a where a: "frame_admin_new d drv depth = Inr a" "admin_wf n a" "frame_depth a = depth"
    using frame_admin_new_wf [OF assms(1-3)] by blast
  obtain a' calls where run: "run_frames d n pool stages imgs a = Inr (a', calls)"
      "calls_ok (admin_inv n pool a) calls (admin_inv n pool a')"
    using run_frames_ok [OF a(2) assms(4-6)] assms(7) a(3) by blast
  have ok: "run_ok (calls, idle_queue a)" and fin: "finite (pending (snd (calls, idle_queue a)))"
    using calls_ok_run [OF run(2) idle_queue_inv] by (simp_all add: idle_queue_def)
  have "\<exists>q. sync_step\<^sup>*\<^sup>* cfg ([], q)" if "sync_step\<^sup>*\<^sup>* (calls, idle_queue a) cfg" for cfg
    using run_ok_finishes [OF run_ok_steps [OF that ok] finite_pending_steps [OF that fin]] .
  moreover have "\<nexists>run. run 0 = (calls, idle_queue a) \<and> (\<forall>k. sync_step (run k) (run (Suc k)))"
    using no_infinite_run fin by metis
  ultimately show ?thesis
    using a(1) run(1) by blast
qed

theorem frames_always_finish_witness:
  "\<exists>a a' calls q. frame_admin_new True example_sync 2 = Inr a \<and>
     run_frames True 2 [1, 2] [ColourAttachmentOutput] [1, 1, 1] a = Inr (a', calls) \<and>
     sync_step\<^sup>*\<^sup>* (calls, idle_queue a) ([], q)"
proof -
  have "\<forall>img \<in> set [1, 1, 1 :: u32]. unat img < 2 \<and> unat img < 2" by simp
  from frames_always_finish [OF example_sync_documented _ two_below_size_max _ _ _ this,
      of "[1, 2]" "[ColourAttachmentOutput]" True]
  show ?thesis by fastforce
qed

lemma frame_wait_for_ok:
  assumes "admin_wf n a" "distinct pool" "n \<le> length pool" "c < n" "c < frame_depth a"
  shows "\<exists>calls. frame_wait_for a c = Inr calls \<and>
    calls_ok (admin_inv n pool a) calls (\<lambda>q. admin_inv n pool a q \<and> \<not> command_pending q (pool ! c))"
proof -
  let ?imgs = "image_table n a"
  let ?calls = "case ?imgs ! c of None \<Rightarrow> [] | Some j \<Rightarrow> [WaitForFence (in_flight_fences a ! j)]"
  have at: "image_index_at_frame a ! c = (case ?imgs ! c of None \<Rightarrow> std_size_max | Some j \<Rightarrow> j)"
    and j: "\<And>j. ?imgs ! c = Some j \<Longrightarrow> j < frame_depth a"
    using assms by (auto simp: admin_wf_def)
  have "frame_wait_for a c = Inr ?calls"
    using assms(1,5) at j
    by (auto simp: frame_wait_for_def admin_wf_def fence_wait_for_def split: option.splits)
  moreover have "calls_ok (\<lambda>q. admin_inv n pool a q \<and> True) (?calls @ [])
      (\<lambda>q. (admin_inv n pool a q \<and> True) \<and> \<not> command_pending q (pool ! c))"
    unfolding admin_inv_def
    by (rule wait_image_calls)
      (use assms j in \<open>auto simp: admin_wf_def gpu_stable_def [of "\<lambda>q. True"]
        intro!: calls_ok.no_call flight_stable\<close>)
  ultimately show ?thesis by simp
qed



text \<open>
  C38. An image at or beyond the frame depth writes past the end of \<open>image_index_at_frame\<close>, which
  has one entry for every frame in flight and is indexed by swapchain image.
\<close>

theorem render_frame_image_beyond_depth:
  assumes "admin_wf n a" and "unat img < n" and "frame_depth a \<le> unat img"
  shows "render_frame d n pool stages (VkSuccess img) presented a = Inl OutOfBounds"
proof -
  have b: "(if images_in_flight a = [] then a\<lparr>images_in_flight := replicate n None\<rparr> else a) = a\<lparr>images_in_flight := image_table n a\<rparr>"
    by (simp add: image_table_def)
  have "wait_image (a\<lparr>images_in_flight := image_table n a, cur_image_index := img\<rparr>) (unat img) =
      Inr (case image_table n a ! unat img of None \<Rightarrow> [] | Some j \<Rightarrow> [WaitForFence (in_flight_fences a ! j)])"
    using assms by (subst wait_image_ok) (auto simp: admin_wf_def cong: option.case_cong)
  then show ?thesis
    using assms unfolding render_frame_def b
    by (simp add: admin_wf_def acquire_next_image_index_def Let_def)
qed

theorem render_frame_image_beyond_depth_witness:
  "\<exists>a. frame_admin_new True example_sync 2 = Inr a \<and>
     render_frame True 3 [1, 2, 3] [ColourAttachmentOutput] (VkSuccess 2) True a = Inl OutOfBounds"
proof -
  obtain a where a: "frame_admin_new True example_sync 2 = Inr a" "admin_wf 3 a" "frame_depth a = 2"
    using frame_admin_new_wf [OF example_sync_documented _ two_below_size_max, of True 3] by auto
  have "unat (2 :: u32) < 3" "frame_depth a \<le> unat (2 :: u32)" by (simp_all add: a(3))
  from render_frame_image_beyond_depth [OF a(2) this] a(1) show ?thesis by blast
qed

text \<open>
  C39. A frame whose acquisition finds the swapchain out of date never renders and never returns
  normally: whatever the regeneration function does, the administrator goes on to read the index
  the acquisition did not give.
\<close>

theorem out_of_date_never_returns:
  "\<exists>e. render_frame d n pool stages VkErrorOutOfDate presented a = Inl e \<and>
     (admin_wf n a \<and> regenerate_function a = Some (Inr ()) \<longrightarrow> e = BadOptionalAccess)"
proof (cases "render_frame d n pool stages VkErrorOutOfDate presented a")
  case (Inl e)
  then show ?thesis
    by (auto simp: render_frame_def acquire_next_image_index_def acquisition_failed_def admin_wf_def Let_def
        split: if_splits)
next
  case (Inr r)
  then show ?thesis
    by (auto simp: render_frame_def acquire_next_image_index_def outcome_simps Let_def)
qed

theorem out_of_date_never_returns_witness:
  "\<exists>a. frame_admin_new True example_sync 2 = Inr a \<and>
     render_frame True 2 [1, 2] [ColourAttachmentOutput] VkErrorOutOfDate True
       (set_regeneration_function a (Inr ())) = Inl BadOptionalAccess"
proof -
  obtain a where a: "frame_admin_new True example_sync 2 = Inr a" "admin_wf 2 a"
    using frame_admin_new_wf [OF example_sync_documented _ two_below_size_max, of True 2] by auto
  have "image_table 2 (set_regeneration_function a (Inr ())) = image_table 2 a"
    by (simp add: image_table_def set_regeneration_function_def)
  then have "admin_wf 2 (set_regeneration_function a (Inr ()))"
    using a(2) unfolding admin_wf_def by (simp add: set_regeneration_function_def)
  with a(1) out_of_date_never_returns [of True 2 "[1, 2]" "[ColourAttachmentOutput]" True
      "set_regeneration_function a (Inr ())"]
  show ?thesis by (auto simp: set_regeneration_function_def)
qed

text \<open>
  C40. Without a window \<open>wait_for\<close> waits for nothing: \<open>render_frame_headless\<close> never records which
  fence guards its command buffer, so after a frame there are runs in which \<open>wait_for\<close> has returned
  while the command buffer still executes.
\<close>

theorem headless_wait_for_returns_early:
  assumes "sync_driver_documented drv" and "pool \<noteq> []"
  shows "\<exists>a a' calls waits q. frame_admin_new d drv 1 = Inr a \<and>
    render_frame_headless pool stages a = Inr (a', calls) \<and> frame_wait_for a' 0 = Inr waits \<and>
    sync_step\<^sup>*\<^sup>* (calls @ waits, idle_queue a) ([], q) \<and> command_pending q (pool ! 0)"
proof -
  obtain a where a: "frame_admin_new d drv 1 = Inr a" "in_flight_fences a = [the (create_fence drv 0)]"
      "images_in_flight a = []" "frame_depth a = 1" "frame_counter a = 0" "image_index_at_frame a = [std_size_max]"
    by (simp add: frame_admin_new_eq [OF assms(1)])
  let ?f = "the (create_fence drv 0)"
  let ?calls = "[ResetFence ?f, QueueSubmit [pool ! 0] [] (map wait_stage_bit stages) [] ?f]"
  let ?q = "\<lparr>signalled = {}, pending = {\<lparr>sub_commands = [pool ! 0], sub_waits = [], sub_fence = ?f\<rparr>}\<rparr>"
  obtain a' where a': "render_frame_headless pool stages a = Inr (a', ?calls)"
      "image_index_at_frame a' = [std_size_max]"
    using a assms(2)
    by (simp add: render_frame_headless_def wait_image_def submit_new_def submit_to_def fence_signal_def
        fold_snoc_id fold_snoc_map Let_def)
  have "sync_step (?calls, idle_queue a) (tl ?calls, \<lparr>signalled = {}, pending = {}\<rparr>)"
    by (simp add: idle_queue_def a(2) fence_pending_def sync_step.host)
  moreover have "sync_step (tl ?calls, \<lparr>signalled = {}, pending = {}\<rparr>) ([], ?q)"
    by (simp add: fence_pending_def command_pending_def sync_step.host)
  ultimately have "sync_step\<^sup>*\<^sup>* (?calls @ [], idle_queue a) ([], ?q)"
    by (simp only: append_Nil2)
  moreover have "frame_wait_for a' 0 = Inr []"
    by (simp add: frame_wait_for_def a'(2))
  moreover have "command_pending ?q (pool ! 0)"
    by (simp add: command_pending_def)
  ultimately show ?thesis
    using a(1) a'(1) by blast
qed

theorem headless_wait_for_returns_early_witness:
  "\<exists>a a' calls waits q. frame_admin_new True example_sync 1 = Inr a \<and>
     render_frame_headless [1, 2] [ColourAttachmentOutput] a = Inr (a', calls) \<and>
     frame_wait_for a' 0 = Inr waits \<and> sync_step\<^sup>*\<^sup>* (calls @ waits, idle_queue a) ([], q) \<and> command_pending q 1"
  using headless_wait_for_returns_early [OF example_sync_documented, of "[1, 2]" True "[ColourAttachmentOutput]"]
  by simp

end
