(* ===== verification/Vk_Machine.thy ===== *)
theory Vk_Machine
  imports Input_Layout Vk_Frames "HOL-Library.AList"
begin

text \<open>
  The part of Vulkan, and of the allocator library VMA, that the renderer talks to.  Neither is
  part of the repository: the answers of the driver are the argument \<open>drv\<close> (\<open>vk_driver\<close>), functions
  of the state \<open>vk_world\<close>, and what the engine relies on of them is \<open>vk_documented\<close>.

  The state holds the live buffers with their contents, the live images with their layout and
  texels, what each command buffer has recorded, the create infos of all other live objects, the
  synchronisation calls made so far, and the memory that is mapped for the host.  The bytes of a
  new buffer are arbitrary.  \<open>run_commands\<close> executes the commands of a submission as the
  specification describes: it is undefined (\<open>None\<close>) whenever a command reads or writes something that
  is not alive, is too small, or is in another layout than the command expects.
\<close>

section \<open>Objects\<close>

record VkBufferCreateInfo =
  buffer_create_size :: nat
  buffer_create_usage :: u32

datatype VmaMemoryUsage = VMA_MEMORY_USAGE_CPU_ONLY | VMA_MEMORY_USAGE_GPU_ONLY

record VmaAllocationCreateInfo =
  alloc_mapped :: bool
  alloc_usage :: VmaMemoryUsage

record vk_storage =
  sto_allocation :: nat
  sto_usage :: u32
  sto_host :: bool
  sto_maps :: nat
  sto_bytes :: "u8 list"

record vk_texels =
  tex_info :: VkImageCreateInfo
  tex_layout :: u32
  tex_bytes :: "u8 list option"

text \<open>Layouts, stages and access masks have the values of the Vulkan headers.\<close>

record VkImageMemoryBarrier =
  barrier_srcAccess :: u32
  barrier_dstAccess :: u32
  barrier_oldLayout :: u32
  barrier_newLayout :: u32
  barrier_image :: nat

record VkRenderPassBeginInfo =
  begin_renderPass :: nat
  begin_framebuffer :: nat
  begin_renderArea :: VkExtent2D
  begin_clearColour :: "u32 list"
  begin_clearDepth :: u32

datatype (plugins only: code size) vk_command =
    CmdBeginRenderPass VkRenderPassBeginInfo
  | CmdEndRenderPass
  | CmdBindPipeline nat
  | CmdBindDescriptorSets nat nat
  | CmdBindVertexBuffers nat
  | CmdBindIndexBuffer nat
  | CmdDraw u32 u32 u32 u32
  | CmdDrawIndexed u32 u32 u32 u32 u32
  | CmdDrawIndexedIndirect nat u32 nat
  | CmdCopyBuffer nat nat nat
  | CmdCopyBufferToImage nat nat u32 u32 u32
  | CmdPipelineBarrier u32 u32 VkImageMemoryBarrier

text \<open>The create infos of the other objects, with the handles and values the engine sets.\<close>

record VkAttachmentDescription =
  att_format :: u32
  att_loadOp :: u32
  att_storeOp :: u32
  att_stencilLoadOp :: u32
  att_stencilStoreOp :: u32
  att_initialLayout :: u32
  att_finalLayout :: u32
  att_samples :: u32

record VkAttachmentReference =
  ref_attachment :: nat
  ref_layout :: u32

record VkSubpassDescription =
  sub_colour :: "VkAttachmentReference list"
  sub_depth :: "VkAttachmentReference option"

record VkSubpassDependency =
  dep_srcStage :: u32
  dep_dstStage :: u32
  dep_dstAccess :: u32

record VkRenderPassCreateInfo =
  pass_attachments :: "VkAttachmentDescription list"
  pass_subpasses :: "VkSubpassDescription list"
  pass_dependency :: VkSubpassDependency

record VkFramebufferCreateInfo =
  fb_renderPass :: nat
  fb_attachments :: "nat list"
  fb_extent :: VkExtent2D

record VkVertexInputAttributeDescription =
  vertex_location :: nat
  vertex_binding :: nat
  vertex_format :: u32
  vertex_offset :: nat

record VkVertexInputBindingDescription =
  binding_id :: nat
  binding_stride :: nat
  binding_per_instance :: bool

record VkDescriptorSetLayoutBinding =
  layout_binding :: nat
  layout_type :: u32
  layout_count :: nat
  layout_stages :: u32

record VkGraphicsPipelineCreateInfo =
  pipe_stages :: "(u32 \<times> nat) list"
  pipe_bindings :: "VkVertexInputBindingDescription list"
  pipe_attributes :: "VkVertexInputAttributeDescription list"
  pipe_topology :: PrimitiveTopology
  pipe_extent :: VkExtent2D
  pipe_cull :: u32
  pipe_layout :: nat
  pipe_renderPass :: nat

record VkSamplerCreateInfo =
  sampler_magFilter :: u32
  sampler_minFilter :: u32
  sampler_addressModes :: "u32 list"

datatype (plugins only: code size) vk_object =
    FenceObject
  | CommandPoolObject nat u32
  | ImageViewObject nat u32 u32
  | SamplerObject VkSamplerCreateInfo
  | RenderPassObject VkRenderPassCreateInfo
  | FramebufferObject VkFramebufferCreateInfo
  | DescriptorSetLayoutObject "VkDescriptorSetLayoutBinding list"
  | DescriptorPoolObject "(u32 \<times> u32) list" u32
  | PipelineLayoutObject "nat list"
  | PipelineObject VkGraphicsPipelineCreateInfo

text \<open>One write into a descriptor set: the binding, and the buffer or the view and the sampler.\<close>

datatype descriptor = BufferDescriptor nat | ImageDescriptor nat nat u32

record vk_world =
  storages :: "(nat \<times> vk_storage) list"
  texels :: "(nat \<times> vk_texels) list"
  recordings :: "(nat \<times> vk_command list) list"
  objects :: "(nat \<times> vk_object) list"
  descriptor_sets :: "(nat \<times> (nat \<times> u32 \<times> descriptor) list) list"
  sync_calls :: "sync_call list"
  vk_memory :: memory

record vk_driver =
  create_buffer :: "vk_world \<Rightarrow> VkBufferCreateInfo \<Rightarrow> VmaAllocationCreateInfo \<Rightarrow> (nat \<times> nat \<times> u8 list) option"
  create_texels :: "vk_world \<Rightarrow> VkImageCreateInfo \<Rightarrow> VmaMemoryUsage \<Rightarrow> nat option"
  create_object :: "vk_world \<Rightarrow> vk_object \<Rightarrow> nat option"
  allocate_commands :: "vk_world \<Rightarrow> nat \<Rightarrow> nat list option"
  allocate_sets :: "vk_world \<Rightarrow> nat \<Rightarrow> nat list option"
  begin_commands :: "vk_world \<Rightarrow> nat \<Rightarrow> bool"
  end_commands :: "vk_world \<Rightarrow> nat \<Rightarrow> bool"

section \<open>Buffers and mapped memory\<close>

definition live_allocations :: "vk_world \<Rightarrow> nat set" where
  "live_allocations w = sto_allocation ` snd ` set (storages w)"

text \<open>\<open>vmaCreateBuffer\<close>: a persistently mapped allocation is mapped from the start.\<close>

definition vma_create_buffer ::
    "vk_driver \<Rightarrow> VkBufferCreateInfo \<Rightarrow> VmaAllocationCreateInfo \<Rightarrow> vk_world \<Rightarrow> (nat \<times> nat) option \<times> vk_world" where
  "vma_create_buffer drv create info w =
     (case create_buffer drv w create info of
        None \<Rightarrow> (None, w)
      | Some (h, a, bytes) \<Rightarrow>
          (Some (h, a), w\<lparr>storages := AList.update h
             \<lparr>sto_allocation = a, sto_usage = buffer_create_usage create,
              sto_host = (alloc_usage info = VMA_MEMORY_USAGE_CPU_ONLY),
              sto_maps = (if alloc_mapped info then 1 else 0), sto_bytes = bytes\<rparr> (storages w),
            vk_memory := (if alloc_mapped info then (vk_memory w)(a \<mapsto> bytes) else vk_memory w)\<rparr>))"

definition vma_destroy_buffer :: "nat \<Rightarrow> nat \<Rightarrow> vk_world \<Rightarrow> vk_world" where
  "vma_destroy_buffer h a w =
     w\<lparr>storages := AList.delete h (storages w), vk_memory := (vk_memory w)(a := None)\<rparr>"

text \<open>
  \<open>vmaMapMemory\<close> counts; only memory of the host can be mapped, and when mapping fails the
  pointer is not assigned.
\<close>

definition vma_map_memory :: "nat \<Rightarrow> vk_world \<Rightarrow> (ptr \<times> vk_world) outcome" where
  "vma_map_memory h w =
     (case map_of (storages w) h of
        None \<Rightarrow> Inl DanglingReference
      | Some s \<Rightarrow>
          if \<not> sto_host s then Inl UninitialisedRead
          else Inr (\<lparr>block = sto_allocation s, offset = 0\<rparr>,
            w\<lparr>storages := AList.update h (s\<lparr>sto_maps := sto_maps s + 1\<rparr>) (storages w),
              vk_memory := (if sto_maps s = 0 then (vk_memory w)(sto_allocation s \<mapsto> sto_bytes s)
                            else vk_memory w)\<rparr>))"

definition vma_unmap_memory :: "nat \<Rightarrow> vk_world \<Rightarrow> vk_world outcome" where
  "vma_unmap_memory h w =
     (case map_of (storages w) h of
        None \<Rightarrow> Inl DanglingReference
      | Some s \<Rightarrow>
          (case vk_memory w (sto_allocation s) of
             Some bytes \<Rightarrow>
               if sto_maps s = 1
               then Inr (w\<lparr>storages := AList.update h (s\<lparr>sto_maps := 0, sto_bytes := bytes\<rparr>) (storages w),
                      vk_memory := (vk_memory w)(sto_allocation s := None)\<rparr>)
               else Inr (w\<lparr>storages := AList.update h (s\<lparr>sto_maps := sto_maps s - 1\<rparr>) (storages w)\<rparr>)
           | None \<Rightarrow> Inl DanglingReference))"

text \<open>What the GPU reads from a buffer; memory of the host is coherent.\<close>

definition gpu_contents :: "vk_world \<Rightarrow> nat \<Rightarrow> u8 list option" where
  "gpu_contents w h =
     (case map_of (storages w) h of
        None \<Rightarrow> None
      | Some s \<Rightarrow> if sto_maps s = 0 then Some (sto_bytes s) else vk_memory w (sto_allocation s))"

definition set_gpu_contents :: "nat \<Rightarrow> u8 list \<Rightarrow> vk_world \<Rightarrow> vk_world" where
  "set_gpu_contents h bytes w =
     (case map_of (storages w) h of
        None \<Rightarrow> w
      | Some s \<Rightarrow>
          if sto_maps s = 0
          then w\<lparr>storages := AList.update h (s\<lparr>sto_bytes := bytes\<rparr>) (storages w)\<rparr>
          else w\<lparr>vk_memory := (vk_memory w)(sto_allocation s \<mapsto> bytes)\<rparr>)"

section \<open>Execution of command buffers\<close>

record vk_binding =
  bound_pass :: "VkRenderPassBeginInfo option"
  bound_pipeline :: "nat option"
  bound_set :: "nat option"
  bound_vertices :: "nat option"
  bound_indices :: "nat option"
  drawn_geometry :: "u8 list list list"

definition nothing_bound :: vk_binding where
  "nothing_bound = \<lparr>bound_pass = None, bound_pipeline = None, bound_set = None, bound_vertices = None,
     bound_indices = None, drawn_geometry = []\<rparr>"

definition texel_size :: nat where
  "texel_size = 4"

definition VK_IMAGE_LAYOUT_UNDEFINED :: u32 where "VK_IMAGE_LAYOUT_UNDEFINED = 0"
definition VK_IMAGE_LAYOUT_TRANSFER_DST_OPTIMAL :: u32 where "VK_IMAGE_LAYOUT_TRANSFER_DST_OPTIMAL = 7"
definition VK_IMAGE_LAYOUT_SHADER_READ_ONLY_OPTIMAL :: u32 where "VK_IMAGE_LAYOUT_SHADER_READ_ONLY_OPTIMAL = 5"

lemmas layout_values = VK_IMAGE_LAYOUT_UNDEFINED_def VK_IMAGE_LAYOUT_TRANSFER_DST_OPTIMAL_def
  VK_IMAGE_LAYOUT_SHADER_READ_ONLY_OPTIMAL_def

text \<open>
  A transition from the undefined layout is always allowed and discards the texels; any other
  transition must name the layout the image is in.
\<close>

definition transition_texels :: "VkImageMemoryBarrier \<Rightarrow> vk_texels \<Rightarrow> vk_texels option" where
  "transition_texels b t =
     (if barrier_oldLayout b = VK_IMAGE_LAYOUT_UNDEFINED
      then Some (t\<lparr>tex_layout := barrier_newLayout b, tex_bytes := None\<rparr>)
      else if barrier_oldLayout b = tex_layout t then Some (t\<lparr>tex_layout := barrier_newLayout b\<rparr>)
      else None)"

definition indirect_draw :: "vk_world \<Rightarrow> vk_binding \<Rightarrow> nat \<Rightarrow> nat \<Rightarrow> u8 list list list option" where
  "indirect_draw w s b n =
     (case (bound_pass s, bound_pipeline s, bound_vertices s, bound_indices s, gpu_contents w b) of
        (Some _, Some _, Some vb, Some ib, Some cmds) \<Rightarrow>
          (case (gpu_contents w vb, gpu_contents w ib) of
             (Some vs, Some is) \<Rightarrow> indirect_fetch vs is cmds n
           | _ \<Rightarrow> None)
      | _ \<Rightarrow> None)"

fun run_command :: "vk_command \<Rightarrow> vk_world \<times> vk_binding \<Rightarrow> (vk_world \<times> vk_binding) option" where
  "run_command (CmdBeginRenderPass p) (w, s) =
     (if bound_pass s = None \<and> map_of (objects w) (begin_renderPass p) \<noteq> None \<and> map_of (objects w) (begin_framebuffer p) \<noteq> None
      then Some (w, s\<lparr>bound_pass := Some p\<rparr>) else None)"
| "run_command CmdEndRenderPass (w, s) = (if bound_pass s = None then None else Some (w, s\<lparr>bound_pass := None\<rparr>))"
| "run_command (CmdBindPipeline p) (w, s) =
     (if map_of (objects w) p = None then None else Some (w, s\<lparr>bound_pipeline := Some p\<rparr>))"
| "run_command (CmdBindDescriptorSets l d) (w, s) =
     (if map_of (descriptor_sets w) d = None then None else Some (w, s\<lparr>bound_set := Some d\<rparr>))"
| "run_command (CmdBindVertexBuffers b) (w, s) =
     (if map_of (storages w) b = None then None else Some (w, s\<lparr>bound_vertices := Some b\<rparr>))"
| "run_command (CmdBindIndexBuffer b) (w, s) =
     (if map_of (storages w) b = None then None else Some (w, s\<lparr>bound_indices := Some b\<rparr>))"
| "run_command (CmdDraw _ _ _ _) (w, s) = (if bound_pass s = None then None else Some (w, s))"
| "run_command (CmdDrawIndexed n inst first off _) (w, s) =
     (case (bound_pass s, bound_vertices s, bound_indices s) of
        (Some _, Some vb, Some ib) \<Rightarrow>
          (case (gpu_contents w vb, gpu_contents w ib) of
             (Some vs, Some is) \<Rightarrow> Some (w, s\<lparr>drawn_geometry := drawn_geometry s @
               replicate (unat inst) (fetch vs (decode_u32s is)
                 \<lparr>draw_count = n, instanceCount = inst, firstIndex = first, baseVertex = off, baseInstance = 0\<rparr>)\<rparr>)
           | _ \<Rightarrow> None)
      | _ \<Rightarrow> None)"
| "run_command (CmdDrawIndexedIndirect b n stride) (w, s) =
     (case indirect_draw w s b (unat n) of
        None \<Rightarrow> None
      | Some ds \<Rightarrow> Some (w, s\<lparr>drawn_geometry := drawn_geometry s @ ds\<rparr>))"
| "run_command (CmdCopyBuffer src dst n) (w, s) =
     (case (gpu_contents w src, gpu_contents w dst) of
        (Some from, Some to) \<Rightarrow>
          if n \<le> length from \<and> n \<le> length to \<and> src \<noteq> dst
          then Some (set_gpu_contents dst (overwrite to 0 (take n from)) w, s) else None
      | _ \<Rightarrow> None)"
| "run_command (CmdCopyBufferToImage src img layout wd ht) (w, s) =
     (case (gpu_contents w src, map_of (texels w) img) of
        (Some from, Some t) \<Rightarrow>
          if tex_layout t = layout \<and> unat wd * unat ht * texel_size \<le> length from
          then Some (w\<lparr>texels := AList.update img
            (t\<lparr>tex_bytes := Some (take (unat wd * unat ht * texel_size) from)\<rparr>) (texels w)\<rparr>, s)
          else None
      | _ \<Rightarrow> None)"
| "run_command (CmdPipelineBarrier _ _ b) (w, s) =
     (case map_of (texels w) (barrier_image b) of
        None \<Rightarrow> None
      | Some t \<Rightarrow>
          (case transition_texels b t of
             None \<Rightarrow> None
           | Some t' \<Rightarrow> Some (w\<lparr>texels := AList.update (barrier_image b) t' (texels w)\<rparr>, s)))"

fun run_commands :: "vk_command list \<Rightarrow> vk_world \<times> vk_binding \<Rightarrow> (vk_world \<times> vk_binding) option" where
  "run_commands [] s = Some s"
| "run_commands (c # cs) s = (case run_command c s of None \<Rightarrow> None | Some s' \<Rightarrow> run_commands cs s')"

text \<open>What executing a recorded command buffer draws.\<close>

definition command_buffer_draws :: "vk_world \<Rightarrow> nat \<Rightarrow> u8 list list list option" where
  "command_buffer_draws w c =
     (case map_of (recordings w) c of
        None \<Rightarrow> None
      | Some cmds \<Rightarrow> map_option (drawn_geometry \<circ> snd) (run_commands cmds (w, nothing_bound)))"

section \<open>What the engine relies on\<close>

text \<open>
  A creation of at least one byte, or of another object, succeeds with a handle that is not null
  and not in use; new buffers have the size asked for and memory of their own; recording succeeds.
\<close>

definition vk_documented :: "vk_driver \<Rightarrow> bool" where
  "vk_documented drv \<longleftrightarrow>
     (\<forall>w create info. 0 < buffer_create_size create \<longrightarrow>
        (\<exists>h a bytes. create_buffer drv w create info = Some (h, a, bytes) \<and> h \<noteq> VK_NULL_HANDLE \<and>
           h \<notin> fst ` set (storages w) \<and> a \<notin> live_allocations w \<and> length bytes = buffer_create_size create)) \<and>
     (\<forall>w create usage. \<exists>h. create_texels drv w create usage = Some h \<and> h \<noteq> VK_NULL_HANDLE \<and> h \<notin> fst ` set (texels w)) \<and>
     (\<forall>w info. \<exists>h. create_object drv w info = Some h \<and> h \<noteq> VK_NULL_HANDLE \<and> h \<notin> fst ` set (objects w)) \<and>
     (\<forall>w n. \<exists>hs. allocate_commands drv w n = Some hs \<and> length hs = n \<and> distinct hs \<and> VK_NULL_HANDLE \<notin> set hs \<and>
        set hs \<inter> fst ` set (recordings w) = {}) \<and>
     (\<forall>w n. \<exists>hs. allocate_sets drv w n = Some hs \<and> length hs = n \<and> distinct hs \<and> VK_NULL_HANDLE \<notin> set hs \<and>
        set hs \<inter> fst ` set (descriptor_sets w) = {}) \<and>
     (\<forall>w c. begin_commands drv w c) \<and> (\<forall>w c. end_commands drv w c)"

lemma documented_buffer:
  assumes "vk_documented drv" "0 < buffer_create_size create"
  obtains h a bytes where "create_buffer drv w create info = Some (h, a, bytes)" "h \<noteq> VK_NULL_HANDLE"
    "map_of (storages w) h = None" "a \<notin> live_allocations w" "length bytes = buffer_create_size create"
  using assms unfolding vk_documented_def map_of_eq_None_iff by metis

lemma documented_object:
  assumes "vk_documented drv"
  obtains h where "create_object drv w info = Some h" "h \<noteq> VK_NULL_HANDLE" "map_of (objects w) h = None"
  using assms unfolding vk_documented_def map_of_eq_None_iff by metis

lemma documented_texels:
  assumes "vk_documented drv"
  obtains h where "create_texels drv w create usage = Some h" "h \<noteq> VK_NULL_HANDLE" "map_of (texels w) h = None"
  using assms unfolding vk_documented_def map_of_eq_None_iff by metis

lemma documented_commands:
  assumes "vk_documented drv"
  obtains hs where "allocate_commands drv w n = Some hs" "length hs = n" "distinct hs" "VK_NULL_HANDLE \<notin> set hs"
    "\<forall>h\<in>set hs. map_of (recordings w) h = None"
  using assms unfolding vk_documented_def map_of_eq_None_iff disjoint_iff by metis

lemma documented_sets:
  assumes "vk_documented drv"
  obtains hs where "allocate_sets drv w n = Some hs" "length hs = n" "distinct hs" "VK_NULL_HANDLE \<notin> set hs"
    "\<forall>h\<in>set hs. map_of (descriptor_sets w) h = None"
  using assms unfolding vk_documented_def map_of_eq_None_iff disjoint_iff by metis

lemma documented_recording: "vk_documented drv \<Longrightarrow> begin_commands drv w c \<and> end_commands drv w c"
  by (simp add: vk_documented_def)

text \<open>A driver that behaves so: handles count up, and new memory is zero.\<close>

definition next_handle :: "nat list \<Rightarrow> nat" where
  "next_handle hs = fold max hs 0 + 1"

definition vk_simple_driver :: vk_driver where
  "vk_simple_driver =
     \<lparr>create_buffer = (\<lambda>w create info. Some (next_handle (map fst (storages w)),
        next_handle (map (sto_allocation \<circ> snd) (storages w)), replicate (buffer_create_size create) 0)),
      create_texels = (\<lambda>w create usage. Some (next_handle (map fst (texels w)))),
      create_object = (\<lambda>w info. Some (next_handle (map fst (objects w)))),
      allocate_commands = (\<lambda>w n. Some (map (\<lambda>i. next_handle (map fst (recordings w)) + i) [0..<n])),
      allocate_sets = (\<lambda>w n. Some (map (\<lambda>i. next_handle (map fst (descriptor_sets w)) + i) [0..<n])),
      begin_commands = (\<lambda>_ _. True), end_commands = (\<lambda>_ _. True)\<rparr>"

lemma fold_max_ge: "x \<in> set xs \<Longrightarrow> x \<le> fold max xs (m::nat)" "m \<le> fold max xs (m::nat)"
proof (induction xs arbitrary: m)
  case (Cons y ys)
  { case 1 then show ?case using Cons.IH [of "max y m"] by (auto intro: order_trans [of _ "max y m"]) }
  { case 2 show ?case using Cons.IH(2) [of "max y m"] by simp }
qed simp_all

lemma next_handle_fresh: "next_handle hs + i \<notin> set hs" "next_handle hs + i \<noteq> 0"
  using fold_max_ge(1) [of "next_handle hs + i" hs 0] by (auto simp: next_handle_def)

lemma next_handle_map: "next_handle (map f xs) + i \<notin> f ` set xs" "next_handle (map f xs) \<notin> f ` set xs"
  "next_handle (map f xs) \<noteq> 0"
  using next_handle_fresh [of "map f xs" i] next_handle_fresh [of "map f xs" 0] by simp_all

lemma consecutive_handles:
  "\<exists>hs. Some (map (\<lambda>i. next_handle (map f xs) + i) [0..<n]) = Some hs \<and> length hs = n \<and> distinct hs \<and>
     VK_NULL_HANDLE \<notin> set hs \<and> set hs \<inter> f ` set xs = {}"
proof -
  let ?hs = "map (\<lambda>i. next_handle (map f xs) + i) [0..<n]"
  have "distinct ?hs" by (simp add: distinct_map inj_on_def)
  moreover have "VK_NULL_HANDLE \<notin> set ?hs" using next_handle_map(3) [of f xs] by (auto simp: VK_NULL_HANDLE_def)
  moreover have "x \<notin> f ` set xs" if "x \<in> set ?hs" for x
  proof -
    obtain i where "x = next_handle (map f xs) + i" using \<open>x \<in> set ?hs\<close> unfolding set_map by (rule imageE)
    then show ?thesis using next_handle_map(1) [of f xs i] by simp
  qed
  then have "set ?hs \<inter> f ` set xs = {}" by blast
  ultimately show ?thesis by simp
qed

lemma vk_simple_driver_documented: "vk_documented vk_simple_driver"
  unfolding vk_documented_def vk_simple_driver_def vk_driver.simps
proof (intro conjI allI impI)
  fix w :: vk_world and create :: VkBufferCreateInfo
  show "\<exists>h a bytes. Some (next_handle (map fst (storages w)), next_handle (map (sto_allocation \<circ> snd) (storages w)),
      replicate (buffer_create_size create) 0) = Some (h, a, bytes) \<and> h \<noteq> VK_NULL_HANDLE \<and>
      h \<notin> fst ` set (storages w) \<and> a \<notin> live_allocations w \<and> length bytes = buffer_create_size create"
    using next_handle_map [of fst "storages w"] next_handle_map [of "sto_allocation \<circ> snd" "storages w"]
    by (simp add: VK_NULL_HANDLE_def live_allocations_def image_comp)
next
  fix w :: vk_world
  show "\<exists>h. Some (next_handle (map fst (texels w))) = Some h \<and> h \<noteq> VK_NULL_HANDLE \<and> h \<notin> fst ` set (texels w)"
    using next_handle_map [of fst "texels w"] by (simp add: VK_NULL_HANDLE_def)
  show "\<exists>h. Some (next_handle (map fst (objects w))) = Some h \<and> h \<noteq> VK_NULL_HANDLE \<and> h \<notin> fst ` set (objects w)"
    using next_handle_map [of fst "objects w"] by (simp add: VK_NULL_HANDLE_def)
qed (rule consecutive_handles TrueI)+

end
