(* ===== verification/Vk_Buffer.thy ===== *)
theory Vk_Buffer
  imports Vk_Machine
begin

text \<open>
  \<open>gl/impl/backend/vk/buffer.cpp\<close>: the class that owns one Vulkan buffer and its allocation.
  The lemmas give the effect of creating, writing, mapping and destroying one, and that every
  other live buffer keeps its contents (\<open>keeps_buffers\<close>).
\<close>

datatype VkBufferType = VertexBuffer | IndexBuffer | StagingBuffer | UniformBuffer | DrawIndirectBuffer

datatype VkBufferPurpose = TransferSource | TransferDestination | NothingSpecial

record VulkanBuffer =
  vb_buffer :: nat
  vb_persistent :: "ptr option"
  vb_alloc :: nat
  vb_type :: VkBufferType

definition vk_buffer_null :: VulkanBuffer where
  "vk_buffer_null = \<lparr>vb_buffer = VK_NULL_HANDLE, vb_persistent = None, vb_alloc = 0, vb_type = VertexBuffer\<rparr>"

definition vk_buffer_is_null :: "VulkanBuffer \<Rightarrow> bool" where
  "vk_buffer_is_null self = (vb_buffer self = VK_NULL_HANDLE)"

definition ensure_notnull :: "bool \<Rightarrow> VulkanBuffer \<Rightarrow> unit outcome" where
  "ensure_notnull TZ_DEBUG self = tz_assert TZ_DEBUG (\<not> vk_buffer_is_null self)"

definition buffer_type_usage :: "VkBufferType \<Rightarrow> u32" where
  "buffer_type_usage type = (case type of
       VertexBuffer \<Rightarrow> 128 | IndexBuffer \<Rightarrow> 64 | StagingBuffer \<Rightarrow> 0 | UniformBuffer \<Rightarrow> 16 | DrawIndirectBuffer \<Rightarrow> 256)"

text \<open>The usage flags: a staging buffer has only the transfer-source bit.\<close>

definition buffer_usage_flags :: "bool \<Rightarrow> VkBufferType \<Rightarrow> VkBufferPurpose \<Rightarrow> u32 outcome" where
  "buffer_usage_flags TZ_DEBUG type purpose = (case purpose of
       TransferSource \<Rightarrow> and_then (tz_assert TZ_DEBUG (type = StagingBuffer)) (\<lambda>_. Inr 1)
     | TransferDestination \<Rightarrow> Inr (or (buffer_type_usage type) 2)
     | NothingSpecial \<Rightarrow> Inr (buffer_type_usage type))"

definition residency_info :: "MemoryResidency \<Rightarrow> VmaAllocationCreateInfo" where
  "residency_info residency = (case residency of
       CPUPersistent \<Rightarrow> \<lparr>alloc_mapped = True, alloc_usage = VMA_MEMORY_USAGE_CPU_ONLY\<rparr>
     | CPU \<Rightarrow> \<lparr>alloc_mapped = False, alloc_usage = VMA_MEMORY_USAGE_CPU_ONLY\<rparr>
     | GPU \<Rightarrow> \<lparr>alloc_mapped = False, alloc_usage = VMA_MEMORY_USAGE_GPU_ONLY\<rparr>)"

text \<open>
  The mapped pointer is read from the result of the allocation before the result code is
  checked; a failed allocation leaves it uninitialised.
\<close>

definition vk_buffer_new ::
    "bool \<Rightarrow> vk_driver \<Rightarrow> VkBufferType \<Rightarrow> VkBufferPurpose \<Rightarrow> MemoryResidency \<Rightarrow> nat \<Rightarrow> vk_world \<Rightarrow>
     (VulkanBuffer \<times> vk_world) outcome" where
  "vk_buffer_new TZ_DEBUG drv type purpose residency size_bytes w =
     and_then (buffer_usage_flags TZ_DEBUG type purpose) (\<lambda>usage.
     let info = residency_info residency;
         (res, w) = vma_create_buffer drv \<lparr>buffer_create_size = size_bytes, buffer_create_usage = usage\<rparr> info w
     in case res of
          None \<Rightarrow>
            if residency = CPUPersistent then Inl UninitialisedRead
            else and_then (tz_assert TZ_DEBUG False) (\<lambda>_.
              Inr (\<lparr>vb_buffer = VK_NULL_HANDLE, vb_persistent = None, vb_alloc = 0, vb_type = type\<rparr>, w))
        | Some (h, a) \<Rightarrow>
            Inr (\<lparr>vb_buffer = h,
              vb_persistent = (if residency = CPUPersistent then Some \<lparr>block = a, offset = 0\<rparr> else None),
              vb_alloc = a, vb_type = type\<rparr>, w))"

definition vk_buffer_destroy :: "VulkanBuffer \<Rightarrow> vk_world \<Rightarrow> vk_world" where
  "vk_buffer_destroy self w =
     (if vb_buffer self \<noteq> VK_NULL_HANDLE then vma_destroy_buffer (vb_buffer self) (vb_alloc self) w else w)"

definition vk_buffer_get_type :: "bool \<Rightarrow> VulkanBuffer \<Rightarrow> VkBufferType outcome" where
  "vk_buffer_get_type TZ_DEBUG self = and_then (ensure_notnull TZ_DEBUG self) (\<lambda>_. Inr (vb_type self))"

text \<open>In a release build a null buffer reaches the allocator through a null pointer.\<close>

definition vk_buffer_map_memory :: "bool \<Rightarrow> VulkanBuffer \<Rightarrow> vk_world \<Rightarrow> (ptr \<times> vk_world) outcome" where
  "vk_buffer_map_memory TZ_DEBUG self w =
     and_then (ensure_notnull TZ_DEBUG self) (\<lambda>_.
     case vb_persistent self of
       Some p \<Rightarrow> Inr (p, w)
     | None \<Rightarrow> if vk_buffer_is_null self then Inl NullDereference else vma_map_memory (vb_buffer self) w)"

definition vk_buffer_unmap_memory :: "bool \<Rightarrow> VulkanBuffer \<Rightarrow> vk_world \<Rightarrow> vk_world outcome" where
  "vk_buffer_unmap_memory TZ_DEBUG self w =
     and_then (ensure_notnull TZ_DEBUG self) (\<lambda>_.
     if vb_persistent self \<noteq> None then Inr w
     else if vk_buffer_is_null self then Inl NullDereference else vma_unmap_memory (vb_buffer self) w)"

definition vk_buffer_write :: "bool \<Rightarrow> VulkanBuffer \<Rightarrow> u8 list \<Rightarrow> vk_world \<Rightarrow> vk_world outcome" where
  "vk_buffer_write TZ_DEBUG self addr w =
     and_then (ensure_notnull TZ_DEBUG self) (\<lambda>_.
     and_then (vk_buffer_map_memory TZ_DEBUG self w) (\<lambda>(data, w).
     and_then (mem_write (vk_memory w) data addr) (\<lambda>mem.
     vk_buffer_unmap_memory TZ_DEBUG self (w\<lparr>vk_memory := mem\<rparr>))))"

text \<open>The move assignment swaps all members.  Assigning a temporary destroys the old buffer.\<close>

definition vk_buffer_move_assign :: "VulkanBuffer \<Rightarrow> VulkanBuffer \<Rightarrow> VulkanBuffer \<times> VulkanBuffer" where
  "vk_buffer_move_assign self rhs = (rhs, self)"

definition vk_buffer_assign :: "VulkanBuffer \<Rightarrow> VulkanBuffer \<times> vk_world \<Rightarrow> VulkanBuffer \<times> vk_world" where
  "vk_buffer_assign self s =
     (case s of (temp, w) \<Rightarrow>
        let (self, temp) = vk_buffer_move_assign self temp in (self, vk_buffer_destroy temp w))"

definition vk_buffer_assign_optional ::
    "VulkanBuffer option \<Rightarrow> VulkanBuffer \<times> vk_world \<Rightarrow> VulkanBuffer \<times> vk_world" where
  "vk_buffer_assign_optional self s =
     (case self of
        Some b \<Rightarrow> vk_buffer_assign b s
      | None \<Rightarrow> vk_buffer_assign vk_buffer_null s)"

definition vk_buffer_reset :: "VulkanBuffer option \<Rightarrow> vk_world \<Rightarrow> vk_world" where
  "vk_buffer_reset self w = (case self of None \<Rightarrow> w | Some b \<Rightarrow> vk_buffer_destroy b w)"

section \<open>Well-formed worlds and what is kept\<close>

text \<open>Live buffers have allocations of their own, and the null handle is not a buffer.\<close>

definition vk_wf :: "vk_world \<Rightarrow> bool" where
  "vk_wf w \<longleftrightarrow> map_of (storages w) VK_NULL_HANDLE = None \<and>
     (\<forall>h h' s s'. map_of (storages w) h = Some s \<longrightarrow> map_of (storages w) h' = Some s' \<longrightarrow>
        sto_allocation s = sto_allocation s' \<longrightarrow> h = h')"

definition keeps_buffers :: "nat set \<Rightarrow> vk_world \<Rightarrow> vk_world \<Rightarrow> bool" where
  "keeps_buffers S w w' \<longleftrightarrow>
     (\<forall>h s. h \<notin> S \<longrightarrow> map_of (storages w) h = Some s \<longrightarrow>
        map_of (storages w') h = Some s \<and> vk_memory w' (sto_allocation s) = vk_memory w (sto_allocation s))"

text \<open>Everything but the buffers, the memory and the synchronisation calls is the same.\<close>

definition same_objects :: "vk_world \<Rightarrow> vk_world \<Rightarrow> bool" where
  "same_objects w w' \<longleftrightarrow> texels w' = texels w \<and> recordings w' = recordings w \<and> objects w' = objects w \<and>
     descriptor_sets w' = descriptor_sets w"

lemma keeps_buffers_refl [simp]: "keeps_buffers S w w"
  by (simp add: keeps_buffers_def)

lemma same_objects_refl [simp]: "same_objects w w"
  by (simp add: same_objects_def)

lemma keeps_buffers_trans: "keeps_buffers S w w' \<Longrightarrow> keeps_buffers T w' w'' \<Longrightarrow> keeps_buffers (S \<union> T) w w''"
  by (auto simp: keeps_buffers_def)

lemma keeps_buffers_mono: "keeps_buffers S w w' \<Longrightarrow> S \<subseteq> T \<Longrightarrow> keeps_buffers T w w'"
  by (auto simp: keeps_buffers_def)

text \<open>Buffers that did not exist yet need not be excepted.\<close>

lemma keeps_buffers_forget:
  "keeps_buffers S w w' \<Longrightarrow> (\<And>h. h \<in> S - T \<Longrightarrow> map_of (storages w) h = None) \<Longrightarrow> keeps_buffers T w w'"
  unfolding keeps_buffers_def by (metis DiffI option.distinct(1))

lemma same_objects_trans: "same_objects w w' \<Longrightarrow> same_objects w' w'' \<Longrightarrow> same_objects w w''"
  by (simp add: same_objects_def)

lemma keeps_gpu_contents:
  assumes "keeps_buffers S w w'" "h \<notin> S" "gpu_contents w h = Some bytes"
  shows "gpu_contents w' h = Some bytes"
proof -
  obtain s where s: "map_of (storages w) h = Some s"
    using assms(3) by (cases "map_of (storages w) h") (simp_all add: gpu_contents_def)
  then have "map_of (storages w') h = Some s" "vk_memory w' (sto_allocation s) = vk_memory w (sto_allocation s)"
    using assms(1,2) by (auto simp: keeps_buffers_def)
  then show ?thesis using assms(3) s by (auto simp: gpu_contents_def split: if_splits)
qed

lemma gpu_contents_live: "gpu_contents w h = Some bytes \<Longrightarrow> map_of (storages w) h \<noteq> None"
  by (auto simp: gpu_contents_def split: option.splits)

lemma map_of_storages [simp]:
  "map_of (AList.update h s (storages w)) = (map_of (storages w))(h \<mapsto> s)"
  "map_of (AList.delete h (storages w)) = (map_of (storages w))(h := None)"
  by (simp_all add: update_conv' delete_conv')

lemma fresh_allocation:
  "a \<notin> live_allocations w \<Longrightarrow> map_of (storages w) h = Some s \<Longrightarrow> sto_allocation s \<noteq> a"
  by (force simp: live_allocations_def dest: map_of_SomeD)

section \<open>Effects\<close>

text \<open>A buffer object that owns a live buffer with the given storage.\<close>

definition owns :: "vk_world \<Rightarrow> VulkanBuffer \<Rightarrow> vk_storage \<Rightarrow> bool" where
  "owns w b s \<longleftrightarrow> map_of (storages w) (vb_buffer b) = Some s \<and> sto_allocation s = vb_alloc b \<and>
     vb_buffer b \<noteq> VK_NULL_HANDLE \<and>
     vb_persistent b = (if sto_maps s = 0 then None else Some \<lparr>block = vb_alloc b, offset = 0\<rparr>)"

lemma usage_flags_total:
  "purpose = TransferSource \<longrightarrow> type = StagingBuffer \<Longrightarrow> \<exists>u. buffer_usage_flags d type purpose = Inr u"
  by (cases purpose) (simp_all add: buffer_usage_flags_def)

lemma vk_buffer_new_effect:
  assumes "vk_documented drv" "0 < n" "vk_wf w" "purpose = TransferSource \<longrightarrow> type = StagingBuffer"
  obtains b w' s where "vk_buffer_new d drv type purpose residency n w = Inr (b, w')" "vk_wf w'" "owns w' b s"
    "keeps_buffers {} w w'" "same_objects w w'" "sync_calls w' = sync_calls w" "map_of (storages w) (vb_buffer b) = None"
    "vb_type b = type" "sto_host s = (residency \<noteq> GPU)" "sto_maps s = (if residency = CPUPersistent then 1 else 0)"
    "length (sto_bytes s) = n" "gpu_contents w' (vb_buffer b) = Some (sto_bytes s)"
    "\<forall>h. h \<noteq> vb_buffer b \<longrightarrow> map_of (storages w') h = map_of (storages w) h"
proof -
  obtain u where u: "buffer_usage_flags d type purpose = Inr u" using usage_flags_total [OF assms(4)] by blast
  define create where "create = \<lparr>buffer_create_size = n, buffer_create_usage = u\<rparr>"
  obtain h a bytes where c: "create_buffer drv w create (residency_info residency) = Some (h, a, bytes)"
    "h \<noteq> VK_NULL_HANDLE" "map_of (storages w) h = None" "a \<notin> live_allocations w" "length bytes = n"
    using documented_buffer [OF assms(1), of create w "residency_info residency"] assms(2) by (auto simp: create_def)
  define s where "s = \<lparr>sto_allocation = a, sto_usage = u, sto_host = (residency \<noteq> GPU),
    sto_maps = (if residency = CPUPersistent then 1 else 0), sto_bytes = bytes\<rparr>"
  define w' where "w' = w\<lparr>storages := AList.update h s (storages w),
    vk_memory := (if residency = CPUPersistent then (vk_memory w)(a \<mapsto> bytes) else vk_memory w)\<rparr>"
  define b where "b = \<lparr>vb_buffer = h,
    vb_persistent = (if residency = CPUPersistent then Some \<lparr>block = a, offset = 0\<rparr> else None), vb_alloc = a, vb_type = type\<rparr>"
  have run: "vk_buffer_new d drv type purpose residency n w = Inr (b, w')"
    using c(1) by (cases residency)
      (simp_all add: vk_buffer_new_def u vma_create_buffer_def create_def residency_info_def w'_def s_def b_def)
  have "vk_wf w'"
    using assms(3) c(2,3) fresh_allocation [OF c(4)] unfolding vk_wf_def w'_def
    by (auto simp: s_def split: if_splits)
  moreover have "owns w' b s" using c(2) by (simp add: owns_def w'_def s_def b_def)
  moreover have "keeps_buffers {} w w'" using c(3) fresh_allocation [OF c(4)] by (auto simp: keeps_buffers_def w'_def)
  moreover have "gpu_contents w' (vb_buffer b) = Some (sto_bytes s)" by (simp add: gpu_contents_def b_def w'_def s_def)
  moreover have "same_objects w w'" "sync_calls w' = sync_calls w" by (simp_all add: same_objects_def w'_def)
  moreover have "\<forall>h. h \<noteq> vb_buffer b \<longrightarrow> map_of (storages w') h = map_of (storages w) h" by (simp add: w'_def b_def)
  moreover have "map_of (storages w) (vb_buffer b) = None" "vb_type b = type" "length (sto_bytes s) = n"
    "sto_host s = (residency \<noteq> GPU)" "sto_maps s = (if residency = CPUPersistent then 1 else 0)"
    using c(3,5) by (simp_all add: b_def s_def)
  ultimately show ?thesis using that [OF run] by blast
qed

lemma vk_buffer_destroy_effect:
  assumes "vk_wf w" "owns w b s"
  shows "vk_wf (vk_buffer_destroy b w)" "keeps_buffers {vb_buffer b} w (vk_buffer_destroy b w)"
    "same_objects w (vk_buffer_destroy b w)" "map_of (storages (vk_buffer_destroy b w)) (vb_buffer b) = None"
    "sync_calls (vk_buffer_destroy b w) = sync_calls w"
  using assms
  by (auto simp: vk_buffer_destroy_def vma_destroy_buffer_def vk_wf_def owns_def keeps_buffers_def same_objects_def)

lemma vk_buffer_destroy_null [simp]: "vk_buffer_destroy vk_buffer_null w = w"
  by (simp add: vk_buffer_destroy_def vk_buffer_null_def)

text \<open>Writing a staging buffer replaces its first bytes.\<close>

lemma vk_buffer_write_effect:
  assumes "vk_wf w" "owns w b s" "sto_host s" "sto_maps s = 0" "length bytes = length (sto_bytes s)"
  obtains w' where "vk_buffer_write d b bytes w = Inr w'" "vk_wf w'" "owns w' b (s\<lparr>sto_bytes := bytes\<rparr>)"
    "keeps_buffers {vb_buffer b} w w'" "same_objects w w'" "sync_calls w' = sync_calls w"
    "gpu_contents w' (vb_buffer b) = Some bytes" "\<forall>h. h \<noteq> vb_buffer b \<longrightarrow> map_of (storages w') h = map_of (storages w) h"
proof -
  define s' where "s' = s\<lparr>sto_maps := 0, sto_bytes := bytes\<rparr>"
  define w' where "w' = w\<lparr>storages := AList.update (vb_buffer b) s' (storages w), vk_memory := (vk_memory w)(vb_alloc b := None)\<rparr>"
  have s': "s' = s\<lparr>sto_bytes := bytes\<rparr>" using assms(4) by (cases s) (simp add: s'_def)
  then have m: "map_of (storages w') = (map_of (storages w))(vb_buffer b \<mapsto> s\<lparr>sto_bytes := bytes\<rparr>)"
    by (simp add: w'_def update_conv')
  have ow: "overwrite (sto_bytes s) 0 bytes = bytes" using assms(5) by (simp add: overwrite_def)
  have "vk_buffer_write d b bytes w = Inr w'"
    using assms(2-5) ow
    by (simp add: vk_buffer_write_def ensure_notnull_def vk_buffer_is_null_def owns_def vk_buffer_map_memory_def
        vma_map_memory_def mem_write_def vk_buffer_unmap_memory_def vma_unmap_memory_def w'_def s'_def update_conv')
  moreover have "vk_wf w'" using assms(1,2) by (auto simp: vk_wf_def m owns_def split: if_splits)
  moreover have "keeps_buffers {vb_buffer b} w w'"
    using assms(1,2) by (auto simp: keeps_buffers_def m vk_wf_def owns_def w'_def)
  moreover have "owns w' b (s\<lparr>sto_bytes := bytes\<rparr>)" "gpu_contents w' (vb_buffer b) = Some bytes"
    using assms(2,4) by (simp_all add: owns_def m gpu_contents_def)
  ultimately show ?thesis using that [of w'] m by (simp add: same_objects_def w'_def)
qed

text \<open>The GPU writing a live buffer.\<close>

lemma set_gpu_contents_effect:
  assumes "vk_wf w" "gpu_contents w h = Some old"
  shows "gpu_contents (set_gpu_contents h bytes w) h = Some bytes" "keeps_buffers {h} w (set_gpu_contents h bytes w)"
    "vk_wf (set_gpu_contents h bytes w)" "same_objects w (set_gpu_contents h bytes w)"
    "sync_calls (set_gpu_contents h bytes w) = sync_calls w"
proof -
  obtain s where s: "map_of (storages w) h = Some s"
    using assms(2) by (cases "map_of (storages w) h") (simp_all add: gpu_contents_def)
  show "gpu_contents (set_gpu_contents h bytes w) h = Some bytes" "keeps_buffers {h} w (set_gpu_contents h bytes w)"
    "same_objects w (set_gpu_contents h bytes w)" "sync_calls (set_gpu_contents h bytes w) = sync_calls w"
    using assms(1) s
    by (auto simp: set_gpu_contents_def gpu_contents_def keeps_buffers_def same_objects_def vk_wf_def)
  show "vk_wf (set_gpu_contents h bytes w)"
    using assms(1) s by (auto simp: set_gpu_contents_def vk_wf_def split: if_splits)
qed

text \<open>A buffer stays owned when it is kept, or when only its contents change.\<close>

lemma owns_kept: "owns w b s \<Longrightarrow> keeps_buffers S w w' \<Longrightarrow> vb_buffer b \<notin> S \<Longrightarrow> owns w' b s"
  by (auto simp: owns_def keeps_buffers_def)

end
