(* ===== verification/Vk_Command.thy ===== *)
theory Vk_Command
  imports Vk_Buffer
begin

text \<open>
  The Vulkan objects the renderer records its work with: \<open>image.cpp\<close>, \<open>image_view.cpp\<close>,
  \<open>sampler.cpp\<close>, \<open>fence.cpp\<close>, \<open>command.cpp\<close> and \<open>command.inl\<close> of \<open>gl/impl/backend/vk/\<close>.

  Destroying a recording ends it, so a recording is written as a function around the commands it
  records.  The lemmas show what one staged upload does: a buffer receives exactly the given bytes
  and every other buffer is kept.
\<close>

section \<open>Objects without contents\<close>

definition object_new :: "bool \<Rightarrow> vk_driver \<Rightarrow> vk_object \<Rightarrow> vk_world \<Rightarrow> (nat \<times> vk_world) outcome" where
  "object_new TZ_DEBUG drv info w =
     (case create_object drv w info of
        None \<Rightarrow> and_then (tz_assert TZ_DEBUG False) (\<lambda>_. Inr (VK_NULL_HANDLE, w))
      | Some h \<Rightarrow> Inr (h, w\<lparr>objects := AList.update h info (objects w)\<rparr>))"

definition object_destroy :: "nat \<Rightarrow> vk_world \<Rightarrow> vk_world" where
  "object_destroy h w = (if h \<noteq> VK_NULL_HANDLE then w\<lparr>objects := AList.delete h (objects w)\<rparr> else w)"

definition fence_new :: "bool \<Rightarrow> vk_driver \<Rightarrow> vk_world \<Rightarrow> (nat \<times> vk_world) outcome" where
  "fence_new TZ_DEBUG drv w = object_new TZ_DEBUG drv FenceObject w"

definition sync :: "sync_call list \<Rightarrow> vk_world \<Rightarrow> vk_world" where
  "sync cs w = w\<lparr>sync_calls := sync_calls w @ cs\<rparr>"

section \<open>Images\<close>

datatype ImageFormat =
    FormatUndefined | FormatRgba32Signed | FormatRgba32Unsigned | FormatRgba32sRGB | FormatBgra32sRGB | FormatDepthFloat32

datatype ImageLayout =
    LayoutUndefined | LayoutColourAttachment | LayoutDepthAttachment | LayoutPresent | LayoutTransferSource
  | LayoutTransferDestination | LayoutShaderResource

datatype ImageUsage =
  UsageTransferSource | UsageTransferDestination | UsageSampleable | UsageColourAttachment | UsageDepthStencilAttachment

definition format_value :: "ImageFormat \<Rightarrow> u32" where
  "format_value f = (case f of FormatUndefined \<Rightarrow> 0 | FormatRgba32Signed \<Rightarrow> 42 | FormatRgba32Unsigned \<Rightarrow> 41
     | FormatRgba32sRGB \<Rightarrow> 43 | FormatBgra32sRGB \<Rightarrow> 50 | FormatDepthFloat32 \<Rightarrow> 126)"

definition layout_value :: "ImageLayout \<Rightarrow> u32" where
  "layout_value l = (case l of LayoutUndefined \<Rightarrow> VK_IMAGE_LAYOUT_UNDEFINED | LayoutColourAttachment \<Rightarrow> 2
     | LayoutDepthAttachment \<Rightarrow> 3 | LayoutPresent \<Rightarrow> 1000001002 | LayoutTransferSource \<Rightarrow> 6
     | LayoutTransferDestination \<Rightarrow> VK_IMAGE_LAYOUT_TRANSFER_DST_OPTIMAL
     | LayoutShaderResource \<Rightarrow> VK_IMAGE_LAYOUT_SHADER_READ_ONLY_OPTIMAL)"

definition usage_value :: "ImageUsage \<Rightarrow> u32" where
  "usage_value u = (case u of UsageTransferSource \<Rightarrow> 1 | UsageTransferDestination \<Rightarrow> 2 | UsageSampleable \<Rightarrow> 4
     | UsageColourAttachment \<Rightarrow> 16 | UsageDepthStencilAttachment \<Rightarrow> 32)"

record VulkanImage =
  vi_image :: nat
  vi_width :: u32
  vi_height :: u32
  vi_format :: ImageFormat
  vi_layout :: ImageLayout

definition image_residency :: "bool \<Rightarrow> MemoryResidency \<Rightarrow> VmaMemoryUsage outcome" where
  "image_residency TZ_DEBUG residency = (case residency of
       CPU \<Rightarrow> Inr VMA_MEMORY_USAGE_CPU_ONLY
     | GPU \<Rightarrow> Inr VMA_MEMORY_USAGE_GPU_ONLY
     | CPUPersistent \<Rightarrow> and_then (tz_error TZ_DEBUG) (\<lambda>_. Inr VMA_MEMORY_USAGE_GPU_ONLY))"

definition image_new ::
    "bool \<Rightarrow> vk_driver \<Rightarrow> u32 \<Rightarrow> u32 \<Rightarrow> ImageFormat \<Rightarrow> ImageUsage EnumField \<Rightarrow> MemoryResidency \<Rightarrow> vk_world \<Rightarrow>
     (VulkanImage \<times> vk_world) outcome" where
  "image_new TZ_DEBUG drv wd ht format usage residency w =
     and_then (ef_underlying TZ_DEBUG usage_value usage) (\<lambda>mask.
     and_then (image_residency TZ_DEBUG residency) (\<lambda>alloc.
     let create = \<lparr>image_width = wd, image_height = ht, image_format = format_value format, image_usage = mask\<rparr>;
         self = \<lparr>vi_image = VK_NULL_HANDLE, vi_width = wd, vi_height = ht, vi_format = format, vi_layout = LayoutUndefined\<rparr>
     in case create_texels drv w create alloc of
          None \<Rightarrow> and_then (tz_assert TZ_DEBUG False) (\<lambda>_. Inr (self, w))
        | Some h \<Rightarrow> Inr (self\<lparr>vi_image := h\<rparr>, w\<lparr>texels := AList.update h
            \<lparr>tex_info = create, tex_layout = VK_IMAGE_LAYOUT_UNDEFINED, tex_bytes = None\<rparr> (texels w)\<rparr>)))"

definition image_destroy :: "VulkanImage \<Rightarrow> vk_world \<Rightarrow> vk_world" where
  "image_destroy self w =
     (if vi_image self \<noteq> VK_NULL_HANDLE then w\<lparr>texels := AList.delete (vi_image self) (texels w)\<rparr> else w)"

text \<open>The aspect of a view: depth for the depth format, colour for any other.\<close>

definition view_aspect :: "ImageFormat \<Rightarrow> u32" where
  "view_aspect f = (case f of FormatDepthFloat32 \<Rightarrow> 2 | _ \<Rightarrow> 1)"

definition image_view_new :: "bool \<Rightarrow> vk_driver \<Rightarrow> VulkanImage \<Rightarrow> vk_world \<Rightarrow> (nat \<times> vk_world) outcome" where
  "image_view_new TZ_DEBUG drv img w =
     object_new TZ_DEBUG drv (ImageViewObject (vi_image img) (format_value (vi_format img)) (view_aspect (vi_format img))) w"

definition sampler_new :: "bool \<Rightarrow> vk_driver \<Rightarrow> VkSamplerCreateInfo \<Rightarrow> vk_world \<Rightarrow> (nat \<times> vk_world) outcome" where
  "sampler_new TZ_DEBUG drv props w = object_new TZ_DEBUG drv (SamplerObject props) w"

section \<open>Recording\<close>

record CommandBuffer =
  cb_native :: nat
  cb_recording :: bool

definition add_command :: "nat \<Rightarrow> vk_command \<Rightarrow> vk_world \<Rightarrow> vk_world" where
  "add_command c cmd w =
     w\<lparr>recordings := AList.update c ((case map_of (recordings w) c of None \<Rightarrow> [] | Some cs \<Rightarrow> cs) @ [cmd]) (recordings w)\<rparr>"

text \<open>
  \<open>CommandBuffer::record\<close> up to the end of the lifetime of its result: the command buffer is begun
  and loses what it held, the body records, and the buffer is ended.
\<close>

definition record_with ::
    "bool \<Rightarrow> vk_driver \<Rightarrow> CommandBuffer \<Rightarrow> (vk_world \<Rightarrow> vk_world outcome) \<Rightarrow> vk_world \<Rightarrow> vk_world outcome" where
  "record_with TZ_DEBUG drv self body w =
     and_then (tz_assert TZ_DEBUG (\<not> cb_recording self)) (\<lambda>_.
     and_then (tz_assert TZ_DEBUG (begin_commands drv w (cb_native self))) (\<lambda>_.
     and_then (body (w\<lparr>recordings := AList.update (cb_native self) [] (recordings w)\<rparr>)) (\<lambda>w.
     and_then (tz_assert TZ_DEBUG (end_commands drv w (cb_native self))) (\<lambda>_. Inr w))))"

definition command_buffer_reset :: "bool \<Rightarrow> CommandBuffer \<Rightarrow> vk_world \<Rightarrow> vk_world outcome" where
  "command_buffer_reset TZ_DEBUG self w =
     and_then (tz_assert TZ_DEBUG (\<not> cb_recording self)) (\<lambda>_.
     Inr (w\<lparr>recordings := AList.update (cb_native self) [] (recordings w)\<rparr>))"

definition buffer_copy_buffer ::
    "bool \<Rightarrow> CommandBuffer \<Rightarrow> VulkanBuffer \<Rightarrow> VulkanBuffer \<Rightarrow> nat \<Rightarrow> vk_world \<Rightarrow> vk_world outcome" where
  "buffer_copy_buffer TZ_DEBUG self source destination copy_bytes_length w =
     and_then (tz_assert TZ_DEBUG (\<not> vk_buffer_is_null source)) (\<lambda>_.
     and_then (tz_assert TZ_DEBUG (\<not> vk_buffer_is_null destination)) (\<lambda>_.
     Inr (add_command (cb_native self) (CmdCopyBuffer (vb_buffer source) (vb_buffer destination) copy_bytes_length) w)))"

definition buffer_copy_image ::
    "bool \<Rightarrow> CommandBuffer \<Rightarrow> VulkanBuffer \<Rightarrow> VulkanImage \<Rightarrow> vk_world \<Rightarrow> vk_world outcome" where
  "buffer_copy_image TZ_DEBUG self source destination w =
     and_then (tz_assert TZ_DEBUG (\<not> vk_buffer_is_null source)) (\<lambda>_.
     Inr (add_command (cb_native self) (CmdCopyBufferToImage (vb_buffer source) (vi_image destination)
       VK_IMAGE_LAYOUT_TRANSFER_DST_OPTIMAL (vi_width destination) (vi_height destination)) w))"

text \<open>
  The masks for the layout the image object says it is in, and for the new one; any other layout
  is an error, and in a release build the stage is read without having been set.
\<close>

definition source_masks :: "bool \<Rightarrow> ImageLayout \<Rightarrow> (u32 \<times> u32) outcome" where
  "source_masks TZ_DEBUG l = (case l of
       LayoutUndefined \<Rightarrow> Inr (0, 1)
     | LayoutTransferDestination \<Rightarrow> Inr (4096, 4096)
     | _ \<Rightarrow> and_then (tz_error TZ_DEBUG) (\<lambda>_. Inl UninitialisedRead))"

definition destination_masks :: "bool \<Rightarrow> ImageLayout \<Rightarrow> (u32 \<times> u32) outcome" where
  "destination_masks TZ_DEBUG l = (case l of
       LayoutTransferDestination \<Rightarrow> Inr (4096, 4096)
     | LayoutShaderResource \<Rightarrow> Inr (32, 32768)
     | _ \<Rightarrow> and_then (tz_error TZ_DEBUG) (\<lambda>_. Inl UninitialisedRead))"

definition transition_image_layout ::
    "bool \<Rightarrow> CommandBuffer \<Rightarrow> VulkanImage \<Rightarrow> ImageLayout \<Rightarrow> vk_world \<Rightarrow> vk_world outcome" where
  "transition_image_layout TZ_DEBUG self img new_layout w =
     and_then (source_masks TZ_DEBUG (vi_layout img)) (\<lambda>(src_access, source_stage).
     and_then (destination_masks TZ_DEBUG new_layout) (\<lambda>(dst_access, destination_stage).
     Inr (add_command (cb_native self) (CmdPipelineBarrier source_stage destination_stage
       \<lparr>barrier_srcAccess = src_access, barrier_dstAccess = dst_access, barrier_oldLayout = layout_value (vi_layout img),
        barrier_newLayout = layout_value new_layout, barrier_image = vi_image img\<rparr>) w)))"

text \<open>\<open>Image::set_layout\<close> is the only operation that changes the layout an image object remembers.\<close>

definition image_set_layout ::
    "bool \<Rightarrow> CommandBuffer \<Rightarrow> VulkanImage \<Rightarrow> ImageLayout \<Rightarrow> vk_world \<Rightarrow> (VulkanImage \<times> vk_world) outcome" where
  "image_set_layout TZ_DEBUG recording self new_layout w =
     and_then (transition_image_layout TZ_DEBUG recording self new_layout w) (\<lambda>w.
     Inr (self\<lparr>vi_layout := new_layout\<rparr>, w))"

definition bind_buffer :: "bool \<Rightarrow> CommandBuffer \<Rightarrow> VulkanBuffer \<Rightarrow> vk_world \<Rightarrow> vk_world outcome" where
  "bind_buffer TZ_DEBUG self b w =
     and_then (tz_assert TZ_DEBUG (\<not> vk_buffer_is_null b)) (\<lambda>_.
     and_then (vk_buffer_get_type TZ_DEBUG b) (\<lambda>type.
     case type of
       VertexBuffer \<Rightarrow> Inr (add_command (cb_native self) (CmdBindVertexBuffers (vb_buffer b)) w)
     | IndexBuffer \<Rightarrow> Inr (add_command (cb_native self) (CmdBindIndexBuffer (vb_buffer b)) w)
     | _ \<Rightarrow> and_then (tz_error TZ_DEBUG) (\<lambda>_. Inr w)))"

definition bind_descriptor_set :: "CommandBuffer \<Rightarrow> nat \<Rightarrow> nat \<Rightarrow> vk_world \<Rightarrow> vk_world" where
  "bind_descriptor_set self descriptor_set layout w =
     add_command (cb_native self) (CmdBindDescriptorSets layout descriptor_set) w"

definition draw_call :: "CommandBuffer \<Rightarrow> u32 \<Rightarrow> u32 \<Rightarrow> u32 \<Rightarrow> u32 \<Rightarrow> vk_world \<Rightarrow> vk_world" where
  "draw_call self vert_count inst_count first_index first_instance w =
     add_command (cb_native self) (CmdDraw vert_count inst_count first_index first_instance) w"

definition draw_indexed :: "CommandBuffer \<Rightarrow> u32 \<Rightarrow> u32 \<Rightarrow> u32 \<Rightarrow> u32 \<Rightarrow> u32 \<Rightarrow> vk_world \<Rightarrow> vk_world" where
  "draw_indexed self idx_count inst_count first_index vtx_offset first_instance w =
     add_command (cb_native self) (CmdDrawIndexed idx_count inst_count first_index vtx_offset first_instance) w"

definition draw_indirect :: "bool \<Rightarrow> CommandBuffer \<Rightarrow> VulkanBuffer \<Rightarrow> u32 \<Rightarrow> vk_world \<Rightarrow> vk_world outcome" where
  "draw_indirect TZ_DEBUG self b draws w =
     and_then (tz_assert TZ_DEBUG (\<not> vk_buffer_is_null b)) (\<lambda>_.
     Inr (add_command (cb_native self) (CmdDrawIndexedIndirect (vb_buffer b) draws sizeof_DrawIndirectCommand) w))"

section \<open>Command pools\<close>

record CommandPool =
  cp_pool :: nat
  cp_buffers :: "CommandBuffer list"

definition command_pool_new :: "bool \<Rightarrow> vk_driver \<Rightarrow> nat \<Rightarrow> bool \<Rightarrow> vk_world \<Rightarrow> (CommandPool \<times> vk_world) outcome" where
  "command_pool_new TZ_DEBUG drv family recycleable w =
     and_then (object_new TZ_DEBUG drv (CommandPoolObject family (if recycleable then 2 else 0)) w) (\<lambda>(h, w).
     Inr (\<lparr>cp_pool = h, cp_buffers = []\<rparr>, w))"

definition get_buffer_natives :: "CommandPool \<Rightarrow> nat list" where
  "get_buffer_natives self =
     fold (\<lambda>i buffer_natives. buffer_natives @ [cb_native (cp_buffers self ! i)]) [0..<length (cp_buffers self)] []"

text \<open>
  The allocation writes the first \<open>n\<close> entries of the array of all handles, whichever buffers
  they belong to; a failed one leaves null handles there.
\<close>

definition command_pool_with ::
    "bool \<Rightarrow> vk_driver \<Rightarrow> nat \<Rightarrow> CommandPool \<Rightarrow> vk_world \<Rightarrow> (nat \<times> CommandPool \<times> vk_world) outcome" where
  "command_pool_with TZ_DEBUG drv n self w =
     (let index = length (cp_buffers self);
          self = self\<lparr>cp_buffers := cp_buffers self @ replicate n \<lparr>cb_native = VK_NULL_HANDLE, cb_recording = False\<rparr>\<rparr>;
          buffer_natives = get_buffer_natives self;
          res = allocate_commands drv w n;
          answer = (case res of None \<Rightarrow> replicate n VK_NULL_HANDLE | Some hs \<Rightarrow> hs);
          buffer_natives = overwrite buffer_natives 0 answer;
          w = (case res of None \<Rightarrow> w | Some hs \<Rightarrow>
                w\<lparr>recordings := fold (\<lambda>h l. AList.update h [] l) hs (recordings w)\<rparr>);
          self = self\<lparr>cp_buffers := map (\<lambda>i. (cp_buffers self ! i)\<lparr>cb_native := buffer_natives ! i\<rparr>) [0..<length (cp_buffers self)]\<rparr>
      in and_then (tz_assert TZ_DEBUG (res \<noteq> None)) (\<lambda>_. Inr (index, self, w)))"

definition command_pool_clear :: "CommandPool \<Rightarrow> vk_world \<Rightarrow> CommandPool \<times> vk_world" where
  "command_pool_clear self w =
     (self\<lparr>cp_buffers := []\<rparr>,
      w\<lparr>recordings := fold AList.delete (get_buffer_natives self) (recordings w)\<rparr>)"

definition command_pool_at :: "CommandPool \<Rightarrow> nat \<Rightarrow> CommandBuffer outcome" where
  "command_pool_at self idx = at_index (cp_buffers self) idx"

section \<open>Running the scratch buffer\<close>

text \<open>
  Submitting one command buffer with a fence and waiting for the fence: when the wait returns,
  the GPU has executed the commands.  \<open>DeviceFault\<close> is the execution of a command that is not
  valid.
\<close>

definition submit_and_wait :: "CommandBuffer \<Rightarrow> nat \<Rightarrow> vk_world \<Rightarrow> vk_world outcome" where
  "submit_and_wait scratch_buf copy_fence w =
     (case run_commands (case map_of (recordings w) (cb_native scratch_buf) of None \<Rightarrow> [] | Some cs \<Rightarrow> cs) (w, nothing_bound) of
        None \<Rightarrow> Inl DeviceFault
      | Some (w, _) \<Rightarrow>
          Inr (sync (submit_to (submit_new [cb_native scratch_buf] [] [] []) copy_fence @ fence_wait_for copy_fence) w))"

text \<open>
  The staged upload the renderer performs for every buffer that lives on the GPU: a staging
  buffer is created and written, a copy is recorded in the scratch buffer, submitted and waited
  for, and the staging buffer is destroyed at the end of its scope.
\<close>

definition staged_copy ::
    "bool \<Rightarrow> vk_driver \<Rightarrow> CommandBuffer \<Rightarrow> nat \<Rightarrow> u8 list \<Rightarrow> VulkanBuffer \<Rightarrow> vk_world \<Rightarrow> vk_world outcome" where
  "staged_copy TZ_DEBUG drv scratch_buf copy_fence bytes destination w =
     and_then (vk_buffer_new TZ_DEBUG drv StagingBuffer TransferSource CPU (length bytes) w) (\<lambda>(staging, w).
     and_then (vk_buffer_write TZ_DEBUG staging bytes w) (\<lambda>w.
     and_then (record_with TZ_DEBUG drv scratch_buf
       (buffer_copy_buffer TZ_DEBUG scratch_buf staging destination (length bytes)) w) (\<lambda>w.
     and_then (submit_and_wait scratch_buf copy_fence (sync (fence_signal copy_fence) w)) (\<lambda>w.
     Inr (vk_buffer_destroy staging w)))))"

section \<open>Recordings\<close>

text \<open>Everything but the buffers, the synchronisation calls and one recording is the same.\<close>

definition same_but_recording :: "nat set \<Rightarrow> vk_world \<Rightarrow> vk_world \<Rightarrow> bool" where
  "same_but_recording C w w' \<longleftrightarrow> texels w' = texels w \<and> objects w' = objects w \<and> descriptor_sets w' = descriptor_sets w \<and>
     (\<forall>c. c \<notin> C \<longrightarrow> map_of (recordings w') c = map_of (recordings w) c)"

lemma same_but_recording_refl [simp]: "same_but_recording C w w"
  by (simp add: same_but_recording_def)

lemma same_objects_but_recording: "same_objects w w' \<Longrightarrow> same_but_recording C w w'"
  by (simp add: same_objects_def same_but_recording_def)

lemma same_but_recording_trans:
  "same_but_recording C w w' \<Longrightarrow> same_but_recording D w' w'' \<Longrightarrow> C \<union> D \<subseteq> E \<Longrightarrow> same_but_recording E w w''"
  unfolding same_but_recording_def by (metis Un_iff subset_iff)

lemma same_but_recording_mono: "same_but_recording C w w' \<Longrightarrow> C \<subseteq> D \<Longrightarrow> same_but_recording D w w'"
  by (auto simp: same_but_recording_def)

lemma map_of_recordings [simp]:
  "map_of (AList.update c cs (recordings w)) = (map_of (recordings w))(c \<mapsto> cs)"
  by (simp add: update_conv')

text \<open>The world after recording a list of commands in a command buffer.\<close>

definition recorded :: "nat \<Rightarrow> vk_command list \<Rightarrow> vk_world \<Rightarrow> vk_world \<Rightarrow> bool" where
  "recorded c cs w w' \<longleftrightarrow> storages w' = storages w \<and> vk_memory w' = vk_memory w \<and> sync_calls w' = sync_calls w \<and>
     texels w' = texels w \<and> objects w' = objects w \<and> descriptor_sets w' = descriptor_sets w \<and>
     map_of (recordings w') = (map_of (recordings w))(c \<mapsto> cs)"

lemma recorded_same: "recorded c cs w w' \<Longrightarrow> same_but_recording {c} w w' \<and> keeps_buffers {} w w'"
  by (simp add: recorded_def same_but_recording_def keeps_buffers_def)

text \<open>What depends on the buffers and the memory only.\<close>

lemma same_store:
  assumes "storages w' = storages w" "vk_memory w' = vk_memory w"
  shows "vk_wf w' \<longleftrightarrow> vk_wf w" "owns w' b s \<longleftrightarrow> owns w b s" "gpu_contents w' h = gpu_contents w h"
    "keeps_buffers S w w'"
  using assms by (simp_all add: vk_wf_def owns_def gpu_contents_def keeps_buffers_def cong: option.case_cong if_cong)

lemma recorded_store: "recorded c cs w w' \<Longrightarrow> storages w' = storages w \<and> vk_memory w' = vk_memory w"
  by (simp add: recorded_def)

lemma recorded_start: "recorded c [] w (w\<lparr>recordings := AList.update c [] (recordings w)\<rparr>)"
  by (simp add: recorded_def)

lemma recorded_add: "recorded c cs w w' \<Longrightarrow> recorded c (cs @ [cmd]) w (add_command c cmd w')"
  by (simp add: recorded_def add_command_def)

lemma record_with_recorded:
  assumes "vk_documented drv" "\<not> cb_recording self"
    and "body (w\<lparr>recordings := AList.update (cb_native self) [] (recordings w)\<rparr>) = Inr w'"
  shows "record_with d drv self body w = Inr w'"
  using assms by (simp add: record_with_def documented_recording)

lemma run_commands_append:
  "run_commands (cs @ ds) s = (case run_commands cs s of None \<Rightarrow> None | Some s' \<Rightarrow> run_commands ds s')"
  by (induction cs arbitrary: s) (auto split: option.splits)

section \<open>One staged upload\<close>

definition upload_calls :: "nat \<Rightarrow> nat \<Rightarrow> sync_call list" where
  "upload_calls c fence = [ResetFence fence, QueueSubmit [c] [] [] [] fence, WaitForFence fence]"

lemma run_copy:
  assumes "vk_wf w" "gpu_contents w src = Some bytes" "owns w dst s" "sto_maps s = 0"
    and "length (sto_bytes s) = length bytes" "src \<noteq> vb_buffer dst"
  obtains w' where "run_commands [CmdCopyBuffer src (vb_buffer dst) (length bytes)] (w, nothing_bound) = Some (w', nothing_bound)"
    "owns w' dst (s\<lparr>sto_bytes := bytes\<rparr>)" "keeps_buffers {vb_buffer dst} w w'" "vk_wf w'" "same_objects w w'"
    "sync_calls w' = sync_calls w" "\<forall>h. h \<noteq> vb_buffer dst \<longrightarrow> map_of (storages w') h = map_of (storages w) h"
    "gpu_contents w' (vb_buffer dst) = Some bytes" "vk_memory w' = vk_memory w"
proof -
  have d: "map_of (storages w) (vb_buffer dst) = Some s" using assms(3) by (simp add: owns_def)
  then have g: "gpu_contents w (vb_buffer dst) = Some (sto_bytes s)" using assms(4) by (simp add: gpu_contents_def)
  let ?w = "set_gpu_contents (vb_buffer dst) bytes w"
  have w: "?w = w\<lparr>storages := AList.update (vb_buffer dst) (s\<lparr>sto_bytes := bytes\<rparr>) (storages w)\<rparr>"
    using d assms(4) by (simp add: set_gpu_contents_def)
  have "overwrite (sto_bytes s) 0 bytes = bytes" using assms(5) by (simp add: overwrite_def)
  then have "run_commands [CmdCopyBuffer src (vb_buffer dst) (length bytes)] (w, nothing_bound) = Some (?w, nothing_bound)"
    using assms(2,5,6) g by simp
  moreover have "owns ?w dst (s\<lparr>sto_bytes := bytes\<rparr>)" using assms(3,4) by (simp add: w owns_def)
  ultimately show ?thesis
    using that set_gpu_contents_effect [OF assms(1) g, of bytes] by (simp add: w)
qed

text \<open>A staging buffer, created and filled.\<close>

lemma staging_filled:
  assumes doc: "vk_documented drv" and wf: "vk_wf w" and ne: "bytes \<noteq> []"
  obtains st w1 w2 s2 where "vk_buffer_new d drv StagingBuffer TransferSource CPU (length bytes) w = Inr (st, w1)"
    "vk_buffer_write d st bytes w1 = Inr w2" "vk_wf w2" "owns w2 st s2" "gpu_contents w2 (vb_buffer st) = Some bytes"
    "keeps_buffers {} w w2" "same_objects w w2" "sync_calls w2 = sync_calls w" "map_of (storages w) (vb_buffer st) = None"
    "\<forall>h. h \<noteq> vb_buffer st \<longrightarrow> map_of (storages w2) h = map_of (storages w) h"
proof -
  have pos: "0 < length bytes" using ne by simp
  have stg: "TransferSource = TransferSource \<longrightarrow> StagingBuffer = StagingBuffer" by simp
  obtain st w1 s1 where 1: "vk_buffer_new d drv StagingBuffer TransferSource CPU (length bytes) w = Inr (st, w1)" "vk_wf w1"
    "owns w1 st s1" "keeps_buffers {} w w1" "same_objects w w1" "sync_calls w1 = sync_calls w"
    "map_of (storages w) (vb_buffer st) = None" "sto_host s1 = (CPU \<noteq> GPU)" "sto_maps s1 = (if CPU = CPUPersistent then 1 else 0)"
    "length (sto_bytes s1) = length bytes" "\<forall>h. h \<noteq> vb_buffer st \<longrightarrow> map_of (storages w1) h = map_of (storages w) h"
    by (rule vk_buffer_new_effect [OF doc pos wf stg, of d CPU]) blast
  have h1: "sto_host s1" "sto_maps s1 = 0" "length bytes = length (sto_bytes s1)" using 1(8,9,10) by simp_all
  obtain w2 where 2: "vk_buffer_write d st bytes w1 = Inr w2" "vk_wf w2" "owns w2 st (s1\<lparr>sto_bytes := bytes\<rparr>)"
    "keeps_buffers {vb_buffer st} w1 w2" "same_objects w1 w2" "sync_calls w2 = sync_calls w1"
    "gpu_contents w2 (vb_buffer st) = Some bytes" "\<forall>h. h \<noteq> vb_buffer st \<longrightarrow> map_of (storages w2) h = map_of (storages w1) h"
    by (rule vk_buffer_write_effect [OF 1(2,3) h1, of d]) blast
  have "keeps_buffers ({} \<union> {vb_buffer st}) w w2" by (rule keeps_buffers_trans [OF 1(4) 2(4)])
  then have "keeps_buffers {} w w2" by (rule keeps_buffers_forget) (simp add: 1(7))
  then show ?thesis
    using that [OF 1(1) 2(1,2,3,7)] same_objects_trans [OF 1(5) 2(5)] 1(6,7,11) 2(6,8) by simp
qed

text \<open>Recording one copy, submitting it and waiting.\<close>

lemma copy_executed:
  assumes doc: "vk_documented drv" and wf: "vk_wf w" and scratch: "\<not> cb_recording scratch"
    and st: "owns w st s2" "gpu_contents w (vb_buffer st) = Some bytes"
    and dst: "owns w dst s" "sto_maps s = 0" "length (sto_bytes s) = length bytes" and neq: "vb_buffer st \<noteq> vb_buffer dst"
  obtains w' where "and_then (record_with d drv scratch (buffer_copy_buffer d scratch st dst (length bytes)) w)
      (\<lambda>w. submit_and_wait scratch fence (sync (fence_signal fence) w)) = Inr w'" "vk_wf w'"
    "owns w' dst (s\<lparr>sto_bytes := bytes\<rparr>)" "owns w' st s2" "keeps_buffers {vb_buffer dst} w w'"
    "same_but_recording {cb_native scratch} w w'" "sync_calls w' = sync_calls w @ upload_calls (cb_native scratch) fence"
    "\<forall>h. h \<noteq> vb_buffer dst \<longrightarrow> map_of (storages w') h = map_of (storages w) h"
proof -
  have null: "\<not> vk_buffer_is_null st" "\<not> vk_buffer_is_null dst" using st(1) dst(1) by (simp_all add: vk_buffer_is_null_def owns_def)
  let ?cmd = "CmdCopyBuffer (vb_buffer st) (vb_buffer dst) (length bytes)" and ?c = "cb_native scratch"
  define w3 where "w3 = add_command ?c ?cmd (w\<lparr>recordings := AList.update ?c [] (recordings w)\<rparr>)"
  define w4 where "w4 = sync (fence_signal fence) w3"
  have run3: "record_with d drv scratch (buffer_copy_buffer d scratch st dst (length bytes)) w = Inr w3"
    by (rule record_with_recorded [OF doc scratch]) (simp add: buffer_copy_buffer_def null w3_def)
  have eqs: "storages w4 = storages w" "vk_memory w4 = vk_memory w" "map_of (recordings w4) ?c = Some [?cmd]"
    "sync_calls w4 = sync_calls w @ fence_signal fence" "same_but_recording {?c} w w4"
    by (simp_all add: w4_def w3_def sync_def add_command_def same_but_recording_def update_conv')
  have d4: "vk_wf w4" "gpu_contents w4 (vb_buffer st) = Some bytes" "owns w4 dst s"
    unfolding same_store [OF eqs(1,2)] by (fact wf st(2) dst(1))+
  obtain w5 where 5: "run_commands [?cmd] (w4, nothing_bound) = Some (w5, nothing_bound)"
    "owns w5 dst (s\<lparr>sto_bytes := bytes\<rparr>)" "keeps_buffers {vb_buffer dst} w4 w5" "vk_wf w5" "same_objects w4 w5"
    "sync_calls w5 = sync_calls w4" "\<forall>h. h \<noteq> vb_buffer dst \<longrightarrow> map_of (storages w5) h = map_of (storages w4) h"
    by (rule run_copy [OF d4(1,2,3) dst(2,3) neq]) blast
  define w6 where "w6 = sync (submit_to (submit_new [?c] [] [] []) fence @ fence_wait_for fence) w5"
  have e6: "storages w6 = storages w5" "vk_memory w6 = vk_memory w5" by (simp_all add: w6_def sync_def)
  have k: "keeps_buffers {vb_buffer dst} w w6"
    using keeps_buffers_trans [OF same_store(4) [OF eqs(1,2)] keeps_buffers_trans [OF 5(3) same_store(4) [OF e6]], of "{}" "{}"] by simp
  have "and_then (record_with d drv scratch (buffer_copy_buffer d scratch st dst (length bytes)) w)
      (\<lambda>w. submit_and_wait scratch fence (sync (fence_signal fence) w)) = Inr w6"
    using run3 5(1) eqs(3) by (simp add: submit_and_wait_def w6_def flip: w4_def)
  moreover have "same_but_recording {?c} w w6"
    using eqs(5) 5(5) by (simp add: w6_def sync_def same_but_recording_def same_objects_def)
  moreover have "sync_calls w6 = sync_calls w @ upload_calls ?c fence"
    by (simp add: w6_def sync_def 5(6) eqs(4) upload_calls_def fence_signal_def fence_wait_for_def submit_to_def submit_new_def)
  moreover have "vk_wf w6" "owns w6 dst (s\<lparr>sto_bytes := bytes\<rparr>)" unfolding same_store [OF e6] by (fact 5(4,2))+
  ultimately show ?thesis
    using that [of w6] k owns_kept [OF st(1) k] neq 5(7) eqs(1) e6(1) by simp
qed

text \<open>
  A staged upload gives the destination exactly the bytes, keeps every other buffer, leaves no
  buffer behind and waits for the queue.
\<close>

lemma staged_copy_effect:
  assumes doc: "vk_documented drv" and wf: "vk_wf w" and scratch: "\<not> cb_recording scratch"
    and dst: "owns w dst s" "sto_maps s = 0" "length (sto_bytes s) = length bytes" and ne: "bytes \<noteq> []"
  obtains w' where "staged_copy d drv scratch fence bytes dst w = Inr w'" "vk_wf w'"
    "owns w' dst (s\<lparr>sto_bytes := bytes\<rparr>)" "keeps_buffers {vb_buffer dst} w w'"
    "same_but_recording {cb_native scratch} w w'" "sync_calls w' = sync_calls w @ upload_calls (cb_native scratch) fence"
    "\<forall>h. map_of (storages w) h = None \<longrightarrow> map_of (storages w') h = None"
proof -
  obtain st w1 w2 s2 where 2: "vk_buffer_new d drv StagingBuffer TransferSource CPU (length bytes) w = Inr (st, w1)"
    "vk_buffer_write d st bytes w1 = Inr w2" "vk_wf w2" "owns w2 st s2" "gpu_contents w2 (vb_buffer st) = Some bytes"
    "keeps_buffers {} w w2" "same_objects w w2" "sync_calls w2 = sync_calls w" "map_of (storages w) (vb_buffer st) = None"
    "\<forall>h. h \<noteq> vb_buffer st \<longrightarrow> map_of (storages w2) h = map_of (storages w) h"
    by (rule staging_filled [OF doc wf ne, of d]) blast
  have neq: "vb_buffer st \<noteq> vb_buffer dst" using 2(9) dst(1) by (auto simp: owns_def)
  have o2: "owns w2 dst s" using owns_kept [OF dst(1) 2(6)] by simp
  obtain w6 where 6: "and_then (record_with d drv scratch (buffer_copy_buffer d scratch st dst (length bytes)) w2)
      (\<lambda>w. submit_and_wait scratch fence (sync (fence_signal fence) w)) = Inr w6" "vk_wf w6"
    "owns w6 dst (s\<lparr>sto_bytes := bytes\<rparr>)" "owns w6 st s2" "keeps_buffers {vb_buffer dst} w2 w6"
    "same_but_recording {cb_native scratch} w2 w6" "sync_calls w6 = sync_calls w2 @ upload_calls (cb_native scratch) fence"
    "\<forall>h. h \<noteq> vb_buffer dst \<longrightarrow> map_of (storages w6) h = map_of (storages w2) h"
    by (rule copy_executed [OF doc 2(3) scratch 2(4,5) o2 dst(2,3) neq, of d fence]) blast
  let ?w = "vk_buffer_destroy st w6"
  note 7 = vk_buffer_destroy_effect [OF 6(2,4)]
  have run: "staged_copy d drv scratch fence bytes dst w = Inr ?w"
    using 2(1,2) 6(1) by (simp add: staged_copy_def flip: and_then_assoc)
  have "keeps_buffers ({} \<union> {vb_buffer dst} \<union> {vb_buffer st}) w ?w"
    by (rule keeps_buffers_trans [OF keeps_buffers_trans [OF 2(6) 6(5)] 7(2)])
  then have k: "keeps_buffers {vb_buffer dst} w ?w" by (rule keeps_buffers_forget) (auto simp: 2(9))
  have "same_but_recording {cb_native scratch} w ?w"
    using 2(7) 6(6) 7(3) by (simp add: same_but_recording_def same_objects_def)
  moreover have "map_of (storages ?w) h = None" if h: "map_of (storages w) h = None" for h
  proof -
    have "h \<noteq> vb_buffer dst" using h dst(1) by (auto simp: owns_def)
    then show ?thesis using h 2(10) 6(8) 7(4) by (cases "h = vb_buffer st") (simp_all add: vk_buffer_destroy_def vma_destroy_buffer_def)
  qed
  ultimately show ?thesis
    using that [OF run 7(1) _ k] owns_kept [OF 6(3) 7(2)] neq 7(5) 6(7) 2(8) by simp
qed

end
