(* ===== verification/Vk_Pass.thy ===== *)
theory Vk_Pass
  imports Vk_Command
begin

text \<open>
  Render passes and framebuffers: \<open>attachment.cpp\<close>, \<open>render_pass.cpp\<close>, \<open>render_pass.inl\<close> and
  \<open>framebuffer.cpp\<close> of \<open>gl/impl/backend/vk/\<close>, and \<open>gl/impl/frontend/vk/render_pass.cpp\<close>.

  A subpass keeps a pointer to the builder it was added to.  The builders are copied before they
  are used and the pointer still names the original, so \<open>describe\<close> takes the attachments of that
  original as an argument.
\<close>

section \<open>Attachments\<close>

type_synonym Attachment = VkAttachmentDescription

datatype StoreOperation = StoreOp | StoreDontCare
datatype LoadOperation = LoadOp | ClearOp | LoadDontCare

definition store_op_value :: "StoreOperation \<Rightarrow> u32" where
  "store_op_value op = (case op of StoreOp \<Rightarrow> 0 | StoreDontCare \<Rightarrow> 1)"

definition load_op_value :: "LoadOperation \<Rightarrow> u32" where
  "load_op_value op = (case op of LoadOp \<Rightarrow> 0 | ClearOp \<Rightarrow> 1 | LoadDontCare \<Rightarrow> 2)"

definition attachment_new ::
    "ImageFormat \<Rightarrow> LoadOperation \<Rightarrow> StoreOperation \<Rightarrow> LoadOperation \<Rightarrow> StoreOperation \<Rightarrow> ImageLayout \<Rightarrow> ImageLayout \<Rightarrow>
     Attachment" where
  "attachment_new format colour_depth_load colour_depth_store stencil_load stencil_store initial_layout final_layout =
     \<lparr>att_format = format_value format, att_loadOp = load_op_value colour_depth_load,
      att_storeOp = store_op_value colour_depth_store, att_stencilLoadOp = load_op_value stencil_load,
      att_stencilStoreOp = store_op_value stencil_store, att_initialLayout = layout_value initial_layout,
      att_finalLayout = layout_value final_layout, att_samples = 1\<rparr>"

definition attachment_new_colour_depth ::
    "ImageFormat \<Rightarrow> LoadOperation \<Rightarrow> StoreOperation \<Rightarrow> ImageLayout \<Rightarrow> ImageLayout \<Rightarrow> Attachment" where
  "attachment_new_colour_depth format colour_depth_load colour_depth_store initial_layout final_layout =
     attachment_new format colour_depth_load colour_depth_store LoadDontCare StoreDontCare initial_layout final_layout"

definition attachment_set_format :: "Attachment \<Rightarrow> u32 \<Rightarrow> Attachment" where
  "attachment_set_format self format = self\<lparr>att_format := format\<rparr>"

definition attachment_set_final_image_layout :: "Attachment \<Rightarrow> ImageLayout \<Rightarrow> Attachment" where
  "attachment_set_final_image_layout self l = self\<lparr>att_finalLayout := layout_value l\<rparr>"

definition attachment_equal :: "Attachment \<Rightarrow> Attachment \<Rightarrow> bool" where
  "attachment_equal self rhs \<longleftrightarrow>
     att_format self = att_format rhs \<and> att_loadOp self = att_loadOp rhs \<and> att_storeOp self = att_storeOp rhs \<and>
     att_stencilLoadOp self = att_stencilLoadOp rhs \<and> att_stencilStoreOp self = att_stencilStoreOp rhs \<and>
     att_initialLayout self = att_initialLayout rhs \<and> att_finalLayout self = att_finalLayout rhs"

section \<open>Subpasses\<close>

record RenderSubpass =
  sp_attachments :: "Attachment list"
  sp_attachments_offset :: nat

type_synonym RenderPassBuilder = "RenderSubpass list"

definition get_attachments :: "RenderPassBuilder \<Rightarrow> Attachment list" where
  "get_attachments self =
     fold (\<lambda>subpass all. fold (\<lambda>attachment all. all @ [attachment]) (sp_attachments subpass) all) self []"

definition builder_with :: "RenderPassBuilder \<Rightarrow> Attachment list \<Rightarrow> RenderPassBuilder" where
  "builder_with self attachments =
     self @ [\<lparr>sp_attachments = attachments, sp_attachments_offset = length (get_attachments self)\<rparr>]"

definition remove_subpass :: "RenderPassBuilder \<Rightarrow> nat \<Rightarrow> RenderPassBuilder outcome" where
  "remove_subpass self subpass =
     (if subpass < length self then Inr (take subpass self @ drop (Suc subpass) self) else Inl OutOfBounds)"

definition builder_has_depth_attachment :: "RenderPassBuilder \<Rightarrow> bool" where
  "builder_has_depth_attachment self \<longleftrightarrow>
     (\<exists>att\<in>set (get_attachments self). att_format att = format_value FormatDepthFloat32)"

text \<open>\<open>std::find\<close> with the equality of attachments: the position, or the length.\<close>

fun find_attachment :: "Attachment list \<Rightarrow> Attachment \<Rightarrow> nat" where
  "find_attachment [] a = 0"
| "find_attachment (x # xs) a = (if attachment_equal x a then 0 else Suc (find_attachment xs a))"

definition get_attachment_id :: "bool \<Rightarrow> Attachment list \<Rightarrow> RenderSubpass \<Rightarrow> Attachment \<Rightarrow> nat outcome" where
  "get_attachment_id TZ_DEBUG parent_list self attachment =
     (let local_index = find_attachment (sp_attachments self) attachment
      in if local_index = length (sp_attachments self)
         then (let global_index = find_attachment parent_list attachment
               in and_then (tz_assert TZ_DEBUG (global_index \<noteq> length parent_list)) (\<lambda>_. Inr global_index))
         else Inr (sp_attachments_offset self + local_index))"

definition describe_attachment ::
    "bool \<Rightarrow> Attachment list \<Rightarrow> RenderSubpass \<Rightarrow> Attachment \<Rightarrow> VkSubpassDescription \<Rightarrow> VkSubpassDescription outcome" where
  "describe_attachment TZ_DEBUG parent_list self attachment desc =
     and_then (get_attachment_id TZ_DEBUG parent_list self attachment) (\<lambda>i.
     let l = att_finalLayout attachment in
     if l = layout_value LayoutPresent \<or> l = layout_value LayoutTransferSource \<or> l = layout_value LayoutColourAttachment
     then Inr (desc\<lparr>sub_colour := sub_colour desc @ [\<lparr>ref_attachment = i, ref_layout = layout_value LayoutColourAttachment\<rparr>]\<rparr>)
     else if l = layout_value LayoutDepthAttachment
     then and_then (tz_assert TZ_DEBUG (sub_depth desc = None)) (\<lambda>_.
       Inr (desc\<lparr>sub_depth := Some \<lparr>ref_attachment = i, ref_layout = l\<rparr>\<rparr>))
     else and_then (tz_error TZ_DEBUG) (\<lambda>_. Inr desc))"

definition describe_subpass :: "bool \<Rightarrow> Attachment list \<Rightarrow> RenderSubpass \<Rightarrow> VkSubpassDescription outcome" where
  "describe_subpass TZ_DEBUG parent_list self =
     for_each (describe_attachment TZ_DEBUG parent_list self) parent_list \<lparr>sub_colour = [], sub_depth = None\<rparr>"

section \<open>Render passes\<close>

definition render_pass_dependency :: "RenderPassBuilder \<Rightarrow> VkSubpassDependency" where
  "render_pass_dependency builder =
     (if builder_has_depth_attachment builder
      then \<lparr>dep_srcStage = or 1024 256, dep_dstStage = or 1024 256, dep_dstAccess = or 256 1024\<rparr>
      else \<lparr>dep_srcStage = 1024, dep_dstStage = 1024, dep_dstAccess = 256\<rparr>)"

definition render_pass_info ::
    "bool \<Rightarrow> RenderPassBuilder \<Rightarrow> RenderPassBuilder \<Rightarrow> VkRenderPassCreateInfo outcome" where
  "render_pass_info TZ_DEBUG parent builder =
     and_then (for_each (\<lambda>subpass descs. and_then (describe_subpass TZ_DEBUG (get_attachments parent) subpass)
       (\<lambda>desc. Inr (descs @ [desc]))) builder []) (\<lambda>descs.
     Inr \<lparr>pass_attachments = get_attachments builder, pass_subpasses = descs,
       pass_dependency = render_pass_dependency builder\<rparr>)"

definition render_pass_new ::
    "bool \<Rightarrow> vk_driver \<Rightarrow> RenderPassBuilder \<Rightarrow> RenderPassBuilder \<Rightarrow> vk_world \<Rightarrow> (nat \<times> vk_world) outcome" where
  "render_pass_new TZ_DEBUG drv parent builder w =
     and_then (render_pass_info TZ_DEBUG parent builder) (\<lambda>create.
     object_new TZ_DEBUG drv (RenderPassObject create) w)"

text \<open>The run of a render pass: two clear values, a colour and the depth 1.0.\<close>

definition render_pass_run_begin ::
    "CommandBuffer \<Rightarrow> nat \<Rightarrow> nat \<Rightarrow> VkExtent2D \<Rightarrow> u32 list \<Rightarrow> vk_world \<Rightarrow> vk_world" where
  "render_pass_run_begin command_buffer render_pass framebuffer area clear_colour w =
     add_command (cb_native command_buffer) (CmdBeginRenderPass
       \<lparr>begin_renderPass = render_pass, begin_framebuffer = framebuffer, begin_renderArea = area,
        begin_clearColour = clear_colour, begin_clearDepth = 1065353216\<rparr>) w"

definition render_pass_run_end :: "CommandBuffer \<Rightarrow> vk_world \<Rightarrow> vk_world" where
  "render_pass_run_end command_buffer w = add_command (cb_native command_buffer) CmdEndRenderPass w"

definition framebuffer_new ::
    "bool \<Rightarrow> vk_driver \<Rightarrow> nat \<Rightarrow> nat \<Rightarrow> nat option \<Rightarrow> VkExtent2D \<Rightarrow> vk_world \<Rightarrow> (nat \<times> vk_world) outcome" where
  "framebuffer_new TZ_DEBUG drv render_pass col_view depth_view dimensions w =
     object_new TZ_DEBUG drv (FramebufferObject
       \<lparr>fb_renderPass = render_pass,
        fb_attachments = (case depth_view of None \<Rightarrow> [col_view] | Some v \<Rightarrow> [col_view, v]),
        fb_extent = dimensions\<rparr>) w"

section \<open>The frontend\<close>

record RenderPassBuilderVulkan =
  rp_builder :: RenderPassBuilder
  rp_passes :: "RenderPassAttachment list"

definition default_colour_attachment :: Attachment where
  "default_colour_attachment =
     attachment_new_colour_depth FormatUndefined ClearOp StoreOp LayoutUndefined LayoutColourAttachment"

definition default_depth_attachment :: Attachment where
  "default_depth_attachment =
     attachment_new FormatDepthFloat32 ClearOp StoreOp LoadDontCare StoreDontCare LayoutUndefined LayoutDepthAttachment"

definition pass_defaults :: "RenderPassAttachment \<Rightarrow> Attachment list" where
  "pass_defaults attachment = (case attachment of
       Colour \<Rightarrow> [default_colour_attachment]
     | Depth \<Rightarrow> [default_depth_attachment]
     | ColourDepth \<Rightarrow> [default_colour_attachment, default_depth_attachment])"

definition add_pass :: "RenderPassBuilderVulkan \<Rightarrow> RenderPassAttachment \<Rightarrow> RenderPassBuilderVulkan" where
  "add_pass self attachment =
     \<lparr>rp_builder = builder_with (rp_builder self) (pass_defaults attachment), rp_passes = rp_passes self @ [attachment]\<rparr>"

definition no_passes :: RenderPassBuilderVulkan where
  "no_passes = \<lparr>rp_builder = [], rp_passes = []\<rparr>"

text \<open>
  The first colour attachment of the last subpass that has one is to be presented, or read back
  when the application is headless.
\<close>

fun present_first :: "ImageLayout \<Rightarrow> Attachment list \<Rightarrow> Attachment list option" where
  "present_first l [] = None"
| "present_first l (a # as) =
     (if att_format a = format_value FormatUndefined
      then Some (attachment_set_final_image_layout a l # as)
      else map_option (\<lambda>as. a # as) (present_first l as))"

fun present_last :: "ImageLayout \<Rightarrow> RenderSubpass list \<Rightarrow> RenderSubpass list option" where
  "present_last l [] = None"
| "present_last l (p # ps) =
     (case present_last l ps of
        Some ps' \<Rightarrow> Some (p # ps')
      | None \<Rightarrow> map_option (\<lambda>as. p\<lparr>sp_attachments := as\<rparr> # ps) (present_first l (sp_attachments p)))"

definition replace_placeholder :: "u32 \<Rightarrow> Attachment \<Rightarrow> Attachment" where
  "replace_placeholder format a =
     (if att_format a = format_value FormatUndefined then attachment_set_format a format else a)"

definition vk_finalise :: "bool \<Rightarrow> RenderPassBuilderVulkan \<Rightarrow> u32 \<Rightarrow> RenderPassBuilderVulkan" where
  "vk_finalise headless self colour_attachment_format =
     (let l = (if headless then LayoutTransferSource else LayoutPresent);
          subpasses = (case present_last l (rp_builder self) of None \<Rightarrow> rp_builder self | Some ps \<Rightarrow> ps)
      in self\<lparr>rp_builder := map (\<lambda>p. p\<lparr>sp_attachments :=
           map (replace_placeholder colour_attachment_format) (sp_attachments p)\<rparr>) subpasses\<rparr>)"

record RenderPassVulkan =
  rp_native :: nat
  rp_colour_format :: u32
  rp_has_depth :: bool

definition requires_depth_image :: "RenderPassVulkan \<Rightarrow> bool" where
  "requires_depth_image self = rp_has_depth self"

text \<open>\<open>vk_create_render_pass\<close>: a copy of the builder is finalised; its subpasses point to the original.\<close>

definition vk_create_render_pass ::
    "bool \<Rightarrow> vk_driver \<Rightarrow> bool \<Rightarrow> u32 \<Rightarrow> RenderPassBuilderVulkan \<Rightarrow> vk_world \<Rightarrow> (RenderPassVulkan \<times> vk_world) outcome" where
  "vk_create_render_pass TZ_DEBUG drv headless format builder w =
     and_then (render_pass_new TZ_DEBUG drv (rp_builder builder) (rp_builder (vk_finalise headless builder format)) w) (\<lambda>(h, w).
     Inr (\<lparr>rp_native = h, rp_colour_format = format, rp_has_depth = (ColourDepth \<in> set (rp_passes builder))\<rparr>, w))"

section \<open>Which attachments a pass uses\<close>

definition has_colour :: "RenderPassAttachment \<Rightarrow> bool" where
  "has_colour p \<longleftrightarrow> p \<noteq> Depth"

definition has_depth :: "RenderPassAttachment \<Rightarrow> bool" where
  "has_depth p \<longleftrightarrow> p \<noteq> Colour"

definition passes :: "RenderPassAttachment list \<Rightarrow> RenderPassBuilderVulkan" where
  "passes ps = fold (\<lambda>p b. add_pass b p) ps no_passes"

lemmas attachment_simps = default_colour_attachment_def default_depth_attachment_def attachment_new_colour_depth_def
  attachment_new_def format_value_def layout_value_def layout_values load_op_value_def store_op_value_def

lemma get_attachments_concat: "get_attachments b = concat (map sp_attachments b)"
proof -
  have inner: "fold (\<lambda>attachment all. all @ [attachment]) xs acc = acc @ xs" for xs acc :: "Attachment list"
    by (induction xs arbitrary: acc) simp_all
  have "fold (\<lambda>subpass all. fold (\<lambda>attachment all. all @ [attachment]) (sp_attachments subpass) all) b acc =
      acc @ concat (map sp_attachments b)" for acc
    by (induction b arbitrary: acc) (simp_all add: inner)
  then show ?thesis by (simp add: get_attachments_def)
qed

lemma passes_builder:
  "map sp_attachments (rp_builder (passes ps)) = map pass_defaults ps"
  "rp_passes (passes ps) = ps"
proof -
  have "map sp_attachments (rp_builder (fold (\<lambda>p b. add_pass b p) ps b)) = map sp_attachments (rp_builder b) @ map pass_defaults ps \<and>
      rp_passes (fold (\<lambda>p b. add_pass b p) ps b) = rp_passes b @ ps" for b
    by (induction ps arbitrary: b) (simp_all add: add_pass_def builder_with_def)
  then show "map sp_attachments (rp_builder (passes ps)) = map pass_defaults ps" "rp_passes (passes ps) = ps"
    by (simp_all add: passes_def no_passes_def)
qed

text \<open>The attachments of all passes, before and after \<open>vk_finalise\<close>.\<close>

definition defaults :: "RenderPassAttachment list \<Rightarrow> Attachment list" where
  "defaults ps = concat (map pass_defaults ps)"

definition is_placeholder :: "Attachment \<Rightarrow> bool" where
  "is_placeholder a \<longleftrightarrow> att_format a = 0"

primrec finalised :: "ImageLayout \<Rightarrow> u32 \<Rightarrow> Attachment list \<Rightarrow> Attachment list" where
  "finalised l fmt [] = []"
| "finalised l fmt (a # as) =
     (if is_placeholder a
      then (if \<exists>b\<in>set as. is_placeholder b then a\<lparr>att_format := fmt\<rparr>
            else a\<lparr>att_format := fmt, att_finalLayout := layout_value l\<rparr>)
      else a) # finalised l fmt as"

lemma default_kinds:
  "a \<in> set (defaults ps) \<Longrightarrow> a = default_colour_attachment \<or> a = default_depth_attachment"
proof -
  assume "a \<in> set (defaults ps)"
  then obtain p where "a \<in> set (pass_defaults p)" by (auto simp: defaults_def)
  then show ?thesis by (cases p) (auto simp: pass_defaults_def)
qed

lemma default_facts [simp]:
  "is_placeholder default_colour_attachment" "\<not> is_placeholder default_depth_attachment"
  "att_finalLayout default_colour_attachment = 2" "att_finalLayout default_depth_attachment = 3"
  "att_format default_colour_attachment = 0" "att_format default_depth_attachment = 126"
  by (simp_all add: is_placeholder_def attachment_simps)

lemma defaults_Cons: "defaults (p # ps) = pass_defaults p @ defaults ps"
  by (simp add: defaults_def)

lemma placeholder_in_defaults: "(\<exists>b\<in>set (defaults ps). is_placeholder b) \<longleftrightarrow> (\<exists>p\<in>set ps. has_colour p)"
  by (induction ps) (auto simp: defaults_def pass_defaults_def has_colour_def split: RenderPassAttachment.splits)

lemma finalised_append:
  "finalised l fmt (as @ bs) =
     (if \<exists>b\<in>set bs. is_placeholder b then map (replace_placeholder fmt) as else finalised l fmt as) @ finalised l fmt bs"
  by (induction as) (auto simp: replace_placeholder_def attachment_set_format_def is_placeholder_def format_value_def)

lemma finalised_plain: "\<not> (\<exists>b\<in>set bs. is_placeholder b) \<Longrightarrow> finalised l fmt bs = bs"
  by (induction bs) auto

lemma replace_plain: "\<not> (\<exists>b\<in>set bs. is_placeholder b) \<Longrightarrow> map (replace_placeholder fmt) bs = bs"
  by (induction bs) (auto simp: replace_placeholder_def is_placeholder_def format_value_def)

lemma present_first_defaults:
  "present_first l (pass_defaults p) = (if has_colour p then Some (case p of
     Colour \<Rightarrow> [default_colour_attachment\<lparr>att_finalLayout := layout_value l\<rparr>]
   | _ \<Rightarrow> [default_colour_attachment\<lparr>att_finalLayout := layout_value l\<rparr>, default_depth_attachment]) else None)"
  by (cases p) (simp_all add: pass_defaults_def has_colour_def format_value_def attachment_set_final_image_layout_def)

lemma replace_defaults:
  "replace_placeholder fmt (default_colour_attachment\<lparr>att_finalLayout := x\<rparr>) =
     default_colour_attachment\<lparr>att_format := fmt, att_finalLayout := x\<rparr>"
  "replace_placeholder fmt default_depth_attachment = default_depth_attachment"
  by (simp_all add: replace_placeholder_def format_value_def attachment_set_format_def)

lemma present_last_defaults:
  assumes "map sp_attachments b = map pass_defaults ps"
  shows "concat (map (\<lambda>p. map (replace_placeholder fmt) (sp_attachments p))
      (case present_last l b of None \<Rightarrow> b | Some b' \<Rightarrow> b')) = finalised l fmt (defaults ps) \<and>
    (present_last l b = None \<longleftrightarrow> \<not> (\<exists>p\<in>set ps. has_colour p))"
  using assms
proof (induction ps arbitrary: b)
  case (Cons p ps)
  then obtain q b' where b: "b = q # b'" "sp_attachments q = pass_defaults p" "map sp_attachments b' = map pass_defaults ps"
    by (cases b) auto
  note IH = Cons.IH [OF b(3)]
  show ?case
  proof (cases "\<exists>p\<in>set ps. has_colour p")
    case True
    then obtain b'' where "present_last l b' = Some b''" using IH by auto
    then show ?thesis using IH b(2) True by (simp add: b(1) defaults_Cons finalised_append placeholder_in_defaults)
  next
    case False
    then have none: "present_last l b' = None" using IH by blast
    have tail: "concat (map (\<lambda>p. map (replace_placeholder fmt) (sp_attachments p)) b') = finalised l fmt (defaults ps)"
      using IH none by simp
    show ?thesis
      using False none tail b(2)
      by (cases p) (simp_all add: b(1) defaults_Cons finalised_append placeholder_in_defaults present_first_defaults
        has_colour_def pass_defaults_def attachment_set_final_image_layout_def replace_defaults format_value_def)
  qed
qed (simp add: defaults_def)

lemma finalised_attachments:
  "get_attachments (rp_builder (vk_finalise headless (passes ps) fmt)) =
     finalised (if headless then LayoutTransferSource else LayoutPresent) fmt (defaults ps)"
  using present_last_defaults [OF passes_builder(1), where fmt = fmt and
    l = "if headless then LayoutTransferSource else LayoutPresent"]
  by (simp add: vk_finalise_def get_attachments_concat comp_def Let_def)

text \<open>No attachment of a finalised pass equals the placeholder the original builder still holds.\<close>

lemma finalised_no_placeholder:
  assumes "fmt \<noteq> 0" "p \<in> set (rp_builder (vk_finalise headless b fmt))" "a \<in> set (sp_attachments p)"
  shows "\<not> attachment_equal a default_colour_attachment"
  using assms
  by (auto simp: vk_finalise_def attachment_equal_def replace_placeholder_def attachment_set_format_def format_value_def
      split: option.splits if_splits)

lemma find_attachment_none: "\<forall>x\<in>set xs. \<not> attachment_equal x a \<Longrightarrow> find_attachment xs a = length xs"
  by (induction xs) auto

lemma find_attachment_le: "find_attachment xs a \<le> length xs"
  by (induction xs) auto

lemma find_attachment_in: "x \<in> set xs \<Longrightarrow> attachment_equal x a \<Longrightarrow> find_attachment xs a < length xs"
  by (induction xs) auto

lemma attachment_equal_refl [simp]: "attachment_equal a a"
  by (simp add: attachment_equal_def)

lemma colour_attachment_id:
  assumes "fmt \<noteq> 0" "p \<in> set (rp_builder (vk_finalise headless b fmt))" "default_colour_attachment \<in> set as"
  shows "get_attachment_id d as p default_colour_attachment = Inr (find_attachment as default_colour_attachment)"
  using find_attachment_none [of "sp_attachments p" default_colour_attachment] finalised_no_placeholder [OF assms(1,2)]
    find_attachment_in [OF assms(3) attachment_equal_refl]
  by (auto simp: get_attachment_id_def Let_def)

lemma some_attachment_id: "a \<in> set as \<Longrightarrow> \<exists>i. get_attachment_id d as p a = Inr i"
  using find_attachment_in [OF _ attachment_equal_refl, of a as] by (auto simp: get_attachment_id_def Let_def)

text \<open>
  Describing a subpass of a finalised builder: all colour references are to the first colour
  attachment of the pass.
\<close>

definition colour_reference :: "Attachment list \<Rightarrow> VkAttachmentReference" where
  "colour_reference as = \<lparr>ref_attachment = find_attachment as default_colour_attachment, ref_layout = layout_value LayoutColourAttachment\<rparr>"

definition depth_count :: "Attachment list \<Rightarrow> nat" where
  "depth_count as = length (filter (\<lambda>a. \<not> is_placeholder a) as)"

lemma describe_attachments:
  assumes fin: "fmt \<noteq> 0" "p \<in> set (rp_builder (vk_finalise headless b fmt))"
    and sub: "set as \<subseteq> set (defaults ps)" and depth: "depth_count as + (if sub_depth desc = None then 0 else 1) \<le> 1"
  shows "\<exists>desc'. for_each (describe_attachment d (defaults ps) p) as desc = Inr desc' \<and>
    sub_colour desc' = sub_colour desc @ replicate (length (filter is_placeholder as)) (colour_reference (defaults ps))"
  using sub depth
proof (induction as arbitrary: desc)
  case (Cons a as)
  have a: "a \<in> set (defaults ps)" using Cons.prems(1) by simp
  show ?case
  proof (cases "is_placeholder a")
    case True
    then have ac: "a = default_colour_attachment" using default_kinds [OF a] by auto
    let ?desc = "desc\<lparr>sub_colour := sub_colour desc @ [colour_reference (defaults ps)]\<rparr>"
    have "describe_attachment d (defaults ps) p a desc = Inr ?desc"
      using colour_attachment_id [OF fin, of "defaults ps" d] a
      by (simp add: describe_attachment_def ac layout_value_def Let_def colour_reference_def)
    moreover have "\<exists>desc'. for_each (describe_attachment d (defaults ps) p) as ?desc = Inr desc' \<and>
        sub_colour desc' = sub_colour ?desc @ replicate (length (filter is_placeholder as)) (colour_reference (defaults ps))"
      using Cons.prems True by (intro Cons.IH) (simp_all add: depth_count_def)
    ultimately show ?thesis using True by auto
  next
    case False
    then have ad: "a = default_depth_attachment" using default_kinds [OF a] by auto
    have none: "sub_depth desc = None" "depth_count as = 0"
      using Cons.prems(2) False by (auto simp: depth_count_def split: if_splits)
    obtain i where i: "get_attachment_id d (defaults ps) p a = Inr i" using some_attachment_id [OF a] by blast
    let ?desc = "desc\<lparr>sub_depth := Some \<lparr>ref_attachment = i, ref_layout = 3\<rparr>\<rparr>"
    have "describe_attachment d (defaults ps) p a desc = Inr ?desc"
      using i none(1) by (simp add: describe_attachment_def ad layout_value_def layout_values Let_def)
    moreover have "\<exists>desc'. for_each (describe_attachment d (defaults ps) p) as ?desc = Inr desc' \<and>
        sub_colour desc' = sub_colour ?desc @ replicate (length (filter is_placeholder as)) (colour_reference (defaults ps))"
      using Cons.prems none by (intro Cons.IH) simp_all
    ultimately show ?thesis using False by auto
  qed
qed simp

lemma depth_count_defaults: "depth_count (defaults ps) = length (filter has_depth ps)"
proof (induction ps)
  case (Cons p ps)
  then show ?case by (cases p) (simp_all add: depth_count_def defaults_Cons pass_defaults_def has_depth_def)
qed (simp add: depth_count_def defaults_def)

lemma colour_count_defaults: "length (filter is_placeholder (defaults ps)) = length (filter has_colour ps)"
proof (induction ps)
  case (Cons p ps)
  then show ?case by (cases p) (simp_all add: defaults_Cons pass_defaults_def has_colour_def)
qed (simp add: defaults_def)

lemma present_last_length: "present_last l b = Some b' \<Longrightarrow> length b' = length b"
  by (induction b arbitrary: b') (auto split: option.splits)

lemma finalised_length: "length (rp_builder (vk_finalise headless (passes ps) fmt)) = length ps"
proof -
  have "length (rp_builder (passes ps)) = length ps" using arg_cong [OF passes_builder(1), of length ps] by simp
  then show ?thesis by (auto simp: vk_finalise_def Let_def dest: present_last_length split: option.splits)
qed

lemma describe_passes:
  assumes "fmt \<noteq> 0" "length (filter has_depth ps) \<le> 1"
  obtains descs where "render_pass_info d (rp_builder (passes ps)) (rp_builder (vk_finalise headless (passes ps) fmt)) =
      Inr \<lparr>pass_attachments = finalised (if headless then LayoutTransferSource else LayoutPresent) fmt (defaults ps),
        pass_subpasses = descs, pass_dependency = render_pass_dependency (rp_builder (vk_finalise headless (passes ps) fmt))\<rparr>"
    "length descs = length ps"
    "\<forall>desc\<in>set descs. sub_colour desc = replicate (length (filter has_colour ps)) (colour_reference (defaults ps))"
proof -
  let ?b = "rp_builder (vk_finalise headless (passes ps) fmt)"
  have parent: "get_attachments (rp_builder (passes ps)) = defaults ps"
    by (simp add: get_attachments_concat passes_builder defaults_def)
  have one: "\<exists>desc. describe_subpass d (defaults ps) p = Inr desc \<and>
      sub_colour desc = replicate (length (filter has_colour ps)) (colour_reference (defaults ps))" if "p \<in> set ?b" for p
    using describe_attachments [OF assms(1) that subset_refl, of ps "\<lparr>sub_colour = [], sub_depth = None\<rparr>" d] assms(2)
    by (simp add: describe_subpass_def depth_count_defaults colour_count_defaults)
  have loop: "\<exists>ds. for_each (\<lambda>subpass descs. and_then (describe_subpass d (defaults ps) subpass) (\<lambda>desc. Inr (descs @ [desc]))) bs acc =
        Inr (acc @ ds) \<and> length ds = length bs \<and>
      (\<forall>desc\<in>set ds. sub_colour desc = replicate (length (filter has_colour ps)) (colour_reference (defaults ps)))"
    if "set bs \<subseteq> set ?b" for bs acc
    using that
  proof (induction bs arbitrary: acc)
    case (Cons q bs)
    obtain desc where desc: "describe_subpass d (defaults ps) q = Inr desc"
      "sub_colour desc = replicate (length (filter has_colour ps)) (colour_reference (defaults ps))"
      using one [of q] Cons.prems by auto
    obtain ds where "for_each (\<lambda>subpass descs. and_then (describe_subpass d (defaults ps) subpass) (\<lambda>desc. Inr (descs @ [desc]))) bs
        (acc @ [desc]) = Inr ((acc @ [desc]) @ ds)" "length ds = length bs"
      "\<forall>desc\<in>set ds. sub_colour desc = replicate (length (filter has_colour ps)) (colour_reference (defaults ps))"
      using Cons.IH [of "acc @ [desc]"] Cons.prems by auto
    then show ?case using desc by (intro exI [of _ "desc # ds"]) auto
  qed simp
  have "length ?b = length ps" by (rule finalised_length)
  then show ?thesis
    using loop [OF subset_refl, of "[]"] that parent by (auto simp: render_pass_info_def finalised_attachments)
qed

text \<open>Where the finalised attachments are presented.\<close>

lemma finalised_presented:
  assumes "set as \<subseteq> {default_colour_attachment, default_depth_attachment}" "l \<noteq> LayoutColourAttachment" "l \<noteq> LayoutDepthAttachment"
    and "i < length as"
  shows "att_finalLayout (finalised l fmt as ! i) = layout_value l \<longleftrightarrow>
    is_placeholder (as ! i) \<and> \<not> (\<exists>b\<in>set (drop (Suc i) as). is_placeholder b)"
  using assms
proof (induction as arbitrary: i)
  case (Cons a as)
  have l: "layout_value l \<noteq> 2" "layout_value l \<noteq> 3" using assms(2,3) by (cases l; simp add: layout_value_def layout_values)+
  show ?case
  proof (cases i)
    case 0
    then show ?thesis using Cons.prems(1) l by auto
  next
    case (Suc j)
    then show ?thesis using Cons.IH [of j] Cons.prems by simp
  qed
qed simp

lemma first_colour:
  assumes "set as \<subseteq> {default_colour_attachment, default_depth_attachment}" "\<exists>a\<in>set as. is_placeholder a"
  shows "let c = find_attachment as default_colour_attachment in
    c < length as \<and> is_placeholder (as ! c) \<and> filter is_placeholder as = as ! c # filter is_placeholder (drop (Suc c) as)"
  using assms
proof (induction as)
  case (Cons a as)
  have eq: "attachment_equal default_depth_attachment default_colour_attachment = False" by (simp add: attachment_equal_def)
  show ?case
  proof (cases "is_placeholder a")
    case True
    then have "a = default_colour_attachment" using Cons.prems(1) by auto
    then show ?thesis by simp
  next
    case False
    then have "a = default_depth_attachment" using Cons.prems(1) by auto
    then show ?thesis using Cons eq by (simp add: Let_def)
  qed
qed simp

section \<open>Properties\<close>

text \<open>
  C33. The render pass built from a list of passes draws into the attachment that is presented (or,
  headless, read back) if and only if exactly one pass has a colour attachment: with two or more,
  every subpass refers to the first colour attachment of the pass and none to the presented one,
  because the subpasses describe the attachments of the builder that was copied before it was
  finalised, where all colour attachments are equal.
\<close>

theorem presented_attachment_drawn_iff:
  assumes "fmt \<noteq> 0" "length (filter has_depth ps) \<le> 1" "\<exists>p\<in>set ps. has_colour p"
  shows "\<exists>info. render_pass_info d (rp_builder (passes ps)) (rp_builder (vk_finalise headless (passes ps) fmt)) = Inr info \<and>
    length (pass_subpasses info) = length ps \<and>
    ((\<exists>sub\<in>set (pass_subpasses info). \<exists>r\<in>set (sub_colour sub). att_finalLayout (pass_attachments info ! ref_attachment r) =
        layout_value (if headless then LayoutTransferSource else LayoutPresent)) \<longleftrightarrow>
     length (filter has_colour ps) = 1)"
proof -
  let ?l = "if headless then LayoutTransferSource else LayoutPresent" and ?A = "defaults ps"
  let ?c = "find_attachment ?A default_colour_attachment" and ?n = "length (filter has_colour ps)"
  obtain descs where descs: "render_pass_info d (rp_builder (passes ps)) (rp_builder (vk_finalise headless (passes ps) fmt)) =
      Inr \<lparr>pass_attachments = finalised ?l fmt ?A,
        pass_subpasses = descs, pass_dependency = render_pass_dependency (rp_builder (vk_finalise headless (passes ps) fmt))\<rparr>"
    "length descs = length ps" "\<forall>desc\<in>set descs. sub_colour desc = replicate ?n (colour_reference ?A)"
    by (rule describe_passes [OF assms(1,2), where d = d and headless = headless]) blast
  have kinds: "set ?A \<subseteq> {default_colour_attachment, default_depth_attachment}" using default_kinds by blast
  have "\<exists>a\<in>set ?A. is_placeholder a" using assms(3) placeholder_in_defaults by blast
  from first_colour [OF kinds this] have c: "?c < length ?A" "is_placeholder (?A ! ?c)"
    "filter is_placeholder ?A = ?A ! ?c # filter is_placeholder (drop (Suc ?c) ?A)"
    by (simp_all add: Let_def)
  have n: "?n = Suc (length (filter is_placeholder (drop (Suc ?c) ?A)))"
    using arg_cong [OF c(3), of length] by (simp add: colour_count_defaults)
  then have "?n = 1 \<longleftrightarrow> \<not> (\<exists>b\<in>set (drop (Suc ?c) ?A). is_placeholder b)" by (simp add: filter_empty_conv)
  then have "att_finalLayout (finalised ?l fmt ?A ! ?c) = layout_value ?l \<longleftrightarrow> ?n = 1"
    using finalised_presented [OF kinds _ _ c(1), of ?l fmt] c(2) by auto
  moreover have "descs \<noteq> []" using assms(3) descs(2) by auto
  moreover have "set (replicate ?n (colour_reference ?A)) = {colour_reference ?A}" by (auto simp: n set_replicate_conv_if)
  ultimately show ?thesis
    using descs by (auto simp: colour_reference_def ex_in_conv)
qed

theorem presented_attachment_drawn_iff_witness:
  "\<exists>info. render_pass_info True (rp_builder (passes [Colour, ColourDepth])) (rp_builder (vk_finalise False (passes [Colour, ColourDepth]) 50)) =
      Inr info \<and> length (pass_subpasses info) = Suc 1 \<and>
    \<not> (\<exists>sub\<in>set (pass_subpasses info). \<exists>r\<in>set (sub_colour sub).
      att_finalLayout (pass_attachments info ! ref_attachment r) = layout_value LayoutPresent)"
  using presented_attachment_drawn_iff [of 50 "[Colour, ColourDepth]" True False] by (simp add: has_depth_def has_colour_def)

end
