(* ===== verification/Vk_Managers.thy ===== *)
theory Vk_Managers
  imports Vk_Pass Renderer_Builder
begin

text \<open>
  The three managers of a \<open>RendererVulkan\<close> (\<open>gl/impl/frontend/vk/renderer.cpp\<close>) and what they are
  made of: \<open>descriptor_set_layout.cpp\<close>, \<open>descriptor.cpp\<close> and the pipeline states under
  \<open>gl/impl/backend/vk/pipeline/\<close>.

  The pipeline manager owns the pipeline and its layouts, the buffer manager owns the buffers
  of the inputs and of the buffer resources, and the image manager owns the textures, the depth
  image and the framebuffers.  Inputs and resources belong to the renderer: the managers refer to
  them by position.
\<close>

section \<open>What the device tells a renderer\<close>

record vk_device_info =
  di_headless :: bool
  di_window :: DeviceWindowBufferVulkan
  di_topology :: PrimitiveTopology
  di_family :: nat

definition as_swapchain :: "bool \<Rightarrow> vk_device_info \<Rightarrow> Swapchain outcome" where
  "as_swapchain TZ_DEBUG info =
     and_then (tz_assert TZ_DEBUG (\<not> di_headless info)) (\<lambda>_.
     case di_window info of WindowSwapchain c \<Rightarrow> Inr c | _ \<Rightarrow> Inl BadVariantAccess)"

definition as_image :: "bool \<Rightarrow> vk_device_info \<Rightarrow> OffscreenImage outcome" where
  "as_image TZ_DEBUG info =
     and_then (tz_assert TZ_DEBUG (di_headless info)) (\<lambda>_.
     case di_window info of WindowImage i \<Rightarrow> Inr i | _ \<Rightarrow> Inl BadVariantAccess)"

definition window_format :: "vk_device_info \<Rightarrow> u32 outcome" where
  "window_format info =
     (if di_headless info
      then (case di_window info of WindowImage i \<Rightarrow> Inr (offscreen_format i) | _ \<Rightarrow> Inl BadVariantAccess)
      else (case di_window info of WindowSwapchain c \<Rightarrow> Inr (chain_format c) | _ \<Rightarrow> Inl BadVariantAccess))"

text \<open>\<open>get_width\<close>, \<open>get_height\<close> and \<open>full_render_area\<close> of the window buffer.\<close>

definition full_render_area :: "vk_device_info \<Rightarrow> VkExtent2D outcome" where
  "full_render_area info =
     (if di_headless info
      then (case di_window info of WindowImage i \<Rightarrow>
          Inr \<lparr>extent_width = offscreen_width i, extent_height = offscreen_height i\<rparr> | _ \<Rightarrow> Inl BadVariantAccess)
      else (case di_window info of WindowSwapchain c \<Rightarrow> Inr (chain_extent c) | _ \<Rightarrow> Inl BadVariantAccess))"

definition get_view_count :: "bool \<Rightarrow> vk_device_info \<Rightarrow> nat outcome" where
  "get_view_count TZ_DEBUG info =
     (if di_headless info then Inr 1
      else and_then (as_swapchain TZ_DEBUG info) (\<lambda>c. Inr (length (image_views c))))"

section \<open>Pipeline state of a builder\<close>

definition vertex_format_value :: "RendererComponentType \<Rightarrow> u32" where
  "vertex_format_value ty = (case ty of Float32 \<Rightarrow> 100 | Float32x2 \<Rightarrow> 103 | Float32x3 \<Rightarrow> 106)"

definition vk_get_vertex_input ::
    "'sh renderer_builder \<Rightarrow> VkVertexInputBindingDescription list \<times> VkVertexInputAttributeDescription list" where
  "vk_get_vertex_input self =
     (case b_inputs self of
        [] \<Rightarrow> ([], [])
      | inp # _ \<Rightarrow>
          (let fmt = input_get_format inp;
               per_instance = (case basis fmt of PerVertexBasis \<Rightarrow> False | PerInstanceBasis \<Rightarrow> True)
           in ([\<lparr>binding_id = 0, binding_stride = binding_size fmt, binding_per_instance = per_instance\<rparr>],
               fold (\<lambda>i attributes.
                   let attribute = binding_attributes fmt ! i
                   in attributes @ [\<lparr>vertex_location = i, vertex_binding = 0,
                        vertex_format = vertex_format_value (attribute_type attribute),
                        vertex_offset = element_attribute_offset attribute\<rparr>])
                 [0..<length (binding_attributes fmt)] [])))"

text \<open>The culling flags; a builder that was never told has \<open>NoCulling\<close>.\<close>

definition vk_get_rasteriser_cull :: "'sh renderer_builder \<Rightarrow> u32" where
  "vk_get_rasteriser_cull self = (case b_culling_strategy self of
       None \<Rightarrow> 0 | Some NoCulling \<Rightarrow> 0 | Some CullFrontFaces \<Rightarrow> 1 | Some CullBackFaces \<Rightarrow> 2 | Some CullEverything \<Rightarrow> 3)"

section \<open>Descriptor set layouts\<close>

datatype DescriptorType = UniformBufferDescriptor | CombinedImageSampler

datatype VkShaderType = VertexStage | FragmentStage

record LayoutBuilder =
  binding_types :: "u32 list"
  binding_relevant_shader_stages :: "u32 list"
  lb_bindings :: "VkDescriptorSetLayoutBinding list"

definition layout_builder_new :: LayoutBuilder where
  "layout_builder_new = \<lparr>binding_types = [], binding_relevant_shader_stages = [], lb_bindings = []\<rparr>"

definition descriptor_type_value :: "DescriptorType \<Rightarrow> u32" where
  "descriptor_type_value t = (case t of UniformBufferDescriptor \<Rightarrow> 6 | CombinedImageSampler \<Rightarrow> 1)"

definition shader_type_field_all :: "VkShaderType EnumField" where
  "shader_type_field_all = ef_or_assign (ef_or_assign (enum_field_of []) VertexStage) FragmentStage"

definition layout_builder_add ::
    "bool \<Rightarrow> DescriptorType \<Rightarrow> VkShaderType EnumField \<Rightarrow> LayoutBuilder \<Rightarrow> (nat \<times> LayoutBuilder) outcome" where
  "layout_builder_add TZ_DEBUG type relevant_stages self =
     (let self = self\<lparr>binding_types := binding_types self @ [descriptor_type_value type]\<rparr> in
      and_then (if relevant_stages = shader_type_field_all then Inr [31]
        else if ef_contains relevant_stages VertexStage then Inr [1]
        else if ef_contains relevant_stages FragmentStage then Inr [16]
        else and_then (tz_error TZ_DEBUG) (\<lambda>_. Inr [])) (\<lambda>stages.
      Inr (length (binding_types self) - 1,
        self\<lparr>binding_relevant_shader_stages := binding_relevant_shader_stages self @ stages\<rparr>)))"

definition layout_builder_size :: "bool \<Rightarrow> LayoutBuilder \<Rightarrow> nat outcome" where
  "layout_builder_size TZ_DEBUG self =
     and_then (tz_assert TZ_DEBUG (length (binding_types self) = length (binding_relevant_shader_stages self))) (\<lambda>_.
     Inr (length (binding_types self)))"

definition layout_builder_at :: "LayoutBuilder \<Rightarrow> nat \<Rightarrow> VkDescriptorSetLayoutBinding outcome" where
  "layout_builder_at self index =
     and_then (at_index (binding_types self) index) (\<lambda>t.
     and_then (at_index (binding_relevant_shader_stages self) index) (\<lambda>stages.
     Inr \<lparr>layout_binding = index, layout_type = t, layout_count = 1, layout_stages = stages\<rparr>))"

text \<open>
  \<open>native\<close> appends to the mutable \<open>bindings\<close> of the builder on every call and points Vulkan at the
  beginning of that vector.
\<close>

definition layout_builder_native ::
    "bool \<Rightarrow> LayoutBuilder \<Rightarrow> (VkDescriptorSetLayoutBinding list \<times> LayoutBuilder) outcome" where
  "layout_builder_native TZ_DEBUG self =
     and_then (layout_builder_size TZ_DEBUG self) (\<lambda>bindingCount.
     and_then (for_each (\<lambda>i self. and_then (layout_builder_at self i) (\<lambda>b.
       Inr (self\<lparr>lb_bindings := lb_bindings self @ [b]\<rparr>))) [0..<bindingCount] self) (\<lambda>self.
     Inr (take bindingCount (lb_bindings self), self)))"

definition vk_get_descriptor_set_layout ::
    "bool \<Rightarrow> vk_driver \<Rightarrow> 'sh renderer_builder \<Rightarrow> vk_world \<Rightarrow> (nat \<times> vk_world) outcome" where
  "vk_get_descriptor_set_layout TZ_DEBUG drv self w =
     (let nb = length (b_buffer_resources self); nt = length (b_texture_resources self) in
      and_then (for_each (\<lambda>_ b. and_then (layout_builder_add TZ_DEBUG UniformBufferDescriptor shader_type_field_all b)
        (\<lambda>(_, b). Inr b)) [0..<nb] layout_builder_new) (\<lambda>b.
      and_then (for_each (\<lambda>_ b. and_then (layout_builder_add TZ_DEBUG CombinedImageSampler shader_type_field_all b)
        (\<lambda>(_, b). Inr b)) [nb..<nb + nt] b) (\<lambda>b.
      and_then (layout_builder_native TZ_DEBUG b) (\<lambda>(bindings, _).
      object_new TZ_DEBUG drv (DescriptorSetLayoutObject bindings) w))))"

section \<open>The pipeline manager\<close>

record RendererPipelineManagerVulkan =
  pm_vertex_shader :: nat
  pm_fragment_shader :: nat
  pm_bindings :: "VkVertexInputBindingDescription list"
  pm_attributes :: "VkVertexInputAttributeDescription list"
  pm_topology :: PrimitiveTopology
  pm_cull :: u32
  pm_set_layout :: nat
  pm_layout :: nat
  pm_pipeline :: nat

definition create_pipeline ::
    "bool \<Rightarrow> vk_driver \<Rightarrow> vk_device_info \<Rightarrow> RenderPassVulkan \<Rightarrow> RendererPipelineManagerVulkan \<Rightarrow> vk_world \<Rightarrow>
     (nat \<times> vk_world) outcome" where
  "create_pipeline TZ_DEBUG drv info pass self w =
     and_then (if di_headless info then and_then (as_image TZ_DEBUG info) (\<lambda>i.
         Inr \<lparr>extent_width = offscreen_width i, extent_height = offscreen_height i\<rparr>)
       else and_then (as_swapchain TZ_DEBUG info) (\<lambda>c. Inr (chain_extent c))) (\<lambda>extent.
     object_new TZ_DEBUG drv (PipelineObject
       \<lparr>pipe_stages = [(1, pm_vertex_shader self), (16, pm_fragment_shader self)],
        pipe_bindings = pm_bindings self, pipe_attributes = pm_attributes self, pipe_topology = pm_topology self,
        pipe_extent = extent, pipe_cull = pm_cull self, pipe_layout = pm_layout self, pipe_renderPass = rp_native pass\<rparr>) w)"

definition pipeline_manager_new ::
    "bool \<Rightarrow> vk_driver \<Rightarrow> vk_device_info \<Rightarrow> (nat \<times> nat) renderer_builder \<Rightarrow> RenderPassVulkan \<Rightarrow> vk_world \<Rightarrow>
     (RendererPipelineManagerVulkan \<times> vk_world) outcome" where
  "pipeline_manager_new TZ_DEBUG drv info builder pass w =
     and_then (vk_get_shader TZ_DEBUG builder) (\<lambda>(vertex_shader, fragment_shader).
     let (bindings, attributes) = vk_get_vertex_input builder in
     and_then (vk_get_descriptor_set_layout TZ_DEBUG drv builder w) (\<lambda>(set_layout, w).
     and_then (object_new TZ_DEBUG drv (PipelineLayoutObject [set_layout]) w) (\<lambda>(layout, w).
     let self = \<lparr>pm_vertex_shader = vertex_shader, pm_fragment_shader = fragment_shader, pm_bindings = bindings,
           pm_attributes = attributes, pm_topology = di_topology info, pm_cull = vk_get_rasteriser_cull builder,
           pm_set_layout = set_layout, pm_layout = layout, pm_pipeline = VK_NULL_HANDLE\<rparr> in
     and_then (create_pipeline TZ_DEBUG drv info pass self w) (\<lambda>(h, w).
     Inr (self\<lparr>pm_pipeline := h\<rparr>, w)))))"

definition reconstruct_pipeline ::
    "bool \<Rightarrow> vk_driver \<Rightarrow> vk_device_info \<Rightarrow> RenderPassVulkan \<Rightarrow> RendererPipelineManagerVulkan \<Rightarrow> vk_world \<Rightarrow>
     (RendererPipelineManagerVulkan \<times> vk_world) outcome" where
  "reconstruct_pipeline TZ_DEBUG drv info pass self w =
     and_then (create_pipeline TZ_DEBUG drv info pass self w) (\<lambda>(h, w).
     Inr (self\<lparr>pm_pipeline := h\<rparr>, object_destroy (pm_pipeline self) w))"

section \<open>The buffer manager\<close>

record RendererBufferManagerVulkan =
  bm_vertex :: VulkanBuffer
  bm_dynamic_vertex :: VulkanBuffer
  bm_index :: VulkanBuffer
  bm_dynamic_index :: VulkanBuffer
  bm_components :: "(VulkanBuffer \<times> nat) list"

definition buffer_manager_new :: RendererBufferManagerVulkan where
  "buffer_manager_new =
     \<lparr>bm_vertex = vk_buffer_null, bm_dynamic_vertex = vk_buffer_null, bm_index = vk_buffer_null,
      bm_dynamic_index = vk_buffer_null, bm_components = []\<rparr>"

definition buffer_manager_initialise ::
    "nat list \<Rightarrow> RendererBufferManagerVulkan \<Rightarrow> RendererBufferManagerVulkan" where
  "buffer_manager_initialise renderer_buffer_resources self =
     fold (\<lambda>resource self. self\<lparr>bm_components := bm_components self @ [(vk_buffer_null, resource)]\<rparr>)
       renderer_buffer_resources self"

text \<open>Compiling the data of the inputs: the offset of an index region is a number of bytes.\<close>

definition vk_compile_input ::
    "memory \<Rightarrow> RendererInput list \<Rightarrow> nat \<Rightarrow> compiled_data \<Rightarrow> compiled_data outcome" where
  "vk_compile_input mem inps i c =
     and_then (at_index inps i) (\<lambda>inp.
     let c = c\<lparr>compiled_format := Some (input_get_format inp)\<rparr> in
     and_then (input_get_vertex_bytes mem inp) (\<lambda>input_vertices.
     and_then (input_get_indices mem inp) (\<lambda>input_indices.
     case input_data_access inp of
       StaticFixed \<Rightarrow>
         Inr (c\<lparr>total_vertices := total_vertices c @ input_vertices,
               total_indices := total_indices c @ input_indices,
               any_static_geometry := True\<rparr>)
     | DynamicFixed \<Rightarrow>
         Inr (c\<lparr>total_vertices_dynamic := total_vertices_dynamic c @ input_vertices,
               total_indices_dynamic := total_indices_dynamic c @ input_indices,
               any_dynamic_geometry := True,
               vertex_regions := vertex_regions c @
                 [\<lparr>region_input = i, region_offset = length (total_vertices_dynamic c), region_length = length input_vertices\<rparr>],
               index_regions := index_regions c @
                 [\<lparr>region_input = i, region_offset = length (total_indices_dynamic c) * 4,
                   region_length = length input_indices * 4\<rparr>]\<rparr>))))"

definition vk_compile_data :: "memory \<Rightarrow> RendererInput list \<Rightarrow> compiled_data outcome" where
  "vk_compile_data mem inps = for_each (vk_compile_input mem inps) [0..<length inps] nothing_compiled"

definition setup_static_buffers ::
    "bool \<Rightarrow> vk_driver \<Rightarrow> compiled_data \<Rightarrow> RendererBufferManagerVulkan \<Rightarrow> vk_world \<Rightarrow>
     (RendererBufferManagerVulkan \<times> vk_world) outcome" where
  "setup_static_buffers TZ_DEBUG drv c self w =
     (if any_static_geometry c then
        and_then (vk_buffer_new TZ_DEBUG drv VertexBuffer TransferDestination GPU (length (total_vertices c)) w) (\<lambda>s.
        let (b, w) = vk_buffer_assign (bm_vertex self) s; self = self\<lparr>bm_vertex := b\<rparr> in
        and_then (vk_buffer_new TZ_DEBUG drv IndexBuffer TransferDestination GPU (length (total_indices c) * 4) w) (\<lambda>s.
        let (b, w) = vk_buffer_assign (bm_index self) s in
        Inr (self\<lparr>bm_index := b\<rparr>, w)))
      else Inr (self, w))"

definition setup_dynamic_buffers ::
    "bool \<Rightarrow> vk_driver \<Rightarrow> compiled_data \<Rightarrow> RendererInput list \<Rightarrow> RendererBufferManagerVulkan \<Rightarrow> vk_world \<Rightarrow>
     (RendererInput list \<times> RendererBufferManagerVulkan \<times> vk_world) outcome" where
  "setup_dynamic_buffers TZ_DEBUG drv c inps self w =
     (if any_dynamic_geometry c then
        and_then (vk_buffer_new TZ_DEBUG drv VertexBuffer NothingSpecial CPUPersistent (length (total_vertices_dynamic c)) w) (\<lambda>s.
        let (vb, w) = vk_buffer_assign (bm_dynamic_vertex self) s; self = self\<lparr>bm_dynamic_vertex := vb\<rparr> in
        and_then (vk_buffer_new TZ_DEBUG drv IndexBuffer NothingSpecial CPUPersistent (length (total_indices_dynamic c) * 4) w) (\<lambda>s.
        let (ib, w) = vk_buffer_assign (bm_dynamic_index self) s; self = self\<lparr>bm_dynamic_index := ib\<rparr> in
        and_then (vk_buffer_map_memory TZ_DEBUG vb w) (\<lambda>(vtx_mem, w).
        and_then (for_each (map_vertex_region (Some vtx_mem)) (vertex_regions c) (vk_memory w, inps)) (\<lambda>(mem, inps).
        and_then (vk_buffer_map_memory TZ_DEBUG ib (w\<lparr>vk_memory := mem\<rparr>)) (\<lambda>(idx_mem, w).
        and_then (for_each (map_index_region (Some idx_mem)) (index_regions c) (vk_memory w, inps)) (\<lambda>(mem, inps).
        Inr (inps, self, w\<lparr>vk_memory := mem\<rparr>)))))))
      else Inr (inps, self, w))"

definition setup_component ::
    "bool \<Rightarrow> vk_driver \<Rightarrow> nat \<Rightarrow> Resource list \<times> RendererBufferManagerVulkan \<times> vk_world \<Rightarrow>
     (Resource list \<times> RendererBufferManagerVulkan \<times> vk_world) outcome" where
  "setup_component TZ_DEBUG drv i st =
     (case st of (rs, self, w) \<Rightarrow>
        and_then (at_index (bm_components self) i) (\<lambda>(old, res).
        and_then (at_index rs res) (\<lambda>resource.
        and_then (resource_get_bytes (vk_memory w) resource) (\<lambda>bytes.
        case resource_data_access resource of
          StaticFixed \<Rightarrow>
            and_then (vk_buffer_new TZ_DEBUG drv UniformBuffer TransferDestination GPU (length bytes) w) (\<lambda>s.
            let (b, w) = vk_buffer_assign old s in
            Inr (rs, self\<lparr>bm_components := (bm_components self)[i := (b, res)]\<rparr>, w))
        | DynamicFixed \<Rightarrow>
            and_then (vk_buffer_new TZ_DEBUG drv UniformBuffer NothingSpecial CPUPersistent (length bytes) w) (\<lambda>s.
            let (b, w) = vk_buffer_assign old s in
            and_then (vk_buffer_map_memory TZ_DEBUG b w) (\<lambda>(p, w).
            case resource of
              DynamicBuffer r \<Rightarrow>
                and_then (dynamic_buffer_set_data (vk_memory w) r p) (\<lambda>(mem, r).
                Inr (rs[res := DynamicBuffer r], self\<lparr>bm_components := (bm_components self)[i := (b, res)]\<rparr>,
                  w\<lparr>vk_memory := mem\<rparr>))
            | _ \<Rightarrow> Inl IllFormedProgram))))))"

definition setup_buffers ::
    "bool \<Rightarrow> vk_driver \<Rightarrow> RendererInput list \<Rightarrow> Resource list \<Rightarrow> RendererBufferManagerVulkan \<Rightarrow> vk_world \<Rightarrow>
     (RendererInput list \<times> Resource list \<times> RendererBufferManagerVulkan \<times> vk_world) outcome" where
  "setup_buffers TZ_DEBUG drv inps rs self w =
     and_then (if inps \<noteq> []
       then and_then (vk_compile_data (vk_memory w) inps) (\<lambda>c.
            and_then (setup_static_buffers TZ_DEBUG drv c self w) (\<lambda>(self, w).
            setup_dynamic_buffers TZ_DEBUG drv c inps self w))
       else Inr (inps, self, w)) (\<lambda>(inps, self, w).
     and_then (for_each (setup_component TZ_DEBUG drv) [0..<length (bm_components self)] (rs, self, w)) (\<lambda>(rs, self, w).
     Inr (inps, rs, self, w)))"

section \<open>The image manager\<close>

record TextureComponentVulkan =
  tc_img :: VulkanImage
  tc_view :: nat
  tc_sampler :: nat
  tc_resource :: nat

record RendererImageManagerVulkan =
  im_offscreen_view :: "nat option"
  im_textures :: "TextureComponentVulkan list"
  im_depth_image :: "VulkanImage option"
  im_depth_view :: "nat option"
  im_framebuffers :: "nat list"

definition image_manager_new ::
    "bool \<Rightarrow> vk_driver \<Rightarrow> vk_device_info \<Rightarrow> vk_world \<Rightarrow> (RendererImageManagerVulkan \<times> vk_world) outcome" where
  "image_manager_new TZ_DEBUG drv info w =
     (let self = \<lparr>im_offscreen_view = None, im_textures = [], im_depth_image = None, im_depth_view = None, im_framebuffers = []\<rparr>
      in if di_headless info
         then and_then (as_image TZ_DEBUG info) (\<lambda>i.
              and_then (object_new TZ_DEBUG drv (ImageViewObject (offscreen_handle i) (offscreen_format i)
                (if offscreen_format i = format_value FormatDepthFloat32 then 2 else 1)) w) (\<lambda>(v, w).
              Inr (self\<lparr>im_offscreen_view := Some v\<rparr>, w)))
         else and_then (as_swapchain TZ_DEBUG info) (\<lambda>_. Inr (self, w)))"

definition vk_texture_format :: "TextureFormat \<Rightarrow> ImageFormat" where
  "vk_texture_format f = (case f of Rgba32Signed \<Rightarrow> FormatRgba32Signed | Rgba32Unsigned \<Rightarrow> FormatRgba32Unsigned
     | Rgba32sRGB \<Rightarrow> FormatRgba32sRGB | DepthFloat32 \<Rightarrow> FormatDepthFloat32)"

definition vk_convert_filter :: "TexturePropertyFilter \<Rightarrow> u32" where
  "vk_convert_filter f = (case f of Nearest \<Rightarrow> 0 | Linear \<Rightarrow> 1)"

definition vk_convert_address_mode :: "TextureAddressMode \<Rightarrow> u32" where
  "vk_convert_address_mode m = (case m of ClampToEdge \<Rightarrow> 2)"

definition vk_sampler_properties :: "TextureProperties \<Rightarrow> VkSamplerCreateInfo" where
  "vk_sampler_properties gl_props =
     \<lparr>sampler_magFilter = vk_convert_filter (mag_filter gl_props), sampler_minFilter = vk_convert_filter (min_filter gl_props),
      sampler_addressModes = [vk_convert_address_mode (address_mode_u gl_props),
        vk_convert_address_mode (address_mode_v gl_props), vk_convert_address_mode (address_mode_w gl_props)]\<rparr>"

definition initialise_texture ::
    "bool \<Rightarrow> vk_driver \<Rightarrow> Resource list \<Rightarrow> nat \<Rightarrow> RendererImageManagerVulkan \<times> vk_world \<Rightarrow>
     (RendererImageManagerVulkan \<times> vk_world) outcome" where
  "initialise_texture TZ_DEBUG drv rs res st =
     (case st of (self, w) \<Rightarrow>
        and_then (at_index rs res) (\<lambda>resource.
        case resource of
          TextureRes t \<Rightarrow>
            and_then (image_new TZ_DEBUG drv (texture_get_width t) (texture_get_height t) (vk_texture_format (texture_format t))
              (enum_field_of [UsageTransferDestination, UsageSampleable]) GPU w) (\<lambda>(img, w).
            and_then (image_view_new TZ_DEBUG drv img w) (\<lambda>(v, w).
            and_then (sampler_new TZ_DEBUG drv (vk_sampler_properties (texture_properties t)) w) (\<lambda>(s, w).
            Inr (self\<lparr>im_textures := im_textures self @ [\<lparr>tc_img = img, tc_view = v, tc_sampler = s, tc_resource = res\<rparr>]\<rparr>, w))))
        | _ \<Rightarrow> Inl IllFormedProgram))"

definition image_manager_initialise ::
    "bool \<Rightarrow> vk_driver \<Rightarrow> Resource list \<Rightarrow> nat list \<Rightarrow> RendererImageManagerVulkan \<Rightarrow> vk_world \<Rightarrow>
     (RendererImageManagerVulkan \<times> vk_world) outcome" where
  "image_manager_initialise TZ_DEBUG drv rs renderer_texture_resources self w =
     for_each (initialise_texture TZ_DEBUG drv rs) renderer_texture_resources (self, w)"

text \<open>The old depth image and its view, if any, are destroyed when they are replaced.\<close>

definition setup_depth_image ::
    "bool \<Rightarrow> vk_driver \<Rightarrow> vk_device_info \<Rightarrow> RendererImageManagerVulkan \<Rightarrow> vk_world \<Rightarrow>
     (RendererImageManagerVulkan \<times> vk_world) outcome" where
  "setup_depth_image TZ_DEBUG drv info self w =
     and_then (full_render_area info) (\<lambda>area.
     and_then (image_new TZ_DEBUG drv (extent_width area) (extent_height area) FormatDepthFloat32
       (enum_field_of [UsageDepthStencilAttachment]) GPU w) (\<lambda>(img, w).
     let w = (case im_depth_image self of None \<Rightarrow> w | Some old \<Rightarrow> image_destroy old w) in
     and_then (image_view_new TZ_DEBUG drv img w) (\<lambda>(v, w).
     let w = (case im_depth_view self of None \<Rightarrow> w | Some old \<Rightarrow> object_destroy old w) in
     Inr (self\<lparr>im_depth_image := Some img, im_depth_view := Some v\<rparr>, w))))"

definition setup_swapchain_framebuffers ::
    "bool \<Rightarrow> vk_driver \<Rightarrow> vk_device_info \<Rightarrow> RenderPassVulkan \<Rightarrow> RendererImageManagerVulkan \<Rightarrow> vk_world \<Rightarrow>
     (RendererImageManagerVulkan \<times> vk_world) outcome" where
  "setup_swapchain_framebuffers TZ_DEBUG drv info pass self w =
     (let w = fold object_destroy (im_framebuffers self) w;
          self = self\<lparr>im_framebuffers := []\<rparr>
      in and_then (full_render_area info) (\<lambda>area.
         and_then (if di_headless info then and_then (value_of (im_offscreen_view self)) (\<lambda>v. Inr [v])
           else and_then (as_swapchain TZ_DEBUG info) (\<lambda>c. Inr (image_views c))) (\<lambda>views.
         for_each (\<lambda>v (self, w).
           and_then (framebuffer_new TZ_DEBUG drv (rp_native pass) v (im_depth_view self) area w) (\<lambda>(fb, w).
           Inr (self\<lparr>im_framebuffers := im_framebuffers self @ [fb]\<rparr>, w))) views (self, w))))"

end
