(* ===== verification/Vk_Renderer.thy ===== *)
theory Vk_Renderer
  imports Vk_Managers
begin

text \<open>
  The processor of a \<open>RendererVulkan\<close> and the renderer itself
  (\<open>gl/impl/frontend/vk/renderer.cpp\<close>), with the descriptor pools of
  \<open>gl/impl/backend/vk/descriptor.cpp\<close>.

  Every operation takes the state of the renderer and the Vulkan world and gives both back.  The
  regeneration function a renderer hands to its frame administrator captures the renderer, so it
  is \<open>handle_resize\<close> on the state at the moment it is called.
\<close>

section \<open>Descriptor pools\<close>

text \<open>A new builder has no determinate \<open>max_sets\<close>.\<close>

record DescriptorPoolBuilder =
  pb_pool_sizes :: "(u32 \<times> u32) list"
  pb_layouts :: "nat list"
  pb_max_sets :: "u32 option"

definition pool_builder_new :: DescriptorPoolBuilder where
  "pool_builder_new = \<lparr>pb_pool_sizes = [], pb_layouts = [], pb_max_sets = None\<rparr>"

definition with_size :: "u32 \<Rightarrow> u32 \<Rightarrow> DescriptorPoolBuilder \<Rightarrow> DescriptorPoolBuilder" where
  "with_size type descriptor_count self = self\<lparr>pb_pool_sizes := pb_pool_sizes self @ [(type, descriptor_count)]\<rparr>"

definition with_layout :: "nat \<Rightarrow> DescriptorPoolBuilder \<Rightarrow> DescriptorPoolBuilder" where
  "with_layout layout self = self\<lparr>pb_layouts := pb_layouts self @ [layout]\<rparr>"

definition with_capacity :: "u32 \<Rightarrow> DescriptorPoolBuilder \<Rightarrow> DescriptorPoolBuilder" where
  "with_capacity max_sets self = self\<lparr>pb_max_sets := Some max_sets\<rparr>"

record DescriptorSetsCreationRequest =
  rq_resources :: "descriptor list"
  rq_types :: "u32 list"
  rq_bindings :: "nat list"

definition request_new :: DescriptorSetsCreationRequest where
  "request_new = \<lparr>rq_resources = [], rq_types = [], rq_bindings = []\<rparr>"

text \<open>A buffer that is not a uniform buffer is an error; a release build then has no type for it.\<close>

definition request_add_buffer ::
    "bool \<Rightarrow> VulkanBuffer \<Rightarrow> nat \<Rightarrow> DescriptorSetsCreationRequest \<Rightarrow> DescriptorSetsCreationRequest outcome" where
  "request_add_buffer TZ_DEBUG b binding self =
     (let self = self\<lparr>rq_resources := rq_resources self @ [BufferDescriptor (vb_buffer b)]\<rparr> in
      and_then (vk_buffer_get_type TZ_DEBUG b) (\<lambda>type.
      and_then (case type of UniformBuffer \<Rightarrow> Inr [descriptor_type_value UniformBufferDescriptor]
        | _ \<Rightarrow> and_then (tz_error TZ_DEBUG) (\<lambda>_. Inr [])) (\<lambda>types.
      Inr (self\<lparr>rq_types := rq_types self @ types, rq_bindings := rq_bindings self @ [binding]\<rparr>))))"

definition request_add_image ::
    "nat \<Rightarrow> nat \<Rightarrow> nat \<Rightarrow> DescriptorSetsCreationRequest \<Rightarrow> DescriptorSetsCreationRequest" where
  "request_add_image view sampler binding self =
     self\<lparr>rq_resources := rq_resources self @ [ImageDescriptor view sampler (layout_value LayoutShaderResource)],
          rq_types := rq_types self @ [descriptor_type_value CombinedImageSampler],
          rq_bindings := rq_bindings self @ [binding]\<rparr>"

record DescriptorPool =
  dp_pool :: nat
  dp_layouts :: "nat list"
  dp_sets :: "nat list"

definition descriptor_pool_new ::
    "bool \<Rightarrow> vk_driver \<Rightarrow> DescriptorPoolBuilder \<Rightarrow> vk_world \<Rightarrow> (DescriptorPool \<times> vk_world) outcome" where
  "descriptor_pool_new TZ_DEBUG drv builder w =
     (case pb_max_sets builder of
        None \<Rightarrow> Inl UninitialisedRead
      | Some max_sets \<Rightarrow>
          and_then (object_new TZ_DEBUG drv (DescriptorPoolObject (pb_pool_sizes builder) max_sets) w) (\<lambda>(h, w).
          Inr (\<lparr>dp_pool = h, dp_layouts = pb_layouts builder, dp_sets = []\<rparr>, w)))"

definition set_write ::
    "DescriptorSetsCreationRequest \<Rightarrow> nat \<Rightarrow> (nat \<times> u32 \<times> descriptor) list \<Rightarrow> (nat \<times> u32 \<times> descriptor) list outcome" where
  "set_write request i writes =
     and_then (at_index (rq_types request) i) (\<lambda>type.
     and_then (at_index (rq_resources request) i) (\<lambda>resource.
     and_then (at_index (rq_bindings request) i) (\<lambda>binding.
     Inr (writes @ [(binding, type, resource)]))))"

text \<open>\<open>vkUpdateDescriptorSets\<close>: each write replaces what its binding held.\<close>

definition initialise_set ::
    "DescriptorSetsCreationRequest \<Rightarrow> nat \<Rightarrow> DescriptorPool \<Rightarrow> vk_world \<Rightarrow> vk_world outcome" where
  "initialise_set request set_id self w =
     and_then (for_each (set_write request) [0..<length (rq_resources request)] []) (\<lambda>writes.
     if writes = [] then Inr w
     else and_then (at_index (dp_sets self) set_id) (\<lambda>h.
       case map_of (descriptor_sets w) h of
         None \<Rightarrow> Inl DanglingReference
       | Some held \<Rightarrow> Inr (w\<lparr>descriptor_sets :=
           AList.update h (fold (\<lambda>(b, v) l. AList.update b v l) writes held) (descriptor_sets w)\<rparr>)))"

definition initialise_sets ::
    "bool \<Rightarrow> vk_driver \<Rightarrow> DescriptorSetsCreationRequest list \<Rightarrow> DescriptorPool \<Rightarrow> vk_world \<Rightarrow>
     (DescriptorPool \<times> vk_world) outcome" where
  "initialise_sets TZ_DEBUG drv requests self w =
     (let n = length requests in
      if length (dp_layouts self) < n then Inl OutOfBounds
      else
        let res = allocate_sets drv w n;
            self = self\<lparr>dp_sets := (case res of None \<Rightarrow> replicate n VK_NULL_HANDLE | Some hs \<Rightarrow> hs)\<rparr>;
            w = (case res of None \<Rightarrow> w | Some hs \<Rightarrow>
                  w\<lparr>descriptor_sets := fold (\<lambda>h l. AList.update h [] l) hs (descriptor_sets w)\<rparr>)
        in and_then (tz_assert TZ_DEBUG (res \<noteq> None)) (\<lambda>_.
           and_then (for_each (\<lambda>i w. and_then (at_index requests i) (\<lambda>r. initialise_set r i self w)) [0..<n] w) (\<lambda>w.
           Inr (self, w))))"

section \<open>The processor\<close>

record RendererProcessorVulkan =
  pr_descriptors :: "DescriptorPool option"
  pr_commands :: CommandPool
  pr_draw_indirect :: "VulkanBuffer option"
  pr_draw_indirect_dynamic :: "VulkanBuffer option"
  pr_draw_cache :: "nat list"
  pr_frame_admin :: FrameAdmin

definition initialise_command_pool ::
    "bool \<Rightarrow> vk_driver \<Rightarrow> vk_device_info \<Rightarrow> RendererProcessorVulkan \<Rightarrow> vk_world \<Rightarrow>
     (RendererProcessorVulkan \<times> vk_world) outcome" where
  "initialise_command_pool TZ_DEBUG drv info self w =
     (let (pool, w) = (if cp_buffers (pr_commands self) \<noteq> [] then command_pool_clear (pr_commands self) w
                       else (pr_commands self, w)) in
      and_then (get_view_count TZ_DEBUG info) (\<lambda>n.
      and_then (command_pool_with TZ_DEBUG drv (n + 1) pool w) (\<lambda>(_, pool, w).
      Inr (self\<lparr>pr_commands := pool\<rparr>, w))))"

text \<open>The indirect buffers start out with room for every input once.\<close>

definition initial_indirect ::
    "bool \<Rightarrow> vk_driver \<Rightarrow> nat \<Rightarrow> vk_world \<Rightarrow> (VulkanBuffer option \<times> vk_world) outcome" where
  "initial_indirect TZ_DEBUG drv n w =
     (if 0 < n
      then and_then (vk_buffer_new TZ_DEBUG drv DrawIndirectBuffer TransferDestination GPU (sizeof_DrawIndirectCommand * n) w)
        (\<lambda>(b, w). Inr (Some b, w))
      else Inr (None, w))"

definition processor_new ::
    "bool \<Rightarrow> vk_driver \<Rightarrow> sync_driver \<Rightarrow> vk_device_info \<Rightarrow> RendererInput list \<Rightarrow> vk_world \<Rightarrow>
     (RendererProcessorVulkan \<times> vk_world) outcome" where
  "processor_new TZ_DEBUG drv sdrv info inps w =
     and_then (command_pool_new TZ_DEBUG drv (di_family info) True w) (\<lambda>(pool, w).
     and_then (initial_indirect TZ_DEBUG drv (count_inputs StaticFixed inps) w) (\<lambda>(stat, w).
     and_then (initial_indirect TZ_DEBUG drv (count_inputs DynamicFixed inps) w) (\<lambda>(dyn, w).
     and_then (frame_admin_new TZ_DEBUG sdrv (if di_headless info then 1 else 2)) (\<lambda>admin.
     initialise_command_pool TZ_DEBUG drv info
       \<lparr>pr_descriptors = None, pr_commands = pool, pr_draw_indirect = stat, pr_draw_indirect_dynamic = dyn,
        pr_draw_cache = [], pr_frame_admin = admin\<rparr> w))))"

text \<open>One request per view: the buffers in order, then the textures behind them.\<close>

definition descriptor_request ::
    "bool \<Rightarrow> RendererBufferManagerVulkan \<Rightarrow> RendererImageManagerVulkan \<Rightarrow> nat \<Rightarrow> nat \<Rightarrow>
     DescriptorSetsCreationRequest outcome" where
  "descriptor_request TZ_DEBUG bm im nb nt =
     and_then (for_each (\<lambda>j request. and_then (at_index (bm_components bm) j) (\<lambda>(b, _).
       request_add_buffer TZ_DEBUG b j request)) [0..<nb] request_new) (\<lambda>request.
     for_each (\<lambda>j request. and_then (at_index (im_textures im) j) (\<lambda>t.
       Inr (request_add_image (tc_view t) (tc_sampler t) (j + nb) request))) [0..<nt] request)"

definition initialise_resource_descriptors ::
    "bool \<Rightarrow> vk_driver \<Rightarrow> vk_device_info \<Rightarrow> RendererPipelineManagerVulkan \<Rightarrow> RendererBufferManagerVulkan \<Rightarrow>
     RendererImageManagerVulkan \<Rightarrow> Resource list \<Rightarrow> RendererProcessorVulkan \<Rightarrow> vk_world \<Rightarrow>
     (RendererProcessorVulkan \<times> vk_world) outcome" where
  "initialise_resource_descriptors TZ_DEBUG drv info pm bm im resources self w =
     (if resources = [] then Inr (self, w)
      else
        and_then (get_view_count TZ_DEBUG info) (\<lambda>view_count.
        let builder = with_capacity (of_nat (view_count * length resources)) pool_builder_new;
            nb = resource_count_of BufferType resources;
            nt = resource_count_of TextureType resources;
            builder = fold (\<lambda>_. with_size (descriptor_type_value UniformBufferDescriptor) (of_nat view_count)) [0..<nb] builder;
            builder = fold (\<lambda>_. with_size (descriptor_type_value CombinedImageSampler) (of_nat view_count)) [0..<nt] builder;
            builder = fold (\<lambda>_. with_layout (pm_set_layout pm)) [0..<view_count] builder
        in and_then (descriptor_pool_new TZ_DEBUG drv builder w) (\<lambda>(pool, w).
           and_then (for_each (\<lambda>_ requests. and_then (descriptor_request TZ_DEBUG bm im nb nt) (\<lambda>r.
             Inr (requests @ [r]))) [0..<view_count] []) (\<lambda>requests.
           and_then (initialise_sets TZ_DEBUG drv requests pool w) (\<lambda>(pool, w).
           Inr (self\<lparr>pr_descriptors := Some pool\<rparr>, w))))))"

section \<open>Recording the draws of a view\<close>

text \<open>One batch: its vertices and indices are bound and its commands drawn.\<close>

definition record_batch ::
    "bool \<Rightarrow> CommandBuffer \<Rightarrow> VulkanBuffer option \<Rightarrow> VulkanBuffer \<Rightarrow> VulkanBuffer \<Rightarrow> nat outcome \<Rightarrow> vk_world \<Rightarrow>
     vk_world outcome" where
  "record_batch TZ_DEBUG cb indirect vertex_buffer index_buffer num_draws w =
     (case indirect of
        None \<Rightarrow> Inr w
      | Some b \<Rightarrow>
          and_then (bind_buffer TZ_DEBUG cb vertex_buffer w) (\<lambda>w.
          and_then (bind_buffer TZ_DEBUG cb index_buffer w) (\<lambda>w.
          and_then num_draws (\<lambda>n. draw_indirect TZ_DEBUG cb b (of_nat n) w))))"

definition record_view ::
    "bool \<Rightarrow> vk_device_info \<Rightarrow> RenderPassVulkan \<Rightarrow> RendererPipelineManagerVulkan \<Rightarrow> RendererBufferManagerVulkan \<Rightarrow>
     RendererImageManagerVulkan \<Rightarrow> u32 list \<Rightarrow> RendererInput list \<Rightarrow> RendererProcessorVulkan \<Rightarrow> nat \<Rightarrow> CommandBuffer \<Rightarrow>
     vk_world \<Rightarrow> vk_world outcome" where
  "record_view TZ_DEBUG info pass pm bm im clear_colour inps self i cb w =
     and_then (at_index (im_framebuffers im) i) (\<lambda>framebuffer.
     and_then (full_render_area info) (\<lambda>area.
     let w = render_pass_run_begin cb (rp_native pass) framebuffer area clear_colour w;
         w = add_command (cb_native cb) (CmdBindPipeline (pm_pipeline pm)) w in
     and_then (case pr_descriptors self of None \<Rightarrow> Inr w
       | Some pool \<Rightarrow> and_then (at_index (dp_sets pool) i) (\<lambda>s. Inr (bind_descriptor_set cb s (pm_layout pm) w))) (\<lambda>w.
     and_then (record_batch TZ_DEBUG cb (pr_draw_indirect self) (bm_vertex bm) (bm_index bm)
       (count_draws StaticFixed inps (pr_draw_cache self)) w) (\<lambda>w.
     and_then (record_batch TZ_DEBUG cb (pr_draw_indirect_dynamic self) (bm_dynamic_vertex bm) (bm_dynamic_index bm)
       (count_draws DynamicFixed inps (pr_draw_cache self)) w) (\<lambda>w.
     Inr (render_pass_run_end cb w))))))"

definition record_rendering_commands ::
    "bool \<Rightarrow> vk_driver \<Rightarrow> vk_device_info \<Rightarrow> RenderPassVulkan \<Rightarrow> RendererPipelineManagerVulkan \<Rightarrow>
     RendererBufferManagerVulkan \<Rightarrow> RendererImageManagerVulkan \<Rightarrow> u32 list \<Rightarrow> RendererInput list \<Rightarrow>
     RendererProcessorVulkan \<Rightarrow> vk_world \<Rightarrow> vk_world outcome" where
  "record_rendering_commands TZ_DEBUG drv info pass pm bm im clear_colour inps self w =
     and_then (get_view_count TZ_DEBUG info) (\<lambda>n.
     for_each (\<lambda>i w. and_then (command_pool_at (pr_commands self) i) (\<lambda>cb.
       record_with TZ_DEBUG drv cb (record_view TZ_DEBUG info pass pm bm im clear_colour inps self i cb) w)) [0..<n] w)"

definition clear_rendering_commands ::
    "bool \<Rightarrow> vk_device_info \<Rightarrow> RendererProcessorVulkan \<Rightarrow> vk_world \<Rightarrow> vk_world outcome" where
  "clear_rendering_commands TZ_DEBUG info self w =
     and_then (get_view_count TZ_DEBUG info) (\<lambda>n.
     for_each (\<lambda>i w.
       and_then (frame_wait_for (pr_frame_admin self) i) (\<lambda>calls.
       and_then (command_pool_at (pr_commands self) i) (\<lambda>cb.
       command_buffer_reset TZ_DEBUG cb (sync calls w)))) [0..<n] w)"

section \<open>Draw lists\<close>

definition vk_plan ::
    "bool \<Rightarrow> memory \<Rightarrow> RendererInput list \<Rightarrow> nat list \<Rightarrow> (DrawIndirectCommand list \<times> DrawIndirectCommand list) outcome" where
  "vk_plan = plan_draws TYPE(64)"

text \<open>An indirect buffer is replaced by one with exactly the given commands, or by none.\<close>

definition replace_indirect ::
    "bool \<Rightarrow> vk_driver \<Rightarrow> CommandBuffer \<Rightarrow> nat \<Rightarrow> DrawIndirectCommand list \<Rightarrow> VulkanBuffer option \<Rightarrow> vk_world \<Rightarrow>
     (VulkanBuffer option \<times> vk_world) outcome" where
  "replace_indirect TZ_DEBUG drv scratch_buf copy_fence cmds old w =
     (if cmds = [] then Inr (None, vk_buffer_reset old w)
      else
        and_then (vk_buffer_new TZ_DEBUG drv DrawIndirectBuffer TransferDestination GPU
          (length cmds * sizeof_DrawIndirectCommand) w) (\<lambda>s.
        let (b, w) = vk_buffer_assign_optional old s in
        and_then (staged_copy TZ_DEBUG drv scratch_buf copy_fence (command_bytes cmds) b w) (\<lambda>w.
        Inr (Some b, w))))"

definition record_draw_list ::
    "bool \<Rightarrow> vk_driver \<Rightarrow> vk_device_info \<Rightarrow> RendererInput list \<Rightarrow> nat list \<Rightarrow> RendererProcessorVulkan \<Rightarrow> vk_world \<Rightarrow>
     (RendererProcessorVulkan \<times> vk_world) outcome" where
  "record_draw_list TZ_DEBUG drv info inps draws self w =
     (if pr_draw_cache self = draws then Inr (self, w)
      else
        and_then (vk_plan TZ_DEBUG (vk_memory w) inps draws) (\<lambda>(internal_draws, internal_draws_dynamic).
        and_then (fence_new TZ_DEBUG drv w) (\<lambda>(copy_fence, w).
        let w = sync (fence_signal copy_fence) w in
        and_then (get_view_count TZ_DEBUG info) (\<lambda>n.
        and_then (command_pool_at (pr_commands self) n) (\<lambda>scratch_buf.
        and_then (replace_indirect TZ_DEBUG drv scratch_buf copy_fence internal_draws (pr_draw_indirect self) w) (\<lambda>(stat, w).
        and_then (replace_indirect TZ_DEBUG drv scratch_buf copy_fence internal_draws_dynamic
          (pr_draw_indirect_dynamic self) w) (\<lambda>(dyn, w).
        Inr (self\<lparr>pr_draw_indirect := stat, pr_draw_indirect_dynamic := dyn, pr_draw_cache := draws\<rparr>,
          object_destroy copy_fence w))))))))"

section \<open>Scratch commands\<close>

text \<open>
  The commands written to the two staging buffers that are filled first are never copied
  anywhere; \<open>record_draw_list\<close> makes its own.  The loop also gathers the static geometry to upload.
\<close>

record scratch_state =
  sc_vertices :: "u8 list"
  sc_indices :: "u32 list"
  sc_cmd :: "ptr option"
  sc_dyn_cmd :: "ptr option"
  sc_index_count :: u32
  sc_vertex_count :: u32
  sc_dyn_index_count :: u32
  sc_dyn_vertex_count :: u32
  sc_memory :: memory

definition write_command :: "ptr option \<Rightarrow> DrawIndirectCommand \<Rightarrow> memory \<Rightarrow> (ptr option \<times> memory) outcome" where
  "write_command p cmd mem =
     (case p of None \<Rightarrow> Inr (None, mem)
      | Some q \<Rightarrow> and_then (mem_write mem q (command_bytes [cmd])) (\<lambda>mem.
          Inr (Some (byte_ptr_add q sizeof_DrawIndirectCommand), mem)))"

definition scratch_input :: "RendererInput \<Rightarrow> scratch_state \<Rightarrow> scratch_state outcome" where
  "scratch_input inp s =
     and_then (input_get_vertex_bytes (sc_memory s) inp) (\<lambda>input_vertices.
     and_then (input_get_indices (sc_memory s) inp) (\<lambda>input_indices.
     and_then (index_count (sc_memory s) inp) (\<lambda>ic.
     and_then (vertex_count (sc_memory s) inp) (\<lambda>vc.
     case input_data_access inp of
       StaticFixed \<Rightarrow>
         and_then (write_command (sc_cmd s)
           \<lparr>draw_count = of_nat (length input_indices), instanceCount = 1, firstIndex = sc_index_count s,
            baseVertex = sc_vertex_count s, baseInstance = 0\<rparr> (sc_memory s)) (\<lambda>(cmd, mem).
         Inr (s\<lparr>sc_vertices := sc_vertices s @ input_vertices, sc_indices := sc_indices s @ input_indices, sc_cmd := cmd,
           sc_index_count := sc_index_count s + of_nat ic, sc_vertex_count := sc_vertex_count s + of_nat vc, sc_memory := mem\<rparr>))
     | DynamicFixed \<Rightarrow>
         and_then (write_command (sc_dyn_cmd s)
           \<lparr>draw_count = of_nat (length input_indices), instanceCount = 1, firstIndex = sc_dyn_index_count s,
            baseVertex = sc_dyn_vertex_count s, baseInstance = 0\<rparr> (sc_memory s)) (\<lambda>(cmd, mem).
         Inr (s\<lparr>sc_dyn_cmd := cmd, sc_dyn_index_count := sc_dyn_index_count s + of_nat ic,
           sc_dyn_vertex_count := sc_dyn_vertex_count s + of_nat vc, sc_memory := mem\<rparr>))))))"

definition draw_staging ::
    "bool \<Rightarrow> vk_driver \<Rightarrow> nat \<Rightarrow> vk_world \<Rightarrow> (VulkanBuffer option \<times> vk_world) outcome" where
  "draw_staging TZ_DEBUG drv n w =
     (if 0 < n
      then and_then (vk_buffer_new TZ_DEBUG drv StagingBuffer TransferSource CPU (sizeof_DrawIndirectCommand * n) w)
        (\<lambda>(b, w). Inr (Some b, w))
      else Inr (None, w))"

definition map_staging :: "bool \<Rightarrow> VulkanBuffer option \<Rightarrow> vk_world \<Rightarrow> (ptr option \<times> vk_world) outcome" where
  "map_staging TZ_DEBUG staging w =
     (case staging of None \<Rightarrow> Inr (None, w)
      | Some b \<Rightarrow> and_then (vk_buffer_map_memory TZ_DEBUG b w) (\<lambda>(p, w). Inr (Some p, w)))"

definition unmap_staging :: "bool \<Rightarrow> VulkanBuffer option \<Rightarrow> vk_world \<Rightarrow> vk_world outcome" where
  "unmap_staging TZ_DEBUG staging w = (case staging of None \<Rightarrow> Inr w | Some b \<Rightarrow> vk_buffer_unmap_memory TZ_DEBUG b w)"

text \<open>Vertices and indices are uploaded only when there is a static index.\<close>

definition upload_static ::
    "bool \<Rightarrow> vk_driver \<Rightarrow> CommandBuffer \<Rightarrow> nat \<Rightarrow> RendererBufferManagerVulkan \<Rightarrow> scratch_state \<Rightarrow> vk_world \<Rightarrow> vk_world outcome" where
  "upload_static TZ_DEBUG drv scratch_buf copy_fence bm s w =
     (if 0 < sc_index_count s
      then and_then (staged_copy TZ_DEBUG drv scratch_buf copy_fence (sc_vertices s) (bm_vertex bm) w) (\<lambda>w.
           and_then (command_buffer_reset TZ_DEBUG scratch_buf w) (\<lambda>w.
           and_then (staged_copy TZ_DEBUG drv scratch_buf copy_fence (encode_u32s (sc_indices s)) (bm_index bm) w) (\<lambda>w.
           command_buffer_reset TZ_DEBUG scratch_buf w)))
      else Inr w)"

definition scratch_inputs ::
    "bool \<Rightarrow> vk_driver \<Rightarrow> vk_device_info \<Rightarrow> CommandBuffer \<Rightarrow> nat \<Rightarrow> RendererInput list \<Rightarrow> RendererBufferManagerVulkan \<Rightarrow>
     RendererProcessorVulkan \<Rightarrow> vk_world \<Rightarrow> (RendererProcessorVulkan \<times> vk_world) outcome" where
  "scratch_inputs TZ_DEBUG drv info scratch_buf copy_fence inps bm self w =
     and_then (draw_staging TZ_DEBUG drv (count_inputs StaticFixed inps) w) (\<lambda>(staging, w).
     and_then (draw_staging TZ_DEBUG drv (count_inputs DynamicFixed inps) w) (\<lambda>(staging_dynamic, w).
     and_then (map_staging TZ_DEBUG staging w) (\<lambda>(cmd, w).
     and_then (map_staging TZ_DEBUG staging_dynamic w) (\<lambda>(dyn_cmd, w).
     and_then (for_each scratch_input inps
       \<lparr>sc_vertices = [], sc_indices = [], sc_cmd = cmd, sc_dyn_cmd = dyn_cmd, sc_index_count = 0, sc_vertex_count = 0,
        sc_dyn_index_count = 0, sc_dyn_vertex_count = 0, sc_memory = vk_memory w\<rparr>) (\<lambda>s.
     and_then (unmap_staging TZ_DEBUG staging (w\<lparr>vk_memory := sc_memory s\<rparr>)) (\<lambda>w.
     and_then (unmap_staging TZ_DEBUG staging_dynamic w) (\<lambda>w.
     and_then (upload_static TZ_DEBUG drv scratch_buf copy_fence bm s w) (\<lambda>w.
     and_then (record_draw_list TZ_DEBUG drv info inps (all_inputs_once inps) self w) (\<lambda>(self, w).
     Inr (self, vk_buffer_reset staging (vk_buffer_reset staging_dynamic w)))))))))))"

definition scratch_buffer_resource ::
    "bool \<Rightarrow> vk_driver \<Rightarrow> CommandBuffer \<Rightarrow> nat \<Rightarrow> Resource list \<Rightarrow> RendererBufferManagerVulkan \<Rightarrow> nat \<Rightarrow> vk_world \<Rightarrow>
     vk_world outcome" where
  "scratch_buffer_resource TZ_DEBUG drv scratch_buf copy_fence rs bm i w =
     and_then (at_index (bm_components bm) i) (\<lambda>(resource_buffer, res).
     and_then (at_index rs res) (\<lambda>resource.
     case resource_data_access resource of
       StaticFixed \<Rightarrow>
         and_then (command_buffer_reset TZ_DEBUG scratch_buf w) (\<lambda>w.
         and_then (resource_get_bytes (vk_memory w) resource) (\<lambda>bytes.
         staged_copy TZ_DEBUG drv scratch_buf copy_fence bytes resource_buffer w))
     | DynamicFixed \<Rightarrow> Inr w))"

definition upload_texture ::
    "bool \<Rightarrow> vk_driver \<Rightarrow> CommandBuffer \<Rightarrow> nat \<Rightarrow> u8 list \<Rightarrow> VulkanImage \<Rightarrow> vk_world \<Rightarrow> vk_world outcome" where
  "upload_texture TZ_DEBUG drv scratch_buf copy_fence bytes img w =
     and_then (vk_buffer_new TZ_DEBUG drv StagingBuffer TransferSource CPU (length bytes) w) (\<lambda>(staging, w).
     and_then (vk_buffer_write TZ_DEBUG staging bytes w) (\<lambda>w.
     and_then (record_with TZ_DEBUG drv scratch_buf (\<lambda>w.
       and_then (transition_image_layout TZ_DEBUG scratch_buf img LayoutTransferDestination w) (\<lambda>w.
       and_then (buffer_copy_image TZ_DEBUG scratch_buf staging img w) (\<lambda>w.
       transition_image_layout TZ_DEBUG scratch_buf img LayoutShaderResource w))) w) (\<lambda>w.
     and_then (submit_and_wait scratch_buf copy_fence (sync (fence_signal copy_fence) w)) (\<lambda>w.
     Inr (vk_buffer_destroy staging w)))))"

definition scratch_texture_resource ::
    "bool \<Rightarrow> vk_driver \<Rightarrow> CommandBuffer \<Rightarrow> nat \<Rightarrow> Resource list \<Rightarrow> RendererImageManagerVulkan \<Rightarrow> nat \<Rightarrow> vk_world \<Rightarrow>
     vk_world outcome" where
  "scratch_texture_resource TZ_DEBUG drv scratch_buf copy_fence rs im i w =
     and_then (at_index (im_textures im) i) (\<lambda>t.
     and_then (at_index rs (tc_resource t)) (\<lambda>resource.
     and_then (tz_assert TZ_DEBUG (resource_data_access resource = StaticFixed)) (\<lambda>_.
     and_then (command_buffer_reset TZ_DEBUG scratch_buf w) (\<lambda>w.
     and_then (resource_get_bytes (vk_memory w) resource) (\<lambda>bytes.
     upload_texture TZ_DEBUG drv scratch_buf copy_fence bytes (tc_img t) w)))))"

definition record_and_run_scratch_commands ::
    "bool \<Rightarrow> vk_driver \<Rightarrow> vk_device_info \<Rightarrow> RendererInput list \<Rightarrow> Resource list \<Rightarrow> RendererBufferManagerVulkan \<Rightarrow>
     RendererImageManagerVulkan \<Rightarrow> RendererProcessorVulkan \<Rightarrow> vk_world \<Rightarrow> (RendererProcessorVulkan \<times> vk_world) outcome" where
  "record_and_run_scratch_commands TZ_DEBUG drv info inps rs bm im self w =
     and_then (fence_new TZ_DEBUG drv w) (\<lambda>(copy_fence, w).
     let w = sync (fence_signal copy_fence) w in
     and_then (get_view_count TZ_DEBUG info) (\<lambda>n.
     and_then (command_pool_at (pr_commands self) n) (\<lambda>scratch_buf.
     and_then (scratch_inputs TZ_DEBUG drv info scratch_buf copy_fence inps bm self w) (\<lambda>(self, w).
     and_then (for_each (scratch_buffer_resource TZ_DEBUG drv scratch_buf copy_fence rs bm) [0..<length (bm_components bm)] w) (\<lambda>w.
     and_then (for_each (scratch_texture_resource TZ_DEBUG drv scratch_buf copy_fence rs im) [0..<length (im_textures im)] w) (\<lambda>w.
     Inr (self, object_destroy copy_fence w)))))))"

section \<open>The renderer\<close>

record RendererVulkan =
  rv_inputs :: "RendererInput list"
  rv_resources :: "Resource list"
  rv_pass :: RenderPassVulkan
  rv_buffers :: RendererBufferManagerVulkan
  rv_pipeline :: RendererPipelineManagerVulkan
  rv_images :: RendererImageManagerVulkan
  rv_processor :: RendererProcessorVulkan
  rv_clear_colour :: "u32 list"
  rv_requires_depth :: bool

definition make_simple_render_pass ::
    "bool \<Rightarrow> vk_driver \<Rightarrow> vk_device_info \<Rightarrow> 'sh renderer_builder \<Rightarrow> vk_world \<Rightarrow> (RenderPassVulkan \<times> vk_world) outcome" where
  "make_simple_render_pass TZ_DEBUG drv info builder w =
     (let pass_builder = add_pass no_passes (b_pass builder) in
      and_then (window_format info) (\<lambda>format.
      vk_create_render_pass TZ_DEBUG drv (di_headless info) format pass_builder w))"

definition rv_record :: "bool \<Rightarrow> vk_driver \<Rightarrow> vk_device_info \<Rightarrow> RendererVulkan \<Rightarrow> vk_world \<Rightarrow> vk_world outcome" where
  "rv_record TZ_DEBUG drv info self w =
     record_rendering_commands TZ_DEBUG drv info (rv_pass self) (rv_pipeline self) (rv_buffers self) (rv_images self)
       (rv_clear_colour self) (rv_inputs self) (rv_processor self) w"

text \<open>The members of the renderer, in the order of their declaration.\<close>

definition rv_members ::
    "bool \<Rightarrow> vk_driver \<Rightarrow> sync_driver \<Rightarrow> vk_device_info \<Rightarrow> (nat \<times> nat) renderer_builder \<Rightarrow> vk_world \<Rightarrow>
     (RendererVulkan \<times> vk_world) outcome" where
  "rv_members TZ_DEBUG drv sdrv info builder w =
     and_then (copy_inputs TZ_DEBUG builder) (\<lambda>inps.
     and_then (make_simple_render_pass TZ_DEBUG drv info builder w) (\<lambda>(pass, w).
     and_then (pipeline_manager_new TZ_DEBUG drv info builder pass w) (\<lambda>(pm, w).
     and_then (image_manager_new TZ_DEBUG drv info w) (\<lambda>(im, w).
     and_then (processor_new TZ_DEBUG drv sdrv info inps w) (\<lambda>(pr, w).
     Inr (\<lparr>rv_inputs = inps, rv_resources = [], rv_pass = pass, rv_buffers = buffer_manager_new, rv_pipeline = pm,
       rv_images = im, rv_processor = pr, rv_clear_colour = [0, 0, 0, 0],
       rv_requires_depth = (b_pass builder \<noteq> Colour)\<rparr>, w))))))"

text \<open>The body of the constructor up to the recording of the rendering commands.\<close>

definition rv_setup ::
    "bool \<Rightarrow> vk_driver \<Rightarrow> vk_device_info \<Rightarrow> (nat \<times> nat) renderer_builder \<Rightarrow> RendererVulkan \<Rightarrow> vk_world \<Rightarrow>
     (RendererVulkan \<times> vk_world) outcome" where
  "rv_setup TZ_DEBUG drv info builder self w =
     (let rs = clone_resources builder;
          nb = length (b_buffer_resources builder);
          bm = buffer_manager_initialise [0..<nb] (rv_buffers self) in
      and_then (setup_buffers TZ_DEBUG drv (rv_inputs self) rs bm w) (\<lambda>(inps, rs, bm, w).
      and_then (image_manager_initialise TZ_DEBUG drv rs [nb..<length rs] (rv_images self) w) (\<lambda>(im, w).
      and_then (if rv_requires_depth self then setup_depth_image TZ_DEBUG drv info im w else Inr (im, w)) (\<lambda>(im, w).
      and_then (setup_swapchain_framebuffers TZ_DEBUG drv info (rv_pass self) im w) (\<lambda>(im, w).
      and_then (initialise_resource_descriptors TZ_DEBUG drv info (rv_pipeline self) bm im rs (rv_processor self) w) (\<lambda>(pr, w).
      Inr (self\<lparr>rv_inputs := inps, rv_resources := rs, rv_buffers := bm, rv_images := im, rv_processor := pr\<rparr>, w)))))))"

definition renderer_vulkan_new ::
    "bool \<Rightarrow> vk_driver \<Rightarrow> sync_driver \<Rightarrow> vk_device_info \<Rightarrow> (nat \<times> nat) renderer_builder \<Rightarrow> vk_world \<Rightarrow>
     (RendererVulkan \<times> vk_world) outcome" where
  "renderer_vulkan_new TZ_DEBUG drv sdrv info builder w =
     and_then (rv_members TZ_DEBUG drv sdrv info builder w) (\<lambda>(self, w).
     and_then (rv_setup TZ_DEBUG drv info builder self w) (\<lambda>(self, w).
     and_then (rv_record TZ_DEBUG drv info self w) (\<lambda>w.
     and_then (record_and_run_scratch_commands TZ_DEBUG drv info (rv_inputs self) (rv_resources self) (rv_buffers self)
       (rv_images self) (rv_processor self) w) (\<lambda>(pr, w).
     Inr (self\<lparr>rv_processor := pr\<rparr>, w)))))"

definition handle_resize ::
    "bool \<Rightarrow> vk_driver \<Rightarrow> vk_device_info \<Rightarrow> RendererVulkan \<Rightarrow> vk_world \<Rightarrow> (RendererVulkan \<times> vk_world) outcome" where
  "handle_resize TZ_DEBUG drv info self w =
     and_then (reconstruct_pipeline TZ_DEBUG drv info (rv_pass self) (rv_pipeline self) w) (\<lambda>(pm, w).
     let self = self\<lparr>rv_pipeline := pm\<rparr> in
     and_then (if rv_requires_depth self then setup_depth_image TZ_DEBUG drv info (rv_images self) w
       else Inr (rv_images self, w)) (\<lambda>(im, w).
     and_then (setup_swapchain_framebuffers TZ_DEBUG drv info (rv_pass self) im w) (\<lambda>(im, w).
     let self = self\<lparr>rv_images := im\<rparr> in
     and_then (initialise_command_pool TZ_DEBUG drv info (rv_processor self) w) (\<lambda>(pr, w).
     let self = self\<lparr>rv_processor := pr\<rparr> in
     and_then (rv_record TZ_DEBUG drv info self w) (\<lambda>w. Inr (self, w))))))"

definition handle_clear_colour_change ::
    "bool \<Rightarrow> vk_driver \<Rightarrow> vk_device_info \<Rightarrow> RendererVulkan \<Rightarrow> vk_world \<Rightarrow> (RendererVulkan \<times> vk_world) outcome" where
  "handle_clear_colour_change TZ_DEBUG drv info self w =
     (let w = sync [DeviceWaitIdle] w in
      and_then (initialise_command_pool TZ_DEBUG drv info (rv_processor self) w) (\<lambda>(pr, w).
      let self = self\<lparr>rv_processor := pr\<rparr> in
      and_then (rv_record TZ_DEBUG drv info self w) (\<lambda>w. Inr (self, w))))"

definition vk_set_clear_colour ::
    "bool \<Rightarrow> vk_driver \<Rightarrow> vk_device_info \<Rightarrow> u32 list \<Rightarrow> RendererVulkan \<Rightarrow> vk_world \<Rightarrow> (RendererVulkan \<times> vk_world) outcome" where
  "vk_set_clear_colour TZ_DEBUG drv info clear_colour self w =
     handle_clear_colour_change TZ_DEBUG drv info (self\<lparr>rv_clear_colour := clear_colour\<rparr>) w"

definition vk_render ::
    "bool \<Rightarrow> vk_driver \<Rightarrow> vk_device_info \<Rightarrow> VkAcquireAnswer \<Rightarrow> bool \<Rightarrow> RendererVulkan \<Rightarrow> vk_world \<Rightarrow>
     (RendererVulkan \<times> vk_world) outcome" where
  "vk_render TZ_DEBUG drv info answer presented self w =
     (let pr = rv_processor self;
          admin = set_regeneration_function (pr_frame_admin pr)
            (and_then (handle_resize TZ_DEBUG drv info self w) (\<lambda>_. Inr ()));
          natives = get_buffer_natives (pr_commands pr) in
      and_then (if di_headless info then render_frame_headless natives [ColourAttachmentOutput] admin
        else and_then (as_swapchain TZ_DEBUG info) (\<lambda>c.
          render_frame TZ_DEBUG (length (image_views c)) natives [ColourAttachmentOutput] answer presented admin)) (\<lambda>(admin, calls).
      Inr (self\<lparr>rv_processor := pr\<lparr>pr_frame_admin := admin\<rparr>\<rparr>, sync calls w)))"

text \<open>The part of \<open>render(draws)\<close> before the frame is rendered.\<close>

definition new_draw_list ::
    "bool \<Rightarrow> vk_driver \<Rightarrow> vk_device_info \<Rightarrow> nat list \<Rightarrow> RendererVulkan \<Rightarrow> vk_world \<Rightarrow> (RendererVulkan \<times> vk_world) outcome" where
  "new_draw_list TZ_DEBUG drv info draws self w =
     (if pr_draw_cache (rv_processor self) = draws then Inr (self, w)
      else
        and_then (clear_rendering_commands TZ_DEBUG info (rv_processor self) w) (\<lambda>w.
        and_then (record_draw_list TZ_DEBUG drv info (rv_inputs self) draws (rv_processor self) w) (\<lambda>(pr, w).
        let self = self\<lparr>rv_processor := pr\<rparr> in
        and_then (rv_record TZ_DEBUG drv info self w) (\<lambda>w. Inr (self, w)))))"

definition vk_render_list ::
    "bool \<Rightarrow> vk_driver \<Rightarrow> vk_device_info \<Rightarrow> VkAcquireAnswer \<Rightarrow> bool \<Rightarrow> nat list \<Rightarrow> RendererVulkan \<Rightarrow> vk_world \<Rightarrow>
     (RendererVulkan \<times> vk_world) outcome" where
  "vk_render_list TZ_DEBUG drv info answer presented draws self w =
     and_then (new_draw_list TZ_DEBUG drv info draws self w) (\<lambda>(self, w).
     vk_render TZ_DEBUG drv info answer presented self w)"

end
