(* ===== verification/Vk_Ready.thy ===== *)
theory Vk_Ready
  imports Vk_Renderer
begin

text \<open>
  When a \<open>RendererVulkan\<close> is ready to render (\<open>vk_ready\<close>): its geometry is in its buffers, its
  command pool has a command buffer for every view and one for scratch work, and what its
  command buffers refer to is alive.  The lemmas show that recording a draw list and recording
  the views keep it so, and what executing the recorded commands draws.
\<close>

section \<open>What an operation leaves alone\<close>

text \<open>Live objects, images and descriptor sets stay, and only the recordings in \<open>C\<close> change.\<close>

definition keeps_rest :: "nat set \<Rightarrow> vk_world \<Rightarrow> vk_world \<Rightarrow> bool" where
  "keeps_rest C w w' \<longleftrightarrow>
     (\<forall>h v. map_of (objects w) h = Some v \<longrightarrow> map_of (objects w') h = Some v) \<and>
     (\<forall>h v. map_of (texels w) h = Some v \<longrightarrow> map_of (texels w') h = Some v) \<and>
     (\<forall>h v. map_of (descriptor_sets w) h = Some v \<longrightarrow> map_of (descriptor_sets w') h = Some v) \<and>
     (\<forall>c. c \<notin> C \<longrightarrow> map_of (recordings w') c = map_of (recordings w) c)"

lemma keeps_rest_refl [simp]: "keeps_rest C w w"
  by (simp add: keeps_rest_def)

lemma keeps_rest_trans: "keeps_rest C w w' \<Longrightarrow> keeps_rest D w' w'' \<Longrightarrow> keeps_rest (C \<union> D) w w''"
  by (simp add: keeps_rest_def)

lemma keeps_rest_mono: "keeps_rest C w w' \<Longrightarrow> C \<subseteq> D \<Longrightarrow> keeps_rest D w w'"
  by (auto simp: keeps_rest_def)

lemma keeps_rest_same: "same_but_recording C w w' \<Longrightarrow> keeps_rest C w w'"
  by (simp add: same_but_recording_def keeps_rest_def)

lemma keeps_rest_objects: "same_objects w w' \<Longrightarrow> keeps_rest C w w'"
  by (simp add: same_objects_def keeps_rest_def)

lemma keeps_rest_sync [simp]: "keeps_rest C w (sync cs w') \<longleftrightarrow> keeps_rest C w w'"
  by (simp add: keeps_rest_def sync_def)

lemma sync_store [simp]: "storages (sync cs w) = storages w" "vk_memory (sync cs w) = vk_memory w"
  "objects (sync cs w) = objects w" "recordings (sync cs w) = recordings w" "texels (sync cs w) = texels w"
  "descriptor_sets (sync cs w) = descriptor_sets w"
  by (simp_all add: sync_def)

lemma object_destroy_store [simp]: "storages (object_destroy h w) = storages w" "vk_memory (object_destroy h w) = vk_memory w"
  "recordings (object_destroy h w) = recordings w" "texels (object_destroy h w) = texels w"
  "descriptor_sets (object_destroy h w) = descriptor_sets w"
  by (simp_all add: object_destroy_def)

text \<open>Destroying an object that was not there at the start.\<close>

lemma keeps_rest_destroy:
  "keeps_rest C w w' \<Longrightarrow> map_of (objects w) h = None \<Longrightarrow> keeps_rest C w (object_destroy h w')"
  by (auto simp: keeps_rest_def object_destroy_def delete_conv')

lemma object_new_returns:
  assumes "vk_documented drv"
  shows "returns (object_new d drv info w) (\<lambda>(h, w'). storages w' = storages w \<and> vk_memory w' = vk_memory w \<and>
    recordings w' = recordings w \<and> keeps_rest {} w w' \<and> map_of (objects w) h = None \<and> map_of (objects w') h = Some info \<and>
    texels w' = texels w \<and> descriptor_sets w' = descriptor_sets w)"
proof -
  obtain h where "create_object drv w info = Some h" "map_of (objects w) h = None"
    by (rule documented_object [OF assms, of w info]) blast
  then show ?thesis by (simp add: object_new_def returns_def keeps_rest_def update_conv')
qed

text \<open>Memory that belongs to kept buffers is kept.\<close>

definition blocks_of :: "vk_world \<Rightarrow> nat set \<Rightarrow> nat set" where
  "blocks_of w H = {sto_allocation s | h s. h \<in> H \<and> map_of (storages w) h = Some s}"

lemma keeps_blocks:
  "keeps_buffers S w w' \<Longrightarrow> S \<inter> H = {} \<Longrightarrow> b \<in> blocks_of w H \<Longrightarrow> vk_memory w' b = vk_memory w b \<and> b \<in> blocks_of w' H"
  unfolding keeps_buffers_def blocks_of_def by blast

lemma keeps_all_geometry:
  assumes "all_geometry (vk_memory w) inps = Inr gs" "\<forall>inp\<in>set inps. input_blocks inp \<subseteq> blocks_of w H"
    and "keeps_buffers S w w'" "S \<inter> H = {}"
  shows "all_geometry (vk_memory w') inps = Inr gs" "\<forall>inp\<in>set inps. input_blocks inp \<subseteq> blocks_of w' H"
proof -
  have "input_geometry (vk_memory w') inp = input_geometry (vk_memory w) inp" if "inp \<in> set inps" for inp
    using assms(2) keeps_blocks [OF assms(3,4)] that by (intro input_geometry_blocks) blast
  then show "all_geometry (vk_memory w') inps = Inr gs" using assms(1) by (simp add: all_geometry_iff)
  show "\<forall>inp\<in>set inps. input_blocks inp \<subseteq> blocks_of w' H" using assms(2) keeps_blocks [OF assms(3,4)] by blast
qed

section \<open>Readiness\<close>

definition geometry_buffers :: "RendererBufferManagerVulkan \<Rightarrow> nat set" where
  "geometry_buffers bm = vb_buffer ` {bm_vertex bm, bm_index bm, bm_dynamic_vertex bm, bm_dynamic_index bm}"

definition owned :: "vk_world \<Rightarrow> VulkanBuffer \<Rightarrow> bool" where
  "owned w b \<longleftrightarrow> (\<exists>s. owns w b s)"

definition batch_ok :: "vk_world \<Rightarrow> geometry list \<Rightarrow> RendererInputDataAccess \<Rightarrow> VulkanBuffer \<Rightarrow> VulkanBuffer \<Rightarrow> bool" where
  "batch_ok w gs a vb ib \<longleftrightarrow> (of_access gs a \<noteq> [] \<longrightarrow>
     vb_type vb = VertexBuffer \<and> vb_type ib = IndexBuffer \<and> owned w vb \<and> owned w ib \<and>
     gpu_contents w (vb_buffer vb) = Some (batch_vertices gs a) \<and>
     gpu_contents w (vb_buffer ib) = Some (encode_u32s (batch_indices gs a)))"

definition indirect_ok ::
    "vk_world \<Rightarrow> geometry list \<Rightarrow> nat set \<Rightarrow> RendererInputDataAccess \<Rightarrow> VulkanBuffer option \<Rightarrow> bool" where
  "indirect_ok w gs H a slot \<longleftrightarrow>
     (case slot of None \<Rightarrow> True | Some b \<Rightarrow> owned w b \<and> vb_buffer b \<notin> H \<and> of_access gs a \<noteq> [])"

definition slot_handles :: "VulkanBuffer option \<Rightarrow> nat set" where
  "slot_handles slot = vb_buffer ` set_option slot"

definition inputs_ready :: "geometry list \<Rightarrow> RendererInput list \<Rightarrow> RendererBufferManagerVulkan \<Rightarrow> vk_world \<Rightarrow> bool" where
  "inputs_ready gs inps bm w \<longleftrightarrow>
     vk_wf w \<and> all_geometry (vk_memory w) inps = Inr gs \<and>
     (\<forall>h\<in>geometry_buffers bm. h = VK_NULL_HANDLE \<or> map_of (storages w) h \<noteq> None) \<and>
     (\<forall>inp\<in>set inps. input_blocks inp \<subseteq> blocks_of w (geometry_buffers bm)) \<and>
     batch_ok w gs StaticFixed (bm_vertex bm) (bm_index bm) \<and>
     batch_ok w gs DynamicFixed (bm_dynamic_vertex bm) (bm_dynamic_index bm)"

definition slots_ready ::
    "geometry list \<Rightarrow> RendererBufferManagerVulkan \<Rightarrow> RendererProcessorVulkan \<Rightarrow> vk_world \<Rightarrow> bool" where
  "slots_ready gs bm pr w \<longleftrightarrow>
     indirect_ok w gs (geometry_buffers bm) StaticFixed (pr_draw_indirect pr) \<and>
     indirect_ok w gs (geometry_buffers bm) DynamicFixed (pr_draw_indirect_dynamic pr) \<and>
     slot_handles (pr_draw_indirect pr) \<inter> slot_handles (pr_draw_indirect_dynamic pr) = {}"

definition pool_ready :: "nat \<Rightarrow> CommandPool \<Rightarrow> bool" where
  "pool_ready n pool \<longleftrightarrow> length (cp_buffers pool) = Suc n \<and> distinct (map cb_native (cp_buffers pool)) \<and>
     (\<forall>cb\<in>set (cp_buffers pool). \<not> cb_recording cb)"

definition live_object :: "vk_world \<Rightarrow> nat \<Rightarrow> bool" where
  "live_object w h \<longleftrightarrow> map_of (objects w) h \<noteq> None"

definition targets_ready ::
    "nat \<Rightarrow> RenderPassVulkan \<Rightarrow> RendererPipelineManagerVulkan \<Rightarrow> RendererImageManagerVulkan \<Rightarrow> RendererProcessorVulkan \<Rightarrow>
     vk_world \<Rightarrow> bool" where
  "targets_ready n pass pm im pr w \<longleftrightarrow>
     live_object w (rp_native pass) \<and> live_object w (pm_pipeline pm) \<and> pm_pipeline pm \<noteq> rp_native pass \<and>
     length (im_framebuffers im) = n \<and>
     (\<forall>f\<in>set (im_framebuffers im). live_object w f \<and> f \<notin> {rp_native pass, pm_pipeline pm}) \<and>
     (\<forall>v\<in>set_option (im_depth_view im). live_object w v \<and> v \<notin> {rp_native pass, pm_pipeline pm} \<union> set (im_framebuffers im)) \<and>
     (case pr_descriptors pr of None \<Rightarrow> True
      | Some pool \<Rightarrow> length (dp_sets pool) = n \<and> (\<forall>s\<in>set (dp_sets pool). map_of (descriptor_sets w) s \<noteq> None))"

text \<open>The indirect buffers hold the cached draw list.\<close>

definition slot_holds ::
    "vk_world \<Rightarrow> DrawIndirectCommand list \<Rightarrow> VulkanBuffer option \<Rightarrow> bool" where
  "slot_holds w cmds slot \<longleftrightarrow>
     (case slot of None \<Rightarrow> cmds = [] | Some b \<Rightarrow> owned w b \<and> gpu_contents w (vb_buffer b) = Some (command_bytes cmds))"

definition list_ready :: "geometry list \<Rightarrow> RendererProcessorVulkan \<Rightarrow> vk_world \<Rightarrow> bool" where
  "list_ready gs pr w \<longleftrightarrow>
     slot_holds w (commands_of gs StaticFixed (pr_draw_cache pr)) (pr_draw_indirect pr) \<and>
     slot_holds w (commands_of gs DynamicFixed (pr_draw_cache pr)) (pr_draw_indirect_dynamic pr)"

definition info_ready :: "bool \<Rightarrow> vk_device_info \<Rightarrow> nat \<Rightarrow> bool" where
  "info_ready d info n \<longleftrightarrow> get_view_count d info = Inr n \<and> (\<exists>area. full_render_area info = Inr area)"

definition vk_ready :: "nat \<Rightarrow> geometry list \<Rightarrow> RendererVulkan \<Rightarrow> vk_world \<Rightarrow> bool" where
  "vk_ready n gs r w \<longleftrightarrow>
     inputs_ready gs (rv_inputs r) (rv_buffers r) w \<and> slots_ready gs (rv_buffers r) (rv_processor r) w \<and>
     list_ready gs (rv_processor r) w \<and> pool_ready n (pr_commands (rv_processor r)) \<and>
     targets_ready n (rv_pass r) (rv_pipeline r) (rv_images r) (rv_processor r) w \<and>
     admin_wf n (pr_frame_admin (rv_processor r)) \<and> n \<le> frame_depth (pr_frame_admin (rv_processor r))"

section \<open>Readiness is kept\<close>

lemma owned_kept: "owned w b \<Longrightarrow> keeps_buffers S w w' \<Longrightarrow> vb_buffer b \<notin> S \<Longrightarrow> owned w' b"
  unfolding owned_def using owns_kept by blast

lemma batch_ok_kept:
  "batch_ok w gs a vb ib \<Longrightarrow> keeps_buffers S w w' \<Longrightarrow> vb_buffer vb \<notin> S \<Longrightarrow> vb_buffer ib \<notin> S \<Longrightarrow> batch_ok w' gs a vb ib"
  unfolding batch_ok_def using owned_kept keeps_gpu_contents by metis

lemma indirect_ok_kept:
  "indirect_ok w gs H a slot \<Longrightarrow> keeps_buffers S w w' \<Longrightarrow> S \<inter> slot_handles slot = {} \<Longrightarrow> indirect_ok w' gs H a slot"
  unfolding indirect_ok_def slot_handles_def by (auto split: option.splits dest: owned_kept)

lemma inputs_ready_kept:
  assumes "inputs_ready gs inps bm w" "vk_wf w'" "keeps_buffers S w w'" "S \<inter> geometry_buffers bm = {}"
  shows "inputs_ready gs inps bm w'"
proof -
  have "vb_buffer (bm_vertex bm) \<notin> S" "vb_buffer (bm_index bm) \<notin> S" "vb_buffer (bm_dynamic_vertex bm) \<notin> S"
    "vb_buffer (bm_dynamic_index bm) \<notin> S"
    using assms(4) by (auto simp: geometry_buffers_def)
  moreover have "map_of (storages w') h \<noteq> None" if "h \<in> geometry_buffers bm" "map_of (storages w) h \<noteq> None" for h
    using assms(3,4) that unfolding keeps_buffers_def by blast
  ultimately show ?thesis
    using assms(1,2) keeps_all_geometry [OF _ _ assms(3,4)] batch_ok_kept [OF _ assms(3)]
    unfolding inputs_ready_def by blast
qed

lemma targets_ready_kept: "targets_ready n pass pm im pr w \<Longrightarrow> keeps_rest C w w' \<Longrightarrow> targets_ready n pass pm im pr w'"
  unfolding targets_ready_def keeps_rest_def live_object_def by (auto split: option.splits)

section \<open>Replacing an indirect buffer\<close>

lemma reset_effect:
  assumes "vk_wf w" "indirect_ok w gs H a old"
  shows "vk_wf (vk_buffer_reset old w)" "keeps_buffers (slot_handles old) w (vk_buffer_reset old w)"
    "same_objects w (vk_buffer_reset old w)"
  using assms vk_buffer_destroy_effect(1-3) [OF assms(1)]
  by (auto simp: vk_buffer_reset_def indirect_ok_def slot_handles_def owned_def split: option.splits)

lemma assign_optional_reset: "vk_buffer_assign_optional old (b, w) = (b, vk_buffer_reset old w)"
  by (simp add: vk_buffer_assign_optional_def vk_buffer_assign_def vk_buffer_move_assign_def vk_buffer_reset_def split: option.splits)

lemma command_bytes_nonempty: "cmds \<noteq> [] \<Longrightarrow> command_bytes cmds \<noteq> []"
  using length_command_bytes [of cmds] by auto

lemma replace_indirect_returns:
  assumes doc: "vk_documented drv" and wf: "vk_wf w" and scratch: "\<not> cb_recording scratch" and old: "indirect_ok w gs H a old"
  shows "returns (replace_indirect d drv scratch fence cmds old w) (\<lambda>(new, w').
    vk_wf w' \<and> keeps_buffers (slot_handles old) w w' \<and> keeps_rest {cb_native scratch} w w' \<and> slot_holds w' cmds new \<and>
    (new = None \<longleftrightarrow> cmds = []) \<and> (\<forall>b. new = Some b \<longrightarrow> map_of (storages w) (vb_buffer b) = None))"
proof (cases "cmds = []")
  case True
  then show ?thesis using reset_effect [OF wf old] by (simp add: replace_indirect_def slot_holds_def keeps_rest_objects)
next
  case False
  have pos: "0 < length cmds * sizeof_DrawIndirectCommand" using False by (simp add: sizeof_DrawIndirectCommand_def)
  have purpose: "TransferDestination = TransferSource \<longrightarrow> DrawIndirectBuffer = StagingBuffer" by simp
  obtain b w1 s where 1: "vk_buffer_new d drv DrawIndirectBuffer TransferDestination GPU (length cmds * sizeof_DrawIndirectCommand) w =
      Inr (b, w1)" "vk_wf w1" "owns w1 b s" "keeps_buffers {} w w1" "same_objects w w1" "map_of (storages w) (vb_buffer b) = None"
    "sto_maps s = (if GPU = CPUPersistent then 1 else 0)" "length (sto_bytes s) = length cmds * sizeof_DrawIndirectCommand"
    by (rule vk_buffer_new_effect [OF doc pos wf purpose, of d GPU]) blast
  have fresh: "vb_buffer b \<notin> slot_handles old"
    using old 1(6) by (auto simp: indirect_ok_def slot_handles_def owned_def owns_def split: option.splits)
  have "indirect_ok w1 gs H a old" using indirect_ok_kept [OF old 1(4)] by simp
  note 2 = reset_effect [OF 1(2) this]
  let ?w2 = "vk_buffer_reset old w1"
  have o2: "owns ?w2 b s" using owns_kept [OF 1(3) 2(2) fresh] .
  have s: "sto_maps s = 0" "length (sto_bytes s) = length (command_bytes cmds)"
    using 1(7,8) by (simp_all add: layout_simps sizeof_DrawIndirectCommand_def)
  obtain w3 where 3: "staged_copy d drv scratch fence (command_bytes cmds) b ?w2 = Inr w3" "vk_wf w3"
    "owns w3 b (s\<lparr>sto_bytes := command_bytes cmds\<rparr>)" "keeps_buffers {vb_buffer b} ?w2 w3" "same_but_recording {cb_native scratch} ?w2 w3"
    by (rule staged_copy_effect [OF doc 2(1) scratch o2 s command_bytes_nonempty [OF False], of d fence]) blast
  have "keeps_buffers ({} \<union> slot_handles old \<union> {vb_buffer b}) w w3"
    by (rule keeps_buffers_trans [OF keeps_buffers_trans [OF 1(4) 2(2)] 3(4)])
  then have k: "keeps_buffers (slot_handles old) w w3" by (rule keeps_buffers_forget) (auto simp: 1(6))
  have r: "keeps_rest {cb_native scratch} w w3"
    using 1(5) 2(3) 3(5) by (simp add: same_objects_def same_but_recording_def keeps_rest_def)
  have "slot_holds w3 cmds (Some b)"
    using 3(3) s(1) by (auto simp: slot_holds_def owned_def owns_def gpu_contents_def)
  then show ?thesis
    using False 1(1,6) 3(1,2) k r by (simp add: replace_indirect_def assign_optional_reset)
qed

section \<open>Recording a draw list\<close>

lemma commands_of_access: "commands_of gs a draws \<noteq> [] \<Longrightarrow> \<forall>h\<in>set draws. h < length gs \<Longrightarrow> of_access gs a \<noteq> []"
  by (auto simp: commands_of_def draws_of_def of_access_def filter_empty_conv)

text \<open>The buffer \<open>replace_indirect\<close> leaves in a slot is a slot again.\<close>

lemma new_indirect_ok:
  assumes "slot_holds w' cmds new" "\<forall>b. new = Some b \<longrightarrow> map_of (storages w) (vb_buffer b) = None" "new = None \<longleftrightarrow> cmds = []"
    and "\<forall>h\<in>H. h = VK_NULL_HANDLE \<or> map_of (storages w) h \<noteq> None" "cmds \<noteq> [] \<longrightarrow> of_access gs a \<noteq> []"
  shows "indirect_ok w' gs H a new"
  using assms by (auto simp: indirect_ok_def slot_holds_def owned_def owns_def split: option.splits)

lemma slot_holds_kept:
  "slot_holds w cmds slot \<Longrightarrow> keeps_buffers S w w' \<Longrightarrow> S \<inter> slot_handles slot = {} \<Longrightarrow> slot_holds w' cmds slot"
  unfolding slot_holds_def slot_handles_def by (auto split: option.splits dest: owned_kept keeps_gpu_contents)

lemma slot_geometry_disjoint: "indirect_ok w gs H a slot \<Longrightarrow> slot_handles slot \<inter> H = {}"
  by (auto simp: indirect_ok_def slot_handles_def split: option.splits)

lemma slot_fresh_disjoint:
  "indirect_ok w gs H a slot \<Longrightarrow> \<forall>b. new = Some b \<longrightarrow> map_of (storages w) (vb_buffer b) = None \<Longrightarrow>
   slot_handles new \<inter> slot_handles slot = {}"
  by (auto simp: indirect_ok_def slot_handles_def owned_def owns_def split: option.splits)

text \<open>Both indirect buffers replaced: the other buffers stay, and the new ones are none of them.\<close>

definition slots_replaced ::
    "vk_world \<Rightarrow> RendererProcessorVulkan \<Rightarrow> RendererProcessorVulkan \<Rightarrow> vk_world \<Rightarrow> bool" where
  "slots_replaced w pr pr' w' \<longleftrightarrow>
     keeps_buffers (slot_handles (pr_draw_indirect pr) \<union> slot_handles (pr_draw_indirect_dynamic pr)) w w' \<and>
     (\<forall>h\<in>slot_handles (pr_draw_indirect pr') \<union> slot_handles (pr_draw_indirect_dynamic pr').
        map_of (storages w) h = None \<or> h \<in> slot_handles (pr_draw_indirect pr))"

lemma fresh_later:
  "keeps_buffers S w w' \<Longrightarrow> map_of (storages w') h = None \<Longrightarrow> map_of (storages w) h = None \<or> h \<in> S"
  by (cases "map_of (storages w) h") (auto simp: keeps_buffers_def)

lemma replace_both_returns:
  assumes doc: "vk_documented drv" and scratch: "\<not> cb_recording scratch"
    and inp: "inputs_ready gs inps bm w" and slots: "slots_ready gs bm pr w" and h: "\<forall>h\<in>set draws. h < length gs"
  shows "returns (and_then (replace_indirect d drv scratch fence (commands_of gs StaticFixed draws) (pr_draw_indirect pr) w) (\<lambda>(stat, w).
      and_then (replace_indirect d drv scratch fence (commands_of gs DynamicFixed draws) (pr_draw_indirect_dynamic pr) w) (\<lambda>(dyn, w).
      Inr (stat, dyn, w)))) (\<lambda>(stat, dyn, w'). inputs_ready gs inps bm w' \<and> keeps_rest {cb_native scratch} w w' \<and>
    slots_ready gs bm (pr\<lparr>pr_draw_indirect := stat, pr_draw_indirect_dynamic := dyn\<rparr>) w' \<and>
    slots_replaced w pr (pr\<lparr>pr_draw_indirect := stat, pr_draw_indirect_dynamic := dyn\<rparr>) w' \<and>
    slot_holds w' (commands_of gs StaticFixed draws) stat \<and> slot_holds w' (commands_of gs DynamicFixed draws) dyn)"
proof -
  let ?H = "geometry_buffers bm" and ?S = "commands_of gs StaticFixed draws" and ?D = "commands_of gs DynamicFixed draws"
  have wf: "vk_wf w" using inp by (simp add: inputs_ready_def)
  have s: "indirect_ok w gs ?H StaticFixed (pr_draw_indirect pr)" "indirect_ok w gs ?H DynamicFixed (pr_draw_indirect_dynamic pr)"
    "slot_handles (pr_draw_indirect pr) \<inter> slot_handles (pr_draw_indirect_dynamic pr) = {}"
    using slots by (simp_all add: slots_ready_def)
  have G: "\<forall>h\<in>?H. h = VK_NULL_HANDLE \<or> map_of (storages w) h \<noteq> None" using inp by (simp add: inputs_ready_def)
  obtain stat w1 where 1: "replace_indirect d drv scratch fence ?S (pr_draw_indirect pr) w = Inr (stat, w1)" "vk_wf w1"
    "keeps_buffers (slot_handles (pr_draw_indirect pr)) w w1" "keeps_rest {cb_native scratch} w w1" "slot_holds w1 ?S stat"
    "stat = None \<longleftrightarrow> ?S = []" "\<forall>b. stat = Some b \<longrightarrow> map_of (storages w) (vb_buffer b) = None"
    using replace_indirect_returns [OF doc wf scratch s(1), of d fence ?S] by (auto elim!: returnsE)
  have i1: "inputs_ready gs inps bm w1"
    by (rule inputs_ready_kept [OF inp 1(2,3) slot_geometry_disjoint [OF s(1)]])
  have d1: "indirect_ok w1 gs ?H DynamicFixed (pr_draw_indirect_dynamic pr)" by (rule indirect_ok_kept [OF s(2) 1(3) s(3)])
  obtain dyn w2 where 2: "replace_indirect d drv scratch fence ?D (pr_draw_indirect_dynamic pr) w1 = Inr (dyn, w2)" "vk_wf w2"
    "keeps_buffers (slot_handles (pr_draw_indirect_dynamic pr)) w1 w2" "keeps_rest {cb_native scratch} w1 w2" "slot_holds w2 ?D dyn"
    "dyn = None \<longleftrightarrow> ?D = []" "\<forall>b. dyn = Some b \<longrightarrow> map_of (storages w1) (vb_buffer b) = None"
    using replace_indirect_returns [OF doc 1(2) scratch d1, of d fence ?D] by (auto elim!: returnsE)
  have i2: "inputs_ready gs inps bm w2"
    by (rule inputs_ready_kept [OF i1 2(2,3) slot_geometry_disjoint [OF d1]])
  have s1: "indirect_ok w1 gs ?H StaticFixed stat" using new_indirect_ok [OF 1(5,7,6) G] commands_of_access [OF _ h] by blast
  have dj: "slot_handles (pr_draw_indirect_dynamic pr) \<inter> slot_handles stat = {}"
    using slot_fresh_disjoint [OF s(2) 1(7)] by blast
  have G1: "\<forall>h\<in>?H. h = VK_NULL_HANDLE \<or> map_of (storages w1) h \<noteq> None" using i1 by (simp add: inputs_ready_def)
  have "indirect_ok w2 gs ?H DynamicFixed dyn" using new_indirect_ok [OF 2(5,7,6) G1] commands_of_access [OF _ h] by blast
  moreover have "indirect_ok w2 gs ?H StaticFixed stat" by (rule indirect_ok_kept [OF s1 2(3) dj])
  moreover have "slot_handles stat \<inter> slot_handles dyn = {}" using slot_fresh_disjoint [OF s1 2(7)] by blast
  moreover have "slot_holds w2 ?S stat" by (rule slot_holds_kept [OF 1(5) 2(3) dj])
  moreover have "slots_replaced w pr (pr\<lparr>pr_draw_indirect := stat, pr_draw_indirect_dynamic := dyn\<rparr>) w2"
    using keeps_buffers_trans [OF 1(3) 2(3)] 1(7) 2(7) fresh_later [OF 1(3)] by (auto simp: slots_replaced_def slot_handles_def)
  ultimately show ?thesis
    using 1(1) 2(1,5) i2 keeps_rest_trans [OF 1(4) 2(4)] by (simp add: slots_ready_def)
qed

interpretation vk_planner: draw_planner vk_plan
proof
  fix mem inputs gs draws d
  assume "all_geometry mem inputs = Inr gs" "\<forall>h\<in>set draws. h < length inputs"
  then show "vk_plan d mem inputs draws =
      Inr (map (ref_command gs) (draws_of gs StaticFixed draws), map (ref_command gs) (draws_of gs DynamicFixed draws))"
    unfolding vk_plan_def by (rule plan_draws_reference) simp
qed

lemma vk_plan_commands:
  assumes "all_geometry mem inps = Inr gs" "\<forall>h\<in>set draws. h < length inps"
  shows "vk_plan d mem inps draws = Inr (commands_of gs StaticFixed draws, commands_of gs DynamicFixed draws)"
  using vk_planner.plan_reference [OF assms] by (simp add: commands_of_def)

lemma record_draw_list_returns:
  assumes doc: "vk_documented drv" and info: "info_ready d info n" and pool: "pool_ready n (pr_commands pr)"
    and inp: "inputs_ready gs inps bm w" and slots: "slots_ready gs bm pr w"
    and new: "pr_draw_cache pr \<noteq> draws" and h: "\<forall>h\<in>set draws. h < length inps"
  shows "returns (record_draw_list d drv info inps draws pr w) (\<lambda>(pr', w'). inputs_ready gs inps bm w' \<and> slots_ready gs bm pr' w' \<and>
    slots_replaced w pr pr' w' \<and> keeps_rest {cb_native (cp_buffers (pr_commands pr) ! n)} w w' \<and>
    pr' = pr\<lparr>pr_draw_indirect := pr_draw_indirect pr', pr_draw_indirect_dynamic := pr_draw_indirect_dynamic pr', pr_draw_cache := draws\<rparr> \<and>
    slot_holds w' (commands_of gs StaticFixed draws) (pr_draw_indirect pr') \<and>
    slot_holds w' (commands_of gs DynamicFixed draws) (pr_draw_indirect_dynamic pr'))"
proof -
  have all: "all_geometry (vk_memory w) inps = Inr gs" using inp by (simp add: inputs_ready_def)
  then have hg: "\<forall>h\<in>set draws. h < length gs" using h by (simp add: all_geometry_iff)
  obtain fence w1 where 1: "fence_new d drv w = Inr (fence, w1)" "storages w1 = storages w" "vk_memory w1 = vk_memory w"
    "keeps_rest {} w w1" "map_of (objects w) fence = None"
    using object_new_returns [OF doc, of d FenceObject w] by (auto simp: fence_new_def elim!: returnsE)
  let ?w = "sync (fence_signal fence) w1" and ?scratch = "cp_buffers (pr_commands pr) ! n"
  have kw: "keeps_buffers {} w ?w" "vk_wf ?w" using same_store [of ?w w] 1(2,3) inp by (simp_all add: inputs_ready_def)
  have i1: "inputs_ready gs inps bm ?w" by (rule inputs_ready_kept [OF inp kw(2,1)]) simp
  have s1: "slots_ready gs bm pr ?w" using slots indirect_ok_kept [OF _ kw(1)] by (simp add: slots_ready_def)
  have scratch: "\<not> cb_recording ?scratch" "n < length (cp_buffers (pr_commands pr))" using pool by (simp_all add: pool_ready_def)
  from replace_both_returns [OF doc scratch(1) i1 s1 hg, of d fence] obtain stat dyn w2 where 2:
    "and_then (replace_indirect d drv ?scratch fence (commands_of gs StaticFixed draws) (pr_draw_indirect pr) ?w) (\<lambda>(stat, w).
      and_then (replace_indirect d drv ?scratch fence (commands_of gs DynamicFixed draws) (pr_draw_indirect_dynamic pr) w) (\<lambda>(dyn, w).
      Inr (stat, dyn, w))) = Inr (stat, dyn, w2)" "inputs_ready gs inps bm w2" "keeps_rest {cb_native ?scratch} ?w w2"
    "slots_ready gs bm (pr\<lparr>pr_draw_indirect := stat, pr_draw_indirect_dynamic := dyn\<rparr>) w2"
    "slot_holds w2 (commands_of gs StaticFixed draws) stat" "slot_holds w2 (commands_of gs DynamicFixed draws) dyn"
    "slots_replaced ?w pr (pr\<lparr>pr_draw_indirect := stat, pr_draw_indirect_dynamic := dyn\<rparr>) w2"
    by (auto elim!: returnsE)
  let ?pr = "pr\<lparr>pr_draw_indirect := stat, pr_draw_indirect_dynamic := dyn, pr_draw_cache := draws\<rparr>"
  let ?w' = "object_destroy fence w2"
  have run: "record_draw_list d drv info inps draws pr w = Inr (?pr, ?w')"
    using 2(1) new info scratch(2) 1(1) vk_plan_commands [OF all h]
    by (auto simp: record_draw_list_def info_ready_def command_pool_at_def outcome_simps)
  have kw': "keeps_buffers {} w2 ?w'" "vk_wf ?w'"
    using same_store [of ?w' w2] 2(2) by (simp_all add: inputs_ready_def)
  have "inputs_ready gs inps bm ?w'" by (rule inputs_ready_kept [OF 2(2) kw'(2,1)]) simp
  moreover have "slots_ready gs bm ?pr ?w'" using 2(4) indirect_ok_kept [OF _ kw'(1)] by (simp add: slots_ready_def)
  moreover have "slots_replaced w pr ?pr ?w'"
    using 2(7) keeps_buffers_trans [OF kw(1) keeps_buffers_trans [OF _ kw'(1)]] 1(2) by (simp add: slots_replaced_def)
  moreover have "keeps_rest ({} \<union> {cb_native ?scratch}) w w2"
    by (rule keeps_rest_trans [OF _ 2(3)]) (simp add: 1(4))
  then have "keeps_rest {cb_native ?scratch} w ?w'" using keeps_rest_destroy [OF _ 1(5)] by simp
  ultimately show ?thesis
    using run slot_holds_kept [OF 2(5) kw'(1)] slot_holds_kept [OF 2(6) kw'(1)] by simp
qed

section \<open>Recording the views\<close>

text \<open>The commands \<open>record_rendering_commands\<close> records for one view.\<close>

definition batch_commands :: "VulkanBuffer option \<Rightarrow> VulkanBuffer \<Rightarrow> VulkanBuffer \<Rightarrow> nat \<Rightarrow> vk_command list" where
  "batch_commands indirect vb ib k =
     (case indirect of None \<Rightarrow> []
      | Some b \<Rightarrow> [CmdBindVertexBuffers (vb_buffer vb), CmdBindIndexBuffer (vb_buffer ib),
          CmdDrawIndexedIndirect (vb_buffer b) (of_nat k) sizeof_DrawIndirectCommand])"

definition view_prologue ::
    "VkExtent2D \<Rightarrow> RenderPassVulkan \<Rightarrow> RendererPipelineManagerVulkan \<Rightarrow> RendererImageManagerVulkan \<Rightarrow> u32 list \<Rightarrow>
     RendererProcessorVulkan \<Rightarrow> nat \<Rightarrow> vk_command list" where
  "view_prologue area pass pm im clear_colour pr i =
     [CmdBeginRenderPass \<lparr>begin_renderPass = rp_native pass, begin_framebuffer = im_framebuffers im ! i,
        begin_renderArea = area, begin_clearColour = clear_colour, begin_clearDepth = 1065353216\<rparr>,
      CmdBindPipeline (pm_pipeline pm)] @
     (case pr_descriptors pr of None \<Rightarrow> [] | Some pool \<Rightarrow> [CmdBindDescriptorSets (pm_layout pm) (dp_sets pool ! i)])"

definition view_commands ::
    "VkExtent2D \<Rightarrow> RendererVulkan \<Rightarrow> nat \<Rightarrow> nat \<Rightarrow> nat \<Rightarrow> vk_command list" where
  "view_commands area r ks kd i =
     view_prologue area (rv_pass r) (rv_pipeline r) (rv_images r) (rv_clear_colour r) (rv_processor r) i @
     batch_commands (pr_draw_indirect (rv_processor r)) (bm_vertex (rv_buffers r)) (bm_index (rv_buffers r)) ks @
     batch_commands (pr_draw_indirect_dynamic (rv_processor r)) (bm_dynamic_vertex (rv_buffers r)) (bm_dynamic_index (rv_buffers r)) kd @
     [CmdEndRenderPass]"

text \<open>What binding a batch takes; the buffers need not be filled yet.\<close>

definition bindable :: "VulkanBuffer option \<Rightarrow> VulkanBuffer \<Rightarrow> VulkanBuffer \<Rightarrow> bool" where
  "bindable slot vb ib \<longleftrightarrow> (\<forall>b\<in>set_option slot. \<not> vk_buffer_is_null b \<and> \<not> vk_buffer_is_null vb \<and> \<not> vk_buffer_is_null ib \<and>
     vb_type vb = VertexBuffer \<and> vb_type ib = IndexBuffer)"

lemma batch_bindable: "indirect_ok w gs H a slot \<Longrightarrow> batch_ok w gs a vb ib \<Longrightarrow> bindable slot vb ib"
  by (cases slot) (auto simp: bindable_def indirect_ok_def batch_ok_def owned_def owns_def vk_buffer_is_null_def)

lemma ready_bindable:
  assumes "inputs_ready gs inps bm w" "slots_ready gs bm pr w"
  shows "bindable (pr_draw_indirect pr) (bm_vertex bm) (bm_index bm)"
    "bindable (pr_draw_indirect_dynamic pr) (bm_dynamic_vertex bm) (bm_dynamic_index bm)"
  using assms batch_bindable by (auto simp: inputs_ready_def slots_ready_def)

lemma record_batch_recorded:
  assumes "bindable slot vb ib" "num = Inr k" "recorded (cb_native cb) cs w w1"
  shows "\<exists>w'. record_batch d cb slot vb ib num w1 = Inr w' \<and> recorded (cb_native cb) (cs @ batch_commands slot vb ib k) w w'"
proof (cases slot)
  case (Some b)
  let ?c = "cb_native cb"
  let ?w = "add_command ?c (CmdDrawIndexedIndirect (vb_buffer b) (of_nat k) sizeof_DrawIndirectCommand)
    (add_command ?c (CmdBindIndexBuffer (vb_buffer ib)) (add_command ?c (CmdBindVertexBuffers (vb_buffer vb)) w1))"
  have "\<not> vk_buffer_is_null b" "\<not> vk_buffer_is_null vb" "\<not> vk_buffer_is_null ib" "vb_type vb = VertexBuffer" "vb_type ib = IndexBuffer"
    using assms(1) Some by (simp_all add: bindable_def)
  then have "record_batch d cb slot vb ib num w1 = Inr ?w"
    using Some assms(2) by (simp add: record_batch_def bind_buffer_def vk_buffer_get_type_def ensure_notnull_def draw_indirect_def)
  moreover have "recorded ?c (((cs @ [CmdBindVertexBuffers (vb_buffer vb)]) @ [CmdBindIndexBuffer (vb_buffer ib)]) @
      [CmdDrawIndexedIndirect (vb_buffer b) (of_nat k) sizeof_DrawIndirectCommand]) w ?w"
    by (intro recorded_add assms(3))
  ultimately show ?thesis using Some by (simp add: batch_commands_def)
qed (use assms(3) in \<open>simp add: record_batch_def batch_commands_def\<close>)

lemma record_view_recorded:
  assumes doc: "vk_documented drv" and area: "full_render_area info = Inr area" and i: "i < n"
    and bind: "bindable (pr_draw_indirect (rv_processor r)) (bm_vertex (rv_buffers r)) (bm_index (rv_buffers r))"
      "bindable (pr_draw_indirect_dynamic (rv_processor r)) (bm_dynamic_vertex (rv_buffers r)) (bm_dynamic_index (rv_buffers r))"
    and tgt: "targets_ready n (rv_pass r) (rv_pipeline r) (rv_images r) (rv_processor r) w0" and cb: "\<not> cb_recording cb"
    and counts: "count_draws StaticFixed (rv_inputs r) (pr_draw_cache (rv_processor r)) = Inr ks"
      "count_draws DynamicFixed (rv_inputs r) (pr_draw_cache (rv_processor r)) = Inr kd"
  shows "\<exists>w'. record_with d drv cb (record_view d info (rv_pass r) (rv_pipeline r) (rv_buffers r) (rv_images r)
      (rv_clear_colour r) (rv_inputs r) (rv_processor r) i cb) w = Inr w' \<and>
    recorded (cb_native cb) (view_commands area r ks kd i) w w'"
proof -
  let ?c = "cb_native cb" and ?pr = "rv_processor r" and ?bm = "rv_buffers r"
  let ?p = "\<lparr>begin_renderPass = rp_native (rv_pass r), begin_framebuffer = im_framebuffers (rv_images r) ! i,
    begin_renderArea = area, begin_clearColour = rv_clear_colour r, begin_clearDepth = 1065353216\<rparr>"
  define w1 where "w1 = add_command ?c (CmdBindPipeline (pm_pipeline (rv_pipeline r)))
    (add_command ?c (CmdBeginRenderPass ?p) (w\<lparr>recordings := AList.update ?c [] (recordings w)\<rparr>))"
  have r1: "recorded ?c (([] @ [CmdBeginRenderPass ?p]) @ [CmdBindPipeline (pm_pipeline (rv_pipeline r))]) w w1"
    unfolding w1_def by (intro recorded_add recorded_start)
  define w2 where "w2 = (case pr_descriptors ?pr of None \<Rightarrow> w1
    | Some pool \<Rightarrow> add_command ?c (CmdBindDescriptorSets (pm_layout (rv_pipeline r)) (dp_sets pool ! i)) w1)"
  have r2: "recorded ?c (view_prologue area (rv_pass r) (rv_pipeline r) (rv_images r) (rv_clear_colour r) ?pr i) w w2"
    using r1 recorded_add [OF r1] by (simp add: w2_def view_prologue_def split: option.split)
  obtain w3 where 3: "record_batch d cb (pr_draw_indirect ?pr) (bm_vertex ?bm) (bm_index ?bm)
      (count_draws StaticFixed (rv_inputs r) (pr_draw_cache ?pr)) w2 = Inr w3"
    "recorded ?c (view_prologue area (rv_pass r) (rv_pipeline r) (rv_images r) (rv_clear_colour r) ?pr i @
      batch_commands (pr_draw_indirect ?pr) (bm_vertex ?bm) (bm_index ?bm) ks) w w3"
    using record_batch_recorded [OF bind(1) counts(1) r2] by blast
  obtain w4 where 4: "record_batch d cb (pr_draw_indirect_dynamic ?pr) (bm_dynamic_vertex ?bm) (bm_dynamic_index ?bm)
      (count_draws DynamicFixed (rv_inputs r) (pr_draw_cache ?pr)) w3 = Inr w4"
    "recorded ?c ((view_prologue area (rv_pass r) (rv_pipeline r) (rv_images r) (rv_clear_colour r) ?pr i @
      batch_commands (pr_draw_indirect ?pr) (bm_vertex ?bm) (bm_index ?bm) ks) @
      batch_commands (pr_draw_indirect_dynamic ?pr) (bm_dynamic_vertex ?bm) (bm_dynamic_index ?bm) kd) w w4"
    using record_batch_recorded [OF bind(2) counts(2) 3(2)] by blast
  have "record_view d info (rv_pass r) (rv_pipeline r) ?bm (rv_images r) (rv_clear_colour r) (rv_inputs r) ?pr i cb
      (w\<lparr>recordings := AList.update ?c [] (recordings w)\<rparr>) = Inr (render_pass_run_end cb w4)"
    using area i tgt 3(1) 4(1)
    by (auto simp: record_view_def targets_ready_def render_pass_run_begin_def bind_descriptor_set_def w2_def Let_def
      simp flip: w1_def split: option.splits)
  then have "record_with d drv cb (record_view d info (rv_pass r) (rv_pipeline r) ?bm (rv_images r)
      (rv_clear_colour r) (rv_inputs r) ?pr i cb) w = Inr (render_pass_run_end cb w4)"
    by (rule record_with_recorded [OF doc cb])
  moreover have "recorded ?c (view_commands area r ks kd i) w (render_pass_run_end cb w4)"
    using recorded_add [OF 4(2), of CmdEndRenderPass] by (simp add: view_commands_def render_pass_run_end_def)
  ultimately show ?thesis by blast
qed

text \<open>Only the recordings of the views change.\<close>

definition same_but_views :: "nat set \<Rightarrow> vk_world \<Rightarrow> vk_world \<Rightarrow> bool" where
  "same_but_views C w w' \<longleftrightarrow> storages w' = storages w \<and> vk_memory w' = vk_memory w \<and> texels w' = texels w \<and>
     objects w' = objects w \<and> descriptor_sets w' = descriptor_sets w \<and>
     (\<forall>c. c \<notin> C \<longrightarrow> map_of (recordings w') c = map_of (recordings w) c)"

lemma same_but_views_kept: "same_but_views C w w' \<Longrightarrow> keeps_rest C w w' \<and> keeps_buffers {} w w'"
  by (simp add: same_but_views_def keeps_rest_def keeps_buffers_def)

definition view_natives :: "nat \<Rightarrow> RendererProcessorVulkan \<Rightarrow> nat list" where
  "view_natives n pr = map cb_native (take n (cp_buffers (pr_commands pr)))"

lemma rv_record_returns:
  assumes doc: "vk_documented drv" and info: "get_view_count d info = Inr n" "full_render_area info = Inr area"
    and bind: "bindable (pr_draw_indirect (rv_processor r)) (bm_vertex (rv_buffers r)) (bm_index (rv_buffers r))"
      "bindable (pr_draw_indirect_dynamic (rv_processor r)) (bm_dynamic_vertex (rv_buffers r)) (bm_dynamic_index (rv_buffers r))"
    and tgt: "targets_ready n (rv_pass r) (rv_pipeline r) (rv_images r) (rv_processor r) w"
    and pool: "pool_ready n (pr_commands (rv_processor r))"
    and counts: "count_draws StaticFixed (rv_inputs r) (pr_draw_cache (rv_processor r)) = Inr ks"
      "count_draws DynamicFixed (rv_inputs r) (pr_draw_cache (rv_processor r)) = Inr kd"
  shows "returns (rv_record d drv info r w) (\<lambda>w'. same_but_views (set (view_natives n (rv_processor r))) w w' \<and>
    (\<forall>i<n. map_of (recordings w') (view_natives n (rv_processor r) ! i) = Some (view_commands area r ks kd i)))"
proof -
  let ?cbs = "cp_buffers (pr_commands (rv_processor r))" and ?N = "view_natives n (rv_processor r)"
  have len: "length ?cbs = Suc n" "length ?N = n" using pool by (simp_all add: pool_ready_def view_natives_def)
  have nat: "?N ! i = cb_native (?cbs ! i)" if "i < n" for i using that len by (simp add: view_natives_def)
  have dist: "distinct ?N" using pool by (simp add: pool_ready_def view_natives_def flip: take_map)
  define I where "I k w' \<longleftrightarrow> same_but_views (set ?N) w w' \<and>
    (\<forall>i<k. map_of (recordings w') (?N ! i) = Some (view_commands area r ks kd i))" for k w'
  have "returns (for_each (\<lambda>i w. and_then (command_pool_at (pr_commands (rv_processor r)) i) (\<lambda>cb.
      record_with d drv cb (record_view d info (rv_pass r) (rv_pipeline r) (rv_buffers r) (rv_images r) (rv_clear_colour r)
        (rv_inputs r) (rv_processor r) i cb) w)) [0..<n] w) (I n)"
  proof (rule returns_for_range)
    show "I 0 w" by (simp add: I_def same_but_views_def)
    fix i v assume i: "i < n" and v: "I i v"
    have cb: "\<not> cb_recording (?cbs ! i)" using pool i len by (simp add: pool_ready_def)
    obtain v' where v': "record_with d drv (?cbs ! i) (record_view d info (rv_pass r) (rv_pipeline r) (rv_buffers r) (rv_images r)
        (rv_clear_colour r) (rv_inputs r) (rv_processor r) i (?cbs ! i)) v = Inr v'"
      "recorded (?N ! i) (view_commands area r ks kd i) v v'"
      using record_view_recorded [OF doc info(2) i bind tgt cb counts] nat [OF i] by metis
    have "I (Suc i) v'"
      using v v'(2) i len(2) dist by (auto simp: I_def same_but_views_def recorded_def less_Suc_eq nth_eq_iff_index_eq)
    then show "returns (and_then (command_pool_at (pr_commands (rv_processor r)) i) (\<lambda>cb.
        record_with d drv cb (record_view d info (rv_pass r) (rv_pipeline r) (rv_buffers r) (rv_images r) (rv_clear_colour r)
        (rv_inputs r) (rv_processor r) i cb) v)) (I (Suc i))"
      using v'(1) i len(1) by (simp add: command_pool_at_def)
  qed
  then show ?thesis
    using info(1) by (simp add: rv_record_def record_rendering_commands_def) (erule returns_mono, simp add: I_def)
qed

section \<open>Executing a view\<close>

text \<open>The geometry lists the renderers can draw: whole vertices, and offsets that fit.\<close>

definition drawable :: "geometry list \<Rightarrow> nat list \<Rightarrow> bool" where
  "drawable gs draws \<longleftrightarrow> (\<forall>h\<in>set draws. h < length gs) \<and> (\<forall>g\<in>set gs. wf_geometry g) \<and> batch_fits gs \<and> length draws < 2 ^ 32"

definition drawn_list :: "geometry list \<Rightarrow> nat list \<Rightarrow> u8 list list list" where
  "drawn_list gs draws = batch_geometry gs StaticFixed draws @ batch_geometry gs DynamicFixed draws"

lemma length_commands_of: "length (commands_of gs a draws) \<le> length draws"
  by (simp add: commands_of_def draws_of_def)

lemma run_batch:
  assumes draw: "drawable gs draws" and slot: "indirect_ok w gs H a slot" "slot_holds w (commands_of gs a draws) slot"
    and batch: "batch_ok w gs a vb ib" and bound: "bound_pass s \<noteq> None" "bound_pipeline s \<noteq> None"
  shows "\<exists>s'. run_commands (batch_commands slot vb ib (length (commands_of gs a draws))) (w, s) = Some (w, s') \<and>
    drawn_geometry s' = drawn_geometry s @ batch_geometry gs a draws \<and> bound_pass s' = bound_pass s \<and> bound_pipeline s' = bound_pipeline s"
proof (cases slot)
  case None
  then show ?thesis using slot(2) by (simp add: slot_holds_def batch_commands_def commands_of_def batch_geometry_def)
next
  case (Some b)
  let ?n = "length (commands_of gs a draws)"
  have b: "vb_buffer vb \<noteq> VK_NULL_HANDLE" "gpu_contents w (vb_buffer vb) = Some (batch_vertices gs a)"
    "gpu_contents w (vb_buffer ib) = Some (encode_u32s (batch_indices gs a))"
    "gpu_contents w (vb_buffer b) = Some (command_bytes (commands_of gs a draws))"
    using slot batch Some by (auto simp: indirect_ok_def batch_ok_def slot_holds_def owned_def owns_def)
  note alive = gpu_contents_live [OF b(2)] gpu_contents_live [OF b(3)]
  have n: "unat (of_nat ?n :: u32) = ?n"
    using draw length_commands_of [of gs a draws] by (intro unat_of_nat_u32) (simp add: drawable_def)
  have "indirect_fetch (batch_vertices gs a) (encode_u32s (batch_indices gs a)) (command_bytes (commands_of gs a draws)) ?n =
      Some (batch_geometry gs a draws)"
    using draw by (intro indirect_fetch_batch) (simp_all add: drawable_def)
  then show ?thesis
    using Some b(2-4) alive bound n by (auto simp: batch_commands_def indirect_draw_def)
qed

lemma run_prologue:
  assumes "targets_ready n pass pm im pr w" "i < n"
  shows "\<exists>s. run_commands (view_prologue area pass pm im col pr i) (w, nothing_bound) = Some (w, s) \<and>
    drawn_geometry s = [] \<and> bound_pass s \<noteq> None \<and> bound_pipeline s \<noteq> None"
proof -
  have "live_object w (rp_native pass)" "live_object w (pm_pipeline pm)" "live_object w (im_framebuffers im ! i)"
    using assms by (simp_all add: targets_ready_def)
  moreover have "map_of (descriptor_sets w) (dp_sets pool ! i) \<noteq> None" if "pr_descriptors pr = Some pool" for pool
    using assms that by (simp add: targets_ready_def)
  ultimately show ?thesis
    by (auto simp: view_prologue_def nothing_bound_def live_object_def split: option.split)
qed

lemma run_view:
  assumes draw: "drawable gs draws" and inp: "inputs_ready gs (rv_inputs r) (rv_buffers r) w"
    and slots: "slots_ready gs (rv_buffers r) (rv_processor r) w"
    and tgt: "targets_ready n (rv_pass r) (rv_pipeline r) (rv_images r) (rv_processor r) w" and i: "i < n"
    and holds: "slot_holds w (commands_of gs StaticFixed draws) (pr_draw_indirect (rv_processor r))"
      "slot_holds w (commands_of gs DynamicFixed draws) (pr_draw_indirect_dynamic (rv_processor r))"
    and rec: "map_of (recordings w) c = Some (view_commands area r (length (commands_of gs StaticFixed draws))
      (length (commands_of gs DynamicFixed draws)) i)"
  shows "command_buffer_draws w c = Some (drawn_list gs draws)"
proof -
  obtain s1 where 1: "run_commands (view_prologue area (rv_pass r) (rv_pipeline r) (rv_images r) (rv_clear_colour r) (rv_processor r) i)
      (w, nothing_bound) = Some (w, s1)" "drawn_geometry s1 = []" "bound_pass s1 \<noteq> None" "bound_pipeline s1 \<noteq> None"
    using run_prologue [OF tgt i] by blast
  have ok: "indirect_ok w gs (geometry_buffers (rv_buffers r)) StaticFixed (pr_draw_indirect (rv_processor r))"
    "batch_ok w gs StaticFixed (bm_vertex (rv_buffers r)) (bm_index (rv_buffers r))"
    "indirect_ok w gs (geometry_buffers (rv_buffers r)) DynamicFixed (pr_draw_indirect_dynamic (rv_processor r))"
    "batch_ok w gs DynamicFixed (bm_dynamic_vertex (rv_buffers r)) (bm_dynamic_index (rv_buffers r))"
    using inp slots by (simp_all add: inputs_ready_def slots_ready_def)
  obtain s2 where 2: "run_commands (batch_commands (pr_draw_indirect (rv_processor r)) (bm_vertex (rv_buffers r)) (bm_index (rv_buffers r))
      (length (commands_of gs StaticFixed draws))) (w, s1) = Some (w, s2)" "drawn_geometry s2 = batch_geometry gs StaticFixed draws"
    "bound_pass s2 \<noteq> None" "bound_pipeline s2 \<noteq> None"
    using run_batch [OF draw ok(1) holds(1) ok(2) 1(3,4)] 1(2-4) by auto
  obtain s3 where 3: "run_commands (batch_commands (pr_draw_indirect_dynamic (rv_processor r)) (bm_dynamic_vertex (rv_buffers r))
      (bm_dynamic_index (rv_buffers r)) (length (commands_of gs DynamicFixed draws))) (w, s2) = Some (w, s3)"
    "drawn_geometry s3 = drawn_list gs draws" "bound_pass s3 \<noteq> None"
    using run_batch [OF draw ok(3) holds(2) ok(4) 2(3,4)] 2(2-4) by (auto simp: drawn_list_def)
  show ?thesis
    using rec 1(1) 2(1) 3 by (simp add: command_buffer_draws_def view_commands_def run_commands_append)
qed

end
