(* ===== verification/Vk_Correct.thy ===== *)
theory Vk_Correct
  imports Vk_Ready
begin

text \<open>
  The operations of a ready \<open>RendererVulkan\<close>: they return, the renderer stays ready, and the
  command buffers of its views draw what they should.
\<close>

section \<open>Recording the cached list\<close>

definition shows_list :: "nat \<Rightarrow> geometry list \<Rightarrow> nat list \<Rightarrow> RendererVulkan \<Rightarrow> vk_world \<Rightarrow> bool" where
  "shows_list n gs draws r w \<longleftrightarrow>
     (\<forall>i<n. command_buffer_draws w (view_natives n (rv_processor r) ! i) = Some (drawn_list gs draws))"

lemma count_draws_of:
  assumes "all_geometry mem inps = Inr gs" "\<forall>h\<in>set draws. h < length gs"
  shows "count_draws a inps draws = Inr (length (commands_of gs a draws))"
proof -
  have "filter (\<lambda>h. input_data_access (inps ! h) = a) draws = filter (\<lambda>h. g_access (gs ! h) = a) draws"
    using assms by (intro filter_cong) (auto simp: all_geometry_iff input_geometry_Inr_iff)
  then show ?thesis
    using assms count_draws_length [of draws inps a] by (simp add: commands_of_def draws_of_def all_geometry_iff)
qed

lemma slots_ready_kept:
  "slots_ready gs bm pr w \<Longrightarrow> keeps_buffers {} w w' \<Longrightarrow> slots_ready gs bm pr w'"
  using indirect_ok_kept [of w gs _ _ _ "{}" w'] by (simp add: slots_ready_def)

lemma list_ready_kept: "list_ready gs pr w \<Longrightarrow> keeps_buffers {} w w' \<Longrightarrow> list_ready gs pr w'"
  using slot_holds_kept [of w _ _ "{}" w'] by (simp add: list_ready_def)

text \<open>A step that leaves all buffers and everything the commands refer to keeps a renderer ready.\<close>

lemma vk_ready_kept:
  assumes "vk_ready n gs r w" "vk_wf w'" "keeps_buffers {} w w'" "keeps_rest C w w'"
  shows "vk_ready n gs r w'"
proof -
  have "inputs_ready gs (rv_inputs r) (rv_buffers r) w'"
    by (rule inputs_ready_kept [OF _ assms(2,3)]) (use assms(1) in \<open>simp_all add: vk_ready_def\<close>)
  then show ?thesis
    using assms(1) slots_ready_kept [OF _ assms(3)] list_ready_kept [OF _ assms(3)] targets_ready_kept [OF _ assms(4)]
    by (simp add: vk_ready_def)
qed

lemma same_views_wf: "same_but_views C w w' \<Longrightarrow> vk_wf w' \<longleftrightarrow> vk_wf w"
  using same_store(1) [of w' w] by (simp add: same_but_views_def)

lemma rv_record_shows:
  assumes doc: "vk_documented drv" and info: "info_ready d info n" and ready: "vk_ready n gs r w"
    and draw: "drawable gs (pr_draw_cache (rv_processor r))"
  shows "returns (rv_record d drv info r w) (\<lambda>w'. vk_ready n gs r w' \<and> shows_list n gs (pr_draw_cache (rv_processor r)) r w')"
proof -
  let ?draws = "pr_draw_cache (rv_processor r)" and ?N = "view_natives n (rv_processor r)"
  obtain area where area: "get_view_count d info = Inr n" "full_render_area info = Inr area"
    using info by (auto simp: info_ready_def)
  have R: "inputs_ready gs (rv_inputs r) (rv_buffers r) w" "slots_ready gs (rv_buffers r) (rv_processor r) w"
    "targets_ready n (rv_pass r) (rv_pipeline r) (rv_images r) (rv_processor r) w" "pool_ready n (pr_commands (rv_processor r))"
    using ready by (simp_all add: vk_ready_def)
  have all: "all_geometry (vk_memory w) (rv_inputs r) = Inr gs" using R(1) by (simp add: inputs_ready_def)
  have h: "\<forall>h\<in>set ?draws. h < length gs" using draw by (simp add: drawable_def)
  obtain w' where w': "rv_record d drv info r w = Inr w'" "same_but_views (set ?N) w w'"
    "\<forall>i<n. map_of (recordings w') (?N ! i) = Some (view_commands area r (length (commands_of gs StaticFixed ?draws))
      (length (commands_of gs DynamicFixed ?draws)) i)"
    using rv_record_returns [OF doc area ready_bindable [OF R(1,2)] R(3,4) count_draws_of [OF all h] count_draws_of [OF all h]] by (auto elim!: returnsE)
  have "vk_wf w'" using same_views_wf [OF w'(2)] R(1) by (simp add: inputs_ready_def)
  then have ready': "vk_ready n gs r w'" using vk_ready_kept [OF ready] same_but_views_kept [OF w'(2)] by blast
  have "command_buffer_draws w' (?N ! i) = Some (drawn_list gs ?draws)" if i: "i < n" for i
    using ready' run_view [OF draw _ _ _ i] w'(3) i by (auto simp: vk_ready_def list_ready_def)
  then show ?thesis using w'(1) ready' by (simp add: shows_list_def)
qed

section \<open>A new draw list\<close>

lemma clear_returns:
  assumes info: "info_ready d info n" and pool: "pool_ready n (pr_commands pr)"
    and admin: "admin_wf n (pr_frame_admin pr)" "n \<le> frame_depth (pr_frame_admin pr)"
  shows "returns (clear_rendering_commands d info pr w) (\<lambda>w'. same_but_views (set (view_natives n pr)) w w')"
proof -
  let ?cbs = "cp_buffers (pr_commands pr)"
  have len: "length ?cbs = Suc n" and dist: "distinct (map cb_native ?cbs)" using pool by (simp_all add: pool_ready_def)
  have "returns (for_each (\<lambda>i w. and_then (frame_wait_for (pr_frame_admin pr) i) (\<lambda>calls.
      and_then (command_pool_at (pr_commands pr) i) (\<lambda>cb. command_buffer_reset d cb (sync calls w)))) [0..<n] w)
    (\<lambda>w'. same_but_views (set (view_natives n pr)) w w')"
  proof (rule returns_for_range [where I = "\<lambda>_ w'. same_but_views (set (view_natives n pr)) w w'"])
    fix i v assume i: "i < n" and v: "same_but_views (set (view_natives n pr)) w v"
    obtain calls where "frame_wait_for (pr_frame_admin pr) i = Inr calls"
      using frame_wait_for_ok [OF admin(1) dist] i admin(2) len by auto
    moreover have "\<not> cb_recording (?cbs ! i)" using pool i len by (simp add: pool_ready_def)
    moreover have "cb_native (?cbs ! i) \<in> set (view_natives n pr)" using i len by (force simp: view_natives_def in_set_conv_nth)
    ultimately show "returns (and_then (frame_wait_for (pr_frame_admin pr) i) (\<lambda>calls.
        and_then (command_pool_at (pr_commands pr) i) (\<lambda>cb. command_buffer_reset d cb (sync calls v))))
      (same_but_views (set (view_natives n pr)) w)"
      using v i len by (auto simp: command_pool_at_def command_buffer_reset_def same_but_views_def update_conv')
  qed (simp add: same_but_views_def)
  then show ?thesis using info by (simp add: clear_rendering_commands_def info_ready_def)
qed

lemma new_draw_list_returns:
  assumes doc: "vk_documented drv" and info: "info_ready d info n" and ready: "vk_ready n gs r w"
    and draw: "drawable gs draws" and new: "pr_draw_cache (rv_processor r) \<noteq> draws"
  shows "returns (new_draw_list d drv info draws r w) (\<lambda>(r', w'). vk_ready n gs r' w' \<and> shows_list n gs draws r' w' \<and>
    pr_draw_cache (rv_processor r') = draws)"
proof -
  let ?pr = "rv_processor r"
  have R: "pool_ready n (pr_commands ?pr)" "admin_wf n (pr_frame_admin ?pr)" "n \<le> frame_depth (pr_frame_admin ?pr)"
    using ready by (simp_all add: vk_ready_def)
  obtain w1 where 1: "clear_rendering_commands d info ?pr w = Inr w1" "same_but_views (set (view_natives n ?pr)) w w1"
    using clear_returns [OF info R] by (auto elim!: returnsE)
  have "vk_wf w1" using same_views_wf [OF 1(2)] ready by (simp add: vk_ready_def inputs_ready_def)
  then have ready1: "vk_ready n gs r w1" using vk_ready_kept [OF ready] same_but_views_kept [OF 1(2)] by blast
  have R1: "inputs_ready gs (rv_inputs r) (rv_buffers r) w1" "slots_ready gs (rv_buffers r) ?pr w1" using ready1 by (simp_all add: vk_ready_def)
  have h: "\<forall>h\<in>set draws. h < length (rv_inputs r)" using draw R1(1) by (simp add: drawable_def inputs_ready_def all_geometry_iff)
  obtain pr' w2 where 2: "record_draw_list d drv info (rv_inputs r) draws ?pr w1 = Inr (pr', w2)"
    "inputs_ready gs (rv_inputs r) (rv_buffers r) w2" "slots_ready gs (rv_buffers r) pr' w2"
    "keeps_rest {cb_native (cp_buffers (pr_commands ?pr) ! n)} w1 w2"
    "pr' = ?pr\<lparr>pr_draw_indirect := pr_draw_indirect pr', pr_draw_indirect_dynamic := pr_draw_indirect_dynamic pr', pr_draw_cache := draws\<rparr>"
    "slot_holds w2 (commands_of gs StaticFixed draws) (pr_draw_indirect pr')"
    "slot_holds w2 (commands_of gs DynamicFixed draws) (pr_draw_indirect_dynamic pr')"
    using record_draw_list_returns [OF doc info R(1) R1 new h] by (auto elim!: returnsE)
  let ?r = "r\<lparr>rv_processor := pr'\<rparr>"
  have same: "pr_commands pr' = pr_commands ?pr" "pr_frame_admin pr' = pr_frame_admin ?pr" "pr_descriptors pr' = pr_descriptors ?pr"
    "pr_draw_cache pr' = draws"
    using arg_cong [OF 2(5), of pr_commands] arg_cong [OF 2(5), of pr_frame_admin] arg_cong [OF 2(5), of pr_descriptors]
      arg_cong [OF 2(5), of pr_draw_cache] by simp_all
  have "targets_ready n (rv_pass r) (rv_pipeline r) (rv_images r) ?pr w2"
    by (rule targets_ready_kept [OF _ 2(4)]) (use ready1 in \<open>simp add: vk_ready_def\<close>)
  then have "targets_ready n (rv_pass r) (rv_pipeline r) (rv_images r) pr' w2" by (simp add: targets_ready_def same)
  then have ready2: "vk_ready n gs ?r w2" using R 2(2,3,6,7) same by (simp add: vk_ready_def list_ready_def)
  have "returns (rv_record d drv info ?r w2) (\<lambda>w'. vk_ready n gs ?r w' \<and> shows_list n gs draws ?r w')"
    using rv_record_shows [OF doc info ready2] draw same(4) by simp
  then show ?thesis
    using new 1(1) 2(1) same(4) by (auto simp: new_draw_list_def elim!: returnsE)
qed

section \<open>A new command pool\<close>

lemma keeps_rest_recordings: "keeps_rest UNIV w (w\<lparr>recordings := l\<rparr>)"
  by (simp add: keeps_rest_def)

lemma command_pool_with_returns:
  assumes doc: "vk_documented drv" and "cp_buffers pool = []"
  shows "returns (command_pool_with d drv m pool w) (\<lambda>(_, pool', w'). storages w' = storages w \<and> vk_memory w' = vk_memory w \<and>
    keeps_rest UNIV w w' \<and> (\<forall>n. m = Suc n \<longrightarrow> pool_ready n pool') \<and> cp_pool pool' = cp_pool pool)"
proof -
  obtain hs where hs: "allocate_commands drv w m = Some hs" "length hs = m" "distinct hs"
    by (rule documented_commands [OF doc, of w m]) blast
  let ?cb = "\<lparr>cb_native = VK_NULL_HANDLE, cb_recording = False\<rparr>"
  have nat: "get_buffer_natives (pool\<lparr>cp_buffers := replicate m ?cb\<rparr>) = replicate m VK_NULL_HANDLE"
    by (intro nth_equalityI) (simp_all add: get_buffer_natives_def fold_snoc_map)
  have ow: "overwrite (replicate m VK_NULL_HANDLE) 0 hs = hs" using hs(2) by (simp add: overwrite_def)
  have bufs: "map (\<lambda>i. (replicate m ?cb ! i)\<lparr>cb_native := hs ! i\<rparr>) [0..<m] = map (\<lambda>h. \<lparr>cb_native = h, cb_recording = False\<rparr>) hs"
    using hs(2) by (intro nth_equalityI) simp_all
  show ?thesis
    using assms(2) hs nat ow bufs keeps_rest_recordings
    by (auto simp: command_pool_with_def returns_def Let_def pool_ready_def keeps_rest_def comp_def)
qed

lemma initialise_command_pool_returns:
  assumes doc: "vk_documented drv" and info: "info_ready d info n"
  shows "returns (initialise_command_pool d drv info pr w) (\<lambda>(pr', w'). storages w' = storages w \<and> vk_memory w' = vk_memory w \<and>
    keeps_rest UNIV w w' \<and> pool_ready n (pr_commands pr') \<and> pr' = pr\<lparr>pr_commands := pr_commands pr'\<rparr>)"
proof -
  define p where "p = (if cp_buffers (pr_commands pr) \<noteq> [] then command_pool_clear (pr_commands pr) w else (pr_commands pr, w))"
  have p: "cp_buffers (fst p) = []" "storages (snd p) = storages w" "vk_memory (snd p) = vk_memory w" "keeps_rest UNIV w (snd p)"
    by (simp_all add: p_def command_pool_clear_def keeps_rest_def)
  obtain k pool' w' where "command_pool_with d drv (n + 1) (fst p) (snd p) = Inr (k, pool', w')" "storages w' = storages (snd p)"
    "vk_memory w' = vk_memory (snd p)" "keeps_rest UNIV (snd p) w'" "pool_ready n pool'"
    using command_pool_with_returns [OF doc p(1), of d "n + 1" "snd p"] by (auto elim!: returnsE)
  then show ?thesis
    using p info keeps_rest_trans [OF p(4), of UNIV w']
    by (simp add: initialise_command_pool_def info_ready_def case_prod_beta flip: p_def)
qed

lemma handle_clear_colour_change_returns:
  assumes doc: "vk_documented drv" and info: "info_ready d info n" and ready: "vk_ready n gs r w"
    and draw: "drawable gs (pr_draw_cache (rv_processor r))"
  shows "returns (handle_clear_colour_change d drv info r w) (\<lambda>(r', w'). vk_ready n gs r' w' \<and>
    shows_list n gs (pr_draw_cache (rv_processor r)) r' w' \<and> pr_draw_cache (rv_processor r') = pr_draw_cache (rv_processor r) \<and>
    rv_clear_colour r' = rv_clear_colour r)"
proof -
  let ?w = "sync [DeviceWaitIdle] w"
  obtain pr' w1 where 1: "initialise_command_pool d drv info (rv_processor r) ?w = Inr (pr', w1)" "storages w1 = storages w"
    "vk_memory w1 = vk_memory w" "keeps_rest UNIV ?w w1" "pool_ready n (pr_commands pr')" "pr' = (rv_processor r)\<lparr>pr_commands := pr_commands pr'\<rparr>"
    using initialise_command_pool_returns [OF doc info, of "rv_processor r" ?w] by (auto elim!: returnsE)
  have "keeps_rest UNIV w w1" using keeps_rest_trans [of UNIV w ?w UNIV w1] 1(4) by simp
  moreover have "vk_wf w1" "keeps_buffers {} w w1" using same_store [OF 1(2,3)] ready by (simp_all add: vk_ready_def inputs_ready_def)
  ultimately have ready1: "vk_ready n gs r w1" using vk_ready_kept [OF ready] by blast
  let ?r = "r\<lparr>rv_processor := pr'\<rparr>"
  have same: "pr_draw_indirect pr' = pr_draw_indirect (rv_processor r)" "pr_draw_cache pr' = pr_draw_cache (rv_processor r)"
    "pr_draw_indirect_dynamic pr' = pr_draw_indirect_dynamic (rv_processor r)" "pr_frame_admin pr' = pr_frame_admin (rv_processor r)"
    "pr_descriptors pr' = pr_descriptors (rv_processor r)"
    using arg_cong [OF 1(6), of pr_draw_indirect] arg_cong [OF 1(6), of pr_draw_cache] arg_cong [OF 1(6), of pr_draw_indirect_dynamic]
      arg_cong [OF 1(6), of pr_frame_admin] arg_cong [OF 1(6), of pr_descriptors] by simp_all
  then have "vk_ready n gs ?r w1"
    using ready1 1(5) by (simp add: vk_ready_def slots_ready_def list_ready_def targets_ready_def)
  from rv_record_shows [OF doc info this] show ?thesis
    using draw same(2) 1(1) by (auto simp: handle_clear_colour_change_def elim!: returnsE)
qed

section \<open>Replacing the targets\<close>

text \<open>Buffers, recordings and descriptor sets stay, and so do all objects but those in \<open>D\<close>.\<close>

definition objects_but :: "nat set \<Rightarrow> vk_world \<Rightarrow> vk_world \<Rightarrow> bool" where
  "objects_but D w w' \<longleftrightarrow> storages w' = storages w \<and> vk_memory w' = vk_memory w \<and> recordings w' = recordings w \<and>
     descriptor_sets w' = descriptor_sets w \<and> (\<forall>h. h \<notin> D \<longrightarrow> live_object w h \<longrightarrow> live_object w' h)"

lemma objects_but_trans: "objects_but D w w' \<Longrightarrow> objects_but E w' w'' \<Longrightarrow> objects_but (D \<union> E) w w''"
  by (simp add: objects_but_def)

lemma objects_but_live: "objects_but D w w' \<Longrightarrow> live_object w h \<Longrightarrow> h \<notin> D \<Longrightarrow> live_object w' h"
  by (simp add: objects_but_def)

lemma object_new_live:
  assumes "vk_documented drv"
  shows "returns (object_new d drv info w) (\<lambda>(h, w'). objects_but {} w w' \<and> \<not> live_object w h \<and> live_object w' h \<and>
    texels w' = texels w)"
  using object_new_returns [OF assms, of d info w]
  by (auto simp: objects_but_def live_object_def keeps_rest_def elim!: returns_mono)

lemma object_destroy_but: "objects_but {h} w (object_destroy h w)"
  by (simp add: objects_but_def live_object_def) (simp add: object_destroy_def delete_conv')

lemma objects_destroy_but: "objects_but (set hs) w (fold object_destroy hs w)"
proof (induction hs arbitrary: w)
  case (Cons h hs)
  then show ?case using objects_but_trans [OF object_destroy_but Cons.IH, of h w] by simp
qed (simp add: objects_but_def)

lemma image_new_returns:
  assumes "vk_documented drv" "ef_underlying d usage_value usage = Inr bits"
  shows "returns (image_new d drv wd ht format usage GPU w) (\<lambda>(img, w'). objects_but {} w w' \<and>
    vi_layout img = LayoutUndefined \<and> vi_width img = wd \<and> vi_height img = ht \<and> vi_format img = format \<and>
    map_of (texels w) (vi_image img) = None \<and> (\<exists>t. map_of (texels w') (vi_image img) = Some t) \<and>
    (\<forall>h. h \<noteq> vi_image img \<longrightarrow> map_of (texels w') h = map_of (texels w) h) \<and> objects w' = objects w)"
proof -
  obtain h where "create_texels drv w \<lparr>image_width = wd, image_height = ht, image_format = format_value format, image_usage = bits\<rparr>
      VMA_MEMORY_USAGE_GPU_ONLY = Some h" "map_of (texels w) h = None"
    by (rule documented_texels [OF assms(1)]) blast
  then show ?thesis
    using assms(2) by (simp add: image_new_def image_residency_def returns_def objects_but_def live_object_def update_conv')
qed

text \<open>Images that exist stay as they are.\<close>

definition texels_kept :: "vk_world \<Rightarrow> vk_world \<Rightarrow> bool" where
  "texels_kept w w' \<longleftrightarrow> (\<forall>h t. map_of (texels w) h = Some t \<longrightarrow> map_of (texels w') h = Some t)"

lemma depth_usage: "ef_underlying d usage_value (enum_field_of [UsageDepthStencilAttachment]) = Inr 32"
  "\<exists>bits. ef_underlying d usage_value (enum_field_of [UsageTransferDestination, UsageSampleable]) = Inr bits"
  by (simp_all add: ef_underlying_def enum_field_of_def usage_value_def)

lemma image_destroy_but: "objects_but {} w (image_destroy img w)"
  by (simp add: image_destroy_def objects_but_def live_object_def)

lemma setup_depth_image_returns:
  assumes doc: "vk_documented drv" and info: "info_ready d info n"
  shows "returns (setup_depth_image d drv info im w) (\<lambda>(im', w'). objects_but (set_option (im_depth_view im)) w w' \<and>
    (\<exists>v. im_depth_view im' = Some v \<and> \<not> live_object w v \<and> (v \<notin> set_option (im_depth_view im) \<longrightarrow> live_object w' v)) \<and>
    im_framebuffers im' = im_framebuffers im \<and> im_offscreen_view im' = im_offscreen_view im \<and> im_textures im' = im_textures im \<and>
    (im_depth_image im = None \<longrightarrow> texels_kept w w'))"
proof -
  obtain area where area: "full_render_area info = Inr area" using info by (auto simp: info_ready_def)
  obtain img w1 where 1: "image_new d drv (extent_width area) (extent_height area) FormatDepthFloat32
      (enum_field_of [UsageDepthStencilAttachment]) GPU w = Inr (img, w1)" "objects_but {} w w1"
    "map_of (texels w) (vi_image img) = None" "\<forall>h. h \<noteq> vi_image img \<longrightarrow> map_of (texels w1) h = map_of (texels w) h"
    using image_new_returns [OF doc depth_usage(1), of d "extent_width area" "extent_height area" FormatDepthFloat32 w]
    by (auto elim!: returnsE)
  then have t: "texels_kept w w1" unfolding texels_kept_def by (metis option.distinct(1))
  define w2 where "w2 = (case im_depth_image im of None \<Rightarrow> w1 | Some old \<Rightarrow> image_destroy old w1)"
  have 2: "objects_but {} w w2"
    using objects_but_trans [OF 1(2) image_destroy_but] 1(2) by (auto simp: w2_def split: option.splits)
  obtain v w3 where 3: "image_view_new d drv img w2 = Inr (v, w3)" "objects_but {} w2 w3" "\<not> live_object w2 v" "live_object w3 v"
    "texels w3 = texels w2"
    using object_new_live [OF doc] by (force simp: image_view_new_def elim!: returnsE)
  define w4 where "w4 = (case im_depth_view im of None \<Rightarrow> w3 | Some old \<Rightarrow> object_destroy old w3)"
  have 4: "objects_but (set_option (im_depth_view im)) w3 w4"
    using object_destroy_but by (auto simp: w4_def objects_but_def split: option.splits)
  have run: "setup_depth_image d drv info im w = Inr (im\<lparr>im_depth_image := Some img, im_depth_view := Some v\<rparr>, w4)"
    using area 1(1) 3(1) by (simp add: setup_depth_image_def Let_def flip: w2_def w4_def)
  have "objects_but (set_option (im_depth_view im)) w w4"
    using objects_but_trans [OF objects_but_trans [OF 2 3(2)] 4] by simp
  moreover have "\<not> live_object w v" using objects_but_live [OF 2, of v] 3(3) by blast
  moreover have "v \<notin> set_option (im_depth_view im) \<longrightarrow> live_object w4 v" using objects_but_live [OF 4 3(4)] by blast
  moreover have "texels w4 = texels w3" by (simp add: w4_def split: option.split)
  then have "im_depth_image im = None \<longrightarrow> texels_kept w w4" using t 3(5) by (simp add: texels_kept_def w2_def)
  ultimately show ?thesis using run by simp
qed

lemma window_views:
  assumes "info_ready d info n" "di_headless info \<longrightarrow> im_offscreen_view im \<noteq> None"
  obtains views where "(if di_headless info then and_then (value_of (im_offscreen_view im)) (\<lambda>v. Inr [v])
      else and_then (as_swapchain d info) (\<lambda>c. Inr (image_views c))) = Inr views" "length views = n"
  using assms by (cases "di_headless info")
    (auto simp: info_ready_def get_view_count_def outcome_simps)

lemma setup_framebuffers_returns:
  assumes doc: "vk_documented drv" and info: "info_ready d info n" and off: "di_headless info \<longrightarrow> im_offscreen_view im \<noteq> None"
    and keep: "\<forall>h\<in>K. live_object w h \<and> h \<notin> set (im_framebuffers im)"
  shows "returns (setup_swapchain_framebuffers d drv info pass im w) (\<lambda>(im', w'). objects_but (set (im_framebuffers im)) w w' \<and>
    length (im_framebuffers im') = n \<and> (\<forall>f\<in>set (im_framebuffers im'). live_object w' f \<and> f \<notin> K) \<and> (\<forall>h\<in>K. live_object w' h) \<and>
    im_depth_view im' = im_depth_view im \<and> im_offscreen_view im' = im_offscreen_view im \<and> im_textures im' = im_textures im \<and>
    texels w' = texels w)"
proof -
  obtain area where area: "full_render_area info = Inr area" using info by (auto simp: info_ready_def)
  let ?im = "im\<lparr>im_framebuffers := []\<rparr>" and ?w = "fold object_destroy (im_framebuffers im) w"
  obtain views where views: "(if di_headless info then and_then (value_of (im_offscreen_view ?im)) (\<lambda>v. Inr [v])
      else and_then (as_swapchain d info) (\<lambda>c. Inr (image_views c))) = Inr views" "length views = n"
    by (rule window_views [OF info, of ?im]) (use off in auto)
  define I where "I ys st \<longleftrightarrow> (case st of (im', w') \<Rightarrow> objects_but {} ?w w' \<and> length (im_framebuffers im') = length ys \<and>
    (\<forall>f\<in>set (im_framebuffers im'). live_object w' f \<and> f \<notin> K) \<and> im_depth_view im' = im_depth_view im \<and>
    im_offscreen_view im' = im_offscreen_view im \<and> im_textures im' = im_textures im \<and> texels w' = texels w)"
    for ys :: "nat list" and st :: "RendererImageManagerVulkan \<times> vk_world"
  have K: "live_object ?w h" if "h \<in> K" for h using objects_but_live [OF objects_destroy_but] keep that by blast
  let ?body = "\<lambda>v (im', w). and_then (framebuffer_new d drv (rp_native pass) v (im_depth_view im') area w) (\<lambda>(fb, w).
    Inr (im'\<lparr>im_framebuffers := im_framebuffers im' @ [fb]\<rparr>, w))"
  have "\<exists>st. for_each ?body views (?im, ?w) = Inr st \<and> I views st"
  proof (rule for_each_invariant_list)
    have "texels (fold object_destroy hs v) = texels v" for hs v by (induction hs arbitrary: v) simp_all
    then show "I [] (?im, ?w)" by (simp add: I_def objects_but_def)
    fix ys x zs st assume "I ys st"
    then obtain im' v where st: "st = (im', v)" "I ys (im', v)" by (cases st) auto
    obtain fb v' where fb: "framebuffer_new d drv (rp_native pass) x (im_depth_view im') area v = Inr (fb, v')"
      "objects_but {} v v'" "\<not> live_object v fb" "live_object v' fb" "texels v' = texels v"
      using object_new_live [OF doc] by (force simp: framebuffer_new_def elim!: returnsE)
    have "fb \<notin> K" using K objects_but_live [of "{}" ?w v] fb(3) st(2) by (auto simp: I_def)
    then have "I (ys @ [x]) (im'\<lparr>im_framebuffers := im_framebuffers im' @ [fb]\<rparr>, v')"
      using st(2) fb(2,4,5) objects_but_trans [of "{}" ?w v "{}" v'] objects_but_live [OF fb(2)] by (auto simp: I_def)
    then show "\<exists>s'. ?body x st = Inr s' \<and> I (ys @ [x]) s'" using st(1) fb(1) by simp
  qed
  then obtain im' w' where st: "for_each ?body views (?im, ?w) = Inr (im', w')" "I views (im', w')" by auto
  have "objects_but (set (im_framebuffers im) \<union> {}) w w'"
    using st(2) by (intro objects_but_trans [OF objects_destroy_but]) (simp add: I_def)
  moreover have "\<forall>h\<in>K. live_object w' h" using K objects_but_live [of "{}" ?w w'] st(2) by (auto simp: I_def)
  moreover have "setup_swapchain_framebuffers d drv info pass im w = Inr (im', w')"
    using area views(1) st(1) by (simp add: setup_swapchain_framebuffers_def Let_def)
  ultimately show ?thesis using st(2) views(2) by (simp add: I_def)
qed

section \<open>A resize\<close>

lemma pipeline_extent:
  assumes "info_ready d info n"
  obtains extent where "(if di_headless info then and_then (as_image d info) (\<lambda>i.
       Inr \<lparr>extent_width = offscreen_width i, extent_height = offscreen_height i\<rparr>)
     else and_then (as_swapchain d info) (\<lambda>c. Inr (chain_extent c))) = Inr extent"
  using assms by (auto simp: info_ready_def full_render_area_def as_image_def get_view_count_def outcome_simps
    split: if_splits DeviceWindowBufferVulkan.splits)

lemma create_pipeline_returns:
  assumes doc: "vk_documented drv" and info: "info_ready d info n"
  shows "returns (create_pipeline d drv info pass pm w) (\<lambda>(h, w'). objects_but {} w w' \<and> \<not> live_object w h \<and> live_object w' h \<and>
    texels w' = texels w)"
proof -
  obtain extent where "(if di_headless info then and_then (as_image d info) (\<lambda>i.
       Inr \<lparr>extent_width = offscreen_width i, extent_height = offscreen_height i\<rparr>)
     else and_then (as_swapchain d info) (\<lambda>c. Inr (chain_extent c))) = Inr extent"
    by (rule pipeline_extent [OF info])
  then show ?thesis using object_new_live [OF doc] by (simp add: create_pipeline_def)
qed

lemma objects_but_store: "objects_but D w w' \<Longrightarrow> vk_wf w' = vk_wf w \<and> keeps_buffers {} w w'"
  using same_store [of w' w] by (simp add: objects_but_def)

text \<open>What a renderer needs of its images before a resize: a view to draw to when there is no window.\<close>

definition has_window :: "vk_device_info \<Rightarrow> RendererVulkan \<Rightarrow> bool" where
  "has_window info r \<longleftrightarrow> (di_headless info \<longrightarrow> im_offscreen_view (rv_images r) \<noteq> None)"

lemma depth_step_returns:
  assumes doc: "vk_documented drv" and info: "info_ready d info n"
    and K: "\<forall>k\<in>K. live_object w k" and F: "\<forall>f\<in>set (im_framebuffers im). live_object w f"
    and V: "\<forall>v\<in>set_option (im_depth_view im). live_object w v \<and> v \<notin> K \<union> set (im_framebuffers im)"
  shows "returns (if depth then setup_depth_image d drv info im w else Inr (im, w)) (\<lambda>(im', w').
    objects_but (set_option (im_depth_view im)) w w' \<and> im_framebuffers im' = im_framebuffers im \<and>
    im_offscreen_view im' = im_offscreen_view im \<and> im_textures im' = im_textures im \<and> (\<forall>k\<in>K. live_object w' k) \<and>
    (\<forall>v\<in>set_option (im_depth_view im'). live_object w' v \<and> v \<notin> K \<union> set (im_framebuffers im)) \<and>
    (im_depth_image im = None \<longrightarrow> texels_kept w w'))"
proof (cases depth)
  case True
  have "returns (setup_depth_image d drv info im w) (\<lambda>(im', w').
    objects_but (set_option (im_depth_view im)) w w' \<and> im_framebuffers im' = im_framebuffers im \<and>
    im_offscreen_view im' = im_offscreen_view im \<and> im_textures im' = im_textures im \<and> (\<forall>k\<in>K. live_object w' k) \<and>
    (\<forall>v\<in>set_option (im_depth_view im'). live_object w' v \<and> v \<notin> K \<union> set (im_framebuffers im)) \<and>
    (im_depth_image im = None \<longrightarrow> texels_kept w w'))"
    using setup_depth_image_returns [OF doc info, of im w]
    by (rule returns_mono) (use K F V objects_but_live in \<open>auto dest: objects_but_live\<close>)
  then show ?thesis using True by simp
qed (use K V in \<open>auto simp: objects_but_def texels_kept_def\<close>)

lemma reconstruct_returns:
  assumes doc: "vk_documented drv" and info: "info_ready d info n" and old: "live_object w (pm_pipeline pm)"
  shows "returns (reconstruct_pipeline d drv info pass pm w) (\<lambda>(pm', w'). objects_but {pm_pipeline pm} w w' \<and>
    pm' = pm\<lparr>pm_pipeline := pm_pipeline pm'\<rparr> \<and> \<not> live_object w (pm_pipeline pm') \<and> live_object w' (pm_pipeline pm'))"
proof -
  obtain h w0 where 0: "create_pipeline d drv info pass pm w = Inr (h, w0)" "objects_but {} w w0" "\<not> live_object w h" "live_object w0 h"
    using create_pipeline_returns [OF doc info] by (force elim!: returnsE)
  have "h \<noteq> pm_pipeline pm" using 0(3) old by auto
  then have "live_object (object_destroy (pm_pipeline pm) w0) h" using objects_but_live [OF object_destroy_but 0(4)] by blast
  then show ?thesis
    using 0(1,3) objects_but_trans [OF 0(2) object_destroy_but, of "pm_pipeline pm"] by (simp add: reconstruct_pipeline_def)
qed

text \<open>The pipeline, the depth image and the framebuffers are replaced, for any number of views.\<close>

lemma resize_targets_returns:
  assumes doc: "vk_documented drv" and info: "info_ready d info n" and win: "di_headless info \<longrightarrow> im_offscreen_view im \<noteq> None"
    and tgt: "targets_ready m pass pm im pr w"
  shows "returns (and_then (reconstruct_pipeline d drv info pass pm w) (\<lambda>(pm, w).
      and_then (if depth then setup_depth_image d drv info im w else Inr (im, w)) (\<lambda>(im, w).
      and_then (setup_swapchain_framebuffers d drv info pass im w) (\<lambda>(im, w). Inr (pm, im, w)))))
    (\<lambda>(pm', im', w'). (\<exists>D. objects_but D w w') \<and> (pr_descriptors pr = None \<or> n = m \<longrightarrow> targets_ready n pass pm' im' pr w') \<and>
      im_offscreen_view im' = im_offscreen_view im)"
proof -
  let ?p = "rp_native pass" and ?F = "set (im_framebuffers im)" and ?V = "set_option (im_depth_view im)"
  have T: "live_object w ?p" "live_object w (pm_pipeline pm)" "pm_pipeline pm \<noteq> ?p"
    "\<forall>f\<in>?F. live_object w f \<and> f \<notin> {?p, pm_pipeline pm}" "\<forall>v\<in>?V. live_object w v \<and> v \<notin> {?p, pm_pipeline pm} \<union> ?F"
    using tgt by (simp_all add: targets_ready_def)
  obtain pm1 w1 where 1: "reconstruct_pipeline d drv info pass pm w = Inr (pm1, w1)" "objects_but {pm_pipeline pm} w w1"
    "\<not> live_object w (pm_pipeline pm1)" "live_object w1 (pm_pipeline pm1)"
    using reconstruct_returns [OF doc info T(2), of pass] by (auto elim!: returnsE)
  let ?K = "{?p, pm_pipeline pm1}"
  have h: "pm_pipeline pm1 \<noteq> ?p" "pm_pipeline pm1 \<notin> ?F" "pm_pipeline pm1 \<notin> ?V" using 1(3) T by auto
  have "\<forall>k\<in>?K. live_object w1 k" "\<forall>f\<in>?F. live_object w1 f" "\<forall>v\<in>?V. live_object w1 v \<and> v \<notin> ?K \<union> ?F"
    using objects_but_live [OF 1(2)] 1(4) T h by auto
  from depth_step_returns [OF doc info this, of depth] obtain im2 w2 where 2:
    "(if depth then setup_depth_image d drv info im w1 else Inr (im, w1)) = Inr (im2, w2)" "objects_but ?V w1 w2"
    "im_framebuffers im2 = im_framebuffers im" "im_offscreen_view im2 = im_offscreen_view im" "\<forall>k\<in>?K. live_object w2 k"
    "\<forall>v\<in>set_option (im_depth_view im2). live_object w2 v \<and> v \<notin> ?K \<union> ?F"
    by (auto elim!: returnsE)
  let ?L = "?K \<union> set_option (im_depth_view im2)"
  have L: "\<forall>k\<in>?L. live_object w2 k \<and> k \<notin> set (im_framebuffers im2)" using 2(3,5,6) T(4) h by auto
  have off: "di_headless info \<longrightarrow> im_offscreen_view im2 \<noteq> None" using win 2(4) by simp
  obtain im3 w3 where 3: "setup_swapchain_framebuffers d drv info pass im2 w2 = Inr (im3, w3)"
    "objects_but (set (im_framebuffers im2)) w2 w3" "length (im_framebuffers im3) = n"
    "\<forall>f\<in>set (im_framebuffers im3). live_object w3 f \<and> f \<notin> ?L" "\<forall>k\<in>?L. live_object w3 k" "im_depth_view im3 = im_depth_view im2"
    "im_offscreen_view im3 = im_offscreen_view im2"
    using setup_framebuffers_returns [OF doc info off L, of pass] by (auto elim!: returnsE)
  have D: "objects_but ({pm_pipeline pm} \<union> ?V \<union> set (im_framebuffers im2)) w w3"
    by (rule objects_but_trans [OF objects_but_trans [OF 1(2) 2(2)] 3(2)])
  then have "descriptor_sets w3 = descriptor_sets w" by (simp add: objects_but_def)
  then have "targets_ready n pass pm1 im3 pr w3" if "pr_descriptors pr = None \<or> n = m"
    using that tgt 2(6) 3(3-6) h(1) by (auto simp: targets_ready_def split: option.splits)
  then show ?thesis using 1(1) 2(1,4) 3(1,7) D by auto
qed

lemma handle_resize_returns:
  assumes doc: "vk_documented drv" and info: "info_ready d info n" and win: "has_window info r" and ready: "vk_ready n gs r w"
    and draw: "drawable gs (pr_draw_cache (rv_processor r))"
  shows "returns (handle_resize d drv info r w) (\<lambda>(r', w'). vk_ready n gs r' w' \<and> has_window info r' \<and>
    shows_list n gs (pr_draw_cache (rv_processor r)) r' w' \<and> pr_draw_cache (rv_processor r') = pr_draw_cache (rv_processor r))"
proof -
  let ?pr = "rv_processor r"
  have tgt: "targets_ready n (rv_pass r) (rv_pipeline r) (rv_images r) ?pr w" using ready by (simp add: vk_ready_def)
  have off: "di_headless info \<longrightarrow> im_offscreen_view (rv_images r) \<noteq> None" using win by (simp add: has_window_def)
  obtain pm im w1 D where 1: "and_then (reconstruct_pipeline d drv info (rv_pass r) (rv_pipeline r) w) (\<lambda>(pm, w).
      and_then (if rv_requires_depth r then setup_depth_image d drv info (rv_images r) w else Inr (rv_images r, w)) (\<lambda>(im, w).
      and_then (setup_swapchain_framebuffers d drv info (rv_pass r) im w) (\<lambda>(im, w). Inr (pm, im, w)))) = Inr (pm, im, w1)"
    "objects_but D w w1" "targets_ready n (rv_pass r) pm im ?pr w1" "im_offscreen_view im = im_offscreen_view (rv_images r)"
    using resize_targets_returns [OF doc info off tgt, of "rv_requires_depth r"] by (auto elim!: returnsE)
  obtain pr' w2 where 2: "initialise_command_pool d drv info ?pr w1 = Inr (pr', w2)" "storages w2 = storages w1"
    "vk_memory w2 = vk_memory w1" "keeps_rest UNIV w1 w2" "pool_ready n (pr_commands pr')" "pr' = ?pr\<lparr>pr_commands := pr_commands pr'\<rparr>"
    using initialise_command_pool_returns [OF doc info, of ?pr w1] by (auto elim!: returnsE)
  have same: "pr_draw_indirect pr' = pr_draw_indirect ?pr" "pr_draw_cache pr' = pr_draw_cache ?pr"
    "pr_draw_indirect_dynamic pr' = pr_draw_indirect_dynamic ?pr" "pr_frame_admin pr' = pr_frame_admin ?pr" "pr_descriptors pr' = pr_descriptors ?pr"
    using arg_cong [OF 2(6), of pr_draw_indirect] arg_cong [OF 2(6), of pr_draw_cache] arg_cong [OF 2(6), of pr_draw_indirect_dynamic]
      arg_cong [OF 2(6), of pr_frame_admin] arg_cong [OF 2(6), of pr_descriptors] by simp_all
  have k: "vk_wf w2" "keeps_buffers {} w w2"
    using same_store [of w2 w] 1(2) 2(2,3) ready by (simp_all add: objects_but_def vk_ready_def inputs_ready_def)
  let ?r = "r\<lparr>rv_pipeline := pm, rv_images := im, rv_processor := pr'\<rparr>"
  have "inputs_ready gs (rv_inputs r) (rv_buffers r) w2"
    by (rule inputs_ready_kept [OF _ k]) (use ready in \<open>simp_all add: vk_ready_def\<close>)
  moreover have "slots_ready gs (rv_buffers r) ?pr w2" "list_ready gs ?pr w2"
    using ready slots_ready_kept [OF _ k(2)] list_ready_kept [OF _ k(2)] by (simp_all add: vk_ready_def)
  moreover have "targets_ready n (rv_pass r) pm im ?pr w2" by (rule targets_ready_kept [OF 1(3) 2(4)])
  ultimately have "vk_ready n gs ?r w2"
    using ready 2(5) same by (simp add: vk_ready_def slots_ready_def list_ready_def targets_ready_def)
  from rv_record_shows [OF doc info this] obtain w3 where 3: "rv_record d drv info ?r w2 = Inr w3" "vk_ready n gs ?r w3"
    "shows_list n gs (pr_draw_cache ?pr) ?r w3"
    using draw same(2) by (auto elim!: returnsE)
  obtain b im0 b0 where "reconstruct_pipeline d drv info (rv_pass r) (rv_pipeline r) w = Inr (pm, b)"
    "(if rv_requires_depth r then setup_depth_image d drv info (rv_images r) b else Inr (rv_images r, b)) = Inr (im0, b0)"
    "setup_swapchain_framebuffers d drv info (rv_pass r) im0 b0 = Inr (im, w1)"
    using 1(1) by (auto simp: outcome_simps)
  then have "handle_resize d drv info r w = Inr (?r, w3)"
    using 2(1) 3(1) by (cases "rv_requires_depth r") (simp_all add: handle_resize_def Let_def)
  then show ?thesis using 3(2,3) same(2) win 1(4) by (simp add: has_window_def)
qed

section \<open>A frame\<close>

lemma run_command_sync:
  "run_command c (sync cs w, b) = map_option (\<lambda>(w', b'). (sync cs w', b')) (run_command c (w, b))"
  by (cases c) (simp_all add: sync_def gpu_contents_def set_gpu_contents_def indirect_draw_def
    split: option.splits prod.splits)

lemma run_commands_sync:
  "run_commands cmds (sync cs w, b) = map_option (\<lambda>(w', b'). (sync cs w', b')) (run_commands cmds (w, b))"
  by (induction cmds arbitrary: w b) (auto simp: run_command_sync split: option.splits)

lemma command_buffer_draws_sync: "command_buffer_draws (sync cs w) c = command_buffer_draws w c"
proof -
  have "recordings (sync cs w) = recordings w" by (simp add: sync_def)
  then show ?thesis
    by (simp add: command_buffer_draws_def run_commands_sync option.map_comp comp_def case_prod_beta cong: option.case_cong)
qed

lemma vk_ready_sync:
  assumes "vk_ready n gs r w" shows "vk_ready n gs r (sync cs w)"
proof (rule vk_ready_kept [OF assms])
  show "vk_wf (sync cs w)" "keeps_buffers {} w (sync cs w)"
    using same_store [of "sync cs w" w] assms by (simp_all add: sync_def vk_ready_def inputs_ready_def)
qed (simp add: keeps_rest_def sync_def)

text \<open>
  In a window, a frame whose image the presentation engine gives submits the command buffer of
  that image and presents the image when it has finished.
\<close>

definition frame_submitted :: "nat \<Rightarrow> u32 \<Rightarrow> RendererVulkan \<Rightarrow> vk_world \<Rightarrow> vk_world \<Rightarrow> bool" where
  "frame_submitted n img r w w' \<longleftrightarrow> (\<exists>calls s bits f fence. sync_calls w' = sync_calls w @ calls @
     [QueueSubmit [view_natives n (rv_processor r) ! unat img] [s] bits [f] fence, QueuePresent [f] img])"

lemma get_buffer_natives_map: "get_buffer_natives pool = map cb_native (cp_buffers pool)"
  by (intro nth_equalityI) (simp_all add: get_buffer_natives_def fold_snoc_map)

lemma vk_render_returns:
  assumes info: "info_ready d info n" "\<not> di_headless info" and ready: "vk_ready n gs r w" and img: "unat img < n"
  shows "returns (vk_render d drv info (VkSuccess img) True r w) (\<lambda>(r', w'). vk_ready n gs r' w' \<and>
    r' = r\<lparr>rv_processor := (rv_processor r)\<lparr>pr_frame_admin := pr_frame_admin (rv_processor r')\<rparr>\<rparr> \<and>
    frame_submitted n img r w w' \<and> (\<forall>c. command_buffer_draws w' c = command_buffer_draws w c))"
proof -
  let ?pr = "rv_processor r" and ?g = "and_then (handle_resize d drv info r w) (\<lambda>_. Inr ())"
  let ?a = "set_regeneration_function (pr_frame_admin ?pr) ?g" and ?pool = "get_buffer_natives (pr_commands ?pr)"
  obtain c where c: "as_swapchain d info = Inr c" "length (image_views c) = n"
    using info by (auto simp: info_ready_def get_view_count_def outcome_simps)
  have "image_table n ?a = image_table n (pr_frame_admin ?pr)" by (simp add: image_table_def set_regeneration_function_def)
  then have a: "admin_wf n ?a" "unat img < frame_depth ?a" "n \<le> length ?pool"
    using ready img unfolding vk_ready_def
    by (simp_all add: admin_wf_def get_buffer_natives_map pool_ready_def) (simp_all add: set_regeneration_function_def)
  let ?calls = "frame_calls n ?pool [ColourAttachmentOutput] img ?a" and ?a' = "frame_after n img ?a"
  let ?r = "r\<lparr>rv_processor := ?pr\<lparr>pr_frame_admin := ?a'\<rparr>\<rparr>"
  have eq: "vk_render d drv info (VkSuccess img) True r w = Inr (?r, sync ?calls w)"
    using render_frame_eq [OF a(1) img a(2,3)] c info(2) by (simp add: vk_render_def Let_def)
  have "admin_wf n ?a'" "frame_depth ?a' = frame_depth (pr_frame_admin ?pr)"
    using frame_after_wf [OF a(1) img a(2)] by (simp_all add: frame_after_def set_regeneration_function_def)
  then have "vk_ready n gs ?r w"
    using ready by (simp add: vk_ready_def slots_ready_def list_ready_def targets_ready_def)
  moreover have "frame_submitted n img r w (sync ?calls w)"
    using ready img unfolding frame_submitted_def frame_calls_def
    by (auto simp: sync_def view_natives_def get_buffer_natives_map vk_ready_def pool_ready_def Let_def)
  ultimately show ?thesis by (simp add: eq vk_ready_sync command_buffer_draws_sync)
qed

end
