(* ===== verification/Vk_Setup.thy ===== *)
theory Vk_Setup
  imports Vk_Correct
begin

text \<open>
  The constructor of \<open>RendererVulkan\<close> up to the recording of its first commands: the members and
  the body before the scratch commands.  The lemmas show that every step returns for a driver
  that behaves as documented, and what it creates.
\<close>

section \<open>Steps that only create\<close>

definition grows :: "vk_world \<Rightarrow> vk_world \<Rightarrow> bool" where
  "grows w w' \<longleftrightarrow> vk_wf w' \<and> keeps_buffers {} w w' \<and> keeps_rest UNIV w w'"

lemma grows_refl: "vk_wf w \<Longrightarrow> grows w w"
  by (simp add: grows_def)

lemma grows_trans: "grows w w' \<Longrightarrow> grows w' w'' \<Longrightarrow> grows w w''"
  using keeps_buffers_trans [of "{}" w w' "{}" w''] keeps_rest_trans [of UNIV w w' UNIV w''] by (simp add: grows_def)

lemma grows_wf: "grows w w' \<Longrightarrow> vk_wf w'"
  by (simp add: grows_def)

lemma grows_live: "grows w w' \<Longrightarrow> live_object w h \<Longrightarrow> live_object w' h"
  by (auto simp: grows_def keeps_rest_def live_object_def)

lemma grows_owns: "grows w w' \<Longrightarrow> owns w b s \<Longrightarrow> owns w' b s"
  using owns_kept [of w b s "{}" w'] by (simp add: grows_def)

lemma grows_owned: "grows w w' \<Longrightarrow> owned w b \<Longrightarrow> owned w' b"
  using grows_owns unfolding owned_def by blast

lemma grows_storage: "grows w w' \<Longrightarrow> map_of (storages w) h = Some s \<Longrightarrow> map_of (storages w') h = Some s"
  by (simp add: grows_def keeps_buffers_def)

lemma grows_fresh: "grows w w' \<Longrightarrow> map_of (storages w') h = None \<Longrightarrow> map_of (storages w) h = None"
  using grows_storage by (cases "map_of (storages w) h") force+

lemma grows_same:
  "vk_wf w \<Longrightarrow> storages w' = storages w \<Longrightarrow> vk_memory w' = vk_memory w \<Longrightarrow> keeps_rest UNIV w w' \<Longrightarrow> grows w w'"
  using same_store [of w' w] by (simp add: grows_def)

lemma object_new_grows:
  assumes "vk_documented drv" "vk_wf w"
  shows "returns (object_new d drv info w) (\<lambda>(h, w'). grows w w' \<and> \<not> live_object w h \<and> map_of (objects w') h = Some info \<and>
    live_object w' h)"
  using object_new_returns [OF assms(1), of d info w] assms(2)
  by (auto simp: live_object_def intro: grows_same keeps_rest_mono elim!: returns_mono)

lemma buffer_new_grows:
  assumes "vk_documented drv" "vk_wf w" "0 < n" "purpose = TransferSource \<longrightarrow> type = StagingBuffer"
  shows "returns (vk_buffer_new d drv type purpose residency n w) (\<lambda>(b, w'). grows w w' \<and> vb_type b = type \<and>
    map_of (storages w) (vb_buffer b) = None \<and>
    (\<exists>s. owns w' b s \<and> sto_maps s = (if residency = CPUPersistent then 1 else 0) \<and> sto_host s = (residency \<noteq> GPU) \<and>
      length (sto_bytes s) = n \<and> gpu_contents w' (vb_buffer b) = Some (sto_bytes s)))"
proof -
  obtain b w' s where "vk_buffer_new d drv type purpose residency n w = Inr (b, w')" "vk_wf w'" "owns w' b s"
    "keeps_buffers {} w w'" "same_objects w w'" "map_of (storages w) (vb_buffer b) = None"
    "vb_type b = type" "sto_host s = (residency \<noteq> GPU)" "sto_maps s = (if residency = CPUPersistent then 1 else 0)"
    "length (sto_bytes s) = n" "gpu_contents w' (vb_buffer b) = Some (sto_bytes s)"
    by (rule vk_buffer_new_effect [OF assms(1,3,2,4), of d residency]) blast
  then show ?thesis by (auto simp: grows_def keeps_rest_objects intro!: exI [of _ s])
qed

section \<open>The members\<close>

text \<open>A window whose buffers have a format, and not more images than frames in flight.\<close>

definition window_ready :: "bool \<Rightarrow> vk_device_info \<Rightarrow> nat \<Rightarrow> bool" where
  "window_ready d info n \<longleftrightarrow> info_ready d info n \<and> window_format info \<noteq> Inr 0 \<and> n \<le> (if di_headless info then 1 else 2)"

lemma window_format_total: "info_ready d info n \<Longrightarrow> \<exists>fmt. window_format info = Inr fmt"
  by (auto simp: info_ready_def full_render_area_def window_format_def split: if_splits DeviceWindowBufferVulkan.splits)

lemma simple_pass_returns:
  assumes "vk_documented drv" "vk_wf w" "window_ready d info n"
  shows "returns (make_simple_render_pass d drv info builder w) (\<lambda>(pass, w'). grows w w' \<and> live_object w' (rp_native pass))"
proof -
  obtain fmt where fmt: "window_format info = Inr fmt" "fmt \<noteq> 0"
    using assms(3) window_format_total [of d info n] by (auto simp: window_ready_def)
  have one: "add_pass no_passes (b_pass builder) = passes [b_pass builder]" by (simp add: passes_def)
  obtain descs where "render_pass_info d (rp_builder (passes [b_pass builder]))
      (rp_builder (vk_finalise (di_headless info) (passes [b_pass builder]) fmt)) =
    Inr \<lparr>pass_attachments = finalised (if di_headless info then LayoutTransferSource else LayoutPresent) fmt (defaults [b_pass builder]),
        pass_subpasses = descs,
        pass_dependency = render_pass_dependency (rp_builder (vk_finalise (di_headless info) (passes [b_pass builder]) fmt))\<rparr>"
    by (rule describe_passes [of fmt "[b_pass builder]" d "di_headless info"]) (use fmt(2) in auto)
  then obtain create where create: "render_pass_info d (rp_builder (passes [b_pass builder]))
      (rp_builder (vk_finalise (di_headless info) (passes [b_pass builder]) fmt)) = Inr create" by blast
  have "returns (and_then (object_new d drv (RenderPassObject create) w) (\<lambda>(h, w).
      Inr (\<lparr>rp_native = h, rp_colour_format = fmt, rp_has_depth = (ColourDepth \<in> set (rp_passes (passes [b_pass builder])))\<rparr>, w)))
    (\<lambda>(pass, w'). grows w w' \<and> live_object w' (rp_native pass))"
    by (rule returns_and_then [OF object_new_grows [OF assms(1,2)]]) auto
  then show ?thesis
    using fmt(1) create by (simp add: make_simple_render_pass_def one vk_create_render_pass_def render_pass_new_def)
qed

text \<open>The bindings of the descriptor set layout: the buffers first, then the textures.\<close>

definition resource_binding :: "nat \<Rightarrow> nat \<Rightarrow> VkDescriptorSetLayoutBinding" where
  "resource_binding nb i = \<lparr>layout_binding = i,
     layout_type = descriptor_type_value (if i < nb then UniformBufferDescriptor else CombinedImageSampler),
     layout_count = 1, layout_stages = 31\<rparr>"

lemma layout_add_many:
  "for_each (\<lambda>_ b. and_then (layout_builder_add d ty shader_type_field_all b) (\<lambda>(_, b). Inr b)) xs b =
     Inr (b\<lparr>binding_types := binding_types b @ replicate (length xs) (descriptor_type_value ty),
        binding_relevant_shader_stages := binding_relevant_shader_stages b @ replicate (length xs) 31\<rparr>)"
  by (induction xs arbitrary: b) (simp_all add: layout_builder_add_def Let_def)

lemma layout_native:
  assumes "length (binding_relevant_shader_stages b) = length (binding_types b)" "lb_bindings b = []"
  shows "\<exists>b'. layout_builder_native d b = Inr (map (\<lambda>i. \<lparr>layout_binding = i, layout_type = binding_types b ! i, layout_count = 1,
    layout_stages = binding_relevant_shader_stages b ! i\<rparr>) [0..<length (binding_types b)], b')"
proof -
  let ?e = "\<lambda>i. \<lparr>layout_binding = i, layout_type = binding_types b ! i, layout_count = 1,
    layout_stages = binding_relevant_shader_stages b ! i\<rparr>"
  have "for_each (\<lambda>i self. and_then (layout_builder_at self i) (\<lambda>e. Inr (self\<lparr>lb_bindings := lb_bindings self @ [e]\<rparr>)))
      [0..<length (binding_types b)] b = Inr (b\<lparr>lb_bindings := map ?e [0..<length (binding_types b)]\<rparr>)"
    by (rule for_range_closed_form) (use assms in \<open>simp_all add: layout_builder_at_def\<close>)
  then show ?thesis using assms(1) by (simp add: layout_builder_native_def layout_builder_size_def)
qed

lemma descriptor_layout_eq:
  "vk_get_descriptor_set_layout d drv builder w =
     object_new d drv (DescriptorSetLayoutObject (map (resource_binding (length (b_buffer_resources builder)))
       [0..<length (b_buffer_resources builder) + length (b_texture_resources builder)])) w"
proof -
  let ?nb = "length (b_buffer_resources builder)" and ?nt = "length (b_texture_resources builder)"
  let ?b = "layout_builder_new\<lparr>binding_types := replicate ?nb 6 @ replicate ?nt 1,
    binding_relevant_shader_stages := replicate ?nb 31 @ replicate ?nt 31\<rparr>"
  obtain b' where "layout_builder_native d ?b = Inr (map (\<lambda>i. \<lparr>layout_binding = i, layout_type = binding_types ?b ! i, layout_count = 1,
    layout_stages = binding_relevant_shader_stages ?b ! i\<rparr>) [0..<length (binding_types ?b)], b')"
    using layout_native [of ?b d] by (auto simp: layout_builder_new_def)
  moreover have "map (\<lambda>i. \<lparr>layout_binding = i, layout_type = binding_types ?b ! i, layout_count = 1,
      layout_stages = binding_relevant_shader_stages ?b ! i\<rparr>) [0..<length (binding_types ?b)] = map (resource_binding ?nb) [0..<?nb + ?nt]"
    by (simp add: resource_binding_def nth_append descriptor_type_value_def)
  ultimately have "layout_builder_native d ?b = Inr (map (resource_binding ?nb) [0..<?nb + ?nt], b')" by (simp only:)
  then show ?thesis
    by (simp add: vk_get_descriptor_set_layout_def Let_def layout_add_many layout_builder_new_def descriptor_type_value_def)
qed

lemma create_pipeline_grows:
  assumes "vk_documented drv" "vk_wf w" "info_ready d info n"
  shows "returns (create_pipeline d drv info pass pm w) (\<lambda>(h, w'). grows w w' \<and> \<not> live_object w h \<and> live_object w' h)"
proof -
  obtain extent where "(if di_headless info then and_then (as_image d info) (\<lambda>i.
       Inr \<lparr>extent_width = offscreen_width i, extent_height = offscreen_height i\<rparr>)
     else and_then (as_swapchain d info) (\<lambda>c. Inr (chain_extent c))) = Inr extent"
    by (rule pipeline_extent [OF assms(3)])
  then show ?thesis
    by (simp add: create_pipeline_def) (rule returns_mono [OF object_new_grows [OF assms(1,2)]], auto)
qed

lemma pipeline_manager_returns:
  assumes doc: "vk_documented drv" and wf: "vk_wf w" and info: "info_ready d info n" and sh: "b_shader builder \<noteq> None"
    and pass: "live_object w (rp_native pass)"
  shows "returns (pipeline_manager_new d drv info builder pass w) (\<lambda>(pm, w'). grows w w' \<and> live_object w' (pm_pipeline pm) \<and>
    pm_pipeline pm \<noteq> rp_native pass \<and>
    map_of (objects w') (pm_set_layout pm) = Some (DescriptorSetLayoutObject (map (resource_binding (length (b_buffer_resources builder)))
       [0..<length (b_buffer_resources builder) + length (b_texture_resources builder)])))"
proof -
  obtain vs fs where sh': "vk_get_shader d builder = Inr (vs, fs)" using sh by (auto simp: vk_get_shader_def)
  obtain bs as where inp: "vk_get_vertex_input builder = (bs, as)" by fastforce
  obtain l w1 where 1: "vk_get_descriptor_set_layout d drv builder w = Inr (l, w1)" "grows w w1"
    "map_of (objects w1) l = Some (DescriptorSetLayoutObject (map (resource_binding (length (b_buffer_resources builder)))
       [0..<length (b_buffer_resources builder) + length (b_texture_resources builder)]))"
    using object_new_grows [OF doc wf] unfolding descriptor_layout_eq by (force elim!: returnsE)
  obtain pl w2 where 2: "object_new d drv (PipelineLayoutObject [l]) w1 = Inr (pl, w2)" "grows w1 w2"
    using object_new_grows [OF doc grows_wf [OF 1(2)]] by (force elim!: returnsE)
  define pm where "pm = \<lparr>pm_vertex_shader = vs, pm_fragment_shader = fs, pm_bindings = bs,
    pm_attributes = as, pm_topology = di_topology info, pm_cull = vk_get_rasteriser_cull builder,
    pm_set_layout = l, pm_layout = pl, pm_pipeline = VK_NULL_HANDLE\<rparr>"
  obtain h w3 where 3: "create_pipeline d drv info pass pm w2 = Inr (h, w3)" "grows w2 w3" "\<not> live_object w2 h" "live_object w3 h"
    using create_pipeline_grows [OF doc grows_wf [OF 2(2)] info] by (force elim!: returnsE)
  have "live_object w2 (rp_native pass)" using grows_live [OF 2(2) grows_live [OF 1(2) pass]] .
  then have "h \<noteq> rp_native pass" using 3(3) by auto
  moreover have "pipeline_manager_new d drv info builder pass w = Inr (pm\<lparr>pm_pipeline := h\<rparr>, w3)"
    using sh' inp 1(1) 2(1) 3(1) by (simp add: pipeline_manager_new_def Let_def pm_def)
  moreover have "map_of (objects w3) l = map_of (objects w1) l"
    using 1(3) 2(2) 3(2) by (auto simp: grows_def keeps_rest_def)
  ultimately show ?thesis
    using 1(3) 3(4) grows_trans [OF 1(2) grows_trans [OF 2(2) 3(2)]] by (simp add: pm_def)
qed

lemma image_manager_returns:
  assumes doc: "vk_documented drv" and wf: "vk_wf w" and info: "info_ready d info n"
  shows "returns (image_manager_new d drv info w) (\<lambda>(im, w'). grows w w' \<and> im_textures im = [] \<and> im_depth_image im = None \<and>
    im_depth_view im = None \<and> im_framebuffers im = [] \<and> (di_headless info \<longrightarrow> im_offscreen_view im \<noteq> None))"
proof (cases "di_headless info")
  case True
  obtain i where i: "as_image d info = Inr i"
    using info True by (auto simp: info_ready_def full_render_area_def as_image_def split: DeviceWindowBufferVulkan.splits)
  let ?o = "ImageViewObject (offscreen_handle i) (offscreen_format i) (if offscreen_format i = format_value FormatDepthFloat32 then 2 else 1)"
  obtain h w' where "object_new d drv ?o w = Inr (h, w')" "grows w w'"
    using object_new_grows [OF doc wf, of d ?o] by (auto elim!: returnsE)
  then show ?thesis using True i by (simp add: image_manager_new_def Let_def)
next
  case False
  then obtain c where "as_swapchain d info = Inr c" using info by (auto simp: info_ready_def get_view_count_def outcome_simps)
  then show ?thesis using False grows_refl [OF wf] by (simp add: image_manager_new_def Let_def)
qed

section \<open>The processor\<close>

lemma count_inputs_of:
  assumes "all_geometry mem inps = Inr gs" shows "count_inputs a inps = length (of_access gs a)"
proof -
  have "map input_data_access inps = map g_access gs"
    using assms by (intro nth_equalityI) (auto simp: all_geometry_iff input_geometry_Inr_iff)
  then have "length (filter (\<lambda>x. x = a) (map input_data_access inps)) = length (filter (\<lambda>x. x = a) (map g_access gs))" by simp
  then show ?thesis by (simp add: count_inputs_length of_access_def filter_map comp_def)
qed

lemma initial_indirect_returns:
  assumes "vk_documented drv" "vk_wf w"
  shows "returns (initial_indirect d drv n w) (\<lambda>(slot, w'). grows w w' \<and> (slot = None \<longleftrightarrow> n = 0) \<and>
    (\<forall>b\<in>set_option slot. owned w' b \<and> map_of (storages w) (vb_buffer b) = None))"
proof (cases "n = 0")
  case False
  then have pos: "0 < sizeof_DrawIndirectCommand * n" by (simp add: sizeof_DrawIndirectCommand_def)
  obtain b w' where "vk_buffer_new d drv DrawIndirectBuffer TransferDestination GPU (sizeof_DrawIndirectCommand * n) w = Inr (b, w')"
    "grows w w'" "map_of (storages w) (vb_buffer b) = None" "owned w' b"
    using buffer_new_grows [OF assms pos, of TransferDestination DrawIndirectBuffer d GPU] by (auto simp: owned_def elim!: returnsE)
  then show ?thesis using False by (simp add: initial_indirect_def)
qed (simp add: initial_indirect_def grows_refl [OF assms(2)])

text \<open>The indirect buffers of a new processor: one per kind of input there is, not yet filled.\<close>

definition new_slots :: "geometry list \<Rightarrow> RendererProcessorVulkan \<Rightarrow> vk_world \<Rightarrow> bool" where
  "new_slots gs pr w \<longleftrightarrow>
     (\<forall>b\<in>set_option (pr_draw_indirect pr) \<union> set_option (pr_draw_indirect_dynamic pr). owned w b) \<and>
     slot_handles (pr_draw_indirect pr) \<inter> slot_handles (pr_draw_indirect_dynamic pr) = {} \<and>
     (pr_draw_indirect pr = None \<longleftrightarrow> of_access gs StaticFixed = []) \<and>
     (pr_draw_indirect_dynamic pr = None \<longleftrightarrow> of_access gs DynamicFixed = [])"

definition new_processor :: "nat \<Rightarrow> geometry list \<Rightarrow> RendererProcessorVulkan \<Rightarrow> vk_world \<Rightarrow> bool" where
  "new_processor n gs pr w \<longleftrightarrow> new_slots gs pr w \<and> pool_ready n (pr_commands pr) \<and> pr_descriptors pr = None \<and>
     pr_draw_cache pr = [] \<and> admin_wf n (pr_frame_admin pr) \<and> n \<le> frame_depth (pr_frame_admin pr)"

lemma new_slots_grows: "new_slots gs pr w \<Longrightarrow> grows w w' \<Longrightarrow> new_slots gs pr w'"
  unfolding new_slots_def using grows_owned by blast

lemma processor_returns:
  assumes doc: "vk_documented drv" "sync_driver_documented sdrv" and wf: "vk_wf w" and win: "window_ready d info n"
    and all: "all_geometry mem inps = Inr gs"
  shows "returns (processor_new d drv sdrv info inps w) (\<lambda>(pr, w'). grows w w' \<and> new_processor n gs pr w')"
proof -
  have info: "info_ready d info n" using win by (simp add: window_ready_def)
  obtain h w1 where 1: "object_new d drv (CommandPoolObject (di_family info) 2) w = Inr (h, w1)" "grows w w1"
    using object_new_grows [OF doc(1) wf] by (force elim!: returnsE)
  obtain stat w2 where 2: "initial_indirect d drv (count_inputs StaticFixed inps) w1 = Inr (stat, w2)" "grows w1 w2"
    "stat = None \<longleftrightarrow> of_access gs StaticFixed = []" "\<forall>b\<in>set_option stat. owned w2 b"
    using initial_indirect_returns [OF doc(1) grows_wf [OF 1(2)], of d "count_inputs StaticFixed inps"] count_inputs_of [OF all, of StaticFixed]
    by (auto elim!: returnsE)
  obtain dyn w3 where 3: "initial_indirect d drv (count_inputs DynamicFixed inps) w2 = Inr (dyn, w3)" "grows w2 w3"
    "dyn = None \<longleftrightarrow> of_access gs DynamicFixed = []" "\<forall>b\<in>set_option dyn. owned w3 b \<and> map_of (storages w2) (vb_buffer b) = None"
    using initial_indirect_returns [OF doc(1) grows_wf [OF 2(2)], of d "count_inputs DynamicFixed inps"] count_inputs_of [OF all, of DynamicFixed]
    by (auto elim!: returnsE)
  have depth: "0 < (if di_headless info then 1 else 2 :: nat)" "(if di_headless info then 1 else 2) < std_size_max"
    by (simp_all add: std_size_max_def)
  obtain a where a: "frame_admin_new d sdrv (if di_headless info then 1 else 2) = Inr a" "admin_wf n a"
    "frame_depth a = (if di_headless info then 1 else 2)"
    using frame_admin_new_wf [OF doc(2) depth] by blast
  let ?pr = "\<lparr>pr_descriptors = None, pr_commands = \<lparr>cp_pool = h, cp_buffers = []\<rparr>, pr_draw_indirect = stat, pr_draw_indirect_dynamic = dyn,
    pr_draw_cache = [], pr_frame_admin = a\<rparr>"
  obtain pr w4 where 4: "initialise_command_pool d drv info ?pr w3 = Inr (pr, w4)" "storages w4 = storages w3"
    "vk_memory w4 = vk_memory w3" "keeps_rest UNIV w3 w4" "pool_ready n (pr_commands pr)" "pr = ?pr\<lparr>pr_commands := pr_commands pr\<rparr>"
    using initialise_command_pool_returns [OF doc(1) info, of ?pr w3] by (auto elim!: returnsE)
  have g4: "grows w3 w4" by (rule grows_same [OF grows_wf [OF 3(2)] 4(2,3,4)])
  have f: "pr_draw_indirect pr = stat" "pr_draw_indirect_dynamic pr = dyn" "pr_descriptors pr = None" "pr_draw_cache pr = []"
    "pr_frame_admin pr = a"
    using arg_cong [OF 4(6), of pr_draw_indirect] arg_cong [OF 4(6), of pr_draw_indirect_dynamic] arg_cong [OF 4(6), of pr_descriptors]
      arg_cong [OF 4(6), of pr_draw_cache] arg_cong [OF 4(6), of pr_frame_admin] by simp_all
  have "slot_handles stat \<inter> slot_handles dyn = {}" using 2(4) 3(4) by (auto simp: slot_handles_def owned_def owns_def)
  then have "new_slots gs pr w3" using 2(3,4) 3(3,4) grows_owned [OF 3(2)] by (auto simp: new_slots_def f)
  then have "new_processor n gs pr w4"
    using new_slots_grows [OF _ g4] 4(5) a(2,3) win f by (auto simp: new_processor_def window_ready_def)
  moreover have "processor_new d drv sdrv info inps w = Inr (pr, w4)"
    using 1(1) 2(1) 3(1) 4(1) a(1) by (simp add: processor_new_def command_pool_new_def)
  ultimately show ?thesis using grows_trans [OF 1(2) grows_trans [OF 2(2) grows_trans [OF 3(2) g4]]] by simp
qed

text \<open>All members together.\<close>

definition members_ready :: "nat \<Rightarrow> geometry list \<Rightarrow> (nat \<times> nat) renderer_builder \<Rightarrow> RendererVulkan \<Rightarrow> vk_world \<Rightarrow> bool" where
  "members_ready n gs builder r w \<longleftrightarrow>
     rv_inputs r = b_inputs builder \<and> rv_buffers r = buffer_manager_new \<and>
     live_object w (rp_native (rv_pass r)) \<and> live_object w (pm_pipeline (rv_pipeline r)) \<and>
     pm_pipeline (rv_pipeline r) \<noteq> rp_native (rv_pass r) \<and>
     map_of (objects w) (pm_set_layout (rv_pipeline r)) =
       Some (DescriptorSetLayoutObject (map (resource_binding (length (b_buffer_resources builder)))
         [0..<length (b_buffer_resources builder) + length (b_texture_resources builder)])) \<and>
     im_textures (rv_images r) = [] \<and> im_depth_image (rv_images r) = None \<and> im_depth_view (rv_images r) = None \<and>
     im_framebuffers (rv_images r) = [] \<and> new_processor n gs (rv_processor r) w"

lemma rv_members_returns:
  assumes doc: "vk_documented drv" "sync_driver_documented sdrv" and wf: "vk_wf w" and win: "window_ready d info n"
    and all: "all_geometry mem (b_inputs builder) = Inr gs" and b: "\<forall>inp\<in>set (b_inputs builder). is_unmapped inp" "b_shader builder \<noteq> None"
  shows "returns (rv_members d drv sdrv info builder w) (\<lambda>(r, w'). grows w w' \<and> members_ready n gs builder r w' \<and> has_window info r)"
proof -
  have info: "info_ready d info n" using win by (simp add: window_ready_def)
  obtain pass w1 where 1: "make_simple_render_pass d drv info builder w = Inr (pass, w1)" "grows w w1" "live_object w1 (rp_native pass)"
    using simple_pass_returns [OF doc(1) wf win, of builder] by (auto elim!: returnsE)
  obtain pm w2 where 2: "pipeline_manager_new d drv info builder pass w1 = Inr (pm, w2)" "grows w1 w2" "live_object w2 (pm_pipeline pm)"
    "pm_pipeline pm \<noteq> rp_native pass" "map_of (objects w2) (pm_set_layout pm) =
      Some (DescriptorSetLayoutObject (map (resource_binding (length (b_buffer_resources builder)))
       [0..<length (b_buffer_resources builder) + length (b_texture_resources builder)]))"
    using pipeline_manager_returns [OF doc(1) grows_wf [OF 1(2)] info b(2) 1(3)] by (auto elim!: returnsE)
  obtain im w3 where 3: "image_manager_new d drv info w2 = Inr (im, w3)" "grows w2 w3" "im_textures im = []" "im_depth_image im = None"
    "im_depth_view im = None" "im_framebuffers im = []" "di_headless info \<longrightarrow> im_offscreen_view im \<noteq> None"
    using image_manager_returns [OF doc(1) grows_wf [OF 2(2)] info] by (auto elim!: returnsE)
  obtain pr w4 where 4: "processor_new d drv sdrv info (b_inputs builder) w3 = Inr (pr, w4)" "grows w3 w4" "new_processor n gs pr w4"
    using processor_returns [OF doc grows_wf [OF 3(2)] win all] by (auto elim!: returnsE)
  have g: "grows w1 w4" "grows w2 w4" using grows_trans [OF 2(2)] grows_trans [OF 3(2) 4(2)] by blast+
  have "map_of (objects w4) (pm_set_layout pm) = map_of (objects w2) (pm_set_layout pm)"
    using g(2) 2(5) by (auto simp: grows_def keeps_rest_def)
  then show ?thesis
    using copy_inputs_unmapped [OF b(1), of d] 1(1) 2(1,4,5) 3(1,3-7) 4(1,3) grows_live [OF g(1) 1(3)] grows_live [OF g(2) 2(3)]
      grows_trans [OF 1(2) g(1)]
    by (simp add: rv_members_def members_ready_def has_window_def)
qed

end
