(* ===== verification/Vk_Inputs.thy ===== *)
theory Vk_Inputs
  imports Vk_Setup
begin

text \<open>
  \<open>RendererBufferManagerVulkan::setup_buffers\<close> for the inputs: the static buffers are created
  with the size of the static batch, and a dynamic input is moved into persistently mapped
  buffers and keeps its geometry.  The offsets of the index regions are numbers of bytes that
  are then added to a pointer to \<open>unsigned int\<close>; \<open>Vk_Dynamic\<close> shows what that does to a second
  dynamic input.
\<close>

section \<open>Compiling the data\<close>

definition vk_index_region :: "geometry list \<Rightarrow> nat \<Rightarrow> DynamicInputMapRegion" where
  "vk_index_region gs i =
     \<lparr>region_input = i, region_offset = 4 * region_offset (index_region gs i), region_length = 4 * region_length (index_region gs i)\<rparr>"

definition vk_compiled_at :: "RendererInput list \<Rightarrow> geometry list \<Rightarrow> nat \<Rightarrow> compiled_data" where
  "vk_compiled_at inps gs k = (compiled_at inps gs k)\<lparr>index_regions := map (vk_index_region gs) (dynamic_positions gs k)\<rparr>"

lemma vk_compile_data_correct:
  assumes "all_geometry mem inps = Inr gs"
  shows "vk_compile_data mem inps = Inr (vk_compiled_at inps gs (length inps))"
  unfolding vk_compile_data_def
proof (rule for_range_closed_form)
  show "vk_compiled_at inps gs 0 = nothing_compiled"
    by (simp add: vk_compiled_at_def compiled_at_def nothing_compiled_def prefix_of_def dynamic_positions_def)
  fix k assume k: "k < length inps"
  have g: "input_geometry mem (inps ! k) = Inr (gs ! k)" and len: "length gs = length inps"
    using all_geometry_nth [OF assms k] all_geometry_length [OF assms] by simp_all
  have read: "input_get_vertex_bytes mem (inps ! k) = Inr (g_vertices (gs ! k))"
    "input_get_indices mem (inps ! k) = Inr (g_indices (gs ! k))" "input_data_access (inps ! k) = g_access (gs ! k)"
    using g by (simp_all add: input_geometry_Inr_iff)
  show "vk_compile_input mem inps k (vk_compiled_at inps gs k) = Inr (vk_compiled_at inps gs (Suc k))"
    using k len read
    by (cases "g_access (gs ! k)") (simp_all add: vk_compile_input_def vk_compiled_at_def compiled_at_def prefix_of_Suc
      dynamic_positions_def vertex_region_def index_region_def vk_index_region_def Let_def)
qed

lemma vk_compiled_totals:
  assumes "length gs = length inps"
  shows "total_vertices (vk_compiled_at inps gs (length inps)) = batch_vertices gs StaticFixed"
    "total_indices (vk_compiled_at inps gs (length inps)) = batch_indices gs StaticFixed"
    "total_vertices_dynamic (vk_compiled_at inps gs (length inps)) = batch_vertices gs DynamicFixed"
    "total_indices_dynamic (vk_compiled_at inps gs (length inps)) = batch_indices gs DynamicFixed"
    "any_static_geometry (vk_compiled_at inps gs (length inps)) \<longleftrightarrow> of_access gs StaticFixed \<noteq> []"
    "any_dynamic_geometry (vk_compiled_at inps gs (length inps)) \<longleftrightarrow> of_access gs DynamicFixed \<noteq> []"
    "vertex_regions (vk_compiled_at inps gs (length inps)) = map (vertex_region gs) (dynamic_positions gs (length inps))"
    "index_regions (vk_compiled_at inps gs (length inps)) = map (vk_index_region gs) (dynamic_positions gs (length inps))"
  using compiled_totals [OF assms] by (simp_all add: vk_compiled_at_def) (simp add: compiled_at_def)

section \<open>The static buffers\<close>

text \<open>A buffer on the GPU with room for a number of bytes.\<close>

definition allocated :: "vk_world \<Rightarrow> VulkanBuffer \<Rightarrow> nat \<Rightarrow> bool" where
  "allocated w b n \<longleftrightarrow> (\<exists>s. owns w b s \<and> sto_maps s = 0 \<and> length (sto_bytes s) = n)"

lemma allocated_grows: "allocated w b n \<Longrightarrow> grows w w' \<Longrightarrow> allocated w' b n"
  unfolding allocated_def using grows_owns by blast

lemma allocated_kept: "allocated w b n \<Longrightarrow> keeps_buffers S w w' \<Longrightarrow> vb_buffer b \<notin> S \<Longrightarrow> allocated w' b n"
  unfolding allocated_def using owns_kept by blast

lemma allocated_owned: "allocated w b n \<Longrightarrow> owned w b"
  by (auto simp: allocated_def owned_def)

definition static_allocated :: "geometry list \<Rightarrow> VulkanBuffer \<Rightarrow> VulkanBuffer \<Rightarrow> vk_world \<Rightarrow> bool" where
  "static_allocated gs vb ib w \<longleftrightarrow>
     (if of_access gs StaticFixed = [] then vb = vk_buffer_null \<and> ib = vk_buffer_null
      else vb_type vb = VertexBuffer \<and> vb_type ib = IndexBuffer \<and> vb_buffer vb \<noteq> vb_buffer ib \<and>
        allocated w vb (length (batch_vertices gs StaticFixed)) \<and> allocated w ib (4 * length (batch_indices gs StaticFixed)))"

lemma assign_null: "vk_buffer_assign vk_buffer_null (b, w) = (b, w)"
  by (simp add: vk_buffer_assign_def vk_buffer_move_assign_def)

text \<open>Every input has vertices and indices.\<close>

definition nonempty_batch :: "geometry list \<Rightarrow> bool" where
  "nonempty_batch gs \<longleftrightarrow> (\<forall>a. of_access gs a \<noteq> [] \<longrightarrow> batch_vertices gs a \<noteq> [] \<and> batch_indices gs a \<noteq> [])"

lemma setup_static_returns:
  assumes doc: "vk_documented drv" and wf: "vk_wf w" and len: "length gs = length inps" and ne: "nonempty_batch gs"
    and bm: "bm_vertex bm = vk_buffer_null" "bm_index bm = vk_buffer_null"
  shows "returns (setup_static_buffers d drv (vk_compiled_at inps gs (length inps)) bm w) (\<lambda>(bm', w'). grows w w' \<and>
    (\<exists>vb ib. bm' = bm\<lparr>bm_vertex := vb, bm_index := ib\<rparr> \<and> static_allocated gs vb ib w' \<and>
      map_of (storages w) (vb_buffer vb) = None \<and> map_of (storages w) (vb_buffer ib) = None))"
proof (cases "of_access gs StaticFixed = []")
  case True
  have "bm = bm\<lparr>bm_vertex := vk_buffer_null, bm_index := vk_buffer_null\<rparr>" using bm by simp
  then show ?thesis
    using True grows_refl [OF wf] wf
    by (auto simp: setup_static_buffers_def vk_compiled_totals [OF len] static_allocated_def vk_wf_def vk_buffer_null_def
      intro!: exI [of _ vk_buffer_null])
next
  case False
  let ?V = "length (batch_vertices gs StaticFixed)" and ?I = "length (batch_indices gs StaticFixed) * 4"
  have pos: "0 < ?V" "0 < ?I" using ne False by (auto simp: nonempty_batch_def)
  obtain vb w1 where 1: "vk_buffer_new d drv VertexBuffer TransferDestination GPU ?V w = Inr (vb, w1)" "grows w w1"
    "vb_type vb = VertexBuffer" "map_of (storages w) (vb_buffer vb) = None" "allocated w1 vb ?V"
    using buffer_new_grows [OF doc wf pos(1), of TransferDestination VertexBuffer d GPU]
    by (auto simp: allocated_def elim!: returnsE)
  obtain ib w2 where 2: "vk_buffer_new d drv IndexBuffer TransferDestination GPU ?I w1 = Inr (ib, w2)" "grows w1 w2"
    "vb_type ib = IndexBuffer" "map_of (storages w1) (vb_buffer ib) = None" "allocated w2 ib ?I"
    using buffer_new_grows [OF doc grows_wf [OF 1(2)] pos(2), of TransferDestination IndexBuffer d GPU]
    by (auto simp: allocated_def elim!: returnsE)
  have "vb_buffer vb \<noteq> vb_buffer ib" using 1(5) 2(4) by (auto simp: allocated_def owns_def)
  then have "static_allocated gs vb ib w2"
    using False 1(3) 2(3,5) allocated_grows [OF 1(5) 2(2)] by (simp add: static_allocated_def mult.commute)
  then show ?thesis
    using False 1(1,4) 2(1) bm grows_trans [OF 1(2) 2(2)] grows_fresh [OF 1(2) 2(4)]
    by (auto simp: setup_static_buffers_def vk_compiled_totals [OF len] assign_null)
qed

section \<open>The dynamic buffers\<close>

text \<open>Writing the memory of a mapped buffer.\<close>

lemma mapped_write:
  fixes bytes :: "u8 list"
  assumes "vk_wf w" "owns w b s"
  defines "w' \<equiv> w\<lparr>vk_memory := (vk_memory w)(vb_alloc b \<mapsto> bytes)\<rparr>"
  shows "vk_wf w'" "keeps_buffers {vb_buffer b} w w'" "owns w' c t \<longleftrightarrow> owns w c t" "same_objects w w'"
    "sto_maps s \<noteq> 0 \<Longrightarrow> gpu_contents w' (vb_buffer b) = Some bytes"
  using assms by (auto simp: vk_wf_def owns_def keeps_buffers_def same_objects_def gpu_contents_def)

lemma single_dynamic:
  assumes "length (of_access gs DynamicFixed) = 1"
  obtains k where "k < length gs" "g_access (gs ! k) = DynamicFixed" "dynamic_positions gs (length gs) = [k]"
    "region_offset (vertex_region gs k) = 0" "region_offset (index_region gs k) = 0"
    "batch_vertices gs DynamicFixed = g_vertices (gs ! k)" "batch_indices gs DynamicFixed = g_indices (gs ! k)"
proof -
  have m: "map ((!) gs) (dynamic_positions gs (length gs)) = of_access gs DynamicFixed"
    using filter_map [of "\<lambda>g. g_access g = DynamicFixed" "(!) gs" "[0..<length gs]"]
    by (simp add: dynamic_positions_def of_access_def map_nth comp_def)
  then have "length (dynamic_positions gs (length gs)) = 1" using assms by (metis length_map)
  then obtain k where k: "dynamic_positions gs (length gs) = [k]" by (auto simp: length_Suc_conv)
  have mem: "i \<in> set (dynamic_positions gs (length gs)) \<longleftrightarrow> i < length gs \<and> g_access (gs ! i) = DynamicFixed" for i
    by (rule dynamic_positions_props(2))
  have "k < length gs" "g_access (gs ! k) = DynamicFixed" using mem [of k] k by simp_all
  moreover have "prefix_of gs DynamicFixed k = []"
  proof -
    have "g_access (gs ! j) \<noteq> DynamicFixed" if "j < k" for j using mem [of j] k that calculation(1) by auto
    then show ?thesis by (auto simp: prefix_of_def filter_empty_conv in_set_conv_nth)
  qed
  ultimately show ?thesis
    using that [of k] k m by (simp add: vertex_region_def index_region_def batch_vertices_def batch_indices_def flip: m)
qed

text \<open>The single dynamic input, written to the start of two mapped blocks.\<close>

lemma map_single_input:
  assumes inp: "wf_input inp" "is_unmapped inp" "input_geometry mem inp = Inr g" "g_access g = DynamicFixed"
    and v: "mem bv = Some vs" "length vs = length (g_vertices g)"
    and i: "mem bi = Some is" "length is = 4 * length (g_indices g)" and ne: "bv \<noteq> bi"
  obtains m where "inp = DynamicInput m"
    "mesh_dynamic_set_vertex_data mem m \<lparr>block = bv, offset = 0\<rparr> = Inr (mem(bv \<mapsto> g_vertices g), m\<lparr>vertex_data := Some \<lparr>block = bv, offset = 0\<rparr>\<rparr>)"
    "mesh_dynamic_set_index_data (mem(bv \<mapsto> g_vertices g)) (m\<lparr>vertex_data := Some \<lparr>block = bv, offset = 0\<rparr>\<rparr>) \<lparr>block = bi, offset = 0\<rparr> =
      Inr (mem(bv \<mapsto> g_vertices g, bi \<mapsto> encode_u32s (g_indices g)),
        m\<lparr>vertex_data := Some \<lparr>block = bv, offset = 0\<rparr>, index_data := Some \<lparr>block = bi, offset = 0\<rparr>\<rparr>)"
    "input_geometry (mem(bv \<mapsto> g_vertices g, bi \<mapsto> encode_u32s (g_indices g)))
      (DynamicInput (m\<lparr>vertex_data := Some \<lparr>block = bv, offset = 0\<rparr>, index_data := Some \<lparr>block = bi, offset = 0\<rparr>\<rparr>)) = Inr g"
proof -
  obtain m where m: "inp = DynamicInput m" "vertex_data m = None" "index_data m = None" "wf_mesh (initial_data m)"
    using inp by (cases inp) (auto simp: input_geometry_Inr_iff input_data_access_def is_unmapped_def unmapped_def wf_input_def)
  have g: "g_vertices g = vertices_as_bytes (vertices (initial_data m))" "g_indices g = indices (initial_data m)"
    using inp(3) m by (simp_all add: input_geometry_Inr_iff input_get_vertex_bytes_def mesh_dynamic_get_vertex_bytes_def
      input_get_indices_def mesh_dynamic_get_indices_def)
  have len: "length (g_vertices g) = length (vertices (initial_data m)) * sizeof_Vertex"
    using m(4) by (simp add: g wf_mesh_def layout_simps)
  show ?thesis
  proof (rule that [of m])
    show "mesh_dynamic_set_vertex_data mem m \<lparr>block = bv, offset = 0\<rparr> =
        Inr (mem(bv \<mapsto> g_vertices g), m\<lparr>vertex_data := Some \<lparr>block = bv, offset = 0\<rparr>\<rparr>)"
      using m v by (simp add: mesh_dynamic_set_vertex_data_def mesh_dynamic_get_vertex_bytes_def mem_write_def Let_def flip: g)
    show "mesh_dynamic_set_index_data (mem(bv \<mapsto> g_vertices g)) (m\<lparr>vertex_data := Some \<lparr>block = bv, offset = 0\<rparr>\<rparr>) \<lparr>block = bi, offset = 0\<rparr> =
      Inr (mem(bv \<mapsto> g_vertices g, bi \<mapsto> encode_u32s (g_indices g)),
        m\<lparr>vertex_data := Some \<lparr>block = bv, offset = 0\<rparr>, index_data := Some \<lparr>block = bi, offset = 0\<rparr>\<rparr>)"
      using m i ne by (simp add: mesh_dynamic_set_index_data_def mesh_dynamic_get_indices_def mem_write_def layout_simps Let_def flip: g)
    show "input_geometry (mem(bv \<mapsto> g_vertices g, bi \<mapsto> encode_u32s (g_indices g)))
      (DynamicInput (m\<lparr>vertex_data := Some \<lparr>block = bv, offset = 0\<rparr>, index_data := Some \<lparr>block = bi, offset = 0\<rparr>\<rparr>)) = Inr g"
      using inp(4) ne len by (simp add: input_geometry_Inr_iff input_get_vertex_bytes_def mesh_dynamic_get_vertex_bytes_def
        input_get_indices_def mesh_dynamic_get_indices_def input_data_access_def mem_read_def chunk_def layout_simps flip: g)
  qed (rule m(1))
qed

lemma setup_dynamic_none:
  assumes "vk_wf w" "length gs = length inps" "of_access gs DynamicFixed = []"
  shows "setup_dynamic_buffers d drv (vk_compiled_at inps gs (length inps)) inps bm w = Inr (inps, bm, w)"
  using assms by (simp add: setup_dynamic_buffers_def vk_compiled_totals [OF assms(2)])

text \<open>Creating both buffers and mapping them persistently.\<close>

lemma two_mapped_buffers:
  assumes doc: "vk_documented drv" and wf: "vk_wf w" and pos: "0 < nv" "0 < ni"
  obtains vb w1 ib w2 sv si where "vk_buffer_new d drv VertexBuffer NothingSpecial CPUPersistent nv w = Inr (vb, w1)"
    "vk_buffer_new d drv IndexBuffer NothingSpecial CPUPersistent ni w1 = Inr (ib, w2)" "grows w w2"
    "vb_type vb = VertexBuffer" "vb_type ib = IndexBuffer" "vb_buffer vb \<noteq> vb_buffer ib" "vb_alloc vb \<noteq> vb_alloc ib"
    "map_of (storages w) (vb_buffer vb) = None" "map_of (storages w) (vb_buffer ib) = None"
    "owns w2 vb sv" "sto_maps sv = 1" "\<exists>bs. vk_memory w2 (vb_alloc vb) = Some bs \<and> length bs = nv"
    "owns w2 ib si" "sto_maps si = 1" "\<exists>bs. vk_memory w2 (vb_alloc ib) = Some bs \<and> length bs = ni"
    "vk_buffer_map_memory d vb w2 = Inr (\<lparr>block = vb_alloc vb, offset = 0\<rparr>, w2)"
    "\<And>v. vk_buffer_map_memory d ib v = Inr (\<lparr>block = vb_alloc ib, offset = 0\<rparr>, v)"
proof -
  obtain vb w1 sv where 1: "vk_buffer_new d drv VertexBuffer NothingSpecial CPUPersistent nv w = Inr (vb, w1)" "grows w w1"
    "vb_type vb = VertexBuffer" "map_of (storages w) (vb_buffer vb) = None" "owns w1 vb sv" "sto_maps sv = 1" "length (sto_bytes sv) = nv"
    "gpu_contents w1 (vb_buffer vb) = Some (sto_bytes sv)"
    using buffer_new_grows [OF doc wf pos(1), of NothingSpecial VertexBuffer d CPUPersistent] by (auto elim!: returnsE)
  obtain ib w2 si where 2: "vk_buffer_new d drv IndexBuffer NothingSpecial CPUPersistent ni w1 = Inr (ib, w2)" "grows w1 w2"
    "vb_type ib = IndexBuffer" "map_of (storages w1) (vb_buffer ib) = None" "owns w2 ib si" "sto_maps si = 1" "length (sto_bytes si) = ni"
    "gpu_contents w2 (vb_buffer ib) = Some (sto_bytes si)"
    using buffer_new_grows [OF doc grows_wf [OF 1(2)] pos(2), of NothingSpecial IndexBuffer d CPUPersistent] by (auto elim!: returnsE)
  have o: "owns w2 vb sv" by (rule grows_owns [OF 2(2) 1(5)])
  have c: "gpu_contents w2 (vb_buffer vb) = Some (sto_bytes sv)"
    using keeps_gpu_contents [OF _ _ 1(8), of "{}" w2] 2(2) by (simp add: grows_def)
  have ne: "vb_buffer vb \<noteq> vb_buffer ib" using 1(5) 2(4) by (auto simp: owns_def)
  then have na: "vb_alloc vb \<noteq> vb_alloc ib" using o 2(5) grows_wf [OF 2(2)] by (auto simp: vk_wf_def owns_def)
  show ?thesis
    by (rule that [OF 1(1) 2(1) grows_trans [OF 1(2) 2(2)] 1(3) 2(3) ne na 1(4) grows_fresh [OF 1(2) 2(4)] o 1(6) _ 2(5,6)])
      (use o c 1(6,7) 2(5-8) in \<open>auto simp: owns_def gpu_contents_def vk_buffer_map_memory_def ensure_notnull_def vk_buffer_is_null_def\<close>)
qed

text \<open>
  The dynamic part for at most one dynamic input: the world grows, the buffers hold the dynamic
  batch and the inputs have the geometry they had.
\<close>

definition dynamic_ready ::
    "geometry list \<Rightarrow> RendererInput list \<Rightarrow> VulkanBuffer \<Rightarrow> VulkanBuffer \<Rightarrow> vk_world \<Rightarrow> bool" where
  "dynamic_ready gs inps vb ib w \<longleftrightarrow> all_geometry (vk_memory w) inps = Inr gs \<and> batch_ok w gs DynamicFixed vb ib \<and>
     (of_access gs DynamicFixed = [] \<longrightarrow> vb = vk_buffer_null \<and> ib = vk_buffer_null) \<and>
     (\<forall>inp\<in>set inps. input_blocks inp \<subseteq> blocks_of w {vb_buffer vb, vb_buffer ib})"

lemma unmapped_blocks: "is_unmapped inp \<Longrightarrow> input_blocks inp = {}"
  by (cases inp) (auto simp: input_blocks_def is_unmapped_def unmapped_def)

lemma all_geometry_unmapped:
  assumes "all_geometry mem inps = Inr gs" "\<forall>inp\<in>set inps. is_unmapped inp"
  shows "all_geometry mem' inps = Inr gs"
proof -
  have "input_geometry mem' (inps ! i) = input_geometry mem (inps ! i)" if "i < length inps" for i
    using assms(2) that unmapped_blocks by (intro input_geometry_blocks) auto
  then show ?thesis using assms(1) by (simp add: all_geometry_iff)
qed

lemma owns_block: "owns w b s \<Longrightarrow> vb_buffer b \<in> H \<Longrightarrow> vb_alloc b \<in> blocks_of w H"
  unfolding owns_def blocks_of_def mem_Collect_eq by metis

lemma mapped_grows:
  assumes "grows w v" "owns v b s" "map_of (storages w) (vb_buffer b) = None"
  shows "grows w (v\<lparr>vk_memory := (vk_memory v)(vb_alloc b \<mapsto> bytes)\<rparr>)"
proof -
  note m = mapped_write [OF grows_wf [OF assms(1)] assms(2), of bytes]
  have "keeps_buffers ({} \<union> {vb_buffer b}) w (v\<lparr>vk_memory := (vk_memory v)(vb_alloc b \<mapsto> bytes)\<rparr>)"
    using assms(1) m(2) by (intro keeps_buffers_trans) (simp_all add: grows_def)
  then have "keeps_buffers {} w (v\<lparr>vk_memory := (vk_memory v)(vb_alloc b \<mapsto> bytes)\<rparr>)"
    by (rule keeps_buffers_forget) (simp add: assms(3))
  then show ?thesis
    using m(1) keeps_rest_trans [of UNIV w v UNIV] keeps_rest_objects [OF m(4), of UNIV] assms(1) by (simp add: grows_def)
qed

lemma mapped_inputs_ready:
  fixes vb ib :: VulkanBuffer and gs :: "geometry list"
  defines "m2 w \<equiv> (vk_memory w)(vb_alloc vb \<mapsto> batch_vertices gs DynamicFixed, vb_alloc ib \<mapsto> encode_u32s (batch_indices gs DynamicFixed))"
  assumes w: "grows w w2" "map_of (storages w) (vb_buffer vb) = None" "map_of (storages w) (vb_buffer ib) = None"
    and o: "owns w2 vb sv" "sto_maps sv = 1" "owns w2 ib si" "sto_maps si = 1"
    and t: "vb_type vb = VertexBuffer" "vb_type ib = IndexBuffer" "vb_buffer vb \<noteq> vb_buffer ib" "vb_alloc vb \<noteq> vb_alloc ib"
    and all: "all_geometry mem inps = Inr gs" and ok: "\<forall>inp\<in>set inps. is_unmapped inp"
    and k: "k < length gs" "g_access (gs ! k) = DynamicFixed" "batch_vertices gs DynamicFixed = g_vertices (gs ! k)"
      "batch_indices gs DynamicFixed = g_indices (gs ! k)"
    and inp: "input_geometry (m2 w2) (DynamicInput (m\<lparr>vertex_data := Some \<lparr>block = vb_alloc vb, offset = 0\<rparr>,
      index_data := Some \<lparr>block = vb_alloc ib, offset = 0\<rparr>\<rparr>)) = Inr (gs ! k)"
  shows "grows w (w2\<lparr>vk_memory := m2 w2\<rparr>) \<and> dynamic_ready gs (inps[k := DynamicInput (m\<lparr>vertex_data := Some \<lparr>block = vb_alloc vb, offset = 0\<rparr>,
      index_data := Some \<lparr>block = vb_alloc ib, offset = 0\<rparr>\<rparr>)]) vb ib (w2\<lparr>vk_memory := m2 w2\<rparr>)"
proof -
  let ?w1 = "w2\<lparr>vk_memory := (vk_memory w2)(vb_alloc vb \<mapsto> batch_vertices gs DynamicFixed)\<rparr>" and ?w = "w2\<lparr>vk_memory := m2 w2\<rparr>"
  let ?inp = "DynamicInput (m\<lparr>vertex_data := Some \<lparr>block = vb_alloc vb, offset = 0\<rparr>, index_data := Some \<lparr>block = vb_alloc ib, offset = 0\<rparr>\<rparr>)"
  have len: "length gs = length inps" using all by (simp add: all_geometry_iff)
  have g1: "grows w ?w1" by (rule mapped_grows [OF w(1) o(1) w(2)])
  have o1: "owns ?w1 ib si" using o(3) by (simp add: owns_def)
  have eq: "?w = ?w1\<lparr>vk_memory := (vk_memory ?w1)(vb_alloc ib \<mapsto> encode_u32s (batch_indices gs DynamicFixed))\<rparr>" by (simp add: m2_def)
  have g: "grows w ?w" unfolding eq by (rule mapped_grows [OF g1 o1 w(3)])
  have "all_geometry (m2 w2) (inps[k := ?inp]) = Inr gs"
    using all_geometry_unmapped [OF all ok, of "m2 w2"] inp len k(1) by (auto simp: all_geometry_iff nth_list_update)
  moreover have "batch_ok ?w gs DynamicFixed vb ib"
    using o t by (auto simp: batch_ok_def owned_def owns_def gpu_contents_def m2_def)
  moreover have "gs ! k \<in> set (of_access gs DynamicFixed)" using k(1,2) by (simp add: of_access_def)
  then have "of_access gs DynamicFixed \<noteq> []" by auto
  moreover have "{vb_alloc vb, vb_alloc ib} \<subseteq> blocks_of ?w {vb_buffer vb, vb_buffer ib}"
    using owns_block [of ?w vb sv] owns_block [of ?w ib si] o by (simp add: owns_def)
  then have "\<forall>inp\<in>set (inps[k := ?inp]). input_blocks inp \<subseteq> blocks_of ?w {vb_buffer vb, vb_buffer ib}"
    using ok unmapped_blocks set_update_subset_insert [of inps k ?inp] by (fastforce simp: input_blocks_def)
  ultimately show ?thesis using g by (simp add: dynamic_ready_def)
qed

lemma setup_dynamic_single:
  assumes doc: "vk_documented drv" and wf: "vk_wf w" and all: "all_geometry mem inps = Inr gs"
    and ok: "\<forall>inp\<in>set inps. wf_input inp \<and> is_unmapped inp" and one: "length (of_access gs DynamicFixed) = 1" and ne: "nonempty_batch gs"
    and bm: "bm_dynamic_vertex bm = vk_buffer_null" "bm_dynamic_index bm = vk_buffer_null"
  shows "returns (setup_dynamic_buffers d drv (vk_compiled_at inps gs (length inps)) inps bm w) (\<lambda>(inps', bm', w'). grows w w' \<and>
    (\<exists>vb ib. bm' = bm\<lparr>bm_dynamic_vertex := vb, bm_dynamic_index := ib\<rparr> \<and> dynamic_ready gs inps' vb ib w' \<and>
      map_of (storages w) (vb_buffer vb) = None \<and> map_of (storages w) (vb_buffer ib) = None))"
proof -
  have len: "length gs = length inps" using all by (simp add: all_geometry_iff)
  let ?V = "batch_vertices gs DynamicFixed" and ?I = "batch_indices gs DynamicFixed"
  obtain k where k: "k < length gs" "g_access (gs ! k) = DynamicFixed" "dynamic_positions gs (length gs) = [k]"
    "region_offset (vertex_region gs k) = 0" "region_offset (index_region gs k) = 0" "?V = g_vertices (gs ! k)" "?I = g_indices (gs ! k)"
    by (rule single_dynamic [OF one])
  have dyn: "of_access gs DynamicFixed \<noteq> []" using one by auto
  have pos: "0 < length ?V" "0 < length ?I * 4" using ne dyn by (auto simp: nonempty_batch_def)
  obtain vb w1 ib w2 sv si where b: "vk_buffer_new d drv VertexBuffer NothingSpecial CPUPersistent (length ?V) w = Inr (vb, w1)"
    "vk_buffer_new d drv IndexBuffer NothingSpecial CPUPersistent (length ?I * 4) w1 = Inr (ib, w2)" "grows w w2"
    "vb_type vb = VertexBuffer" "vb_type ib = IndexBuffer" "vb_buffer vb \<noteq> vb_buffer ib" "vb_alloc vb \<noteq> vb_alloc ib"
    "map_of (storages w) (vb_buffer vb) = None" "map_of (storages w) (vb_buffer ib) = None"
    "owns w2 vb sv" "sto_maps sv = 1" "\<exists>bs. vk_memory w2 (vb_alloc vb) = Some bs \<and> length bs = length ?V"
    "owns w2 ib si" "sto_maps si = 1" "\<exists>bs. vk_memory w2 (vb_alloc ib) = Some bs \<and> length bs = length ?I * 4"
    "vk_buffer_map_memory d vb w2 = Inr (\<lparr>block = vb_alloc vb, offset = 0\<rparr>, w2)"
    "\<And>v. vk_buffer_map_memory d ib v = Inr (\<lparr>block = vb_alloc ib, offset = 0\<rparr>, v)"
    by (rule two_mapped_buffers [OF doc wf pos]) blast
  have inp: "wf_input (inps ! k)" "is_unmapped (inps ! k)" "input_geometry (vk_memory w2) (inps ! k) = Inr (gs ! k)"
    using all_geometry_unmapped [OF all, of "vk_memory w2"] ok k(1) len by (simp_all add: all_geometry_iff)
  obtain vs "is" where mem: "vk_memory w2 (vb_alloc vb) = Some vs" "length vs = length (g_vertices (gs ! k))"
    "vk_memory w2 (vb_alloc ib) = Some is" "length is = 4 * length (g_indices (gs ! k))"
    using b(12,15) unfolding k(6,7) by auto
  let ?m1 = "(vk_memory w2)(vb_alloc vb \<mapsto> ?V)" and ?vp = "\<lparr>block = vb_alloc vb, offset = 0\<rparr>" and ?ip = "\<lparr>block = vb_alloc ib, offset = 0\<rparr>"
  let ?m2 = "?m1(vb_alloc ib \<mapsto> encode_u32s ?I)"
  obtain m where m: "inps ! k = DynamicInput m"
    "mesh_dynamic_set_vertex_data (vk_memory w2) m ?vp = Inr (?m1, m\<lparr>vertex_data := Some ?vp\<rparr>)"
    "mesh_dynamic_set_index_data ?m1 (m\<lparr>vertex_data := Some ?vp\<rparr>) ?ip = Inr (?m2, m\<lparr>vertex_data := Some ?vp, index_data := Some ?ip\<rparr>)"
    "input_geometry ?m2 (DynamicInput (m\<lparr>vertex_data := Some ?vp, index_data := Some ?ip\<rparr>)) = Inr (gs ! k)"
    unfolding k(6,7) by (rule map_single_input [OF inp k(2) mem b(7)])
  let ?inps = "inps[k := DynamicInput (m\<lparr>vertex_data := Some ?vp, index_data := Some ?ip\<rparr>)]" and ?w = "w2\<lparr>vk_memory := ?m2\<rparr>"
  let ?bm = "bm\<lparr>bm_dynamic_vertex := vb, bm_dynamic_index := ib\<rparr>"
  have run: "setup_dynamic_buffers d drv (vk_compiled_at inps gs (length inps)) inps bm w = Inr (?inps, ?bm, ?w)"
    using b(1,2,16) b(17) bm dyn k(1,3-5) len m(1-3)
    by (simp add: setup_dynamic_buffers_def vk_compiled_totals [OF len] assign_null map_vertex_region_def map_index_region_def
      vk_index_region_def byte_ptr_add_def uint_ptr_add_def) (simp add: vertex_region_def index_region_def)
  have "grows w ?w" "dynamic_ready gs ?inps vb ib ?w"
    using mapped_inputs_ready [OF b(3) b(8-11) b(13,14,4-7) all _ k(1,2,6,7) m(4)] ok by blast+
  then show ?thesis using run b(8,9) by auto
qed

section \<open>All input buffers\<close>

definition dynamic_handles :: "RendererBufferManagerVulkan \<Rightarrow> nat set" where
  "dynamic_handles bm = {vb_buffer (bm_dynamic_vertex bm), vb_buffer (bm_dynamic_index bm)}"

definition static_handles :: "RendererBufferManagerVulkan \<Rightarrow> nat set" where
  "static_handles bm = {vb_buffer (bm_vertex bm), vb_buffer (bm_index bm)}"

lemma geometry_handles: "geometry_buffers bm = static_handles bm \<union> dynamic_handles bm"
  by (auto simp: geometry_buffers_def static_handles_def dynamic_handles_def)

definition inputs_allocated :: "geometry list \<Rightarrow> RendererInput list \<Rightarrow> RendererBufferManagerVulkan \<Rightarrow> vk_world \<Rightarrow> bool" where
  "inputs_allocated gs inps bm w \<longleftrightarrow>
     vk_wf w \<and> static_allocated gs (bm_vertex bm) (bm_index bm) w \<and>
     dynamic_ready gs inps (bm_dynamic_vertex bm) (bm_dynamic_index bm) w \<and>
     (of_access gs StaticFixed \<noteq> [] \<longrightarrow> static_handles bm \<inter> dynamic_handles bm = {})"

lemma dynamic_ready_grows: "dynamic_ready gs inps vb ib w \<Longrightarrow> grows w w' \<Longrightarrow> dynamic_ready gs inps vb ib w'"
  using keeps_all_geometry [of w inps gs "{vb_buffer vb, vb_buffer ib}" "{}" w'] batch_ok_kept [of w gs DynamicFixed vb ib "{}" w']
  by (simp add: dynamic_ready_def grows_def)

lemma static_allocated_grows: "static_allocated gs vb ib w \<Longrightarrow> grows w w' \<Longrightarrow> static_allocated gs vb ib w'"
  using allocated_grows by (auto simp: static_allocated_def split: if_splits)

lemma inputs_allocated_grows: "inputs_allocated gs inps bm w \<Longrightarrow> grows w w' \<Longrightarrow> inputs_allocated gs inps bm w'"
  using dynamic_ready_grows static_allocated_grows grows_wf by (auto simp: inputs_allocated_def)

lemma setup_dynamic_returns:
  assumes doc: "vk_documented drv" and wf: "vk_wf w" and all: "all_geometry mem inps = Inr gs"
    and ok: "\<forall>inp\<in>set inps. wf_input inp \<and> is_unmapped inp" and one: "length (of_access gs DynamicFixed) \<le> 1" and ne: "nonempty_batch gs"
    and bm: "bm_dynamic_vertex bm = vk_buffer_null" "bm_dynamic_index bm = vk_buffer_null"
  shows "returns (setup_dynamic_buffers d drv (vk_compiled_at inps gs (length inps)) inps bm w) (\<lambda>(inps', bm', w'). grows w w' \<and>
    (\<exists>vb ib. bm' = bm\<lparr>bm_dynamic_vertex := vb, bm_dynamic_index := ib\<rparr> \<and> dynamic_ready gs inps' vb ib w' \<and>
      map_of (storages w) (vb_buffer vb) = None \<and> map_of (storages w) (vb_buffer ib) = None))"
proof (cases "of_access gs DynamicFixed = []")
  case True
  have len: "length gs = length inps" using all by (simp add: all_geometry_iff)
  have eq: "bm = bm\<lparr>bm_dynamic_vertex := vk_buffer_null, bm_dynamic_index := vk_buffer_null\<rparr>" using bm by simp
  have "dynamic_ready gs inps vk_buffer_null vk_buffer_null w"
    using True all_geometry_unmapped [OF all] ok unmapped_blocks by (simp add: dynamic_ready_def batch_ok_def)
  then show ?thesis
    using wf grows_refl [OF wf] eq
    by (auto simp: setup_dynamic_none [OF wf len True] vk_wf_def vk_buffer_null_def intro!: exI [of _ vk_buffer_null])
next
  case False
  then have "length (of_access gs DynamicFixed) = 1" using one by (cases "of_access gs DynamicFixed") auto
  then show ?thesis by (rule setup_dynamic_single [OF doc wf all ok _ ne bm])
qed

lemma setup_inputs_returns:
  assumes doc: "vk_documented drv" and wf: "vk_wf w" and all: "all_geometry (vk_memory w) inps = Inr gs"
    and ok: "\<forall>inp\<in>set inps. wf_input inp \<and> is_unmapped inp" and one: "length (of_access gs DynamicFixed) \<le> 1" and ne: "nonempty_batch gs"
    and bm: "bm_vertex bm = vk_buffer_null" "bm_index bm = vk_buffer_null" "bm_dynamic_vertex bm = vk_buffer_null" "bm_dynamic_index bm = vk_buffer_null"
  shows "returns (if inps \<noteq> []
       then and_then (vk_compile_data (vk_memory w) inps) (\<lambda>c.
            and_then (setup_static_buffers d drv c bm w) (\<lambda>(bm, w).
            setup_dynamic_buffers d drv c inps bm w))
       else Inr (inps, bm, w)) (\<lambda>(inps', bm', w'). grows w w' \<and> inputs_allocated gs inps' bm' w' \<and>
    (\<forall>h\<in>geometry_buffers bm'. map_of (storages w) h = None) \<and> bm_components bm' = bm_components bm)"
proof (cases "inps = []")
  case True
  then have "gs = []" using all by simp
  then show ?thesis
    using True bm wf grows_refl [OF wf] vk_wf_def [of w]
    by (auto simp: inputs_allocated_def static_allocated_def dynamic_ready_def batch_ok_def of_access_def geometry_buffers_def vk_buffer_null_def)
next
  case False
  have len: "length gs = length inps" using all by (simp add: all_geometry_iff)
  let ?c = "vk_compiled_at inps gs (length inps)"
  obtain vb ib w1 where 1: "setup_static_buffers d drv ?c bm w = Inr (bm\<lparr>bm_vertex := vb, bm_index := ib\<rparr>, w1)" "grows w w1"
    "static_allocated gs vb ib w1" "map_of (storages w) (vb_buffer vb) = None" "map_of (storages w) (vb_buffer ib) = None"
    using setup_static_returns [OF doc wf len ne bm(1,2), of d] by (auto elim!: returnsE)
  obtain inps' dvb dib w2 where 2: "setup_dynamic_buffers d drv ?c inps (bm\<lparr>bm_vertex := vb, bm_index := ib\<rparr>) w1 =
      Inr (inps', bm\<lparr>bm_vertex := vb, bm_index := ib, bm_dynamic_vertex := dvb, bm_dynamic_index := dib\<rparr>, w2)" "grows w1 w2"
    "dynamic_ready gs inps' dvb dib w2" "map_of (storages w1) (vb_buffer dvb) = None" "map_of (storages w1) (vb_buffer dib) = None"
    using setup_dynamic_returns [OF doc grows_wf [OF 1(2)] all ok one ne, of "bm\<lparr>bm_vertex := vb, bm_index := ib\<rparr>" d] bm
    by (auto elim!: returnsE)
  have "of_access gs StaticFixed \<noteq> [] \<Longrightarrow> {vb_buffer vb, vb_buffer ib} \<inter> {vb_buffer dvb, vb_buffer dib} = {}"
    using 1(3) 2(4,5) by (auto simp: static_allocated_def allocated_def owns_def)
  then have "inputs_allocated gs inps' (bm\<lparr>bm_vertex := vb, bm_index := ib, bm_dynamic_vertex := dvb, bm_dynamic_index := dib\<rparr>) w2"
    using static_allocated_grows [OF 1(3) 2(2)] 2(3) grows_wf [OF 2(2)]
    by (simp add: inputs_allocated_def static_handles_def dynamic_handles_def)
  then show ?thesis
    using False 1(1,4,5) 2(1) grows_trans [OF 1(2) 2(2)] grows_fresh [OF 1(2) 2(4)] grows_fresh [OF 1(2) 2(5)]
    by (simp add: vk_compile_data_correct [OF all] geometry_buffers_def)
qed

end
