(* ===== verification/Vk_Resources.thy ===== *)
theory Vk_Resources
  imports Vk_Inputs
begin

text \<open>
  The resources of a Vulkan renderer: the uniform buffers of \<open>setup_buffers\<close>, the textures of the
  image manager and the descriptor sets that refer to them.
\<close>

section \<open>Uniform buffers\<close>

text \<open>A buffer resource the renderer can take: it has bytes and has not been mapped.\<close>

definition vk_buffer_ready :: "Resource \<Rightarrow> bool" where
  "vk_buffer_ready res = (case res of StaticBuffer b \<Rightarrow> buffer_get_bytes b \<noteq> []
     | DynamicBuffer b \<Rightarrow> resource_data b = None \<and> buffer_bytes (initial_buffer b) \<noteq> [] | TextureRes _ \<Rightarrow> False)"

text \<open>
  The uniform buffer of a resource: for a static resource it is created, and for a dynamic one
  it also holds the bytes.
\<close>

definition component_set :: "vk_world \<Rightarrow> Resource \<Rightarrow> VulkanBuffer \<Rightarrow> bool" where
  "component_set w res b \<longleftrightarrow> owned w b \<and> vb_type b = UniformBuffer \<and>
     (if resource_data_access res = StaticFixed then allocated w b (length (ready_bytes res))
      else gpu_contents w (vb_buffer b) = Some (ready_bytes res))"

lemma component_set_grows: "component_set w res b \<Longrightarrow> grows w w' \<Longrightarrow> component_set w' res b"
  using grows_owned [of w w' b] allocated_grows [of w b _ w'] keeps_gpu_contents [of "{}" w w' "vb_buffer b"]
  by (auto simp: component_set_def grows_def split: if_splits)

definition same_access :: "Resource \<Rightarrow> Resource \<Rightarrow> bool" where
  "same_access res res' \<longleftrightarrow> resource_data_access res' = resource_data_access res \<and>
     (resource_data_access res = StaticFixed \<longrightarrow> res' = res)"

lemma setup_component_returns:
  assumes doc: "vk_documented drv" and wf: "vk_wf w" and i: "i < length (bm_components bm)" "bm_components bm ! i = (vk_buffer_null, i)"
    "i < length rs" "vk_buffer_ready (rs ! i)"
  shows "returns (setup_component d drv i (rs, bm, w)) (\<lambda>(rs', bm', w'). grows w w' \<and>
    (\<exists>b res. rs' = rs[i := res] \<and> bm' = bm\<lparr>bm_components := (bm_components bm)[i := (b, i)]\<rparr> \<and> same_access (rs ! i) res \<and>
      component_set w' (rs ! i) b \<and> map_of (storages w) (vb_buffer b) = None))"
proof (cases "rs ! i")
  case (StaticBuffer s)
  let ?n = "length (buffer_get_bytes s)"
  have n: "0 < ?n" using i(4) StaticBuffer by (simp add: vk_buffer_ready_def)
  obtain b w1 where "vk_buffer_new d drv UniformBuffer TransferDestination GPU ?n w = Inr (b, w1)" "grows w w1"
    "vb_type b = UniformBuffer" "map_of (storages w) (vb_buffer b) = None" "allocated w1 b ?n"
    using buffer_new_grows [OF doc wf n, of TransferDestination UniformBuffer d GPU] by (auto simp: allocated_def elim!: returnsE)
  moreover have "rs = rs[i := rs ! i]" by simp
  ultimately show ?thesis
    using i StaticBuffer allocated_owned
    by (auto simp: setup_component_def resource_get_bytes_def resource_data_access_def assign_null component_set_def
      ready_bytes_def same_access_def intro!: exI [of _ b] exI [of _ "rs ! i"])
next
  case (DynamicBuffer s)
  let ?bs = "buffer_bytes (initial_buffer s)"
  have s: "resource_data s = None" "0 < length ?bs" using i(4) DynamicBuffer by (simp_all add: vk_buffer_ready_def)
  obtain b w1 t where b: "vk_buffer_new d drv UniformBuffer NothingSpecial CPUPersistent (length ?bs) w = Inr (b, w1)" "grows w w1"
    "vb_type b = UniformBuffer" "map_of (storages w) (vb_buffer b) = None" "owns w1 b t" "sto_maps t = 1" "length (sto_bytes t) = length ?bs"
    "gpu_contents w1 (vb_buffer b) = Some (sto_bytes t)"
    using buffer_new_grows [OF doc wf s(2), of NothingSpecial UniformBuffer d CPUPersistent] by (auto elim!: returnsE)
  let ?p = "\<lparr>block = vb_alloc b, offset = 0\<rparr>" and ?m = "(vk_memory w1)(vb_alloc b \<mapsto> ?bs)"
  have "vk_memory w1 (vb_alloc b) = Some (sto_bytes t)" using b(5,6,8) by (simp add: gpu_contents_def owns_def)
  then have "dynamic_buffer_set_data (vk_memory w1) s ?p = Inr (?m, s\<lparr>resource_data := Some ?p\<rparr>)"
    using s(1) b(7) by (simp add: dynamic_buffer_set_data_def dynamic_buffer_get_bytes_def mem_write_def Let_def)
  moreover have "vk_buffer_map_memory d b w1 = Inr (?p, w1)"
    using b(5,6) by (simp add: vk_buffer_map_memory_def ensure_notnull_def vk_buffer_is_null_def owns_def)
  ultimately have "setup_component d drv i (rs, bm, w) = Inr (rs[i := DynamicBuffer (s\<lparr>resource_data := Some ?p\<rparr>)],
      bm\<lparr>bm_components := (bm_components bm)[i := (b, i)]\<rparr>, w1\<lparr>vk_memory := ?m\<rparr>)"
    using i b(1) s(1) DynamicBuffer
    by (simp add: setup_component_def resource_get_bytes_def resource_data_access_def assign_null dynamic_buffer_get_bytes_def)
  moreover have "component_set (w1\<lparr>vk_memory := ?m\<rparr>) (rs ! i) b"
    using b(3,5,6) DynamicBuffer mapped_write(3,5) [OF grows_wf [OF b(2)] b(5), of ?bs]
    by (auto simp: component_set_def owned_def resource_data_access_def ready_bytes_def)
  moreover have "same_access (rs ! i) (DynamicBuffer (s\<lparr>resource_data := Some ?p\<rparr>))"
    using DynamicBuffer by (simp add: same_access_def resource_data_access_def)
  ultimately show ?thesis using mapped_grows [OF b(2,5,4)] b(4) by auto
qed (use i in \<open>simp add: vk_buffer_ready_def\<close>)

definition components_set :: "Resource list \<Rightarrow> RendererBufferManagerVulkan \<Rightarrow> vk_world \<Rightarrow> bool" where
  "components_set rs bm w \<longleftrightarrow>
     distinct (map (vb_buffer \<circ> fst) (bm_components bm)) \<and>
     (\<forall>i<length (bm_components bm). i < length rs \<and> snd (bm_components bm ! i) = i \<and> component_set w (rs ! i) (fst (bm_components bm ! i)))"

definition component_handles :: "RendererBufferManagerVulkan \<Rightarrow> nat set" where
  "component_handles bm = (vb_buffer \<circ> fst) ` set (bm_components bm)"

lemma update_end_drop: "k < length xs \<Longrightarrow> length cs = k \<Longrightarrow> (cs @ drop k xs)[k := x] = (cs @ [x]) @ drop (Suc k) xs"
  by (simp add: list_update_append Cons_nth_drop_Suc [symmetric])

lemma setup_components_returns:
  assumes doc: "vk_documented drv" and wf: "vk_wf w" and bm: "bm_components bm = map (Pair vk_buffer_null) [0..<nb]"
    and rs: "nb \<le> length rs" "\<forall>i<nb. vk_buffer_ready (rs ! i)"
  shows "returns (for_each (setup_component d drv) [0..<nb] (rs, bm, w)) (\<lambda>(rs', bm', w'). grows w w' \<and>
    (\<exists>cs. bm' = bm\<lparr>bm_components := cs\<rparr> \<and> length cs = nb) \<and> components_set rs bm' w' \<and>
    (\<forall>h\<in>component_handles bm'. map_of (storages w) h = None) \<and> length rs' = length rs \<and> (\<forall>j<length rs. same_access (rs ! j) (rs' ! j)))"
proof -
  let ?C = "bm_components bm"
  define I where "I k st \<longleftrightarrow> (case st of (rs', bm', w') \<Rightarrow> grows w w' \<and> length rs' = length rs \<and>
    (\<forall>j<length rs. same_access (rs ! j) (rs' ! j)) \<and> (\<forall>j<length rs. k \<le> j \<longrightarrow> rs' ! j = rs ! j) \<and>
    (\<exists>cs. bm' = bm\<lparr>bm_components := cs @ drop k ?C\<rparr> \<and> length cs = k \<and> distinct (map (vb_buffer \<circ> fst) cs) \<and>
      (\<forall>j<k. snd (cs ! j) = j \<and> component_set w' (rs ! j) (fst (cs ! j)) \<and> map_of (storages w) (vb_buffer (fst (cs ! j))) = None)))"
    for k and st :: "Resource list \<times> RendererBufferManagerVulkan \<times> vk_world"
  have "returns (for_each (setup_component d drv) [0..<nb] (rs, bm, w)) (I nb)"
  proof (rule returns_for_range)
    show "I 0 (rs, bm, w)" using grows_refl [OF wf] by (simp add: I_def same_access_def)
    fix k st assume k: "k < nb" and "I k st"
    then obtain rs1 cs w1 where st: "st = (rs1, bm\<lparr>bm_components := cs @ drop k ?C\<rparr>, w1)" "grows w w1" "length rs1 = length rs"
      "\<forall>j<length rs. same_access (rs ! j) (rs1 ! j)" "\<forall>j<length rs. k \<le> j \<longrightarrow> rs1 ! j = rs ! j" "length cs = k"
      "distinct (map (vb_buffer \<circ> fst) cs)" "\<forall>j<k. snd (cs ! j) = j \<and> component_set w1 (rs ! j) (fst (cs ! j)) \<and>
        map_of (storages w) (vb_buffer (fst (cs ! j))) = None"
      by (auto simp: I_def)
    let ?bm = "bm\<lparr>bm_components := cs @ drop k ?C\<rparr>"
    have kC: "k < length ?C" "k < length rs" using k rs(1) bm by simp_all
    have c: "k < length (bm_components ?bm)" "bm_components ?bm ! k = (vk_buffer_null, k)" "k < length rs1" "vk_buffer_ready (rs1 ! k)"
      using kC k st(3,5,6) rs bm by (simp_all add: nth_append)
    obtain b res w2 where 2: "setup_component d drv k (rs1, ?bm, w1) =
        Inr (rs1[k := res], ?bm\<lparr>bm_components := (bm_components ?bm)[k := (b, k)]\<rparr>, w2)" "grows w1 w2" "same_access (rs1 ! k) res"
      "component_set w2 (rs1 ! k) b" "map_of (storages w1) (vb_buffer b) = None"
      using setup_component_returns [OF doc grows_wf [OF st(2)] c, of d] by (auto elim!: returnsE)
    have "vb_buffer (fst (cs ! j)) \<noteq> vb_buffer b" if "j < k" for j
      using st(8) that 2(5) by (auto simp: component_set_def owned_def owns_def)
    then have d: "distinct (map (vb_buffer \<circ> fst) (cs @ [(b, k)]))" using st(6,7) by (auto simp: in_set_conv_nth) (metis fst_conv)
    have "\<forall>j<Suc k. snd ((cs @ [(b, k)]) ! j) = j \<and> component_set w2 (rs ! j) (fst ((cs @ [(b, k)]) ! j)) \<and>
        map_of (storages w) (vb_buffer (fst ((cs @ [(b, k)]) ! j))) = None"
      using st(5,6,8) 2(4) component_set_grows [OF _ 2(2)] grows_fresh [OF st(2) 2(5)] kC(2) by (simp add: nth_append less_Suc_eq)
    then have "I (Suc k) (rs1[k := res], bm\<lparr>bm_components := (cs @ [(b, k)]) @ drop (Suc k) ?C\<rparr>, w2)"
      using d st(3-6) 2(3) grows_trans [OF st(2) 2(2)] kC(2)
      by (auto simp: I_def nth_list_update same_access_def simp del: append_assoc intro!: exI [of _ "cs @ [(b, k)]"])
    then show "returns (setup_component d drv k st) (I (Suc k))"
      using 2(1) update_end_drop [OF kC(1) st(6)] st(1) by simp
  qed
  then show ?thesis
    using bm rs(1) by (elim returns_mono) (auto simp: I_def components_set_def component_handles_def in_set_conv_nth, metis fst_conv)
qed

section \<open>Textures\<close>

definition texture_ready :: "Resource \<Rightarrow> bool" where
  "texture_ready res = (case res of
     TextureRes t \<Rightarrow> texture_get_bytes t \<noteq> [] \<and>
       unat (texture_get_width t) * unat (texture_get_height t) * texel_size \<le> length (texture_get_bytes t)
   | _ \<Rightarrow> False)"

text \<open>The image of a texture: it exists, and its object takes it to be in the undefined layout.\<close>

definition texture_set :: "vk_world \<Rightarrow> Resource \<Rightarrow> TextureComponentVulkan \<Rightarrow> bool" where
  "texture_set w res tc \<longleftrightarrow> (\<exists>t. res = TextureRes t \<and> map_of (texels w) (vi_image (tc_img tc)) \<noteq> None \<and>
     vi_layout (tc_img tc) = LayoutUndefined \<and> vi_width (tc_img tc) = texture_get_width t \<and> vi_height (tc_img tc) = texture_get_height t)"

lemma grows_texels: "grows w w' \<Longrightarrow> map_of (texels w) h \<noteq> None \<Longrightarrow> map_of (texels w') h \<noteq> None"
  by (auto simp: grows_def keeps_rest_def)

lemma texture_set_grows: "texture_set w res tc \<Longrightarrow> grows w w' \<Longrightarrow> texture_set w' res tc"
  unfolding texture_set_def using grows_texels by blast

lemma image_new_grows:
  assumes doc: "vk_documented drv" and wf: "vk_wf w" and bits: "ef_underlying d usage_value usage = Inr bits"
  shows "returns (image_new d drv wd ht format usage GPU w) (\<lambda>(img, w'). grows w w' \<and> vi_layout img = LayoutUndefined \<and>
    vi_width img = wd \<and> vi_height img = ht \<and> map_of (texels w) (vi_image img) = None \<and> map_of (texels w') (vi_image img) \<noteq> None)"
proof -
  obtain img w1 where 1: "image_new d drv wd ht format usage GPU w = Inr (img, w1)" "objects_but {} w w1" "vi_layout img = LayoutUndefined"
    "vi_width img = wd" "vi_height img = ht" "map_of (texels w) (vi_image img) = None"
    "map_of (texels w1) (vi_image img) \<noteq> None" "\<forall>h. h \<noteq> vi_image img \<longrightarrow> map_of (texels w1) h = map_of (texels w) h" "objects w1 = objects w"
    using image_new_returns [OF doc bits, of wd ht format w] by (auto elim!: returnsE)
  have "map_of (texels w1) h = Some x" if "map_of (texels w) h = Some x" for h x
    using 1(6,8) that by (cases "h = vi_image img") auto
  then have "keeps_rest UNIV w w1" using 1(2,9) by (simp add: keeps_rest_def objects_but_def)
  then have "grows w w1" using 1(2) by (intro grows_same [OF wf]) (simp_all add: objects_but_def)
  then show ?thesis using 1 by simp
qed

lemma initialise_texture_returns:
  assumes doc: "vk_documented drv" and wf: "vk_wf w" and res: "i < length rs" "texture_ready (rs ! i)"
  shows "returns (initialise_texture d drv rs i (im, w)) (\<lambda>(im', w'). grows w w' \<and>
    (\<exists>tc. im' = im\<lparr>im_textures := im_textures im @ [tc]\<rparr> \<and> tc_resource tc = i \<and> texture_set w' (rs ! i) tc \<and>
      map_of (texels w) (vi_image (tc_img tc)) = None))"
proof -
  obtain t where t: "rs ! i = TextureRes t" using res(2) by (auto simp: texture_ready_def split: Resource.splits)
  obtain bits where bits: "ef_underlying d usage_value (enum_field_of [UsageTransferDestination, UsageSampleable]) = Inr bits"
    using depth_usage(2) by blast
  obtain img w1 where 1: "image_new d drv (texture_get_width t) (texture_get_height t) (vk_texture_format (texture_format t))
      (enum_field_of [UsageTransferDestination, UsageSampleable]) GPU w = Inr (img, w1)" "grows w w1" "vi_layout img = LayoutUndefined"
    "vi_width img = texture_get_width t" "vi_height img = texture_get_height t" "map_of (texels w) (vi_image img) = None"
    "map_of (texels w1) (vi_image img) \<noteq> None"
    using image_new_grows [OF doc wf bits, of "texture_get_width t" "texture_get_height t" "vk_texture_format (texture_format t)"]
    by (auto elim!: returnsE)
  obtain v w2 where 2: "image_view_new d drv img w1 = Inr (v, w2)" "grows w1 w2"
    using object_new_grows [OF doc grows_wf [OF 1(2)]] by (force simp: image_view_new_def elim!: returnsE)
  obtain s w3 where 3: "sampler_new d drv (vk_sampler_properties (texture_properties t)) w2 = Inr (s, w3)" "grows w2 w3"
    using object_new_grows [OF doc grows_wf [OF 2(2)]] by (force simp: sampler_new_def elim!: returnsE)
  have g: "grows w1 w3" by (rule grows_trans [OF 2(2) 3(2)])
  have "texture_set w3 (rs ! i) \<lparr>tc_img = img, tc_view = v, tc_sampler = s, tc_resource = i\<rparr>"
    using t 1(3-5) grows_texels [OF g 1(7)] by (simp add: texture_set_def)
  then show ?thesis
    using t res(1) 1(1,6) 2(1) 3(1) grows_trans [OF 1(2) g]
    by (auto simp: initialise_texture_def intro!: exI [of _ "\<lparr>tc_img = img, tc_view = v, tc_sampler = s, tc_resource = i\<rparr>"])
qed

definition textures_set :: "Resource list \<Rightarrow> nat list \<Rightarrow> RendererImageManagerVulkan \<Rightarrow> vk_world \<Rightarrow> bool" where
  "textures_set rs is im w \<longleftrightarrow> map tc_resource (im_textures im) = is \<and> distinct (map (vi_image \<circ> tc_img) (im_textures im)) \<and>
     (\<forall>tc\<in>set (im_textures im). texture_set w (rs ! tc_resource tc) tc)"

lemma textures_set_grows: "textures_set rs is im w \<Longrightarrow> grows w w' \<Longrightarrow> textures_set rs is im w'"
  unfolding textures_set_def using texture_set_grows by blast

lemma textures_set_cong: "textures_set rs' is im w \<Longrightarrow> \<forall>i\<in>set is. rs' ! i = rs ! i \<Longrightarrow> textures_set rs is im w"
  unfolding textures_set_def by (metis image_eqI list.set_map)

lemma image_initialise_returns:
  assumes doc: "vk_documented drv" and wf: "vk_wf w" and im: "im_textures im = []"
    and res: "\<forall>i\<in>set is. i < length rs \<and> texture_ready (rs ! i)"
  shows "returns (image_manager_initialise d drv rs is im w) (\<lambda>(im', w'). grows w w' \<and> textures_set rs is im' w' \<and>
    (\<exists>ts. im' = im\<lparr>im_textures := ts\<rparr>))"
proof -
  define I where "I ys st \<longleftrightarrow> (case st of (im', w') \<Rightarrow> grows w w' \<and> textures_set rs ys im' w' \<and> (\<exists>ts. im' = im\<lparr>im_textures := ts\<rparr>))"
    for ys and st :: "RendererImageManagerVulkan \<times> vk_world"
  have "\<exists>st. for_each (initialise_texture d drv rs) is (im, w) = Inr st \<and> I is st"
  proof (rule for_each_invariant_list)
    show "I [] (im, w)"
      using im grows_refl [OF wf] unfolding I_def textures_set_def by (auto intro!: exI [of _ "im_textures im"])
    fix ys x zs st assume xs: "is = ys @ x # zs" and "I ys st"
    then obtain im1 w1 ts where st: "st = (im1, w1)" "grows w w1" "textures_set rs ys im1 w1" "im1 = im\<lparr>im_textures := ts\<rparr>"
      by (auto simp: I_def)
    have x: "x < length rs" "texture_ready (rs ! x)" using res xs by simp_all
    obtain tc w2 where 2: "initialise_texture d drv rs x (im1, w1) = Inr (im1\<lparr>im_textures := im_textures im1 @ [tc]\<rparr>, w2)" "grows w1 w2"
      "tc_resource tc = x" "texture_set w2 (rs ! x) tc" "map_of (texels w1) (vi_image (tc_img tc)) = None"
      using initialise_texture_returns [OF doc grows_wf [OF st(2)] x, of d im1] by (auto elim!: returnsE)
    have "vi_image (tc_img tc) \<notin> (vi_image \<circ> tc_img) ` set (im_textures im1)"
      using st(3) 2(5) by (auto simp: textures_set_def texture_set_def)
    then have "textures_set rs (ys @ [x]) (im1\<lparr>im_textures := im_textures im1 @ [tc]\<rparr>) w2"
      using textures_set_grows [OF st(3) 2(2)] 2(3,4) by (auto simp: textures_set_def)
    moreover have "im1\<lparr>im_textures := us\<rparr> = im\<lparr>im_textures := us\<rparr>" for us by (simp add: st(4))
    ultimately have "I (ys @ [x]) (im1\<lparr>im_textures := im_textures im1 @ [tc]\<rparr>, w2)"
      using grows_trans [OF st(2) 2(2)] unfolding I_def by auto
    then show "\<exists>s'. initialise_texture d drv rs x st = Inr s' \<and> I (ys @ [x]) s'" using 2(1) st(1) by simp
  qed
  then show ?thesis by (auto simp: image_manager_initialise_def I_def returns_def)
qed

section \<open>Descriptor sets\<close>

text \<open>What one descriptor set holds: the uniform buffers, then the textures, at consecutive bindings.\<close>

definition resource_descriptors :: "RendererBufferManagerVulkan \<Rightarrow> RendererImageManagerVulkan \<Rightarrow> descriptor list" where
  "resource_descriptors bm im = map (\<lambda>(b, _). BufferDescriptor (vb_buffer b)) (bm_components bm) @
     map (\<lambda>t. ImageDescriptor (tc_view t) (tc_sampler t) (layout_value LayoutShaderResource)) (im_textures im)"

definition resource_types :: "RendererBufferManagerVulkan \<Rightarrow> RendererImageManagerVulkan \<Rightarrow> u32 list" where
  "resource_types bm im = replicate (length (bm_components bm)) (descriptor_type_value UniformBufferDescriptor) @
     replicate (length (im_textures im)) (descriptor_type_value CombinedImageSampler)"

definition resource_request :: "RendererBufferManagerVulkan \<Rightarrow> RendererImageManagerVulkan \<Rightarrow> DescriptorSetsCreationRequest" where
  "resource_request bm im = \<lparr>rq_resources = resource_descriptors bm im, rq_types = resource_types bm im,
     rq_bindings = [0..<length (bm_components bm) + length (im_textures im)]\<rparr>"

lemma request_buffers:
  assumes "\<forall>(b, r)\<in>set cs. \<not> vk_buffer_is_null b \<and> vb_type b = UniformBuffer"
  shows "for_each (\<lambda>j request. and_then (at_index cs j) (\<lambda>(b, _). request_add_buffer d b j request)) [0..<length cs] request_new =
    Inr \<lparr>rq_resources = map (\<lambda>(b, _). BufferDescriptor (vb_buffer b)) cs,
      rq_types = replicate (length cs) (descriptor_type_value UniformBufferDescriptor), rq_bindings = [0..<length cs]\<rparr>"
proof -
  let ?F = "\<lambda>k. \<lparr>rq_resources = map (\<lambda>(b, _). BufferDescriptor (vb_buffer b)) (take k cs),
    rq_types = replicate k (descriptor_type_value UniformBufferDescriptor), rq_bindings = [0..<k]\<rparr>"
  have "for_each (\<lambda>j request. and_then (at_index cs j) (\<lambda>(b, _). request_add_buffer d b j request)) [0..<length cs] request_new =
      Inr (?F (length cs))"
  proof (rule for_range_closed_form)
    show "?F 0 = request_new" by (simp add: request_new_def)
    fix k assume k: "k < length cs"
    obtain b r where b: "cs ! k = (b, r)" by fastforce
    then have "(b, r) \<in> set cs" using nth_mem [OF k] by simp
    then have "\<not> vk_buffer_is_null b" "vb_type b = UniformBuffer" using assms by auto
    then show "and_then (at_index cs k) (\<lambda>(b, _). request_add_buffer d b k (?F k)) = Inr (?F (Suc k))"
      using k b by (simp add: request_add_buffer_def vk_buffer_get_type_def ensure_notnull_def take_Suc_conv_app_nth
        replicate_append_same Let_def)
  qed
  then show ?thesis by simp
qed

lemma request_textures:
  "for_each (\<lambda>j request. and_then (at_index ts j) (\<lambda>t. Inr (request_add_image (tc_view t) (tc_sampler t) (j + nb) request))) [0..<length ts] request =
     Inr \<lparr>rq_resources = rq_resources request @ map (\<lambda>t. ImageDescriptor (tc_view t) (tc_sampler t) (layout_value LayoutShaderResource)) ts,
       rq_types = rq_types request @ replicate (length ts) (descriptor_type_value CombinedImageSampler),
       rq_bindings = rq_bindings request @ [nb..<nb + length ts]\<rparr>"
proof -
  let ?F = "\<lambda>k. \<lparr>rq_resources = rq_resources request @ map (\<lambda>t. ImageDescriptor (tc_view t) (tc_sampler t) (layout_value LayoutShaderResource)) (take k ts),
    rq_types = rq_types request @ replicate k (descriptor_type_value CombinedImageSampler), rq_bindings = rq_bindings request @ [nb..<nb + k]\<rparr>"
  have "for_each (\<lambda>j request. and_then (at_index ts j) (\<lambda>t. Inr (request_add_image (tc_view t) (tc_sampler t) (j + nb) request))) [0..<length ts] request =
      Inr (?F (length ts))"
    by (rule for_range_closed_form)
      (simp_all add: request_add_image_def take_Suc_conv_app_nth replicate_append_same add.commute)
  then show ?thesis by simp
qed

lemma descriptor_request_eq:
  assumes "components_set rs bm w"
  shows "descriptor_request d bm im (length (bm_components bm)) (length (im_textures im)) = Inr (resource_request bm im)"
proof -
  have "\<forall>(b, r)\<in>set (bm_components bm). \<not> vk_buffer_is_null b \<and> vb_type b = UniformBuffer"
  proof clarify
    fix b r assume "(b, r) \<in> set (bm_components bm)"
    then obtain i where "i < length (bm_components bm)" "bm_components bm ! i = (b, r)" by (auto simp: in_set_conv_nth)
    then have "component_set w (rs ! i) b" using assms by (auto simp: components_set_def)
    then show "\<not> vk_buffer_is_null b \<and> vb_type b = UniformBuffer" by (auto simp: component_set_def owned_def owns_def vk_buffer_is_null_def)
  qed
  from request_buffers [OF this] show ?thesis
    using upt_add_eq_append [of 0 "length (bm_components bm)" "length (im_textures im)"]
    by (simp add: descriptor_request_def request_textures resource_request_def resource_descriptors_def resource_types_def)
qed

definition set_writes :: "RendererBufferManagerVulkan \<Rightarrow> RendererImageManagerVulkan \<Rightarrow> (nat \<times> u32 \<times> descriptor) list" where
  "set_writes bm im = map (\<lambda>i. (i, resource_types bm im ! i, resource_descriptors bm im ! i)) [0..<length (resource_descriptors bm im)]"

lemma resource_lengths:
  "length (resource_descriptors bm im) = length (bm_components bm) + length (im_textures im)"
  "length (resource_types bm im) = length (bm_components bm) + length (im_textures im)"
  by (simp_all add: resource_descriptors_def resource_types_def)

lemma resource_writes:
  "for_each (set_write (resource_request bm im)) [0..<length (rq_resources (resource_request bm im))] [] = Inr (set_writes bm im)"
proof -
  have "for_each (set_write (resource_request bm im)) [0..<length (resource_descriptors bm im)] [] =
      Inr (map (\<lambda>i. (i, resource_types bm im ! i, resource_descriptors bm im ! i)) [0..<length (resource_descriptors bm im)])"
    by (rule for_range_closed_form) (simp_all add: set_write_def resource_request_def resource_lengths)
  then show ?thesis by (simp add: set_writes_def resource_request_def)
qed

text \<open>Writing one set, and all of them.\<close>

definition set_contents :: "RendererBufferManagerVulkan \<Rightarrow> RendererImageManagerVulkan \<Rightarrow> (nat \<times> u32 \<times> descriptor) list" where
  "set_contents bm im = fold (\<lambda>(b, v) l. AList.update b v l) (set_writes bm im) []"

lemma map_of_updates: "map_of (fold (\<lambda>(b, v) l. AList.update b v l) ws l) = map_of l ++ map_of (rev ws)"
  by (induction ws arbitrary: l) (auto simp: update_conv' map_add_def fun_eq_iff split: option.splits)

text \<open>The descriptor of binding \<open>i\<close> is that of resource \<open>i\<close>.\<close>

lemma set_contents_at:
  assumes "i < length (resource_descriptors bm im)"
  shows "map_of (set_contents bm im) i = Some (resource_types bm im ! i, resource_descriptors bm im ! i)"
proof -
  have d: "distinct (map fst (set_writes bm im))" by (simp add: set_writes_def comp_def)
  have "(i, resource_types bm im ! i, resource_descriptors bm im ! i) \<in> set (set_writes bm im)" using assms by (simp add: set_writes_def)
  then have "map_of (rev (set_writes bm im)) i = Some (resource_types bm im ! i, resource_descriptors bm im ! i)"
    using d by (intro map_of_is_SomeI) (simp_all flip: rev_map)
  then show ?thesis by (simp add: set_contents_def map_of_updates)
qed

lemma initialise_set_eq:
  assumes "resource_descriptors bm im \<noteq> []" "i < length (dp_sets pool)" "map_of (descriptor_sets w) (dp_sets pool ! i) = Some []"
  shows "initialise_set (resource_request bm im) i pool w =
    Inr (w\<lparr>descriptor_sets := AList.update (dp_sets pool ! i) (set_contents bm im) (descriptor_sets w)\<rparr>)"
proof -
  have "set_writes bm im \<noteq> []" using assms(1) by (simp add: set_writes_def)
  then show ?thesis using assms(2,3) resource_writes [of bm im] by (simp add: initialise_set_def set_contents_def)
qed

lemma map_of_allocated: "map_of (fold (\<lambda>h l. AList.update h [] l) hs l) h = (if h \<in> set hs then Some [] else map_of l h)"
  by (induction hs arbitrary: l) (auto simp: update_conv')

lemma initialise_sets_returns:
  assumes doc: "vk_documented drv" and wf: "vk_wf w" and ne: "resource_descriptors bm im \<noteq> []" and n: "n \<le> length (dp_layouts pool)"
  shows "returns (initialise_sets d drv (replicate n (resource_request bm im)) pool w) (\<lambda>(pool', w'). grows w w' \<and>
    length (dp_sets pool') = n \<and> (\<forall>s\<in>set (dp_sets pool'). map_of (descriptor_sets w') s = Some (set_contents bm im)))"
proof -
  obtain hs where hs: "allocate_sets drv w n = Some hs" "length hs = n" "distinct hs" "\<forall>h\<in>set hs. map_of (descriptor_sets w) h = None"
    by (rule documented_sets [OF doc, of w n]) blast
  let ?w = "w\<lparr>descriptor_sets := fold (\<lambda>h l. AList.update h [] l) hs (descriptor_sets w)\<rparr>" and ?pool = "pool\<lparr>dp_sets := hs\<rparr>"
  let ?requests = "replicate n (resource_request bm im)"
  define I where "I k w' \<longleftrightarrow> (\<exists>ds. w' = w\<lparr>descriptor_sets := ds\<rparr> \<and>
    (\<forall>h. map_of ds h = (if h \<in> set (take k hs) then Some (set_contents bm im) else if h \<in> set hs then Some [] else map_of (descriptor_sets w) h)))"
    for k w'
  have "returns (for_each (\<lambda>i w. and_then (at_index ?requests i) (\<lambda>r. initialise_set r i ?pool w)) [0..<n] ?w) (I n)"
  proof (rule returns_for_range)
    show "I 0 ?w" by (auto simp: I_def map_of_allocated)
    fix k v assume k: "k < n" and "I k v"
    then obtain ds where ds: "v = w\<lparr>descriptor_sets := ds\<rparr>" "\<forall>h. map_of ds h =
        (if h \<in> set (take k hs) then Some (set_contents bm im) else if h \<in> set hs then Some [] else map_of (descriptor_sets w) h)"
      by (auto simp: I_def)
    have new: "hs ! k \<notin> set (take k hs)" "hs ! k \<in> set hs"
      using k hs(2,3) by (auto simp: in_set_conv_nth nth_eq_iff_index_eq)
    have tk: "take (Suc k) hs = take k hs @ [hs ! k]" using k hs(2) by (simp add: take_Suc_conv_app_nth)
    have "initialise_set (resource_request bm im) k ?pool v =
        Inr (v\<lparr>descriptor_sets := AList.update (hs ! k) (set_contents bm im) ds\<rparr>)"
      using initialise_set_eq [OF ne, of k ?pool v] k hs(2) ds new by simp
    moreover have "I (Suc k) (v\<lparr>descriptor_sets := AList.update (hs ! k) (set_contents bm im) ds\<rparr>)"
      using ds new tk by (auto simp: I_def update_conv' intro!: exI [of _ "AList.update (hs ! k) (set_contents bm im) ds"])
    ultimately show "returns (and_then (at_index ?requests k) (\<lambda>r. initialise_set r k ?pool v)) (I (Suc k))" using k by simp
  qed
  then obtain ds where ds: "for_each (\<lambda>i w. and_then (at_index ?requests i) (\<lambda>r. initialise_set r i ?pool w)) [0..<n] ?w =
      Inr (w\<lparr>descriptor_sets := ds\<rparr>)" "\<forall>h. map_of ds h = (if h \<in> set hs then Some (set_contents bm im) else map_of (descriptor_sets w) h)"
    using hs(2) by (auto simp: I_def elim!: returnsE)
  have "grows w (w\<lparr>descriptor_sets := ds\<rparr>)"
    using hs(4) ds(2) by (intro grows_same [OF wf]) (auto simp: keeps_rest_def)
  then show ?thesis using hs(1,2) n ds by (simp add: initialise_sets_def Let_def)
qed

definition descriptors_set ::
    "nat \<Rightarrow> RendererBufferManagerVulkan \<Rightarrow> RendererImageManagerVulkan \<Rightarrow> RendererProcessorVulkan \<Rightarrow> vk_world \<Rightarrow> bool" where
  "descriptors_set n bm im pr w \<longleftrightarrow>
     (if resource_descriptors bm im = [] then pr_descriptors pr = None
      else \<exists>pool. pr_descriptors pr = Some pool \<and> length (dp_sets pool) = n \<and>
        (\<forall>s\<in>set (dp_sets pool). map_of (descriptor_sets w) s = Some (set_contents bm im)))"

lemma pool_builder_folds:
  "pb_max_sets (fold (\<lambda>_. with_size t c) xs b) = pb_max_sets b" "pb_layouts (fold (\<lambda>_. with_size t c) xs b) = pb_layouts b"
  "pb_max_sets (fold (\<lambda>_. with_layout l) xs b) = pb_max_sets b"
  "pb_layouts (fold (\<lambda>_. with_layout l) xs b) = pb_layouts b @ replicate (length xs) l"
  by (induction xs arbitrary: b) (simp_all add: with_size_def with_layout_def)

lemma repeat_request:
  "m = Inr r \<Longrightarrow> for_each (\<lambda>_ requests. and_then m (\<lambda>r. Inr (requests @ [r]))) [0..<n] [] = Inr (replicate n r)"
  by (rule for_range_closed_form) (simp_all add: replicate_append_same)

lemma resource_descriptors_returns:
  assumes doc: "vk_documented drv" and wf: "vk_wf w" and info: "info_ready d info n" and none: "pr_descriptors pr = None"
    and bm: "components_set rs0 bm w" "length (bm_components bm) = resource_count_of BufferType rs"
    and im: "length (im_textures im) = resource_count_of TextureType rs" and all: "length rs = length (bm_components bm) + length (im_textures im)"
  shows "returns (initialise_resource_descriptors d drv info pm bm im rs pr w) (\<lambda>(pr', w'). grows w w' \<and> descriptors_set n bm im pr' w' \<and>
    (\<exists>p. pr' = pr\<lparr>pr_descriptors := p\<rparr>))"
proof (cases "rs = []")
  case True
  have "pr = pr\<lparr>pr_descriptors := None\<rparr>" using none by simp
  then show ?thesis
    using True all none grows_refl [OF wf]
    by (auto simp: initialise_resource_descriptors_def descriptors_set_def resource_descriptors_def intro!: exI [of _ None])
next
  case False
  have ne: "resource_descriptors bm im \<noteq> []" using False all by (auto simp: resource_descriptors_def)
  have vc: "get_view_count d info = Inr n" using info by (simp add: info_ready_def)
  define builder where "builder = fold (\<lambda>_. with_layout (pm_set_layout pm)) [0..<n]
    (fold (\<lambda>_. with_size (descriptor_type_value CombinedImageSampler) (of_nat n)) [0..<length (im_textures im)]
    (fold (\<lambda>_. with_size (descriptor_type_value UniformBufferDescriptor) (of_nat n)) [0..<length (bm_components bm)]
      (with_capacity (of_nat (n * length rs)) pool_builder_new)))"
  have b: "pb_max_sets builder = Some (of_nat (n * length rs))" "length (pb_layouts builder) = n"
    by (simp_all add: builder_def pool_builder_folds with_capacity_def pool_builder_new_def)
  obtain h w1 where 1: "object_new d drv (DescriptorPoolObject (pb_pool_sizes builder) (of_nat (n * length rs))) w = Inr (h, w1)" "grows w w1"
    using object_new_grows [OF doc wf] by (force elim!: returnsE)
  let ?pool = "\<lparr>dp_pool = h, dp_layouts = pb_layouts builder, dp_sets = []\<rparr>"
  have requests: "for_each (\<lambda>_ requests. and_then (descriptor_request d bm im (length (bm_components bm)) (length (im_textures im)))
      (\<lambda>r. Inr (requests @ [r]))) [0..<n] [] = Inr (replicate n (resource_request bm im))"
    by (rule repeat_request [OF descriptor_request_eq [OF bm(1)]])
  have n: "n \<le> length (dp_layouts ?pool)" by (simp add: b)
  obtain pool w2 where 2: "initialise_sets d drv (replicate n (resource_request bm im)) ?pool w1 = Inr (pool, w2)" "grows w1 w2"
    "length (dp_sets pool) = n" "\<forall>s\<in>set (dp_sets pool). map_of (descriptor_sets w2) s = Some (set_contents bm im)"
    using initialise_sets_returns [OF doc grows_wf [OF 1(2)] ne n, of d] by (auto elim!: returnsE)
  have "descriptor_pool_new d drv builder w = Inr (?pool, w1)" using b(1) 1(1) by (simp add: descriptor_pool_new_def)
  then have "initialise_resource_descriptors d drv info pm bm im rs pr w = Inr (pr\<lparr>pr_descriptors := Some pool\<rparr>, w2)"
    using False vc requests 2(1) unfolding builder_def
    by (simp add: initialise_resource_descriptors_def Let_def flip: bm(2) im)
  then show ?thesis using ne 2(3,4) grows_trans [OF 1(2) 2(2)] by (auto simp: descriptors_set_def)
qed

section \<open>The first targets\<close>

lemma first_depth_image:
  assumes doc: "vk_documented drv" and wf: "vk_wf w" and info: "info_ready d info n" and im: "im_depth_image im = None" "im_depth_view im = None"
  shows "returns (if depth then setup_depth_image d drv info im w else Inr (im, w)) (\<lambda>(im', w'). grows w w' \<and>
    (\<forall>v\<in>set_option (im_depth_view im'). live_object w' v \<and> \<not> live_object w v) \<and>
    (\<exists>i v. im' = im\<lparr>im_depth_image := i, im_depth_view := v\<rparr>))"
proof (cases depth)
  case True
  obtain area where area: "full_render_area info = Inr area" using info by (auto simp: info_ready_def)
  obtain img w1 where 1: "image_new d drv (extent_width area) (extent_height area) FormatDepthFloat32
      (enum_field_of [UsageDepthStencilAttachment]) GPU w = Inr (img, w1)" "grows w w1"
    using image_new_grows [OF doc wf depth_usage(1)] by (force elim!: returnsE)
  obtain v w2 where 2: "image_view_new d drv img w1 = Inr (v, w2)" "grows w1 w2" "live_object w2 v" "\<not> live_object w1 v"
    using object_new_grows [OF doc grows_wf [OF 1(2)]] by (force simp: image_view_new_def elim!: returnsE)
  have "\<not> live_object w v" using 2(4) grows_live [OF 1(2)] by blast
  then show ?thesis
    using True area 1(1) 2(1,3) im grows_trans [OF 1(2) 2(2)] by (auto simp: setup_depth_image_def)
next
  case False
  have "im = im\<lparr>im_depth_image := im_depth_image im, im_depth_view := im_depth_view im\<rparr>" by simp
  then show ?thesis
    using False im grows_refl [OF wf] by (auto intro!: exI [of _ "im_depth_image im"] exI [of _ "im_depth_view im"])
qed

lemma first_framebuffers:
  assumes doc: "vk_documented drv" and wf: "vk_wf w" and info: "info_ready d info n" and off: "di_headless info \<longrightarrow> im_offscreen_view im \<noteq> None"
    and im: "im_framebuffers im = []" and keep: "\<forall>h\<in>K. live_object w h"
  shows "returns (setup_swapchain_framebuffers d drv info pass im w) (\<lambda>(im', w'). grows w w' \<and>
    (\<exists>fs. im' = im\<lparr>im_framebuffers := fs\<rparr> \<and> length fs = n \<and> (\<forall>f\<in>set fs. live_object w' f \<and> f \<notin> K)))"
proof -
  obtain area where area: "full_render_area info = Inr area" using info by (auto simp: info_ready_def)
  obtain views where views: "(if di_headless info then and_then (value_of (im_offscreen_view im)) (\<lambda>v. Inr [v])
      else and_then (as_swapchain d info) (\<lambda>c. Inr (image_views c))) = Inr views" "length views = n"
    by (rule window_views [OF info, of im]) (use off in auto)
  let ?body = "\<lambda>v (im', w). and_then (framebuffer_new d drv (rp_native pass) v (im_depth_view im') area w) (\<lambda>(fb, w).
    Inr (im'\<lparr>im_framebuffers := im_framebuffers im' @ [fb]\<rparr>, w))"
  define I where "I ys st \<longleftrightarrow> (case st of (im', w') \<Rightarrow> grows w w' \<and>
    (\<exists>fs. im' = im\<lparr>im_framebuffers := fs\<rparr> \<and> length fs = length ys \<and> (\<forall>f\<in>set fs. live_object w' f \<and> f \<notin> K)))"
    for ys :: "nat list" and st :: "RendererImageManagerVulkan \<times> vk_world"
  have eq: "im\<lparr>im_framebuffers := []\<rparr> = im" using im by simp
  have "\<exists>st. for_each ?body views (im, w) = Inr st \<and> I views st"
  proof (rule for_each_invariant_list)
    show "I [] (im, w)" using grows_refl [OF wf] by (auto simp: I_def eq intro!: exI [of _ "[]"])
    fix ys x zs st assume "I ys st"
    then obtain fs v where st: "st = (im\<lparr>im_framebuffers := fs\<rparr>, v)" "grows w v" "length fs = length ys"
      "\<forall>f\<in>set fs. live_object v f \<and> f \<notin> K" by (auto simp: I_def)
    obtain fb v' where fb: "framebuffer_new d drv (rp_native pass) x (im_depth_view im) area v = Inr (fb, v')" "grows v v'"
      "\<not> live_object v fb" "live_object v' fb"
      using object_new_grows [OF doc grows_wf [OF st(2)]] by (force simp: framebuffer_new_def elim!: returnsE)
    have "fb \<notin> K" using keep grows_live [OF st(2)] fb(3) by blast
    then have "I (ys @ [x]) (im\<lparr>im_framebuffers := fs @ [fb]\<rparr>, v')"
      using st(3,4) fb(4) grows_live [OF fb(2)] grows_trans [OF st(2) fb(2)] by (auto simp: I_def intro!: exI [of _ "fs @ [fb]"])
    then show "\<exists>s'. ?body x st = Inr s' \<and> I (ys @ [x]) s'" using st(1) fb(1) by simp
  qed
  then obtain st where st: "for_each ?body views (im, w) = Inr st" "I views st" by blast
  have "setup_swapchain_framebuffers d drv info pass im w = Inr st"
    using area views(1) st(1) im by (cases "di_headless info") (simp_all add: setup_swapchain_framebuffers_def Let_def eq)
  then show ?thesis using st(2) views(2) by (auto simp: I_def)
qed

section \<open>The body before the first recording\<close>

text \<open>A complete builder, with at most one dynamic input.\<close>

definition vk_builder_ready :: "geometry list \<Rightarrow> (nat \<times> nat) renderer_builder \<Rightarrow> memory \<Rightarrow> bool" where
  "vk_builder_ready gs builder mem \<longleftrightarrow>
     b_shader builder \<noteq> None \<and> all_geometry mem (b_inputs builder) = Inr gs \<and>
     (\<forall>inp\<in>set (b_inputs builder). wf_input inp \<and> is_unmapped inp) \<and> length (of_access gs DynamicFixed) \<le> 1 \<and>
     nonempty_batch gs \<and> (\<forall>g\<in>set gs. wf_geometry g) \<and> batch_fits gs \<and>
     (\<forall>res\<in>set (b_buffer_resources builder). vk_buffer_ready res) \<and> (\<forall>res\<in>set (b_texture_resources builder). texture_ready res)"

definition slots_apart :: "RendererProcessorVulkan \<Rightarrow> nat set \<Rightarrow> bool" where
  "slots_apart pr H \<longleftrightarrow> (slot_handles (pr_draw_indirect pr) \<union> slot_handles (pr_draw_indirect_dynamic pr)) \<inter> H = {}"

definition rv_set_up :: "nat \<Rightarrow> geometry list \<Rightarrow> (nat \<times> nat) renderer_builder \<Rightarrow> RendererVulkan \<Rightarrow> vk_world \<Rightarrow> bool" where
  "rv_set_up n gs builder r w \<longleftrightarrow>
     (let bm = rv_buffers r; im = rv_images r; pr = rv_processor r; nb = length (b_buffer_resources builder);
          rs = clone_resources builder in
      inputs_allocated gs (rv_inputs r) bm w \<and> components_set rs bm w \<and> length (bm_components bm) = nb \<and>
      component_handles bm \<inter> geometry_buffers bm = {} \<and> new_slots gs pr w \<and>
      slots_apart pr (geometry_buffers bm \<union> component_handles bm) \<and>
      textures_set rs [nb..<length rs] im w \<and> targets_ready n (rv_pass r) (rv_pipeline r) im pr w \<and> descriptors_set n bm im pr w \<and>
      pool_ready n (pr_commands pr) \<and> pr_draw_cache pr = [] \<and> admin_wf n (pr_frame_admin pr) \<and> n \<le> frame_depth (pr_frame_admin pr) \<and>
      length (rv_resources r) = length rs \<and> (\<forall>j<length rs. same_access (rs ! j) (rv_resources r ! j)) \<and>
      map_of (objects w) (pm_set_layout (rv_pipeline r)) = Some (DescriptorSetLayoutObject (map (resource_binding nb) [0..<length rs])))"

lemma initialise_components: "bm_components bm = [] \<Longrightarrow> buffer_manager_initialise is bm = bm\<lparr>bm_components := map (Pair vk_buffer_null) is\<rparr>"
proof -
  have "buffer_manager_initialise is bm = bm\<lparr>bm_components := bm_components bm @ map (Pair vk_buffer_null) is\<rparr>"
    unfolding buffer_manager_initialise_def by (induction "is" arbitrary: bm) simp_all
  then show "bm_components bm = [] \<Longrightarrow> ?thesis" by simp
qed

lemma component_at: "h \<in> component_handles bm \<Longrightarrow> \<exists>i<length (bm_components bm). h = vb_buffer (fst (bm_components bm ! i))"
  by (force simp: component_handles_def in_set_conv_nth)

text \<open>The uniform buffers are not those of the inputs.\<close>

lemma components_apart:
  assumes "components_set rs (bm\<lparr>bm_components := cs\<rparr>) w'" "\<forall>h\<in>component_handles (bm\<lparr>bm_components := cs\<rparr>). map_of (storages w) h = None"
    and "inputs_allocated gs inps bm w"
  shows "component_handles (bm\<lparr>bm_components := cs\<rparr>) \<inter> geometry_buffers bm = {}"
proof -
  have "h = VK_NULL_HANDLE \<or> map_of (storages w) h \<noteq> None" if "h \<in> geometry_buffers bm" for h
    using assms(3) that
    by (auto simp: inputs_allocated_def static_allocated_def dynamic_ready_def batch_ok_def geometry_buffers_def vk_buffer_null_def
      allocated_def owned_def owns_def split: if_splits)
  moreover have "h \<noteq> VK_NULL_HANDLE" if "h \<in> component_handles (bm\<lparr>bm_components := cs\<rparr>)" for h
    using assms(1) component_at [OF that] by (auto simp: components_set_def component_set_def owned_def owns_def)
  ultimately show ?thesis using assms(2) by blast
qed

text \<open>The buffers of the inputs and of the resources.\<close>

lemma setup_buffers_returns:
  assumes doc: "vk_documented drv" and wf: "vk_wf w" and b: "vk_builder_ready gs builder (vk_memory w)"
  shows "returns (setup_buffers d drv (b_inputs builder) (clone_resources builder)
      (buffer_manager_initialise [0..<length (b_buffer_resources builder)] buffer_manager_new) w) (\<lambda>(inps, rs, bm, w').
    grows w w' \<and> inputs_allocated gs inps bm w' \<and> components_set (clone_resources builder) bm w' \<and>
    length (bm_components bm) = length (b_buffer_resources builder) \<and> component_handles bm \<inter> geometry_buffers bm = {} \<and>
    (\<forall>h\<in>geometry_buffers bm \<union> component_handles bm. map_of (storages w) h = None) \<and>
    length rs = length (clone_resources builder) \<and> (\<forall>j<length rs. same_access (clone_resources builder ! j) (rs ! j)))"
proof -
  let ?nb = "length (b_buffer_resources builder)" and ?rs = "clone_resources builder"
  let ?bm = "buffer_manager_new\<lparr>bm_components := map (Pair vk_buffer_null) [0..<?nb]\<rparr>"
  have init: "buffer_manager_initialise [0..<?nb] buffer_manager_new = ?bm"
    by (rule initialise_components) (simp add: buffer_manager_new_def)
  note bd = b [unfolded vk_builder_ready_def]
  have null: "bm_vertex ?bm = vk_buffer_null" "bm_index ?bm = vk_buffer_null" "bm_dynamic_vertex ?bm = vk_buffer_null"
    "bm_dynamic_index ?bm = vk_buffer_null" by (simp_all add: buffer_manager_new_def)
  have "all_geometry (vk_memory w) (b_inputs builder) = Inr gs" "\<forall>inp\<in>set (b_inputs builder). wf_input inp \<and> is_unmapped inp"
    "length (of_access gs DynamicFixed) \<le> 1" "nonempty_batch gs" using bd by simp_all
  from setup_inputs_returns [OF doc wf this null, of d] obtain inps bm1 w1 where 1: "(if b_inputs builder \<noteq> []
       then and_then (vk_compile_data (vk_memory w) (b_inputs builder)) (\<lambda>c. and_then (setup_static_buffers d drv c ?bm w) (\<lambda>(bm, w).
            setup_dynamic_buffers d drv c (b_inputs builder) bm w)) else Inr (b_inputs builder, ?bm, w)) = Inr (inps, bm1, w1)"
    "grows w w1" "inputs_allocated gs inps bm1 w1" "\<forall>h\<in>geometry_buffers bm1. map_of (storages w) h = None"
    "bm_components bm1 = map (Pair vk_buffer_null) [0..<?nb]"
    by (auto elim!: returnsE)
  have rs: "?nb \<le> length ?rs" "\<forall>i<?nb. vk_buffer_ready (?rs ! i)" using bd by (simp_all add: clone_resources_append nth_append)
  obtain rs2 cs w2 where 2: "for_each (setup_component d drv) [0..<?nb] (?rs, bm1, w1) = Inr (rs2, bm1\<lparr>bm_components := cs\<rparr>, w2)" "grows w1 w2"
    "length cs = ?nb" "components_set ?rs (bm1\<lparr>bm_components := cs\<rparr>) w2"
    "\<forall>h\<in>component_handles (bm1\<lparr>bm_components := cs\<rparr>). map_of (storages w1) h = None" "length rs2 = length ?rs"
    "\<forall>j<length ?rs. same_access (?rs ! j) (rs2 ! j)"
    using setup_components_returns [OF doc grows_wf [OF 1(2)] 1(5) rs, of d] by (auto elim!: returnsE)
  let ?bm2 = "bm1\<lparr>bm_components := cs\<rparr>"
  have g: "geometry_buffers ?bm2 = geometry_buffers bm1" by (simp add: geometry_buffers_def)
  have "inputs_allocated gs inps ?bm2 w2"
    using inputs_allocated_grows [OF 1(3) 2(2)] by (simp add: inputs_allocated_def static_handles_def dynamic_handles_def)
  moreover have "component_handles ?bm2 \<inter> geometry_buffers ?bm2 = {}"
    using components_apart [OF 2(4,5) 1(3)] unfolding g .
  moreover have "\<forall>h\<in>component_handles ?bm2. map_of (storages w) h = None" using 2(5) grows_fresh [OF 1(2)] by blast
  moreover have "setup_buffers d drv (b_inputs builder) ?rs ?bm w = Inr (inps, rs2, ?bm2, w2)"
    using 1(1,5) 2(1) by (cases "b_inputs builder = []") (simp_all add: setup_buffers_def)
  ultimately show ?thesis
    using 1(4) 2(3,4,6,7) grows_trans [OF 1(2) 2(2)] unfolding init by (simp add: g ball_Un)
qed

lemma resource_counts:
  assumes "\<forall>res\<in>set bs. vk_buffer_ready res" "\<forall>res\<in>set ts. texture_ready res" "length rs = length (bs @ ts)"
    and "\<forall>j<length rs. same_access ((bs @ ts) ! j) (rs ! j)"
  shows "resource_count_of BufferType rs = length bs" "resource_count_of TextureType rs = length ts"
proof -
  have ty: "map resource_get_type rs = replicate (length bs) BufferType @ replicate (length ts) TextureType"
  proof (rule nth_equalityI)
    fix i assume i: "i < length (map resource_get_type rs)"
    have "(bs @ ts) ! i \<in> set (if i < length bs then bs else ts)" using i assms(3) by (simp add: nth_append)
    then have "if i < length bs then vk_buffer_ready ((bs @ ts) ! i) else texture_ready ((bs @ ts) ! i)" using assms(1,2) by (simp split: if_splits)
    moreover have "same_access ((bs @ ts) ! i) (rs ! i)" using assms(4) i by simp
    ultimately have "resource_get_type (rs ! i) = (if i < length bs then BufferType else TextureType)"
      by (cases "rs ! i"; cases "(bs @ ts) ! i")
        (auto simp: vk_buffer_ready_def texture_ready_def same_access_def resource_data_access_def resource_get_type_def split: if_splits)
    then show "map resource_get_type rs ! i = (replicate (length bs) BufferType @ replicate (length ts) TextureType) ! i"
      using i assms(3) by (simp add: nth_append)
  qed (simp add: assms(3))
  have "resource_count_of t rs = length (filter (\<lambda>x. x = t) (map resource_get_type rs))" for t
  proof -
    have "fold (\<lambda>r init. if resource_get_type r = t then init + 1 else init) rs n = n + length (filter (\<lambda>x. x = t) (map resource_get_type rs))" for n
      by (induction rs arbitrary: n) auto
    then show ?thesis by (simp add: resource_count_of_def)
  qed
  then show "resource_count_of BufferType rs = length bs" "resource_count_of TextureType rs = length ts" unfolding ty by simp_all
qed

lemma components_set_grows: "components_set rs bm w \<Longrightarrow> grows w w' \<Longrightarrow> components_set rs bm w'"
  unfolding components_set_def using component_set_grows by blast

lemma new_slots_apart:
  assumes "new_slots gs pr w" "\<forall>h\<in>H. map_of (storages w) h = None" shows "slots_apart pr H"
  using assms by (auto simp: slots_apart_def new_slots_def slot_handles_def owned_def owns_def)

text \<open>The images: textures, depth image and framebuffers.\<close>

lemma setup_images_returns:
  assumes doc: "vk_documented drv" and wf: "vk_wf w" and info: "info_ready d info n"
    and im: "im_textures im = []" "im_depth_image im = None" "im_depth_view im = None" "im_framebuffers im = []"
      "di_headless info \<longrightarrow> im_offscreen_view im \<noteq> None"
    and res: "\<forall>i\<in>set is. i < length rs \<and> texture_ready (rs ! i)"
    and live: "live_object w (rp_native pass)" "live_object w (pm_pipeline pm)" "pm_pipeline pm \<noteq> rp_native pass"
  shows "returns (and_then (image_manager_initialise d drv rs is im w) (\<lambda>(im, w).
      and_then (if depth then setup_depth_image d drv info im w else Inr (im, w)) (\<lambda>(im, w).
      setup_swapchain_framebuffers d drv info pass im w))) (\<lambda>(im', w'). grows w w' \<and> textures_set rs is im' w' \<and>
    (\<forall>pr. pr_descriptors pr = None \<longrightarrow> targets_ready n pass pm im' pr w') \<and> im_offscreen_view im' = im_offscreen_view im)"
proof -
  obtain ts w1 where 1: "image_manager_initialise d drv rs is im w = Inr (im\<lparr>im_textures := ts\<rparr>, w1)" "grows w w1"
    "textures_set rs is (im\<lparr>im_textures := ts\<rparr>) w1"
    using image_initialise_returns [OF doc wf im(1) res, of d] by (auto elim!: returnsE)
  let ?im1 = "im\<lparr>im_textures := ts\<rparr>"
  have d1: "im_depth_image ?im1 = None" "im_depth_view ?im1 = None" using im by simp_all
  obtain i v w2 where 2: "(if depth then setup_depth_image d drv info ?im1 w1 else Inr (?im1, w1)) =
      Inr (?im1\<lparr>im_depth_image := i, im_depth_view := v\<rparr>, w2)" "grows w1 w2" "\<forall>x\<in>set_option v. live_object w2 x \<and> \<not> live_object w1 x"
    using first_depth_image [OF doc grows_wf [OF 1(2)] info d1, of depth] by (auto elim!: returnsE)
  let ?im2 = "?im1\<lparr>im_depth_image := i, im_depth_view := v\<rparr>" and ?K = "{rp_native pass, pm_pipeline pm} \<union> set_option v"
  have l1: "live_object w1 (rp_native pass)" "live_object w1 (pm_pipeline pm)" using grows_live [OF 1(2)] live by blast+
  then have K: "\<forall>h\<in>?K. live_object w2 h" "v \<noteq> None \<longrightarrow> the v \<notin> {rp_native pass, pm_pipeline pm}"
    using grows_live [OF 2(2)] 2(3) by auto
  have f: "di_headless info \<longrightarrow> im_offscreen_view ?im2 \<noteq> None" "im_framebuffers ?im2 = []" using im by simp_all
  obtain fs w3 where 3: "setup_swapchain_framebuffers d drv info pass ?im2 w2 = Inr (?im2\<lparr>im_framebuffers := fs\<rparr>, w3)" "grows w2 w3"
    "length fs = n" "\<forall>f\<in>set fs. live_object w3 f \<and> f \<notin> ?K"
    using first_framebuffers [OF doc grows_wf [OF 2(2)] info f K(1), of pass] by (auto elim!: returnsE)
  let ?im3 = "?im2\<lparr>im_framebuffers := fs\<rparr>"
  have "textures_set rs is ?im3 w3" using textures_set_grows [OF 1(3) grows_trans [OF 2(2) 3(2)]] by (simp add: textures_set_def)
  moreover have "targets_ready n pass pm ?im3 pr w3" if "pr_descriptors pr = None" for pr
    using that 3(3,4) K grows_live [OF 3(2)] live(3) by (auto simp: targets_ready_def)
  ultimately show ?thesis
    using 1(1) 2(1) 3(1) grows_trans [OF 1(2) grows_trans [OF 2(2) 3(2)]] by (cases depth) simp_all
qed

lemma set_up_state:
  fixes builder :: "(nat \<times> nat) renderer_builder" and pr :: RendererProcessorVulkan
  defines "nb \<equiv> length (b_buffer_resources builder)" and "rs \<equiv> clone_resources builder"
  assumes m: "members_ready n gs builder r w" and g1: "grows w w1" and bm: "inputs_allocated gs inps bm w1" "components_set rs bm w1"
    "length (bm_components bm) = nb" "component_handles bm \<inter> geometry_buffers bm = {}"
    "\<forall>h\<in>geometry_buffers bm \<union> component_handles bm. map_of (storages w) h = None"
    and rs': "length rs' = length rs" "\<forall>j<length rs'. same_access (rs ! j) (rs' ! j)"
    and g2: "grows w1 w2" and im: "textures_set rs' [nb..<length rs'] im w2"
      "\<forall>pr. pr_descriptors pr = None \<longrightarrow> targets_ready n (rv_pass r) (rv_pipeline r) im pr w2"
    and g3: "grows w2 w3" and ds: "descriptors_set n bm im ((rv_processor r)\<lparr>pr_descriptors := p\<rparr>) w3"
    and tex: "\<forall>i\<in>set [nb..<length rs']. rs' ! i = rs ! i"
  shows "rv_set_up n gs builder (r\<lparr>rv_inputs := inps, rv_resources := rs', rv_buffers := bm, rv_images := im,
    rv_processor := (rv_processor r)\<lparr>pr_descriptors := p\<rparr>\<rparr>) w3"
proof -
  let ?pr = "rv_processor r"
  note md = m [unfolded members_ready_def]
  have g: "grows w1 w3" "grows w w3" using grows_trans [OF g2 g3] grows_trans [OF g1] by blast+
  have slots: "new_slots gs ?pr w" "pr_descriptors ?pr = None" using md by (simp_all add: new_processor_def)
  have apart: "slots_apart ?pr (geometry_buffers bm \<union> component_handles bm)" by (rule new_slots_apart [OF slots(1) bm(5)])
  have "targets_ready n (rv_pass r) (rv_pipeline r) im ?pr w3"
    by (rule targets_ready_kept [where C = UNIV and w = w2]) (use im(2) slots(2) g3 in \<open>simp_all add: grows_def\<close>)
  then have "targets_ready n (rv_pass r) (rv_pipeline r) im (?pr\<lparr>pr_descriptors := p\<rparr>) w3"
    using ds by (auto simp: targets_ready_def descriptors_set_def split: option.splits if_splits)
  moreover have "textures_set rs [nb..<length rs] im w3"
    using textures_set_cong [OF textures_set_grows [OF im(1) g3] tex] rs'(1) by simp
  moreover have "map_of (objects w3) (pm_set_layout (rv_pipeline r)) = Some (DescriptorSetLayoutObject (map (resource_binding nb) [0..<length rs]))"
    using md g(2) by (auto simp: grows_def keeps_rest_def nb_def rs_def clone_resources_append)
  ultimately show ?thesis
    using md bm(3,4) rs' ds apart inputs_allocated_grows [OF bm(1) g(1)] components_set_grows [OF bm(2) g(1)] new_slots_grows [OF slots(1) g(2)]
    by (simp add: rv_set_up_def Let_def new_processor_def slots_apart_def new_slots_def nb_def [symmetric] rs_def [symmetric])
qed

lemma rv_setup_returns:
  assumes doc: "vk_documented drv" and wf: "vk_wf w" and info: "info_ready d info n" and b: "vk_builder_ready gs builder (vk_memory w)"
    and m: "members_ready n gs builder r w" "has_window info r"
  shows "returns (rv_setup d drv info builder r w) (\<lambda>(r', w'). rv_set_up n gs builder r' w' \<and> has_window info r')"
proof -
  let ?nb = "length (b_buffer_resources builder)" and ?rs = "clone_resources builder" and ?pr = "rv_processor r"
  note md = m(1) [unfolded members_ready_def] and bd = b [unfolded vk_builder_ready_def]
  have len: "length ?rs = ?nb + length (b_texture_resources builder)" by (simp add: clone_resources_append)
  obtain inps rs bm w1 where 1: "setup_buffers d drv (rv_inputs r) ?rs (buffer_manager_initialise [0..<?nb] (rv_buffers r)) w = Inr (inps, rs, bm, w1)"
    "grows w w1" "inputs_allocated gs inps bm w1" "components_set ?rs bm w1" "length (bm_components bm) = ?nb"
    "component_handles bm \<inter> geometry_buffers bm = {}" "\<forall>h\<in>geometry_buffers bm \<union> component_handles bm. map_of (storages w) h = None"
    "length rs = length ?rs" "\<forall>j<length rs. same_access (?rs ! j) (rs ! j)"
    using setup_buffers_returns [OF doc wf b, of d] md by (auto elim!: returnsE)
  have tex: "i < length rs \<and> texture_ready (rs ! i)" "rs ! i = ?rs ! i" if "i \<in> set [?nb..<length rs]" for i
  proof -
    have "?rs ! i \<in> set (b_texture_resources builder)" using that 1(8) len by (auto simp: clone_resources_append nth_append)
    then have "texture_ready (?rs ! i)" using bd by blast
    moreover from this show "rs ! i = ?rs ! i"
      using 1(9) that by (auto simp: same_access_def texture_ready_def resource_data_access_def split: Resource.splits)
    ultimately show "i < length rs \<and> texture_ready (rs ! i)" using that by simp
  qed
  have live: "live_object w1 (rp_native (rv_pass r))" "live_object w1 (pm_pipeline (rv_pipeline r))"
    using md grows_live [OF 1(2)] by blast+
  obtain im w2 where 2: "and_then (image_manager_initialise d drv rs [?nb..<length rs] (rv_images r) w1) (\<lambda>(im, w).
      and_then (if rv_requires_depth r then setup_depth_image d drv info im w else Inr (im, w)) (\<lambda>(im, w).
      setup_swapchain_framebuffers d drv info (rv_pass r) im w)) = Inr (im, w2)" "grows w1 w2" "textures_set rs [?nb..<length rs] im w2"
    "\<forall>pr. pr_descriptors pr = None \<longrightarrow> targets_ready n (rv_pass r) (rv_pipeline r) im pr w2"
    "im_offscreen_view im = im_offscreen_view (rv_images r)"
    using setup_images_returns [OF doc grows_wf [OF 1(2)] info, of "rv_images r" "[?nb..<length rs]" rs "rv_pass r" "rv_pipeline r" "rv_requires_depth r"]
      md m(2) live tex by (auto simp: has_window_def elim!: returnsE)
  have c2: "components_set ?rs bm w2" by (rule components_set_grows [OF 1(4) 2(2)])
  have counts: "length (bm_components bm) = resource_count_of BufferType rs" "length (im_textures im) = resource_count_of TextureType rs"
    "length rs = length (bm_components bm) + length (im_textures im)"
    using resource_counts [of "b_buffer_resources builder" "b_texture_resources builder" rs] bd 1(5,8,9) len
      arg_cong [of _ _ length, OF conjunct1 [OF 2(3) [unfolded textures_set_def]]] by (simp_all add: clone_resources_append)
  have none: "pr_descriptors ?pr = None" using md by (simp add: new_processor_def)
  obtain p w3 where 3: "initialise_resource_descriptors d drv info (rv_pipeline r) bm im rs ?pr w2 = Inr (?pr\<lparr>pr_descriptors := p\<rparr>, w3)"
    "grows w2 w3" "descriptors_set n bm im (?pr\<lparr>pr_descriptors := p\<rparr>) w3"
    using resource_descriptors_returns [OF doc grows_wf [OF 2(2)] info none c2 counts, of "rv_pipeline r"] by (auto elim!: returnsE)
  let ?r = "r\<lparr>rv_inputs := inps, rv_resources := rs, rv_buffers := bm, rv_images := im, rv_processor := ?pr\<lparr>pr_descriptors := p\<rparr>\<rparr>"
  obtain im1 v1 im2 v2 where "image_manager_initialise d drv rs [?nb..<length rs] (rv_images r) w1 = Inr (im1, v1)"
    "(if rv_requires_depth r then setup_depth_image d drv info im1 v1 else Inr (im1, v1)) = Inr (im2, v2)"
    "setup_swapchain_framebuffers d drv info (rv_pass r) im2 v2 = Inr (im, w2)"
    using 2(1) by (auto simp: outcome_simps)
  then have "rv_setup d drv info builder r w = Inr (?r, w3)"
    using 1(1) 3(1) by (cases "rv_requires_depth r") (simp_all add: rv_setup_def Let_def)
  moreover have "rv_set_up n gs builder ?r w3"
    using set_up_state [OF m(1) 1(2-9) 2(2-4) 3(2,3)] tex(2) by simp
  ultimately show ?thesis using m(2) 2(5) by (simp add: has_window_def)
qed

end
