(* ===== verification/Vk_Scratch.thy ===== *)
theory Vk_Scratch
  imports Vk_Resources
begin

text \<open>
  The scratch commands at the end of the constructor of \<open>RendererVulkan\<close>: the upload of the
  static inputs, of the static uniform buffers and of the textures, and the first draw list.  They
  make the renderer ready, with the list that draws every input once.
\<close>

section \<open>Gathering the inputs\<close>

text \<open>Memory that changed only inside some blocks, none of which was resized.\<close>

definition same_off :: "nat set \<Rightarrow> memory \<Rightarrow> memory \<Rightarrow> bool" where
  "same_off B mem mem' \<longleftrightarrow> (\<forall>b. b \<notin> B \<longrightarrow> mem' b = mem b) \<and>
     (\<forall>b\<in>B. map_option length (mem' b) = map_option length (mem b))"

lemma same_off_refl [simp]: "same_off B mem mem"
  by (simp add: same_off_def)

lemma same_off_geometry:
  assumes "input_geometry mem inp = Inr g" "input_blocks inp \<inter> B = {}" "same_off B mem mem'"
  shows "input_geometry mem' inp = Inr g"
proof -
  have "\<forall>b\<in>input_blocks inp. mem' b = mem b" using assms(2,3) by (auto simp: same_off_def)
  then show ?thesis using input_geometry_blocks [of inp mem' mem] assms(1) by simp
qed

text \<open>The cursor behind a number of commands written to a staging buffer, when there is one.\<close>

definition cursor :: "nat option \<Rightarrow> nat \<Rightarrow> ptr option" where
  "cursor a k = map_option (\<lambda>a. \<lparr>block = a, offset = 20 * k\<rparr>) a"

definition room_for :: "memory \<Rightarrow> nat option \<Rightarrow> nat \<Rightarrow> bool" where
  "room_for mem a k \<longleftrightarrow> (\<forall>a\<in>set_option a. \<exists>bs. mem a = Some bs \<and> length bs = 20 * k)"

lemma write_command_returns:
  assumes "same_off B mem mem'" "room_for mem a n" "set_option a \<subseteq> B" "k < n"
  shows "\<exists>mem''. write_command (cursor a k) cmd mem' = Inr (cursor a (Suc k), mem'') \<and> same_off B mem mem''"
proof (cases a)
  case (Some b)
  then obtain bs where "mem b = Some bs" "length bs = 20 * n" "b \<in> B" using assms(2,3) by (auto simp: room_for_def)
  moreover from this obtain bs' where "mem' b = Some bs'" "length bs' = 20 * n"
    using assms(1) by (cases "mem' b") (auto simp: same_off_def)
  ultimately show ?thesis
    using Some assms(1,4)
    by (auto simp: write_command_def cursor_def mem_write_def length_command_bytes byte_ptr_add_def
        sizeof_DrawIndirectCommand_def same_off_def length_overwrite)
qed (use assms(1) in \<open>auto simp: write_command_def cursor_def\<close>)

text \<open>The state after the first inputs.\<close>

definition gathered :: "memory \<Rightarrow> geometry list \<Rightarrow> nat option \<Rightarrow> nat option \<Rightarrow> nat \<Rightarrow> scratch_state \<Rightarrow> bool" where
  "gathered mem gs sa da k s \<longleftrightarrow>
     sc_vertices s = concat (map g_vertices (prefix_of gs StaticFixed k)) \<and>
     sc_indices s = concat (map g_indices (prefix_of gs StaticFixed k)) \<and>
     sc_index_count s = of_nat (length (sc_indices s)) \<and>
     sc_cmd s = cursor sa (length (prefix_of gs StaticFixed k)) \<and>
     sc_dyn_cmd s = cursor da (length (prefix_of gs DynamicFixed k)) \<and>
     same_off (set_option sa \<union> set_option da) mem (sc_memory s)"

lemma prefix_less: "k < length gs \<Longrightarrow> g_access (gs ! k) = a \<Longrightarrow> length (prefix_of gs a k) < length (of_access gs a)"
  using filter_prefix_split(2) [of k gs "\<lambda>g. g_access g = a"] by (simp add: prefix_of_def of_access_def)

lemma scratch_input_returns:
  assumes all: "all_geometry mem inps = Inr gs" and k: "k < length inps"
    and apart: "input_blocks (inps ! k) \<inter> (set_option sa \<union> set_option da) = {}"
    and room: "room_for mem sa (length (of_access gs StaticFixed))" "room_for mem da (length (of_access gs DynamicFixed))"
    and s: "gathered mem gs sa da k s"
  shows "\<exists>s'. scratch_input (inps ! k) s = Inr s' \<and> gathered mem gs sa da (Suc k) s'"
proof -
  let ?B = "set_option sa \<union> set_option da" and ?n = "\<lambda>a. length (prefix_of gs a k)"
  have len: "k < length gs" using k all_geometry_length [OF all] by simp
  have g: "input_geometry (sc_memory s) (inps ! k) = Inr (gs ! k)"
    using same_off_geometry [OF all_geometry_nth [OF all k] apart] s by (simp add: gathered_def)
  have off: "same_off ?B mem (sc_memory s)" using s by (simp add: gathered_def)
  note steps = scratch_input_def gathered_def prefix_of_Suc [OF len] input_counts [OF g]
    g [unfolded input_geometry_Inr_iff, THEN conjunct1] g [unfolded input_geometry_Inr_iff, THEN conjunct2, THEN conjunct1]
    g_index_count_def
  show ?thesis
  proof (cases "g_access (gs ! k)")
    case StaticFixed
    obtain m where "write_command (cursor sa (?n StaticFixed)) \<lparr>draw_count = of_nat (length (g_indices (gs ! k))), instanceCount = 1,
        firstIndex = sc_index_count s, baseVertex = sc_vertex_count s, baseInstance = 0\<rparr> (sc_memory s) =
      Inr (cursor sa (Suc (?n StaticFixed)), m)" "same_off ?B mem m"
      using write_command_returns [OF off room(1) _ prefix_less [OF len StaticFixed]] by blast
    then show ?thesis using s StaticFixed by (simp add: steps)
  next
    case DynamicFixed
    obtain m where "write_command (cursor da (?n DynamicFixed)) \<lparr>draw_count = of_nat (length (g_indices (gs ! k))), instanceCount = 1,
        firstIndex = sc_dyn_index_count s, baseVertex = sc_dyn_vertex_count s, baseInstance = 0\<rparr> (sc_memory s) =
      Inr (cursor da (Suc (?n DynamicFixed)), m)" "same_off ?B mem m"
      using write_command_returns [OF off room(2) _ prefix_less [OF len DynamicFixed]] by blast
    then show ?thesis using s DynamicFixed by (simp add: steps)
  qed
qed

lemma scratch_loop_returns:
  assumes all: "all_geometry mem inps = Inr gs"
    and apart: "\<forall>inp\<in>set inps. input_blocks inp \<inter> (set_option sa \<union> set_option da) = {}"
    and room: "room_for mem sa (length (of_access gs StaticFixed))" "room_for mem da (length (of_access gs DynamicFixed))"
  shows "returns (for_each scratch_input inps
       \<lparr>sc_vertices = [], sc_indices = [], sc_cmd = cursor sa 0, sc_dyn_cmd = cursor da 0, sc_index_count = 0, sc_vertex_count = 0,
        sc_dyn_index_count = 0, sc_dyn_vertex_count = 0, sc_memory = mem\<rparr>)
    (\<lambda>s. sc_vertices s = batch_vertices gs StaticFixed \<and> sc_indices s = batch_indices gs StaticFixed \<and>
       sc_index_count s = of_nat (length (batch_indices gs StaticFixed)) \<and>
       same_off (set_option sa \<union> set_option da) mem (sc_memory s))" (is "returns (for_each _ _ ?s0) _")
proof -
  have "\<exists>s. for_each scratch_input inps ?s0 = Inr s \<and> gathered mem gs sa da (length inps) s"
  proof (rule for_each_invariant_list [where I = "\<lambda>ys. gathered mem gs sa da (length ys)"])
    fix ys inp zs s assume split: "inps = ys @ inp # zs" and s: "gathered mem gs sa da (length ys) s"
    then have "inps ! length ys = inp" "length ys < length inps" by simp_all
    then show "\<exists>s'. scratch_input inp s = Inr s' \<and> gathered mem gs sa da (length (ys @ [inp])) s'"
      using scratch_input_returns [OF all _ _ room s] apart by (metis length_append_singleton nth_mem)
  qed (simp add: gathered_def prefix_of_def)
  moreover have "prefix_of gs StaticFixed (length inps) = of_access gs StaticFixed"
    using all_geometry_length [OF all] by (simp add: prefix_of_def of_access_def)
  ultimately show ?thesis by (auto simp: gathered_def batch_vertices_def batch_indices_def)
qed

section \<open>Staging buffers\<close>

text \<open>A host-visible buffer before it is mapped, and while it is.\<close>

definition hosted :: "vk_world \<Rightarrow> VulkanBuffer \<Rightarrow> nat \<Rightarrow> bool" where
  "hosted w b n \<longleftrightarrow> (\<exists>s. owns w b s \<and> sto_maps s = 0 \<and> sto_host s \<and> length (sto_bytes s) = n)"

definition lent :: "vk_world \<Rightarrow> VulkanBuffer \<Rightarrow> nat \<Rightarrow> bool" where
  "lent w b n \<longleftrightarrow> (\<exists>s bs. map_of (storages w) (vb_buffer b) = Some s \<and> sto_allocation s = vb_alloc b \<and>
     vb_buffer b \<noteq> VK_NULL_HANDLE \<and> vb_persistent b = None \<and> sto_maps s = 1 \<and>
     vk_memory w (vb_alloc b) = Some bs \<and> length bs = n)"

lemma hosted_kept: "hosted w b n \<Longrightarrow> keeps_buffers S w w' \<Longrightarrow> vb_buffer b \<notin> S \<Longrightarrow> hosted w' b n"
  unfolding hosted_def using owns_kept by blast

lemma lent_kept: "lent w b n \<Longrightarrow> keeps_buffers S w w' \<Longrightarrow> vb_buffer b \<notin> S \<Longrightarrow> lent w' b n"
  unfolding lent_def keeps_buffers_def by metis

lemma lent_write: "lent w b n \<Longrightarrow> same_off B (vk_memory w) mem \<Longrightarrow> lent (w\<lparr>vk_memory := mem\<rparr>) b n"
proof -
  assume b: "lent w b n" and off: "same_off B (vk_memory w) mem"
  then obtain bs where "vk_memory w (vb_alloc b) = Some bs" "length bs = n" by (auto simp: lent_def)
  moreover have "map_option length (mem (vb_alloc b)) = map_option length (vk_memory w (vb_alloc b))"
    using off by (cases "vb_alloc b \<in> B") (simp_all add: same_off_def)
  ultimately have "\<exists>bs. mem (vb_alloc b) = Some bs \<and> length bs = n" by auto
  then show ?thesis using b by (auto simp: lent_def)
qed

lemma lent_write_keeps:
  assumes "vk_wf w" "\<forall>b\<in>T. lent w b (n b)" "same_off (vb_alloc ` T) (vk_memory w) mem"
  shows "vk_wf (w\<lparr>vk_memory := mem\<rparr>)" "keeps_buffers (vb_buffer ` T) w (w\<lparr>vk_memory := mem\<rparr>)"
    "same_objects w (w\<lparr>vk_memory := mem\<rparr>)"
proof -
  show "keeps_buffers (vb_buffer ` T) w (w\<lparr>vk_memory := mem\<rparr>)"
    unfolding keeps_buffers_def
  proof (intro allI impI)
    fix h s assume h: "h \<notin> vb_buffer ` T" "map_of (storages w) h = Some s"
    have "sto_allocation s \<noteq> vb_alloc b" if b: "b \<in> T" for b
    proof
      assume eq: "sto_allocation s = vb_alloc b"
      obtain t where "map_of (storages w) (vb_buffer b) = Some t" "sto_allocation t = vb_alloc b"
        using assms(2) b by (auto simp: lent_def)
      then have "h = vb_buffer b" using assms(1) h(2) eq unfolding vk_wf_def by metis
      then show False using h(1) b by blast
    qed
    then have "sto_allocation s \<notin> vb_alloc ` T" by blast
    then show "map_of (storages (w\<lparr>vk_memory := mem\<rparr>)) h = Some s \<and>
      vk_memory (w\<lparr>vk_memory := mem\<rparr>) (sto_allocation s) = vk_memory w (sto_allocation s)"
      using h(2) assms(3) by (simp add: same_off_def)
  qed
qed (use assms(1) in \<open>simp_all add: vk_wf_def same_objects_def\<close>)

lemma draw_staging_returns:
  assumes doc: "vk_documented drv" and wf: "vk_wf w"
  shows "returns (draw_staging d drv n w) (\<lambda>(st, w'). vk_wf w' \<and> keeps_buffers {} w w' \<and> same_objects w w' \<and>
    (\<forall>b\<in>set_option st. map_of (storages w) (vb_buffer b) = None \<and> hosted w' b (20 * n)))"
proof (cases "0 < n")
  case True
  obtain b w' s where "vk_buffer_new d drv StagingBuffer TransferSource CPU (20 * n) w = Inr (b, w')" "vk_wf w'" "owns w' b s"
    "keeps_buffers {} w w'" "same_objects w w'" "map_of (storages w) (vb_buffer b) = None"
    "sto_host s" "sto_maps s = 0" "length (sto_bytes s) = 20 * n"
    by (rule vk_buffer_new_effect [OF doc _ wf, of "20 * n" TransferSource StagingBuffer d CPU]) (use True in auto)
  then show ?thesis using True by (auto simp: draw_staging_def sizeof_DrawIndirectCommand_def hosted_def)
qed (use wf in \<open>simp add: draw_staging_def\<close>)

lemma map_staging_returns:
  assumes wf: "vk_wf w" and st: "\<forall>b\<in>set_option st. hosted w b n"
  shows "returns (map_staging d st w) (\<lambda>(p, w'). vk_wf w' \<and> keeps_buffers (slot_handles st) w w' \<and> same_objects w w' \<and>
    p = cursor (map_option vb_alloc st) 0 \<and> (\<forall>b\<in>set_option st. lent w' b n))"
proof (cases st)
  case (Some b)
  then obtain s where s: "owns w b s" "sto_maps s = 0" "sto_host s" "length (sto_bytes s) = n" using st by (auto simp: hosted_def)
  define w' where "w' = w\<lparr>storages := AList.update (vb_buffer b) (s\<lparr>sto_maps := 1\<rparr>) (storages w),
    vk_memory := (vk_memory w)(vb_alloc b \<mapsto> sto_bytes s)\<rparr>"
  have m: "map_of (storages w') = (map_of (storages w))(vb_buffer b \<mapsto> s\<lparr>sto_maps := 1\<rparr>)" by (simp add: w'_def update_conv')
  have "map_staging d st w = Inr (Some \<lparr>block = vb_alloc b, offset = 0\<rparr>, w')"
    using Some s by (simp add: map_staging_def vk_buffer_map_memory_def ensure_notnull_def vk_buffer_is_null_def owns_def
        vma_map_memory_def w'_def)
  moreover have "vk_wf w'" using wf s(1) by (auto simp: vk_wf_def m owns_def split: if_splits)
  moreover have "keeps_buffers (slot_handles st) w w'"
    using wf s(1) Some by (auto simp: keeps_buffers_def m vk_wf_def owns_def w'_def slot_handles_def)
  moreover have "lent w' b n" "same_objects w w'" using s by (simp_all add: lent_def owns_def m same_objects_def) (simp_all add: w'_def)
  ultimately show ?thesis using Some by (simp add: cursor_def)
qed (use wf in \<open>simp add: map_staging_def cursor_def\<close>)

lemma unmap_staging_returns:
  assumes wf: "vk_wf w" and st: "\<forall>b\<in>set_option st. lent w b n"
  shows "returns (unmap_staging d st w) (\<lambda>w'. vk_wf w' \<and> keeps_buffers (slot_handles st) w w' \<and> same_objects w w' \<and>
    (\<forall>b\<in>set_option st. owned w' b))"
proof (cases st)
  case (Some b)
  then obtain s bs where s: "map_of (storages w) (vb_buffer b) = Some s" "sto_allocation s = vb_alloc b"
    "vb_buffer b \<noteq> VK_NULL_HANDLE" "vb_persistent b = None" "sto_maps s = 1" "vk_memory w (vb_alloc b) = Some bs"
    using st by (auto simp: lent_def)
  define w' where "w' = w\<lparr>storages := AList.update (vb_buffer b) (s\<lparr>sto_maps := 0, sto_bytes := bs\<rparr>) (storages w),
    vk_memory := (vk_memory w)(vb_alloc b := None)\<rparr>"
  have m: "map_of (storages w') = (map_of (storages w))(vb_buffer b \<mapsto> s\<lparr>sto_maps := 0, sto_bytes := bs\<rparr>)"
    by (simp add: w'_def update_conv')
  have "unmap_staging d st w = Inr w'"
    using Some s by (simp add: unmap_staging_def vk_buffer_unmap_memory_def ensure_notnull_def vk_buffer_is_null_def
        vma_unmap_memory_def w'_def)
  moreover have "vk_wf w'" using wf s(1) by (auto simp: vk_wf_def m split: if_splits)
  moreover have "keeps_buffers (slot_handles st) w w'"
    using wf s(1,2) Some by (auto simp: keeps_buffers_def m vk_wf_def w'_def slot_handles_def)
  moreover have "owned w' b" using s by (auto simp: owned_def owns_def m)
  moreover have "same_objects w w'" by (simp add: same_objects_def w'_def)
  ultimately show ?thesis using Some by simp
qed (use wf in \<open>simp add: unmap_staging_def\<close>)

text \<open>A buffer that was not there at the start does not share the memory of those that were.\<close>

lemma fresh_block:
  assumes "vk_wf w'" "keeps_buffers {} w w'" "map_of (storages w) (vb_buffer b) = None" "lent w' b n"
  shows "vb_alloc b \<notin> blocks_of w H"
proof
  assume "vb_alloc b \<in> blocks_of w H"
  then obtain h s where h: "map_of (storages w) h = Some s" "sto_allocation s = vb_alloc b" by (auto simp: blocks_of_def)
  obtain t where t: "map_of (storages w') (vb_buffer b) = Some t" "sto_allocation t = vb_alloc b" using assms(4) by (auto simp: lent_def)
  have "map_of (storages w') h = Some s" using assms(2) h(1) by (simp add: keeps_buffers_def)
  then have "h = vb_buffer b" using assms(1) h(2) t unfolding vk_wf_def by metis
  then show False using h(1) assms(3) by simp
qed

text \<open>Both staging buffers, created and mapped.\<close>

definition both_lent :: "vk_world \<Rightarrow> VulkanBuffer option \<Rightarrow> VulkanBuffer option \<Rightarrow> nat \<Rightarrow> nat \<Rightarrow> vk_world \<Rightarrow> bool" where
  "both_lent w st sd ns nd w' \<longleftrightarrow> vk_wf w' \<and> keeps_buffers {} w w' \<and> same_objects w w' \<and>
     (\<forall>b\<in>set_option st. map_of (storages w) (vb_buffer b) = None \<and> lent w' b (20 * ns)) \<and>
     (\<forall>b\<in>set_option sd. map_of (storages w) (vb_buffer b) = None \<and> lent w' b (20 * nd)) \<and>
     slot_handles st \<inter> slot_handles sd = {}"

lemma both_staging_returns:
  assumes doc: "vk_documented drv" and wf: "vk_wf w"
  shows "returns (and_then (draw_staging d drv ns w) (\<lambda>(st, w). and_then (draw_staging d drv nd w) (\<lambda>(sd, w).
      and_then (map_staging d st w) (\<lambda>(cmd, w). and_then (map_staging d sd w) (\<lambda>(dyn_cmd, w). Inr (st, sd, cmd, dyn_cmd, w))))))
    (\<lambda>(st, sd, cmd, dyn_cmd, w'). both_lent w st sd ns nd w' \<and>
      cmd = cursor (map_option vb_alloc st) 0 \<and> dyn_cmd = cursor (map_option vb_alloc sd) 0)"
proof -
  obtain st w1 where 1: "draw_staging d drv ns w = Inr (st, w1)" "vk_wf w1" "keeps_buffers {} w w1" "same_objects w w1"
    "\<forall>b\<in>set_option st. map_of (storages w) (vb_buffer b) = None \<and> hosted w1 b (20 * ns)"
    using draw_staging_returns [OF doc wf, of d ns] by (auto elim!: returnsE)
  obtain sd w2 where 2: "draw_staging d drv nd w1 = Inr (sd, w2)" "vk_wf w2" "keeps_buffers {} w1 w2" "same_objects w1 w2"
    "\<forall>b\<in>set_option sd. map_of (storages w1) (vb_buffer b) = None \<and> hosted w2 b (20 * nd)"
    using draw_staging_returns [OF doc 1(2), of d nd] by (auto elim!: returnsE)
  have dj: "slot_handles st \<inter> slot_handles sd = {}"
    using 1(5) 2(5) by (auto simp: slot_handles_def hosted_def owns_def)
  have st2: "\<forall>b\<in>set_option st. hosted w2 b (20 * ns)" using 1(5) hosted_kept [OF _ 2(3)] by blast
  obtain p w3 where 3: "map_staging d st w2 = Inr (p, w3)" "vk_wf w3" "keeps_buffers (slot_handles st) w2 w3" "same_objects w2 w3"
    "p = cursor (map_option vb_alloc st) 0" "\<forall>b\<in>set_option st. lent w3 b (20 * ns)"
    using map_staging_returns [OF 2(2) st2, of d] by (auto elim!: returnsE)
  have sd3: "\<forall>b\<in>set_option sd. hosted w3 b (20 * nd)" using 2(5) hosted_kept [OF _ 3(3)] dj by (auto simp: slot_handles_def)
  obtain q w4 where 4: "map_staging d sd w3 = Inr (q, w4)" "vk_wf w4" "keeps_buffers (slot_handles sd) w3 w4" "same_objects w3 w4"
    "q = cursor (map_option vb_alloc sd) 0" "\<forall>b\<in>set_option sd. lent w4 b (20 * nd)"
    using map_staging_returns [OF 3(2) sd3, of d] by (auto elim!: returnsE)
  have st4: "\<forall>b\<in>set_option st. lent w4 b (20 * ns)" using 3(6) lent_kept [OF _ 4(3)] dj by (auto simp: slot_handles_def)
  have fresh: "\<forall>b\<in>set_option sd. map_of (storages w) (vb_buffer b) = None" using 2(5) fresh_later [OF 1(3)] by auto
  have "keeps_buffers (slot_handles st \<union> slot_handles sd) w w4"
    using keeps_buffers_trans [OF 1(3) keeps_buffers_trans [OF 2(3) keeps_buffers_trans [OF 3(3) 4(3)]]] by simp
  then have "keeps_buffers {} w w4" by (rule keeps_buffers_forget) (use 1(5) fresh in \<open>auto simp: slot_handles_def\<close>)
  moreover have "same_objects w w4" by (rule same_objects_trans [OF 1(4) same_objects_trans [OF 2(4) same_objects_trans [OF 3(4) 4(4)]]])
  ultimately show ?thesis using 1(1,5) 2(1) 3(1,5) 4(1,2,5,6) st4 fresh dj by (simp add: both_lent_def)
qed

text \<open>Filling and unmapping them.\<close>

lemma unmap_both_returns:
  assumes lent: "both_lent w st sd ns nd w1"
    and mem: "same_off (set_option (map_option vb_alloc st) \<union> set_option (map_option vb_alloc sd)) (vk_memory w1) mem"
  shows "returns (and_then (unmap_staging d st (w1\<lparr>vk_memory := mem\<rparr>)) (unmap_staging d sd)) (\<lambda>w'. vk_wf w' \<and> keeps_buffers {} w w' \<and>
    same_objects w w' \<and> (\<forall>b\<in>set_option st \<union> set_option sd. owned w' b))"
proof -
  let ?T = "set_option st \<union> set_option sd" and ?w = "w1\<lparr>vk_memory := mem\<rparr>"
  note L = lent [unfolded both_lent_def]
  have T: "vb_buffer ` ?T = slot_handles st \<union> slot_handles sd" by (auto simp: slot_handles_def)
  have "\<forall>b\<in>?T. lent w1 b (if b \<in> set_option st then 20 * ns else 20 * nd)" using L by auto
  moreover have "same_off (vb_alloc ` ?T) (vk_memory w1) mem" using mem by (simp add: image_Un option.set_map)
  ultimately have k: "vk_wf ?w" "keeps_buffers (slot_handles st \<union> slot_handles sd) w1 ?w" "same_objects w1 ?w"
    using lent_write_keeps [of w1 ?T "\<lambda>b. if b \<in> set_option st then 20 * ns else 20 * nd" mem] L unfolding T by simp_all
  have st: "\<forall>b\<in>set_option st. lent ?w b (20 * ns)" and sd: "\<forall>b\<in>set_option sd. lent ?w b (20 * nd)"
    using L lent_write [OF _ mem] by blast+
  obtain w2 where 2: "unmap_staging d st ?w = Inr w2" "vk_wf w2" "keeps_buffers (slot_handles st) ?w w2" "same_objects ?w w2"
    "\<forall>b\<in>set_option st. owned w2 b" using unmap_staging_returns [OF k(1) st, of d] by (auto elim!: returnsE)
  have sd2: "\<forall>b\<in>set_option sd. lent w2 b (20 * nd)" using sd lent_kept [OF _ 2(3)] L by (auto simp: slot_handles_def)
  obtain w3 where 3: "unmap_staging d sd w2 = Inr w3" "vk_wf w3" "keeps_buffers (slot_handles sd) w2 w3" "same_objects w2 w3"
    "\<forall>b\<in>set_option sd. owned w3 b" using unmap_staging_returns [OF 2(2) sd2, of d] by (auto elim!: returnsE)
  have "\<forall>b\<in>set_option st. owned w3 b" using 2(5) owned_kept [OF _ 3(3)] L by (auto simp: slot_handles_def)
  moreover have "keeps_buffers (slot_handles st \<union> slot_handles sd) w w3"
    using keeps_buffers_trans [OF _ keeps_buffers_trans [OF k(2) keeps_buffers_trans [OF 2(3) 3(3)]], of "{}" w] L
    by (simp add: Un_ac)
  then have "keeps_buffers {} w w3" by (rule keeps_buffers_forget) (use L in \<open>auto simp: slot_handles_def\<close>)
  moreover have "same_objects w w3"
    using same_objects_trans [OF _ same_objects_trans [OF k(3) same_objects_trans [OF 2(4) 3(4)]], of w] L by blast
  ultimately show ?thesis using 2(1) 3(1,2,5) by auto
qed

section \<open>The inputs\<close>

lemma scratch_gathered:
  assumes doc: "vk_documented drv" and inp: "inputs_allocated gs inps bm w"
  obtains st sd s w' where "scratch_inputs d drv info scratch fence inps bm pr w =
      and_then (upload_static d drv scratch fence bm s w') (\<lambda>w. and_then (record_draw_list d drv info inps (all_inputs_once inps) pr w)
        (\<lambda>(pr, w). Inr (pr, vk_buffer_reset st (vk_buffer_reset sd w))))"
    "vk_wf w'" "keeps_buffers {} w w'" "same_objects w w'" "slot_handles st \<inter> slot_handles sd = {}"
    "\<forall>b\<in>set_option st \<union> set_option sd. owned w' b \<and> map_of (storages w) (vb_buffer b) = None"
    "sc_vertices s = batch_vertices gs StaticFixed" "sc_indices s = batch_indices gs StaticFixed"
    "sc_index_count s = of_nat (length (batch_indices gs StaticFixed))"
proof -
  have wf: "vk_wf w" and all: "all_geometry (vk_memory w) inps = Inr gs"
    and blocks: "\<forall>inp\<in>set inps. input_blocks inp \<subseteq> blocks_of w (dynamic_handles bm)"
    using inp by (simp_all add: inputs_allocated_def dynamic_ready_def dynamic_handles_def)
  let ?n = "\<lambda>a. length (of_access gs a)"
  obtain st sd w1 where 1: "and_then (draw_staging d drv (?n StaticFixed) w) (\<lambda>(st, w). and_then (draw_staging d drv (?n DynamicFixed) w)
      (\<lambda>(sd, w). and_then (map_staging d st w) (\<lambda>(cmd, w). and_then (map_staging d sd w) (\<lambda>(dyn_cmd, w). Inr (st, sd, cmd, dyn_cmd, w))))) =
    Inr (st, sd, cursor (map_option vb_alloc st) 0, cursor (map_option vb_alloc sd) 0, w1)" "both_lent w st sd (?n StaticFixed) (?n DynamicFixed) w1"
    using both_staging_returns [OF doc wf, of d "?n StaticFixed" "?n DynamicFixed"] by (auto elim!: returnsE)
  let ?sa = "map_option vb_alloc st" and ?da = "map_option vb_alloc sd"
  note L = 1(2) [unfolded both_lent_def]
  have all1: "all_geometry (vk_memory w1) inps = Inr gs" using keeps_all_geometry(1) [OF all blocks, of "{}" w1] L by simp
  have "\<forall>a\<in>set_option ?sa \<union> set_option ?da. a \<notin> blocks_of w (dynamic_handles bm)"
    using fresh_block [of w1 w] L by (auto simp: option.set_map)
  then have apart: "\<forall>inp\<in>set inps. input_blocks inp \<inter> (set_option ?sa \<union> set_option ?da) = {}" using blocks by blast
  have room: "room_for (vk_memory w1) ?sa (?n StaticFixed)" "room_for (vk_memory w1) ?da (?n DynamicFixed)"
    using L by (auto simp: room_for_def lent_def option.set_map)
  obtain s where s: "for_each scratch_input inps \<lparr>sc_vertices = [], sc_indices = [], sc_cmd = cursor ?sa 0, sc_dyn_cmd = cursor ?da 0,
      sc_index_count = 0, sc_vertex_count = 0, sc_dyn_index_count = 0, sc_dyn_vertex_count = 0, sc_memory = vk_memory w1\<rparr> = Inr s"
    "sc_vertices s = batch_vertices gs StaticFixed" "sc_indices s = batch_indices gs StaticFixed"
    "sc_index_count s = of_nat (length (batch_indices gs StaticFixed))"
    "same_off (set_option ?sa \<union> set_option ?da) (vk_memory w1) (sc_memory s)"
    using scratch_loop_returns [OF all1 apart room] by (auto elim!: returnsE)
  obtain w' where w': "and_then (unmap_staging d st (w1\<lparr>vk_memory := sc_memory s\<rparr>)) (unmap_staging d sd) = Inr w'" "vk_wf w'"
    "keeps_buffers {} w w'" "same_objects w w'" "\<forall>b\<in>set_option st \<union> set_option sd. owned w' b"
    using unmap_both_returns [OF 1(2) s(5), of d] by (auto elim!: returnsE)
  have counts: "count_inputs a inps = ?n a" for a by (rule count_inputs_of [OF all])
  have "scratch_inputs d drv info scratch fence inps bm pr w =
      and_then (upload_static d drv scratch fence bm s w') (\<lambda>w. and_then (record_draw_list d drv info inps (all_inputs_once inps) pr w)
        (\<lambda>(pr, w). Inr (pr, vk_buffer_reset st (vk_buffer_reset sd w))))"
    using 1(1) s(1) w'(1) by (auto simp: scratch_inputs_def counts and_then_Inr_iff)
  then show ?thesis using that [OF _ w'(2-4)] L w'(5) s(2-4) by blast
qed

text \<open>The static geometry, copied to its buffers.\<close>

lemma batch_indices_fit: "batch_fits gs \<Longrightarrow> length (batch_indices gs a) < 2 ^ 32"
  using sum_list_filter_take_le [where f = g_index_count and P = "\<lambda>g. g_access g = a" and i = "length gs" and xs = gs]
  by (simp add: batch_fits_def batch_indices_def of_access_def length_concat g_index_count_def [abs_def] comp_def)

lemma command_reset_kept:
  assumes "\<not> cb_recording scratch" "vk_wf w"
  obtains w' where "command_buffer_reset d scratch w = Inr w'" "vk_wf w'" "keeps_buffers {} w w'" "keeps_rest {cb_native scratch} w w'"
    "storages w' = storages w" "vk_memory w' = vk_memory w" "texels w' = texels w" "objects w' = objects w"
proof (rule that)
  let ?w = "w\<lparr>recordings := AList.update (cb_native scratch) [] (recordings w)\<rparr>"
  show "command_buffer_reset d scratch w = Inr ?w" using assms(1) by (simp add: command_buffer_reset_def)
  show "vk_wf ?w" "keeps_buffers {} w ?w" using same_store [of ?w w] assms(2) by simp_all
  show "keeps_rest {cb_native scratch} w ?w" by (simp add: keeps_rest_def)
qed simp_all

lemma owns_contents: "owns w b s \<Longrightarrow> sto_maps s = 0 \<Longrightarrow> gpu_contents w (vb_buffer b) = Some (sto_bytes s)"
  by (simp add: owns_def gpu_contents_def)

lemma staged_copy_kept:
  assumes doc: "vk_documented drv" and wf: "vk_wf w" and scratch: "\<not> cb_recording scratch"
    and dst: "allocated w dst (length bytes)" and ne: "bytes \<noteq> []"
  shows "returns (staged_copy d drv scratch fence bytes dst w) (\<lambda>w'. vk_wf w' \<and> keeps_buffers {vb_buffer dst} w w' \<and>
    keeps_rest {cb_native scratch} w w' \<and> allocated w' dst (length bytes) \<and> gpu_contents w' (vb_buffer dst) = Some bytes)"
proof -
  obtain s where s: "owns w dst s" "sto_maps s = 0" "length (sto_bytes s) = length bytes" using dst by (auto simp: allocated_def)
  obtain w' where "staged_copy d drv scratch fence bytes dst w = Inr w'" "vk_wf w'" "owns w' dst (s\<lparr>sto_bytes := bytes\<rparr>)"
    "keeps_buffers {vb_buffer dst} w w'" "same_but_recording {cb_native scratch} w w'"
    by (rule staged_copy_effect [OF doc wf scratch s ne, of d fence]) blast
  then show ?thesis using s(2) owns_contents [of w' dst "s\<lparr>sto_bytes := bytes\<rparr>"] keeps_rest_same
    by (auto simp: allocated_def intro!: exI [of _ "s\<lparr>sto_bytes := bytes\<rparr>"])
qed

lemma upload_static_returns:
  assumes doc: "vk_documented drv" and wf: "vk_wf w" and scratch: "\<not> cb_recording scratch"
    and st: "static_allocated gs (bm_vertex bm) (bm_index bm) w" and ne: "nonempty_batch gs" and fit: "batch_fits gs"
    and s: "sc_vertices s = batch_vertices gs StaticFixed" "sc_indices s = batch_indices gs StaticFixed"
      "sc_index_count s = of_nat (length (batch_indices gs StaticFixed))"
  shows "returns (upload_static d drv scratch fence bm s w) (\<lambda>w'. vk_wf w' \<and> keeps_buffers (static_handles bm) w w' \<and>
    keeps_rest {cb_native scratch} w w' \<and> batch_ok w' gs StaticFixed (bm_vertex bm) (bm_index bm))"
proof (cases "of_access gs StaticFixed = []")
  case True
  then show ?thesis using wf s by (simp add: upload_static_def batch_indices_def batch_ok_def)
next
  case False
  let ?vs = "batch_vertices gs StaticFixed" and ?is = "batch_indices gs StaticFixed" and ?vb = "bm_vertex bm" and ?ib = "bm_index bm"
  have N: "?vs \<noteq> []" "?is \<noteq> []" using ne False by (auto simp: nonempty_batch_def)
  then have N': "encode_u32s ?is \<noteq> []" using length_encode_u32s [of ?is] by force
  have B: "vb_type ?vb = VertexBuffer" "vb_type ?ib = IndexBuffer" "vb_buffer ?vb \<noteq> vb_buffer ?ib"
    "allocated w ?vb (length ?vs)" "allocated w ?ib (4 * length ?is)" using st False by (simp_all add: static_allocated_def)
  have pos: "0 < sc_index_count s"
    using N(2) batch_indices_fit [OF fit, of StaticFixed] by (simp add: s(3) word_less_nat_alt unat_of_nat)
  obtain w1 where 1: "staged_copy d drv scratch fence ?vs ?vb w = Inr w1" "vk_wf w1" "keeps_buffers {vb_buffer ?vb} w w1"
    "keeps_rest {cb_native scratch} w w1" "allocated w1 ?vb (length ?vs)" "gpu_contents w1 (vb_buffer ?vb) = Some ?vs"
    using staged_copy_kept [OF doc wf scratch B(4) N(1), of d fence] by (auto elim!: returnsE)
  obtain w2 where 2: "command_buffer_reset d scratch w1 = Inr w2" "vk_wf w2" "keeps_buffers {} w1 w2" "keeps_rest {cb_native scratch} w1 w2"
    by (rule command_reset_kept [OF scratch 1(2), of d]) blast
  have "allocated w2 ?ib (length (encode_u32s ?is))"
    using allocated_kept [OF allocated_kept [OF B(5) 1(3)] 2(3)] B(3) by (simp add: length_encode_u32s)
  then obtain w3 where 3: "staged_copy d drv scratch fence (encode_u32s ?is) ?ib w2 = Inr w3" "vk_wf w3" "keeps_buffers {vb_buffer ?ib} w2 w3"
    "keeps_rest {cb_native scratch} w2 w3" "allocated w3 ?ib (length (encode_u32s ?is))" "gpu_contents w3 (vb_buffer ?ib) = Some (encode_u32s ?is)"
    using staged_copy_kept [OF doc 2(2) scratch, of ?ib "encode_u32s ?is" d fence] N' by (auto elim!: returnsE)
  obtain w4 where 4: "command_buffer_reset d scratch w3 = Inr w4" "vk_wf w4" "keeps_buffers {} w3 w4" "keeps_rest {cb_native scratch} w3 w4"
    by (rule command_reset_kept [OF scratch 3(2), of d]) blast
  have k: "keeps_buffers {vb_buffer ?ib} w1 w4" using keeps_buffers_trans [OF 2(3) keeps_buffers_trans [OF 3(3) 4(3)]] by simp
  have "allocated w4 ?vb (length ?vs)" "gpu_contents w4 (vb_buffer ?vb) = Some ?vs"
    using allocated_kept [OF 1(5) k] keeps_gpu_contents [OF k, of "vb_buffer ?vb"] 1(6) B(3) by simp_all
  moreover have "allocated w4 ?ib (length (encode_u32s ?is))" "gpu_contents w4 (vb_buffer ?ib) = Some (encode_u32s ?is)"
    using allocated_kept [OF 3(5) 4(3)] keeps_gpu_contents [OF 4(3), of "vb_buffer ?ib"] 3(6) by simp_all
  moreover have "keeps_buffers (static_handles bm) w w4" using keeps_buffers_trans [OF 1(3) k] by (simp add: static_handles_def insert_commute)
  moreover have "keeps_rest {cb_native scratch} w w4"
    using keeps_rest_trans [OF 1(4) keeps_rest_trans [OF 2(4) keeps_rest_trans [OF 3(4) 4(4)]]] by simp
  ultimately show ?thesis using pos s 1(1) 2(1) 3(1) 4(1,2) B(1,2) allocated_owned by (auto simp: upload_static_def batch_ok_def)
qed

lemma allocated_inputs_ready:
  assumes inp: "inputs_allocated gs inps bm w" and wf: "vk_wf w'" and k: "keeps_buffers (static_handles bm) w w'"
    and st: "batch_ok w' gs StaticFixed (bm_vertex bm) (bm_index bm)"
  shows "inputs_ready gs inps bm w'"
proof -
  note I = inp [unfolded inputs_allocated_def dynamic_ready_def, folded dynamic_handles_def]
  obtain S where S: "keeps_buffers S w w'" "S \<inter> dynamic_handles bm = {}"
  proof (cases "of_access gs StaticFixed = []")
    case True
    then have "static_handles bm = {VK_NULL_HANDLE}" using I by (simp add: static_allocated_def static_handles_def vk_buffer_null_def)
    then have "keeps_buffers {} w w'" using keeps_buffers_forget [OF k, of "{}"] I by (simp add: vk_wf_def)
    then show ?thesis using that by blast
  next
    case False
    then show ?thesis using that k I by blast
  qed
  have "all_geometry (vk_memory w') inps = Inr gs" "\<forall>inp\<in>set inps. input_blocks inp \<subseteq> blocks_of w' (dynamic_handles bm)"
    using keeps_all_geometry [OF _ _ S(1,2), of inps gs] I by (simp_all add: dynamic_handles_def)
  moreover have "blocks_of w' (dynamic_handles bm) \<subseteq> blocks_of w' (geometry_buffers bm)" by (auto simp: blocks_of_def geometry_handles)
  moreover have dyn: "batch_ok w' gs DynamicFixed (bm_dynamic_vertex bm) (bm_dynamic_index bm)"
    by (rule batch_ok_kept [OF _ S(1)]) (use I S(2) in \<open>auto simp: dynamic_handles_def\<close>)
  moreover have "\<forall>h\<in>static_handles bm. h = VK_NULL_HANDLE \<or> map_of (storages w') h \<noteq> None"
    using st I by (cases "of_access gs StaticFixed = []")
      (auto simp: static_allocated_def static_handles_def vk_buffer_null_def batch_ok_def owned_def owns_def)
  moreover have "\<forall>h\<in>dynamic_handles bm. h = VK_NULL_HANDLE \<or> map_of (storages w') h \<noteq> None"
    using dyn I by (cases "of_access gs DynamicFixed = []")
      (auto simp: dynamic_handles_def vk_buffer_null_def batch_ok_def owned_def owns_def)
  ultimately show ?thesis using wf st unfolding inputs_ready_def geometry_handles by blast
qed

lemma new_slots_ready:
  assumes "new_slots gs pr w" "slots_apart pr (geometry_buffers bm)"
  shows "slots_ready gs bm pr w"
  using assms by (auto simp: slots_ready_def new_slots_def slots_apart_def indirect_ok_def slot_handles_def split: option.splits)

lemma first_draw_list_returns:
  assumes doc: "vk_documented drv" and info: "info_ready d info n" and pool: "pool_ready n (pr_commands pr)"
    and inp: "inputs_ready gs inps bm w" and slots: "slots_ready gs bm pr w" and cache: "pr_draw_cache pr = []"
  shows "returns (record_draw_list d drv info inps (all_inputs_once inps) pr w) (\<lambda>(pr', w'). inputs_ready gs inps bm w' \<and>
    slots_ready gs bm pr' w' \<and> list_ready gs pr' w' \<and> slots_replaced w pr pr' w' \<and>
    keeps_rest {cb_native (cp_buffers (pr_commands pr) ! n)} w w' \<and>
    (\<exists>s t. pr' = pr\<lparr>pr_draw_indirect := s, pr_draw_indirect_dynamic := t, pr_draw_cache := [0..<length gs]\<rparr>))"
proof -
  have len: "length gs = length inps" using inp by (simp add: inputs_ready_def all_geometry_iff)
  show ?thesis
  proof (cases "gs = []")
    case True
    then have "pr_draw_indirect pr = None" "pr_draw_indirect_dynamic pr = None"
      using slots by (auto simp: slots_ready_def indirect_ok_def of_access_def split: option.splits)
    then have "list_ready gs pr w" "slots_replaced w pr pr w"
      using cache by (simp_all add: list_ready_def slot_holds_def commands_of_def draws_of_def slots_replaced_def slot_handles_def)
    moreover have "\<exists>s t. pr = pr\<lparr>pr_draw_indirect := s, pr_draw_indirect_dynamic := t, pr_draw_cache := [0..<length gs]\<rparr>"
      using True cache by (intro exI [of _ "pr_draw_indirect pr"] exI [of _ "pr_draw_indirect_dynamic pr"]) (cases pr, simp)
    ultimately show ?thesis using True len cache inp slots by (auto simp: record_draw_list_def all_inputs_once_upt)
  next
    case False
    then have new: "pr_draw_cache pr \<noteq> all_inputs_once inps" using cache len by (cases inps) (auto simp: all_inputs_once_upt upt_rec [of 0])
    have h: "\<forall>h\<in>set (all_inputs_once inps). h < length inps" by (simp add: all_inputs_once_upt)
    obtain pr' w' where 1: "record_draw_list d drv info inps (all_inputs_once inps) pr w = Inr (pr', w')" "inputs_ready gs inps bm w'"
      "slots_ready gs bm pr' w'" "slots_replaced w pr pr' w'" "keeps_rest {cb_native (cp_buffers (pr_commands pr) ! n)} w w'"
      "pr' = pr\<lparr>pr_draw_indirect := pr_draw_indirect pr', pr_draw_indirect_dynamic := pr_draw_indirect_dynamic pr',
        pr_draw_cache := all_inputs_once inps\<rparr>"
      "slot_holds w' (commands_of gs StaticFixed (all_inputs_once inps)) (pr_draw_indirect pr')"
      "slot_holds w' (commands_of gs DynamicFixed (all_inputs_once inps)) (pr_draw_indirect_dynamic pr')"
      using record_draw_list_returns [OF doc info pool inp slots new h] by (auto elim!: returnsE)
    have "pr_draw_cache pr' = all_inputs_once inps" using arg_cong [OF 1(6), of pr_draw_cache] by simp
    then have "list_ready gs pr' w'" using 1(7,8) by (simp add: list_ready_def)
    moreover have "\<exists>s t. pr' = pr\<lparr>pr_draw_indirect := s, pr_draw_indirect_dynamic := t, pr_draw_cache := [0..<length gs]\<rparr>"
      using 1(6) len by (auto simp: all_inputs_once_upt)
    ultimately show ?thesis using 1(1-5) by simp
  qed
qed

lemma reset_owned:
  assumes "vk_wf w" "\<forall>b\<in>set_option st. owned w b"
  shows "vk_wf (vk_buffer_reset st w)" "keeps_buffers (slot_handles st) w (vk_buffer_reset st w)" "same_objects w (vk_buffer_reset st w)"
  using assms vk_buffer_destroy_effect [OF assms(1)]
  by (auto simp: vk_buffer_reset_def slot_handles_def owned_def split: option.splits)

lemma reset_both:
  assumes wf: "vk_wf w" and own: "\<forall>b\<in>set_option st \<union> set_option sd. owned w b" and dj: "slot_handles st \<inter> slot_handles sd = {}"
  shows "vk_wf (vk_buffer_reset st (vk_buffer_reset sd w))" (is ?wf)
    "keeps_buffers (slot_handles st \<union> slot_handles sd) w (vk_buffer_reset st (vk_buffer_reset sd w))" (is ?k)
    "same_objects w (vk_buffer_reset st (vk_buffer_reset sd w))" (is ?o)
proof -
  have sd: "\<forall>b\<in>set_option sd. owned w b" using own by blast
  note 1 = reset_owned [OF wf sd]
  have st: "\<forall>b\<in>set_option st. owned (vk_buffer_reset sd w) b" using own owned_kept [OF _ 1(2)] dj by (auto simp: slot_handles_def)
  note 2 = reset_owned [OF 1(1) st]
  show ?wf by (rule 2(1))
  show ?k using keeps_buffers_trans [OF 1(2) 2(2)] by (simp add: Un_commute)
  show ?o by (rule same_objects_trans [OF 1(3) 2(3)])
qed

text \<open>What the scratch commands of the inputs leave: the renderer's part of \<open>vk_ready\<close>.\<close>

definition inputs_done ::
    "nat \<Rightarrow> geometry list \<Rightarrow> RendererInput list \<Rightarrow> RendererBufferManagerVulkan \<Rightarrow> RendererProcessorVulkan \<Rightarrow> vk_world \<Rightarrow>
     RendererProcessorVulkan \<Rightarrow> vk_world \<Rightarrow> bool" where
  "inputs_done c gs inps bm pr w pr' w' \<longleftrightarrow>
     inputs_ready gs inps bm w' \<and> slots_ready gs bm pr' w' \<and> list_ready gs pr' w' \<and> keeps_rest {c} w w' \<and>
     keeps_buffers (static_handles bm \<union> slot_handles (pr_draw_indirect pr) \<union> slot_handles (pr_draw_indirect_dynamic pr)) w w' \<and>
     (\<forall>h\<in>slot_handles (pr_draw_indirect pr') \<union> slot_handles (pr_draw_indirect_dynamic pr').
        map_of (storages w) h = None \<or> h \<in> static_handles bm \<union> slot_handles (pr_draw_indirect pr)) \<and>
     (\<exists>s t. pr' = pr\<lparr>pr_draw_indirect := s, pr_draw_indirect_dynamic := t, pr_draw_cache := [0..<length gs]\<rparr>)"

lemma allocated_handles:
  assumes "inputs_allocated gs inps bm w" "h \<in> geometry_buffers bm"
  shows "h = VK_NULL_HANDLE \<or> map_of (storages w) h \<noteq> None"
proof (cases "h \<in> static_handles bm")
  case True
  then show ?thesis using assms(1) unfolding inputs_allocated_def static_allocated_def
    by (auto simp: static_handles_def vk_buffer_null_def allocated_def owns_def split: if_splits)
next
  case False
  then show ?thesis using assms unfolding inputs_allocated_def dynamic_ready_def geometry_handles
    by (cases "of_access gs DynamicFixed = []") (auto simp: dynamic_handles_def vk_buffer_null_def batch_ok_def owned_def owns_def)
qed

text \<open>Destroying the staging buffers touches neither the geometry nor the draw list.\<close>

lemma staging_dropped:
  assumes inp: "inputs_ready gs inps bm w" and slots: "slots_ready gs bm pr w" and list: "list_ready gs pr w"
    and own: "\<forall>b\<in>set_option st \<union> set_option sd. owned w b" and dj: "slot_handles st \<inter> slot_handles sd = {}"
    and apart: "(slot_handles st \<union> slot_handles sd) \<inter> geometry_buffers bm = {}" "slots_apart pr (slot_handles st \<union> slot_handles sd)"
  shows "inputs_ready gs inps bm (vk_buffer_reset st (vk_buffer_reset sd w))" "slots_ready gs bm pr (vk_buffer_reset st (vk_buffer_reset sd w))"
    "list_ready gs pr (vk_buffer_reset st (vk_buffer_reset sd w))"
proof -
  have wf: "vk_wf w" using inp by (simp add: inputs_ready_def)
  note R = reset_both [OF wf own dj]
  have a: "(slot_handles st \<union> slot_handles sd) \<inter> slot_handles (pr_draw_indirect pr) = {}"
    "(slot_handles st \<union> slot_handles sd) \<inter> slot_handles (pr_draw_indirect_dynamic pr) = {}"
    using apart(2) by (auto simp: slots_apart_def)
  show "inputs_ready gs inps bm (vk_buffer_reset st (vk_buffer_reset sd w))" by (rule inputs_ready_kept [OF inp R(1,2) apart(1)])
  show "slots_ready gs bm pr (vk_buffer_reset st (vk_buffer_reset sd w))"
    using slots indirect_ok_kept [OF _ R(2) a(1)] indirect_ok_kept [OF _ R(2) a(2)] by (simp add: slots_ready_def)
  show "list_ready gs pr (vk_buffer_reset st (vk_buffer_reset sd w))"
    using list slot_holds_kept [OF _ R(2) a(1)] slot_holds_kept [OF _ R(2) a(2)] by (simp add: list_ready_def)
qed

lemma scratch_inputs_returns:
  assumes doc: "vk_documented drv" and info: "info_ready d info n" and pool: "pool_ready n (pr_commands pr)"
    and inp: "inputs_allocated gs inps bm w" and slots: "new_slots gs pr w" "slots_apart pr (geometry_buffers bm)"
    and ne: "nonempty_batch gs" and fit: "batch_fits gs" and cache: "pr_draw_cache pr = []"
  defines "scratch \<equiv> cp_buffers (pr_commands pr) ! n"
  shows "returns (scratch_inputs d drv info scratch fence inps bm pr w) (\<lambda>(pr', w'). inputs_done (cb_native scratch) gs inps bm pr w pr' w')"
proof -
  let ?S = "slot_handles (pr_draw_indirect pr)" and ?D = "slot_handles (pr_draw_indirect_dynamic pr)" and ?G = "static_handles bm"
  have sc: "\<not> cb_recording scratch" using pool by (simp add: scratch_def pool_ready_def)
  obtain st sd s w1 where 1: "scratch_inputs d drv info scratch fence inps bm pr w =
      and_then (upload_static d drv scratch fence bm s w1) (\<lambda>w. and_then (record_draw_list d drv info inps (all_inputs_once inps) pr w)
        (\<lambda>(pr, w). Inr (pr, vk_buffer_reset st (vk_buffer_reset sd w))))"
    "vk_wf w1" "keeps_buffers {} w w1" "same_objects w w1" "slot_handles st \<inter> slot_handles sd = {}"
    "\<forall>b\<in>set_option st \<union> set_option sd. owned w1 b \<and> map_of (storages w) (vb_buffer b) = None"
    "sc_vertices s = batch_vertices gs StaticFixed" "sc_indices s = batch_indices gs StaticFixed"
    "sc_index_count s = of_nat (length (batch_indices gs StaticFixed))"
    by (rule scratch_gathered [OF doc inp]) blast
  let ?T = "slot_handles st \<union> slot_handles sd"
  have T: "map_of (storages w) h = None" "h \<noteq> VK_NULL_HANDLE" if "h \<in> ?T" for h
    using that 1(6) by (auto simp: slot_handles_def owned_def owns_def)
  have TG: "?T \<inter> geometry_buffers bm = {}" using T allocated_handles [OF inp] by blast
  have SD: "\<forall>h\<in>?S \<union> ?D. map_of (storages w) h \<noteq> None" using slots(1) by (auto simp: new_slots_def slot_handles_def owned_def owns_def)
  have TS: "?T \<inter> (?S \<union> ?D) = {}" using T SD by blast
  have "static_allocated gs (bm_vertex bm) (bm_index bm) w1"
    using inp allocated_kept [OF _ 1(3)] by (auto simp: inputs_allocated_def static_allocated_def)
  then obtain w2 where 2: "upload_static d drv scratch fence bm s w1 = Inr w2" "vk_wf w2" "keeps_buffers ?G w1 w2"
    "keeps_rest {cb_native scratch} w1 w2" "batch_ok w2 gs StaticFixed (bm_vertex bm) (bm_index bm)"
    using upload_static_returns [OF doc 1(2) sc _ ne fit 1(7-9), of bm d fence] by (auto elim!: returnsE)
  have k2: "keeps_buffers ?G w w2" using keeps_buffers_trans [OF 1(3) 2(3)] by simp
  have i2: "inputs_ready gs inps bm w2" by (rule allocated_inputs_ready [OF inp 2(2) k2 2(5)])
  have "?G \<inter> ?S = {}" "?G \<inter> ?D = {}" using slots(2) by (auto simp: slots_apart_def geometry_handles)
  then have s2: "slots_ready gs bm pr w2"
    using new_slots_ready [OF slots] indirect_ok_kept [OF _ k2] by (simp add: slots_ready_def)
  obtain pr' w3 where 3: "record_draw_list d drv info inps (all_inputs_once inps) pr w2 = Inr (pr', w3)" "inputs_ready gs inps bm w3"
    "slots_ready gs bm pr' w3" "list_ready gs pr' w3" "slots_replaced w2 pr pr' w3" "keeps_rest {cb_native scratch} w2 w3"
    "\<exists>s t. pr' = pr\<lparr>pr_draw_indirect := s, pr_draw_indirect_dynamic := t, pr_draw_cache := [0..<length gs]\<rparr>"
    using first_draw_list_returns [OF doc info pool i2 s2 cache] unfolding scratch_def by (auto elim!: returnsE)
  have k3: "keeps_buffers (?S \<union> ?D) w2 w3" using 3(5) by (simp add: slots_replaced_def)
  have TG': "?T \<inter> ?G = {}" using TG by (auto simp: geometry_handles)
  have own2: "\<forall>b\<in>set_option st \<union> set_option sd. owned w2 b"
    using 1(6) owned_kept [OF _ 2(3)] TG' by (auto simp: slot_handles_def)
  have own: "\<forall>b\<in>set_option st \<union> set_option sd. owned w3 b"
    using own2 owned_kept [OF _ k3] TS by (auto simp: slot_handles_def)
  have "\<forall>h\<in>?T. map_of (storages w2) h \<noteq> None" using own2 by (auto simp: slot_handles_def owned_def owns_def)
  then have "slots_apart pr' ?T" using 3(5) TS unfolding slots_apart_def slots_replaced_def by blast
  note drop = staging_dropped [OF 3(2-4) own 1(5) TG this] and R = reset_both [OF _ own 1(5)]
  let ?w = "vk_buffer_reset st (vk_buffer_reset sd w3)"
  have R3: "keeps_buffers ?T w3 ?w" "same_objects w3 ?w" using R 3(2) by (simp_all add: inputs_ready_def)
  have "keeps_buffers (?G \<union> ?S \<union> ?D \<union> ?T) w ?w"
    using keeps_buffers_trans [OF k2 keeps_buffers_trans [OF k3 R3(1)]] by (simp add: Un_ac)
  then have "keeps_buffers (?G \<union> ?S \<union> ?D) w ?w" by (rule keeps_buffers_forget) (use T(1) in blast)
  moreover have "keeps_rest {cb_native scratch} w ?w"
    using keeps_rest_trans [OF keeps_rest_objects [OF 1(4), of "{cb_native scratch}"] keeps_rest_trans [OF 2(4)
      keeps_rest_trans [OF 3(6) keeps_rest_objects [OF R3(2), of "{cb_native scratch}"]]]] by simp
  moreover have "\<forall>h\<in>slot_handles (pr_draw_indirect pr') \<union> slot_handles (pr_draw_indirect_dynamic pr').
      map_of (storages w) h = None \<or> h \<in> ?G \<union> ?S" using 3(5) fresh_later [OF k2] unfolding slots_replaced_def by blast
  ultimately show ?thesis using 1(1) 2(1) 3(1,7) drop by (simp add: inputs_done_def)
qed

section \<open>The resources\<close>

text \<open>The commands of one texture upload, and what executing them does to the texels.\<close>

definition texture_barrier :: "VulkanImage \<Rightarrow> ImageLayout \<Rightarrow> u32 \<Rightarrow> u32 \<Rightarrow> vk_command" where
  "texture_barrier img l access stage = CmdPipelineBarrier 1 stage
     \<lparr>barrier_srcAccess = 0, barrier_dstAccess = access, barrier_oldLayout = layout_value LayoutUndefined,
      barrier_newLayout = layout_value l, barrier_image = vi_image img\<rparr>"

definition texture_commands :: "VulkanBuffer \<Rightarrow> VulkanImage \<Rightarrow> vk_command list" where
  "texture_commands st img =
     [texture_barrier img LayoutTransferDestination 4096 4096,
      CmdCopyBufferToImage (vb_buffer st) (vi_image img) VK_IMAGE_LAYOUT_TRANSFER_DST_OPTIMAL (vi_width img) (vi_height img),
      texture_barrier img LayoutShaderResource 32 32768]"

lemma texture_recorded:
  assumes doc: "vk_documented drv" and scratch: "\<not> cb_recording scratch" and img: "vi_layout img = LayoutUndefined"
    and st: "\<not> vk_buffer_is_null st"
  shows "\<exists>w'. record_with d drv scratch (\<lambda>w.
       and_then (transition_image_layout d scratch img LayoutTransferDestination w) (\<lambda>w.
       and_then (buffer_copy_image d scratch st img w) (\<lambda>w.
       transition_image_layout d scratch img LayoutShaderResource w))) w = Inr w' \<and>
    recorded (cb_native scratch) (texture_commands st img) w w'"
proof -
  let ?c = "cb_native scratch" and ?w = "w\<lparr>recordings := AList.update (cb_native scratch) [] (recordings w)\<rparr>"
  let ?cs = "texture_commands st img"
  define w' where "w' = add_command ?c (?cs ! 2) (add_command ?c (?cs ! 1) (add_command ?c (?cs ! 0) ?w))"
  have "recorded ?c ((([] @ [?cs ! 0]) @ [?cs ! 1]) @ [?cs ! 2]) w w'"
    unfolding w'_def by (intro recorded_add recorded_start)
  then have "recorded ?c ?cs w w'" by (simp add: texture_commands_def)
  moreover have "record_with d drv scratch (\<lambda>w.
       and_then (transition_image_layout d scratch img LayoutTransferDestination w) (\<lambda>w.
       and_then (buffer_copy_image d scratch st img w) (\<lambda>w.
       transition_image_layout d scratch img LayoutShaderResource w))) w = Inr w'"
    by (rule record_with_recorded [OF doc scratch])
      (simp add: transition_image_layout_def buffer_copy_image_def img st source_masks_def destination_masks_def w'_def
        texture_commands_def texture_barrier_def)
  ultimately show ?thesis by blast
qed

lemma gpu_contents_texels [simp]: "gpu_contents (w\<lparr>texels := ts\<rparr>) h = gpu_contents w h"
  by (simp add: gpu_contents_def split: option.split)

text \<open>The second transition starts from the undefined layout again, which discards what was copied.\<close>

lemma run_texture:
  assumes "map_of (texels w) (vi_image img) = Some t" "gpu_contents w (vb_buffer st) = Some bytes"
    and "unat (vi_width img) * unat (vi_height img) * texel_size \<le> length bytes"
  obtains w' t' where "run_commands (texture_commands st img) (w, nothing_bound) = Some (w', nothing_bound)"
    "map_of (texels w') = (map_of (texels w))(vi_image img \<mapsto> t')" "tex_bytes t' = None"
    "tex_layout t' = layout_value LayoutShaderResource" "\<exists>ts. w' = w\<lparr>texels := ts\<rparr>"
proof -
  define t1 where "t1 = t\<lparr>tex_layout := layout_value LayoutTransferDestination, tex_bytes := None\<rparr>"
  define t2 where "t2 = t1\<lparr>tex_bytes := Some (take (unat (vi_width img) * unat (vi_height img) * texel_size) bytes)\<rparr>"
  define t3 where "t3 = t2\<lparr>tex_layout := layout_value LayoutShaderResource, tex_bytes := None\<rparr>"
  define ts where "ts = AList.update (vi_image img) t3 (AList.update (vi_image img) t2 (AList.update (vi_image img) t1 (texels w)))"
  have "run_commands (texture_commands st img) (w, nothing_bound) = Some (w\<lparr>texels := ts\<rparr>, nothing_bound)"
    using assms
    by (simp add: texture_commands_def texture_barrier_def transition_texels_def layout_value_def ts_def t3_def t2_def t1_def
        update_conv')
  moreover have "map_of ts = (map_of (texels w))(vi_image img \<mapsto> t3)" by (simp add: ts_def update_conv')
  ultimately show ?thesis using that [of "w\<lparr>texels := ts\<rparr>" t3] by (auto simp: t3_def)
qed

definition texels_undefined :: "vk_world \<Rightarrow> VulkanImage \<Rightarrow> bool" where
  "texels_undefined w img \<longleftrightarrow> (\<exists>t. map_of (texels w) (vi_image img) = Some t \<and> tex_bytes t = None \<and>
     tex_layout t = layout_value LayoutShaderResource)"

text \<open>Uploading textures changes texels and the recording of the scratch buffer.\<close>

definition same_but_texels :: "nat \<Rightarrow> vk_world \<Rightarrow> vk_world \<Rightarrow> bool" where
  "same_but_texels c w w' \<longleftrightarrow> vk_wf w' \<and> keeps_buffers {} w w' \<and> objects w' = objects w \<and> descriptor_sets w' = descriptor_sets w \<and>
     (\<forall>c'. c' \<noteq> c \<longrightarrow> map_of (recordings w') c' = map_of (recordings w) c')"

lemma same_but_texels_trans: "same_but_texels c w w' \<Longrightarrow> same_but_texels c w' w'' \<Longrightarrow> same_but_texels c w w''"
  using keeps_buffers_trans [of "{}" w w' "{}" w''] by (simp add: same_but_texels_def)

lemma upload_texture_returns:
  assumes doc: "vk_documented drv" and wf: "vk_wf w" and scratch: "\<not> cb_recording scratch"
    and img: "map_of (texels w) (vi_image img) \<noteq> None" "vi_layout img = LayoutUndefined"
    and bytes: "unat (vi_width img) * unat (vi_height img) * texel_size \<le> length bytes" "bytes \<noteq> []"
  shows "returns (upload_texture d drv scratch fence bytes img w) (\<lambda>w'. same_but_texels (cb_native scratch) w w' \<and>
    (\<exists>t'. map_of (texels w') = (map_of (texels w))(vi_image img \<mapsto> t')) \<and> texels_undefined w' img)"
proof -
  obtain st w1 w2 s2 where 2: "vk_buffer_new d drv StagingBuffer TransferSource CPU (length bytes) w = Inr (st, w1)"
    "vk_buffer_write d st bytes w1 = Inr w2" "vk_wf w2" "owns w2 st s2" "gpu_contents w2 (vb_buffer st) = Some bytes"
    "keeps_buffers {} w w2" "same_objects w w2" "map_of (storages w) (vb_buffer st) = None"
    by (rule staging_filled [OF doc wf bytes(2), of d]) blast
  have "\<not> vk_buffer_is_null st" using 2(4) by (simp add: owns_def vk_buffer_is_null_def)
  then obtain w3 where 3: "record_with d drv scratch (\<lambda>w.
       and_then (transition_image_layout d scratch img LayoutTransferDestination w) (\<lambda>w.
       and_then (buffer_copy_image d scratch st img w) (\<lambda>w.
       transition_image_layout d scratch img LayoutShaderResource w))) w2 = Inr w3"
    "recorded (cb_native scratch) (texture_commands st img) w2 w3" using texture_recorded [OF doc scratch img(2)] by blast
  let ?w3 = "sync (fence_signal fence) w3"
  have e3: "storages ?w3 = storages w2" "vk_memory ?w3 = vk_memory w2" using 3(2) by (simp_all add: recorded_def)
  obtain t where t: "map_of (texels ?w3) (vi_image img) = Some t" using img(1) 2(7) 3(2) by (auto simp: recorded_def same_objects_def)
  have g3: "gpu_contents ?w3 (vb_buffer st) = Some bytes" using same_store(3) [OF e3] 2(5) by simp
  obtain w4 t' where 4: "run_commands (texture_commands st img) (?w3, nothing_bound) = Some (w4, nothing_bound)"
    "map_of (texels w4) = (map_of (texels ?w3))(vi_image img \<mapsto> t')" "tex_bytes t' = None"
    "tex_layout t' = layout_value LayoutShaderResource" "\<exists>ts. w4 = ?w3\<lparr>texels := ts\<rparr>"
    by (rule run_texture [OF t g3 bytes(1)]) blast
  define w5 where "w5 = sync (submit_to (submit_new [cb_native scratch] [] [] []) fence @ fence_wait_for fence) w4"
  have e5: "storages w5 = storages w2" "vk_memory w5 = vk_memory w2" using e3 4(5) by (auto simp: w5_def)
  have o5: "vk_wf w5" "owns w5 st s2" unfolding same_store [OF e5] by (fact 2(3,4))+
  note D = vk_buffer_destroy_effect [OF o5]
  have "map_of (recordings ?w3) (cb_native scratch) = Some (texture_commands st img)" using 3(2) by (simp add: recorded_def)
  then have run: "upload_texture d drv scratch fence bytes img w = Inr (vk_buffer_destroy st w5)"
    using 2(1,2) 3(1) 4(1) by (simp add: upload_texture_def submit_and_wait_def w5_def)
  have "keeps_buffers {vb_buffer st} w (vk_buffer_destroy st w5)"
    using keeps_buffers_trans [OF 2(6) keeps_buffers_trans [OF same_store(4) [OF e5] D(2)], of "{}"] by simp
  then have "keeps_buffers {} w (vk_buffer_destroy st w5)" by (rule keeps_buffers_forget) (simp add: 2(8))
  then have "same_but_texels (cb_native scratch) w (vk_buffer_destroy st w5)"
    using D(1,3) 2(7) 3(2) 4(5) by (auto simp: same_but_texels_def same_objects_def recorded_def w5_def)
  moreover have "map_of (texels (vk_buffer_destroy st w5)) = (map_of (texels w))(vi_image img \<mapsto> t')"
    using D(3) 4(2) 3(2) 2(7) by (simp add: same_objects_def recorded_def w5_def)
  ultimately show ?thesis using run 4(3,4) by (auto simp: texels_undefined_def)
qed

text \<open>The uniform buffers: the first \<open>k\<close> hold their bytes, the others are set up.\<close>

definition component_holds :: "vk_world \<Rightarrow> Resource \<Rightarrow> VulkanBuffer \<Rightarrow> bool" where
  "component_holds w res b \<longleftrightarrow> owned w b \<and> gpu_contents w (vb_buffer b) = Some (ready_bytes res)"

definition components_at :: "Resource list \<Rightarrow> RendererBufferManagerVulkan \<Rightarrow> nat \<Rightarrow> vk_world \<Rightarrow> bool" where
  "components_at rs bm k w \<longleftrightarrow> (\<forall>i<length (bm_components bm).
     (if i < k then component_holds else component_set) w (rs ! i) (fst (bm_components bm ! i)))"

lemma component_kept:
  assumes "keeps_buffers S w w'" "vb_buffer b \<notin> S"
  shows "component_set w res b \<Longrightarrow> component_set w' res b" "component_holds w res b \<Longrightarrow> component_holds w' res b"
  using assms owned_kept [OF _ assms] allocated_kept [OF _ assms] keeps_gpu_contents [OF assms(1), of "vb_buffer b"]
  by (auto simp: component_set_def component_holds_def split: if_splits)

lemma components_at_step:
  assumes at: "components_at rs bm k w" and k: "k < length (bm_components bm)"
    and dist: "distinct (map (vb_buffer \<circ> fst) (bm_components bm))"
    and keep: "keeps_buffers {vb_buffer (fst (bm_components bm ! k))} w w'" and new: "component_holds w' (rs ! k) (fst (bm_components bm ! k))"
  shows "components_at rs bm (Suc k) w'"
  unfolding components_at_def
proof (intro allI impI)
  fix i assume i: "i < length (bm_components bm)"
  let ?b = "\<lambda>i. fst (bm_components bm ! i)"
  show "(if i < Suc k then component_holds else component_set) w' (rs ! i) (?b i)"
  proof (cases "i = k")
    case False
    then have "vb_buffer (?b i) \<notin> {vb_buffer (?b k)}" using dist i k by (simp add: distinct_conv_nth)
    then show ?thesis using at i False component_kept [OF keep] by (auto simp: components_at_def split: if_splits)
  qed (use new in simp)
qed

lemma scratch_buffer_returns:
  assumes doc: "vk_documented drv" and wf: "vk_wf w" and scratch: "\<not> cb_recording scratch"
    and i: "i < length (bm_components bm)" "bm_components bm ! i = (b, i)" "i < length rs'"
    and set: "component_set w (rs ! i) b" and ready: "vk_buffer_ready (rs ! i)" and same: "same_access (rs ! i) (rs' ! i)"
  shows "returns (scratch_buffer_resource d drv scratch fence rs' bm i w) (\<lambda>w'. vk_wf w' \<and> keeps_buffers {vb_buffer b} w w' \<and>
    keeps_rest {cb_native scratch} w w' \<and> component_holds w' (rs ! i) b)"
proof (cases "resource_data_access (rs ! i)")
  case DynamicFixed
  then show ?thesis using i wf set same
    by (simp add: scratch_buffer_resource_def same_access_def component_set_def component_holds_def)
next
  case StaticFixed
  then have res: "rs' ! i = rs ! i" "allocated w b (length (ready_bytes (rs ! i)))" using same set by (simp_all add: same_access_def component_set_def)
  have bytes: "ready_bytes (rs ! i) \<noteq> []" "\<And>mem. resource_get_bytes mem (rs ! i) = Inr (ready_bytes (rs ! i))"
    using StaticFixed ready by (cases "rs ! i"; simp add: vk_buffer_ready_def ready_bytes_def resource_get_bytes_def resource_data_access_def)+
  obtain w1 where 1: "command_buffer_reset d scratch w = Inr w1" "vk_wf w1" "keeps_buffers {} w w1" "keeps_rest {cb_native scratch} w w1"
    by (rule command_reset_kept [OF scratch wf, of d]) blast
  have al: "allocated w1 b (length (ready_bytes (rs ! i)))" using allocated_kept [OF res(2) 1(3)] by simp
  obtain w2 where 2: "staged_copy d drv scratch fence (ready_bytes (rs ! i)) b w1 = Inr w2" "vk_wf w2" "keeps_buffers {vb_buffer b} w1 w2"
    "keeps_rest {cb_native scratch} w1 w2" "allocated w2 b (length (ready_bytes (rs ! i)))" "gpu_contents w2 (vb_buffer b) = Some (ready_bytes (rs ! i))"
    using staged_copy_kept [OF doc 1(2) scratch al bytes(1), of d fence] by (auto elim!: returnsE)
  have "scratch_buffer_resource d drv scratch fence rs' bm i w = Inr w2"
    using i StaticFixed res(1) 1(1) 2(1) bytes(2) by (simp add: scratch_buffer_resource_def)
  then show ?thesis
    using 2(2,6) allocated_owned [OF 2(5)] keeps_buffers_trans [OF 1(3) 2(3)] keeps_rest_trans [OF 1(4) 2(4)]
    by (simp add: component_holds_def)
qed

lemma scratch_buffers_returns:
  assumes doc: "vk_documented drv" and wf: "vk_wf w" and scratch: "\<not> cb_recording scratch"
    and set: "components_set rs bm w" and ready: "\<forall>i<length (bm_components bm). vk_buffer_ready (rs ! i)"
    and same: "length rs' = length rs" "\<forall>j<length rs. same_access (rs ! j) (rs' ! j)"
  shows "returns (for_each (scratch_buffer_resource d drv scratch fence rs' bm) [0..<length (bm_components bm)] w) (\<lambda>w'. vk_wf w' \<and>
    keeps_buffers (component_handles bm) w w' \<and> keeps_rest {cb_native scratch} w w' \<and> components_at rs bm (length (bm_components bm)) w')"
proof (rule returns_for_range [where I = "\<lambda>k v. vk_wf v \<and> keeps_buffers (component_handles bm) w v \<and>
    keeps_rest {cb_native scratch} w v \<and> components_at rs bm k v"])
  fix i v assume i: "i < length (bm_components bm)" and v: "vk_wf v \<and> keeps_buffers (component_handles bm) w v \<and>
    keeps_rest {cb_native scratch} w v \<and> components_at rs bm i v"
  let ?b = "fst (bm_components bm ! i)"
  have b: "bm_components bm ! i = (?b, i)" "i < length rs'" using set i same(1) by (auto simp: components_set_def prod_eq_iff)
  have "component_set v (rs ! i) ?b" using v i by (auto simp: components_at_def)
  then obtain v' where 1: "scratch_buffer_resource d drv scratch fence rs' bm i v = Inr v'" "vk_wf v'" "keeps_buffers {vb_buffer ?b} v v'"
    "keeps_rest {cb_native scratch} v v'" "component_holds v' (rs ! i) ?b"
    using scratch_buffer_returns [OF doc _ scratch i b(1,2), of v rs d fence] v ready same i b(2) by (auto elim!: returnsE)
  have "components_at rs bm (Suc i) v'"
    by (rule components_at_step [OF _ i _ 1(3,5)]) (use v set in \<open>simp_all add: components_set_def\<close>)
  moreover have "{vb_buffer ?b} \<subseteq> component_handles bm" using i by (auto simp: component_handles_def)
  then have "keeps_buffers (component_handles bm) w v'"
    using keeps_buffers_trans [of "component_handles bm" w v _ v'] 1(3) v by (metis Un_absorb2)
  moreover have "keeps_rest {cb_native scratch} w v'" using keeps_rest_trans [of "{cb_native scratch}" w v "{cb_native scratch}" v'] 1(4) v by simp
  ultimately show "returns (scratch_buffer_resource d drv scratch fence rs' bm i v) (\<lambda>v. vk_wf v \<and> keeps_buffers (component_handles bm) w v \<and>
    keeps_rest {cb_native scratch} w v \<and> components_at rs bm (Suc i) v)" using 1(1,2) by simp
qed (use wf set in \<open>simp add: components_at_def components_set_def\<close>)

lemma scratch_texture_returns:
  assumes doc: "vk_documented drv" and wf: "vk_wf w" and scratch: "\<not> cb_recording scratch"
    and i: "i < length (im_textures im)" "im_textures im ! i = tc" "tc_resource tc < length rs"
    and set: "texture_set w0 (rs ! tc_resource tc) tc" "map_of (texels w) (vi_image (tc_img tc)) \<noteq> None" "texture_ready (rs ! tc_resource tc)"
  shows "returns (scratch_texture_resource d drv scratch fence rs im i w) (\<lambda>w'. same_but_texels (cb_native scratch) w w' \<and>
    (\<exists>t'. map_of (texels w') = (map_of (texels w))(vi_image (tc_img tc) \<mapsto> t')) \<and> texels_undefined w' (tc_img tc))"
proof -
  obtain t where t: "rs ! tc_resource tc = TextureRes t" "vi_layout (tc_img tc) = LayoutUndefined"
    "vi_width (tc_img tc) = texture_get_width t" "vi_height (tc_img tc) = texture_get_height t" using set(1) by (auto simp: texture_set_def)
  have bytes: "texture_get_bytes t \<noteq> []"
    "unat (vi_width (tc_img tc)) * unat (vi_height (tc_img tc)) * texel_size \<le> length (texture_get_bytes t)"
    using set(3) t by (simp_all add: texture_ready_def)
  obtain w1 where 1: "command_buffer_reset d scratch w = Inr w1" "vk_wf w1" "keeps_buffers {} w w1" "keeps_rest {cb_native scratch} w w1"
    "storages w1 = storages w" "vk_memory w1 = vk_memory w" "texels w1 = texels w" "objects w1 = objects w"
    by (rule command_reset_kept [OF scratch wf, of d]) blast
  have "same_but_texels (cb_native scratch) w w1"
    using 1(1-3) scratch by (auto simp: same_but_texels_def command_buffer_reset_def update_conv')
  moreover have "map_of (texels w1) (vi_image (tc_img tc)) \<noteq> None" using set(2) 1(7) by simp
  ultimately show ?thesis
    using upload_texture_returns [OF doc 1(2) scratch _ t(2) bytes(2,1), of d fence] i t(1) 1(1,7) same_but_texels_trans
    by (auto simp: scratch_texture_resource_def resource_get_bytes_def resource_data_access_def elim!: returns_mono)
qed

lemma scratch_textures_returns:
  assumes doc: "vk_documented drv" and wf: "vk_wf w" and scratch: "\<not> cb_recording scratch"
    and set: "textures_set rs is im w" and res: "\<forall>i\<in>set is. i < length rs \<and> texture_ready (rs ! i)"
  shows "returns (for_each (scratch_texture_resource d drv scratch fence rs im) [0..<length (im_textures im)] w) (\<lambda>w'.
    same_but_texels (cb_native scratch) w w' \<and> (\<forall>tc\<in>set (im_textures im). texels_undefined w' (tc_img tc)))"
proof -
  let ?ts = "im_textures im" and ?img = "\<lambda>k. vi_image (tc_img (im_textures im ! k))"
  let ?I = "\<lambda>k v. same_but_texels (cb_native scratch) w v \<and> (\<forall>h. map_of (texels w) h \<noteq> None \<longrightarrow> map_of (texels v) h \<noteq> None) \<and>
    (\<forall>j<k. texels_undefined v (tc_img (?ts ! j)))"
  have "returns (for_each (scratch_texture_resource d drv scratch fence rs im) [0..<length ?ts] w) (?I (length ?ts))"
  proof (rule returns_for_range [where I = ?I])
    fix i v assume i: "i < length ?ts" and v: "?I i v"
    have m: "?ts ! i \<in> set ?ts" "tc_resource (?ts ! i) \<in> set is" using i set by (auto simp: textures_set_def)
    have ts: "texture_set w (rs ! tc_resource (?ts ! i)) (?ts ! i)" using set m(1) by (simp add: textures_set_def)
    have live: "map_of (texels v) (?img i) \<noteq> None" using v ts by (auto simp: texture_set_def)
    obtain v' t' where 1: "scratch_texture_resource d drv scratch fence rs im i v = Inr v'" "same_but_texels (cb_native scratch) v v'"
      "map_of (texels v') = (map_of (texels v))(?img i \<mapsto> t')" "texels_undefined v' (tc_img (?ts ! i))"
      using scratch_texture_returns [OF doc _ scratch i refl _ ts live, of d fence] v res m(2)
      by (auto simp: same_but_texels_def elim!: returnsE)
    have "texels_undefined v' (tc_img (?ts ! j))" if j: "j < Suc i" for j
    proof (cases "j = i")
      case False
      then have "?img j \<noteq> ?img i" using set i j by (auto simp: textures_set_def distinct_conv_nth)
      then show ?thesis using v False j 1(3) by (simp add: texels_undefined_def)
    qed (use 1(4) in simp)
    then show "returns (scratch_texture_resource d drv scratch fence rs im i v) (?I (Suc i))"
      using 1(1-3) v same_but_texels_trans by (auto split: if_splits)
  qed (use wf in \<open>simp add: same_but_texels_def\<close>)
  then show ?thesis by (rule returns_mono) (auto simp: in_set_conv_nth)
qed

end
