(* ===== verification/Vk_Built.thy ===== *)
theory Vk_Built
  imports Vk_Scratch
begin

text \<open>
  The whole constructor of \<open>RendererVulkan\<close>.  It leaves a renderer that is ready, whose draw list
  is every input once, whose uniform buffers hold their bytes and whose descriptor sets name its
  resources; but its command buffers were recorded before there was a draw list.
\<close>

section \<open>Command buffers that draw nothing\<close>

fun zero_draw :: "vk_command \<Rightarrow> bool" where
  "zero_draw (CmdDrawIndexed _ _ _ _ _) = False"
| "zero_draw (CmdDrawIndexedIndirect _ n _) = (n = 0)"
| "zero_draw _ = True"

lemma indirect_draw_none: "indirect_draw w s b 0 = Some ds \<Longrightarrow> ds = []"
  by (auto simp: indirect_draw_def indirect_fetch_def split: option.splits if_splits)

lemma run_zero_draw: "run_command c (w, s) = Some (w', s') \<Longrightarrow> zero_draw c \<Longrightarrow> drawn_geometry s' = drawn_geometry s"
  by (cases c) (auto split: option.splits if_splits dest: indirect_draw_none)

lemma run_zero_draws:
  "run_commands cs (w, s) = Some (w', s') \<Longrightarrow> \<forall>c\<in>set cs. zero_draw c \<Longrightarrow> drawn_geometry s' = drawn_geometry s"
proof (induction cs arbitrary: w s)
  case (Cons c cs)
  then obtain v t where "run_command c (w, s) = Some (v, t)" "run_commands cs (v, t) = Some (w', s')"
    by (auto split: option.splits)
  then show ?case using Cons run_zero_draw [of c w s v t] by simp
qed simp

lemma view_commands_zero:
  assumes "map_of (recordings w) c = Some (view_commands area r 0 0 i)"
  shows "command_buffer_draws w c \<in> {None, Some []}"
proof -
  have "\<forall>c\<in>set (view_commands area r 0 0 i). zero_draw c"
    by (auto simp: view_commands_def view_prologue_def batch_commands_def split: option.splits)
  then show ?thesis
    using assms run_zero_draws [of "view_commands area r 0 0 i" w nothing_bound]
    by (cases "run_commands (view_commands area r 0 0 i) (w, nothing_bound)")
      (auto simp: command_buffer_draws_def nothing_bound_def)
qed

section \<open>The first recording\<close>

lemma descriptors_set_kept: "descriptors_set n bm im pr w \<Longrightarrow> keeps_rest C w w' \<Longrightarrow> descriptors_set n bm im pr w'"
  unfolding descriptors_set_def keeps_rest_def by (metis (no_types, lifting))

lemma rv_set_up_grows:
  assumes up: "rv_set_up n gs builder r w" and g: "grows w w'" shows "rv_set_up n gs builder r w'"
proof -
  have rest: "keeps_rest UNIV w w'" using g by (simp add: grows_def)
  have "map_of (objects w) h = Some v \<Longrightarrow> map_of (objects w') h = Some v" for h v using rest by (simp add: keeps_rest_def)
  then show ?thesis
    using up inputs_allocated_grows [OF _ g] components_set_grows [OF _ g] new_slots_grows [OF _ g] textures_set_grows [OF _ g]
      targets_ready_kept [OF _ rest] descriptors_set_kept [OF _ rest]
    by (simp add: rv_set_up_def Let_def)
qed

lemma same_but_views_grows: "same_but_views C w w' \<Longrightarrow> vk_wf w \<Longrightarrow> grows w w'"
  using same_but_views_kept [of C w w'] keeps_rest_mono [of C w w' UNIV]
  by (auto simp: grows_def same_but_views_def vk_wf_def)

lemma rv_set_up_wf: "rv_set_up n gs builder r w \<Longrightarrow> vk_wf w"
  by (simp add: rv_set_up_def Let_def inputs_allocated_def)

lemma set_up_bindable:
  assumes "rv_set_up n gs builder r w"
  shows "bindable (pr_draw_indirect (rv_processor r)) (bm_vertex (rv_buffers r)) (bm_index (rv_buffers r))"
    "bindable (pr_draw_indirect_dynamic (rv_processor r)) (bm_dynamic_vertex (rv_buffers r)) (bm_dynamic_index (rv_buffers r))"
proof -
  have n: "new_slots gs (rv_processor r) w" and i: "inputs_allocated gs (rv_inputs r) (rv_buffers r) w"
    using assms by (simp_all add: rv_set_up_def Let_def)
  have b: "owned w b \<Longrightarrow> \<not> vk_buffer_is_null b" for b by (auto simp: owned_def owns_def vk_buffer_is_null_def)
  show "bindable (pr_draw_indirect (rv_processor r)) (bm_vertex (rv_buffers r)) (bm_index (rv_buffers r))"
    using n i b allocated_owned unfolding bindable_def new_slots_def inputs_allocated_def static_allocated_def
    by (auto split: if_splits)
  show "bindable (pr_draw_indirect_dynamic (rv_processor r)) (bm_dynamic_vertex (rv_buffers r)) (bm_dynamic_index (rv_buffers r))"
    using n i b unfolding bindable_def new_slots_def inputs_allocated_def dynamic_ready_def batch_ok_def by auto
qed

text \<open>The constructor records the views while the draw list is still empty.\<close>

lemma first_record_returns:
  assumes doc: "vk_documented drv" and info: "info_ready d info n" and up: "rv_set_up n gs builder r w"
  shows "returns (rv_record d drv info r w) (\<lambda>w'. rv_set_up n gs builder r w' \<and>
    (\<exists>area. \<forall>i<n. map_of (recordings w') (view_natives n (rv_processor r) ! i) = Some (view_commands area r 0 0 i)))"
proof -
  obtain area where a: "get_view_count d info = Inr n" "full_render_area info = Inr area" using info by (auto simp: info_ready_def)
  have U: "targets_ready n (rv_pass r) (rv_pipeline r) (rv_images r) (rv_processor r) w" "pool_ready n (pr_commands (rv_processor r))"
    "pr_draw_cache (rv_processor r) = []" using up by (simp_all add: rv_set_up_def Let_def)
  have counts: "count_draws x (rv_inputs r) (pr_draw_cache (rv_processor r)) = Inr 0" for x by (simp add: U(3) count_draws_def)
  show ?thesis
    using rv_record_returns [OF doc a set_up_bindable [OF up] U(1,2) counts counts] rv_set_up_grows [OF up]
      same_but_views_grows [OF _ rv_set_up_wf [OF up]] by (auto elim!: returns_mono)
qed

section \<open>The scratch commands\<close>

text \<open>As \<open>keeps_rest\<close>, but for the texels.\<close>

definition keeps_but_texels :: "nat \<Rightarrow> vk_world \<Rightarrow> vk_world \<Rightarrow> bool" where
  "keeps_but_texels c w w' \<longleftrightarrow> keeps_rest {c} w (w'\<lparr>texels := texels w\<rparr>)"

lemma texels_irrelevant [simp]:
  "targets_ready n pass pm im pr (w\<lparr>texels := ts\<rparr>) = targets_ready n pass pm im pr w"
  "descriptors_set n bm im pr (w\<lparr>texels := ts\<rparr>) = descriptors_set n bm im pr w"
  by (simp_all add: targets_ready_def live_object_def descriptors_set_def split: option.split)

lemma keeps_but_texels_ready:
  "targets_ready n pass pm im pr w \<Longrightarrow> keeps_but_texels c w w' \<Longrightarrow> targets_ready n pass pm im pr w'"
  "descriptors_set n bm im pr w \<Longrightarrow> keeps_but_texels c w w' \<Longrightarrow> descriptors_set n bm im pr w'"
  using targets_ready_kept [of n pass pm im pr w "{c}" "w'\<lparr>texels := texels w\<rparr>"]
    descriptors_set_kept [of n bm im pr w "{c}" "w'\<lparr>texels := texels w\<rparr>"]
  by (simp_all add: keeps_but_texels_def)

lemma keeps_but_texels_objects:
  "keeps_but_texels c w w' \<Longrightarrow> map_of (objects w) h = Some v \<Longrightarrow> map_of (objects w') h = Some v"
  "keeps_but_texels c w w' \<Longrightarrow> c' \<noteq> c \<Longrightarrow> map_of (recordings w') c' = map_of (recordings w) c'"
  by (simp_all add: keeps_but_texels_def keeps_rest_def)

lemma keeps_but_texels_trans:
  "keeps_rest {c} w w' \<Longrightarrow> same_but_texels c w' w'' \<Longrightarrow> keeps_but_texels c w w''"
  by (simp add: keeps_but_texels_def keeps_rest_def same_but_texels_def)

lemma keeps_but_texels_destroy:
  "keeps_but_texels c w w' \<Longrightarrow> map_of (objects w) h = None \<Longrightarrow> keeps_but_texels c w (object_destroy h w')"
proof -
  assume k: "keeps_but_texels c w w'" "map_of (objects w) h = None"
  have "(object_destroy h w')\<lparr>texels := texels w\<rparr> = object_destroy h (w'\<lparr>texels := texels w\<rparr>)"
    by (cases w') (simp add: object_destroy_def)
  then show ?thesis using keeps_rest_destroy [of "{c}" w "w'\<lparr>texels := texels w\<rparr>" h] k by (simp add: keeps_but_texels_def)
qed

lemma textures_set_kept: "textures_set rs is im w \<Longrightarrow> keeps_rest C w w' \<Longrightarrow> textures_set rs is im w'"
  by (fastforce simp: textures_set_def texture_set_def keeps_rest_def)

lemma components_at_kept:
  "components_at rs bm k w \<Longrightarrow> keeps_buffers {} w w' \<Longrightarrow> components_at rs bm k w'"
  using component_kept [of "{}" w w'] by (auto simp: components_at_def split: if_splits)

text \<open>What the constructor makes of the resources.\<close>

definition resources_built :: "nat \<Rightarrow> (nat \<times> nat) renderer_builder \<Rightarrow> RendererVulkan \<Rightarrow> vk_world \<Rightarrow> bool" where
  "resources_built n builder r w \<longleftrightarrow>
     (let bm = rv_buffers r; im = rv_images r; nb = length (b_buffer_resources builder); rs = clone_resources builder in
      length (bm_components bm) = nb \<and> components_at rs bm nb w \<and>
      map tc_resource (im_textures im) = [nb..<length rs] \<and> (\<forall>tc\<in>set (im_textures im). texels_undefined w (tc_img tc)) \<and>
      descriptors_set n bm im (rv_processor r) w \<and>
      map_of (objects w) (pm_set_layout (rv_pipeline r)) = Some (DescriptorSetLayoutObject (map (resource_binding nb) [0..<length rs])))"

definition vk_built :: "nat \<Rightarrow> geometry list \<Rightarrow> (nat \<times> nat) renderer_builder \<Rightarrow> RendererVulkan \<Rightarrow> vk_world \<Rightarrow> bool" where
  "vk_built n gs builder r w \<longleftrightarrow> vk_ready n gs r w \<and> pr_draw_cache (rv_processor r) = [0..<length gs] \<and> resources_built n builder r w"

lemma vk_ready_kept_components:
  assumes inp: "inputs_done c gs inps bm pr w pr' w'" and wf: "vk_wf w''" and keep: "keeps_buffers (component_handles bm) w' w''"
    and apart: "component_handles bm \<inter> geometry_buffers bm = {}" "slots_apart pr' (component_handles bm)"
  shows "inputs_ready gs inps bm w''" "slots_ready gs bm pr' w''" "list_ready gs pr' w''"
proof -
  note I = inp [unfolded inputs_done_def]
  have a: "component_handles bm \<inter> slot_handles (pr_draw_indirect pr') = {}"
    "component_handles bm \<inter> slot_handles (pr_draw_indirect_dynamic pr') = {}" using apart(2) by (auto simp: slots_apart_def)
  show "inputs_ready gs inps bm w''" by (rule inputs_ready_kept [OF _ wf keep apart(1)]) (use I in blast)
  show "slots_ready gs bm pr' w''"
    using I indirect_ok_kept [OF _ keep a(1)] indirect_ok_kept [OF _ keep a(2)] by (simp add: slots_ready_def)
  show "list_ready gs pr' w''" using I slot_holds_kept [OF _ keep a(1)] slot_holds_kept [OF _ keep a(2)] by (simp add: list_ready_def)
qed

lemma new_slots_components:
  assumes fin: "inputs_done c gs inps bm pr w pr' w'" and set: "components_set rs bm w"
    and apart: "component_handles bm \<inter> geometry_buffers bm = {}" "slots_apart pr (component_handles bm)"
  shows "slots_apart pr' (component_handles bm)" "components_set rs bm w'"
proof -
  let ?S = "static_handles bm \<union> slot_handles (pr_draw_indirect pr) \<union> slot_handles (pr_draw_indirect_dynamic pr)"
  have S: "component_handles bm \<inter> ?S = {}" using apart by (auto simp: slots_apart_def geometry_handles)
  have "map_of (storages w) h \<noteq> None" if h: "h \<in> component_handles bm" for h
  proof -
    obtain i where "i < length (bm_components bm)" "h = vb_buffer (fst (bm_components bm ! i))" using component_at [OF h] by blast
    then show ?thesis using set by (auto simp: components_set_def component_set_def owned_def owns_def)
  qed
  then show "slots_apart pr' (component_handles bm)" using fin S unfolding inputs_done_def slots_apart_def by blast
  have "keeps_buffers ?S w w'" using fin by (simp add: inputs_done_def)
  then have "component_set w' res (fst (bm_components bm ! i))"
    if "component_set w res (fst (bm_components bm ! i))" "i < length (bm_components bm)" for res i
  proof -
    have "vb_buffer (fst (bm_components bm ! i)) \<in> component_handles bm" using that(2) by (simp add: component_handles_def)
    then have "vb_buffer (fst (bm_components bm ! i)) \<notin> ?S" using S by blast
    then show ?thesis using component_kept(1) [OF \<open>keeps_buffers ?S w w'\<close>] that(1) by blast
  qed
  then show "components_set rs bm w'" using set by (simp add: components_set_def)
qed

lemma built_state:
  fixes builder :: "(nat \<times> nat) renderer_builder"
  assumes up: "rv_set_up n gs builder r w" and fin: "inputs_done c gs (rv_inputs r) (rv_buffers r) (rv_processor r) w1 pr' w2"
    and apart: "slots_apart pr' (component_handles (rv_buffers r))" and k: "keeps_but_texels c w w'" and wf: "vk_wf w'"
    and keep: "keeps_buffers (component_handles (rv_buffers r)) w2 w'"
    and comps: "components_at (clone_resources builder) (rv_buffers r) (length (b_buffer_resources builder)) w'"
    and tex: "\<forall>tc\<in>set (im_textures (rv_images r)). texels_undefined w' (tc_img tc)"
  shows "vk_built n gs builder (r\<lparr>rv_processor := pr'\<rparr>) w' \<and> pr_commands pr' = pr_commands (rv_processor r)"
proof -
  note U = up [unfolded rv_set_up_def Let_def]
  obtain s t where pr': "pr' = (rv_processor r)\<lparr>pr_draw_indirect := s, pr_draw_indirect_dynamic := t, pr_draw_cache := [0..<length gs]\<rparr>"
    using fin unfolding inputs_done_def by blast
  have "component_handles (rv_buffers r) \<inter> geometry_buffers (rv_buffers r) = {}" using U by blast
  note V = vk_ready_kept_components [OF fin wf keep this apart]
  have "targets_ready n (rv_pass r) (rv_pipeline r) (rv_images r) (rv_processor r) w'"
    "descriptors_set n (rv_buffers r) (rv_images r) (rv_processor r) w'" using keeps_but_texels_ready [OF _ k] U by blast+
  then have "targets_ready n (rv_pass r) (rv_pipeline r) (rv_images r) pr' w'" "descriptors_set n (rv_buffers r) (rv_images r) pr' w'"
    by (simp_all add: pr' targets_ready_def descriptors_set_def)
  then show ?thesis
    using U V comps tex keeps_but_texels_objects(1) [OF k] pr'
    by (simp add: vk_built_def vk_ready_def resources_built_def Let_def textures_set_def)
qed

lemma scratch_commands_returns:
  assumes doc: "vk_documented drv" and info: "info_ready d info n" and b: "vk_builder_ready gs builder mem"
    and up: "rv_set_up n gs builder r w"
  shows "returns (record_and_run_scratch_commands d drv info (rv_inputs r) (rv_resources r) (rv_buffers r) (rv_images r) (rv_processor r) w)
    (\<lambda>(pr', w'). vk_built n gs builder (r\<lparr>rv_processor := pr'\<rparr>) w' \<and> pr_commands pr' = pr_commands (rv_processor r) \<and>
      (\<forall>c\<in>set (view_natives n (rv_processor r)). map_of (recordings w') c = map_of (recordings w) c))"
proof -
  let ?bm = "rv_buffers r" and ?im = "rv_images r" and ?pr = "rv_processor r" and ?rs = "clone_resources builder"
  let ?nb = "length (b_buffer_resources builder)" and ?scratch = "cp_buffers (pr_commands ?pr) ! n"
  let ?c = "cb_native ?scratch"
  obtain fence w1 where 1: "fence_new d drv w = Inr (fence, w1)" "storages w1 = storages w" "vk_memory w1 = vk_memory w" "recordings w1 = recordings w"
    "keeps_rest {} w w1" "map_of (objects w) fence = None"
    using object_new_returns [OF doc, of d FenceObject w] by (auto simp: fence_new_def elim!: returnsE)
  let ?w = "sync (fence_signal fence) w1"
  have up1: "rv_set_up n gs builder r ?w"
    by (rule rv_set_up_grows [OF up grows_same [OF rv_set_up_wf [OF up]]])
      (use 1 keeps_rest_mono [OF 1(5), of UNIV] in simp_all)
  note U = up1 [unfolded rv_set_up_def Let_def]
  have pool: "pool_ready n (pr_commands ?pr)" and cache: "pr_draw_cache ?pr = []" and inp: "inputs_allocated gs (rv_inputs r) ?bm ?w"
    and slots: "new_slots gs ?pr ?w" "slots_apart ?pr (geometry_buffers ?bm)" "slots_apart ?pr (component_handles ?bm)"
    and comps: "components_set ?rs ?bm ?w" "length (bm_components ?bm) = ?nb" and apart: "component_handles ?bm \<inter> geometry_buffers ?bm = {}"
    and texs: "textures_set ?rs [?nb..<length ?rs] ?im ?w"
    and same: "length (rv_resources r) = length ?rs" "\<forall>j<length ?rs. same_access (?rs ! j) (rv_resources r ! j)"
    using U by (auto simp: slots_apart_def)
  have sc: "\<not> cb_recording ?scratch" "n < length (cp_buffers (pr_commands ?pr))" using pool by (simp_all add: pool_ready_def)
  have ne: "nonempty_batch gs" and fit: "batch_fits gs" using b by (simp_all add: vk_builder_ready_def)
  obtain pr' w2 where 2: "scratch_inputs d drv info ?scratch fence (rv_inputs r) ?bm ?pr ?w = Inr (pr', w2)"
    "inputs_done ?c gs (rv_inputs r) ?bm ?pr ?w pr' w2"
    using scratch_inputs_returns [OF doc info pool inp slots(1,2) ne fit cache, of fence] by (auto elim!: returnsE)
  note S = new_slots_components [OF 2(2) comps(1) apart slots(3)] and I = 2(2) [unfolded inputs_done_def]
  have wf2: "vk_wf w2" using I by (simp add: inputs_ready_def)
  have rb: "\<forall>i<length (bm_components ?bm). vk_buffer_ready (?rs ! i)"
    using b comps(2) by (simp add: vk_builder_ready_def clone_resources_append nth_append)
  obtain w3 where 3: "for_each (scratch_buffer_resource d drv ?scratch fence (rv_resources r) ?bm) [0..<length (bm_components ?bm)] w2 = Inr w3"
    "vk_wf w3" "keeps_buffers (component_handles ?bm) w2 w3" "keeps_rest {?c} w2 w3" "components_at ?rs ?bm ?nb w3"
    using scratch_buffers_returns [OF doc wf2 sc(1) S(2) rb same, of d fence] comps(2) by (auto elim!: returnsE)
  have k3: "keeps_rest {?c} ?w w3" using keeps_rest_trans [of "{?c}" ?w w2 "{?c}" w3] I 3(4) by simp
  have rt: "\<forall>i\<in>set [?nb..<length ?rs]. i < length ?rs \<and> texture_ready (?rs ! i)"
    using b by (auto simp: vk_builder_ready_def clone_resources_append nth_append)
  have tex: "\<forall>i\<in>set [?nb..<length ?rs]. rv_resources r ! i = ?rs ! i"
    using rt same by (auto simp: same_access_def texture_ready_def resource_data_access_def split: Resource.splits)
  have t3: "textures_set (rv_resources r) [?nb..<length ?rs] ?im w3"
    by (rule textures_set_cong [OF textures_set_kept [OF texs k3]]) (simp add: tex)
  have rt': "\<forall>i\<in>set [?nb..<length ?rs]. i < length (rv_resources r) \<and> texture_ready (rv_resources r ! i)" using rt tex same(1) by simp
  obtain w4 where 4: "for_each (scratch_texture_resource d drv ?scratch fence (rv_resources r) ?im) [0..<length (im_textures ?im)] w3 = Inr w4"
    "same_but_texels ?c w3 w4" "\<forall>tc\<in>set (im_textures ?im). texels_undefined w4 (tc_img tc)"
    using scratch_textures_returns [OF doc 3(2) sc(1) t3 rt', of d fence] by (auto elim!: returnsE)
  let ?w' = "object_destroy fence w4"
  have kw: "keeps_buffers {} w3 ?w'" "vk_wf ?w'"
    using 4(2) same_store [of ?w' w4] keeps_buffers_trans [of "{}" w3 w4 "{}" ?w'] by (simp_all add: same_but_texels_def)
  have "keeps_rest {?c} w w3" using keeps_rest_trans [of "{}" w ?w "{?c}" w3] 1(5) k3 by simp
  then have k: "keeps_but_texels ?c w ?w'" by (rule keeps_but_texels_destroy [OF keeps_but_texels_trans [OF _ 4(2)] 1(6)])
  have "keeps_buffers (component_handles ?bm) w2 ?w'" using keeps_buffers_trans [OF 3(3) kw(1)] by simp
  moreover have "\<forall>tc\<in>set (im_textures ?im). texels_undefined ?w' (tc_img tc)" using 4(3) by (simp add: texels_undefined_def)
  ultimately have "vk_built n gs builder (r\<lparr>rv_processor := pr'\<rparr>) ?w' \<and> pr_commands pr' = pr_commands ?pr"
    using built_state [OF up 2(2) S(1) k kw(2)] components_at_kept [OF 3(5) kw(1)] by blast
  moreover have "?c \<notin> set (view_natives n ?pr)" using pool sc(2) by (auto simp: view_natives_def pool_ready_def distinct_conv_nth in_set_conv_nth)
  then have "\<forall>c\<in>set (view_natives n ?pr). map_of (recordings ?w') c = map_of (recordings w) c"
    using keeps_but_texels_objects(2) [OF k] by metis
  moreover have "record_and_run_scratch_commands d drv info (rv_inputs r) (rv_resources r) ?bm ?im ?pr w = Inr (pr', ?w')"
    using 1(1) 2(1) 3(1) 4(1) info sc(2) by (simp add: record_and_run_scratch_commands_def info_ready_def command_pool_at_def Let_def)
  ultimately show ?thesis by simp
qed

section \<open>The constructor\<close>

definition view_draws :: "nat \<Rightarrow> RendererVulkan \<Rightarrow> vk_world \<Rightarrow> u8 list list list option list" where
  "view_draws n r w = map (command_buffer_draws w) (view_natives n (rv_processor r))"

lemma renderer_vulkan_new_returns:
  assumes doc: "vk_documented drv" and sdoc: "sync_driver_documented sdrv" and wf: "vk_wf w" and win: "window_ready d info n"
    and b: "vk_builder_ready gs builder (vk_memory w)"
  shows "returns (renderer_vulkan_new d drv sdrv info builder w) (\<lambda>(r, w'). vk_built n gs builder r w' \<and> has_window info r \<and>
    (\<forall>ds\<in>set (view_draws n r w'). ds \<in> {None, Some []}))"
proof -
  have info: "info_ready d info n" using win by (simp add: window_ready_def)
  note B = b [unfolded vk_builder_ready_def]
  obtain r1 w1 where 1: "rv_members d drv sdrv info builder w = Inr (r1, w1)" "grows w w1" "members_ready n gs builder r1 w1" "has_window info r1"
    using rv_members_returns [OF doc sdoc wf win, of "vk_memory w" builder gs] B by (auto elim!: returnsE)
  have "all_geometry (vk_memory w1) (b_inputs builder) = Inr gs" by (rule all_geometry_unmapped [of "vk_memory w"]) (use B in blast)+
  then have b1: "vk_builder_ready gs builder (vk_memory w1)" using B by (simp add: vk_builder_ready_def)
  obtain r2 w2 where 2: "rv_setup d drv info builder r1 w1 = Inr (r2, w2)" "rv_set_up n gs builder r2 w2" "has_window info r2"
    using rv_setup_returns [OF doc grows_wf [OF 1(2)] info b1 1(3,4)] by (auto elim!: returnsE)
  obtain w3 area where 3: "rv_record d drv info r2 w2 = Inr w3" "rv_set_up n gs builder r2 w3"
    "\<forall>i<n. map_of (recordings w3) (view_natives n (rv_processor r2) ! i) = Some (view_commands area r2 0 0 i)"
    using first_record_returns [OF doc info 2(2)] by (auto elim!: returnsE)
  obtain pr w4 where 4: "record_and_run_scratch_commands d drv info (rv_inputs r2) (rv_resources r2) (rv_buffers r2) (rv_images r2)
      (rv_processor r2) w3 = Inr (pr, w4)" "vk_built n gs builder (r2\<lparr>rv_processor := pr\<rparr>) w4" "pr_commands pr = pr_commands (rv_processor r2)"
    "\<forall>c\<in>set (view_natives n (rv_processor r2)). map_of (recordings w4) c = map_of (recordings w3) c"
    using scratch_commands_returns [OF doc info b 3(2)] by (auto elim!: returnsE)
  have same: "view_natives n pr = view_natives n (rv_processor r2)" using 4(3) by (simp add: view_natives_def)
  have "command_buffer_draws w4 c \<in> {None, Some []}" if c: "c \<in> set (view_natives n pr)" for c
  proof -
    obtain i where "i < n" "c = view_natives n (rv_processor r2) ! i" using c unfolding same by (auto simp: in_set_conv_nth view_natives_def)
    then have "map_of (recordings w4) c = Some (view_commands area r2 0 0 i)" using 3(3) 4(4) c same by simp
    then show ?thesis by (rule view_commands_zero)
  qed
  then have "\<forall>ds\<in>set (view_draws n (r2\<lparr>rv_processor := pr\<rparr>) w4). ds \<in> {None, Some []}" by (auto simp: view_draws_def)
  moreover have "has_window info (r2\<lparr>rv_processor := pr\<rparr>)" using 2(3) by (simp add: has_window_def)
  ultimately show ?thesis using 1(1) 2(1) 3(1) 4(1,2) by (simp add: renderer_vulkan_new_def)
qed

end
