(* ===== verification/Vk_Render.thy ===== *)
theory Vk_Render
  imports Vk_Built
begin

text \<open>
  What a program that uses \<open>RendererVulkan\<close> sees.  A small specification of a renderer (the draw
  list it was given last and what its command buffers show) is refined by the renderer: whatever
  sequence of draw lists, clear colours, resizes and frames it is given, every frame it submits
  draws what the specification says.
\<close>

section \<open>Frames\<close>

text \<open>The image presented last, and what the command buffer submitted for it draws.\<close>

definition last_frame :: "vk_world \<Rightarrow> (u32 \<times> u8 list list list option) option" where
  "last_frame w = (case rev (sync_calls w) of
       QueuePresent _ img # QueueSubmit [c] _ _ _ _ # _ \<Rightarrow> Some (img, command_buffer_draws w c)
     | _ \<Rightarrow> None)"

lemma shows_list_view_draws:
  assumes "vk_ready n gs r w"
  shows "shows_list n gs draws r w \<longleftrightarrow> view_draws n r w = replicate n (Some (drawn_list gs draws))"
proof -
  have "length (view_natives n (rv_processor r)) = n" using assms by (simp add: vk_ready_def pool_ready_def view_natives_def)
  then show ?thesis by (auto simp: shows_list_def view_draws_def list_eq_iff_nth_eq)
qed

lemma vk_render_frame:
  assumes info: "info_ready d info n" "\<not> di_headless info" and ready: "vk_ready n gs r w" and img: "unat img < n"
  shows "returns (vk_render d drv info (VkSuccess img) True r w) (\<lambda>(r', w'). vk_ready n gs r' w' \<and>
    last_frame w' = Some (img, view_draws n r w ! unat img) \<and> view_draws n r' w' = view_draws n r w \<and>
    pr_draw_cache (rv_processor r') = pr_draw_cache (rv_processor r))"
proof -
  obtain x where x: "vk_render d drv info (VkSuccess img) True r w = Inr x" "case x of (r', w') \<Rightarrow> vk_ready n gs r' w' \<and>
    r' = r\<lparr>rv_processor := (rv_processor r)\<lparr>pr_frame_admin := pr_frame_admin (rv_processor r')\<rparr>\<rparr> \<and>
    frame_submitted n img r w w' \<and> (\<forall>c. command_buffer_draws w' c = command_buffer_draws w c)"
    by (rule returnsE [OF vk_render_returns [OF info ready img, of drv]])
  obtain r' w' where x': "x = (r', w')" by (cases x)
  have 1: "vk_render d drv info (VkSuccess img) True r w = Inr (r', w')" "vk_ready n gs r' w'"
    "r' = r\<lparr>rv_processor := (rv_processor r)\<lparr>pr_frame_admin := pr_frame_admin (rv_processor r')\<rparr>\<rparr>"
    "frame_submitted n img r w w'" "\<forall>c. command_buffer_draws w' c = command_buffer_draws w c"
    using x unfolding x' prod.case by - (elim conjE, assumption)+
  have len: "length (view_natives n (rv_processor r)) = n" using ready by (simp add: vk_ready_def pool_ready_def view_natives_def)
  have "pr_commands (rv_processor r') = pr_commands (rv_processor r)" "pr_draw_cache (rv_processor r') = pr_draw_cache (rv_processor r)"
    using arg_cong [OF 1(3), of "\<lambda>r. pr_commands (rv_processor r)"] arg_cong [OF 1(3), of "\<lambda>r. pr_draw_cache (rv_processor r)"] by simp_all
  moreover have "last_frame w' = Some (img, view_draws n r w ! unat img)"
    using 1(4,5) img len by (auto simp: frame_submitted_def last_frame_def view_draws_def)
  ultimately show ?thesis using 1(1,2,5) by (simp add: view_draws_def view_natives_def)
qed

section \<open>The specification\<close>

datatype renderer_op = RenderList "nat list" u32 | Render u32 | SetClearColour "u32 list" | Resize vk_device_info

record renderer_spec =
  sp_list :: "nat list"
  sp_shown :: "nat list option"
  sp_frames :: "(u32 \<times> nat list option) list"

definition spec_frame :: "u32 \<Rightarrow> renderer_spec \<Rightarrow> renderer_spec" where
  "spec_frame img s = s\<lparr>sp_frames := sp_frames s @ [(img, sp_shown s)]\<rparr>"

definition spec_list :: "nat list \<Rightarrow> renderer_spec \<Rightarrow> renderer_spec" where
  "spec_list draws s = (if draws = sp_list s then s else s\<lparr>sp_list := draws, sp_shown := Some draws\<rparr>)"

fun spec_step :: "renderer_op \<Rightarrow> renderer_spec \<Rightarrow> renderer_spec" where
  "spec_step (RenderList draws img) s = spec_frame img (spec_list draws s)"
| "spec_step (Render img) s = spec_frame img s"
| "spec_step (SetClearColour _) s = s\<lparr>sp_shown := Some (sp_list s)\<rparr>"
| "spec_step (Resize _) s = s\<lparr>sp_shown := Some (sp_list s)\<rparr>"

text \<open>A new renderer has the list of every input once, and shows nothing yet.\<close>

definition spec_new :: "geometry list \<Rightarrow> renderer_spec" where
  "spec_new gs = \<lparr>sp_list = [0..<length gs], sp_shown = None, sp_frames = []\<rparr>"

text \<open>The operations of the renderer, and the frames they present.\<close>

type_synonym vk_state = "vk_device_info \<times> RendererVulkan \<times> vk_world \<times> (u32 \<times> u8 list list list option) option list"

fun vk_step :: "bool \<Rightarrow> vk_driver \<Rightarrow> renderer_op \<Rightarrow> vk_state \<Rightarrow> vk_state outcome" where
  "vk_step d drv (RenderList draws img) (info, r, w, fs) =
     and_then (vk_render_list d drv info (VkSuccess img) True draws r w) (\<lambda>(r, w). Inr (info, r, w, fs @ [last_frame w]))"
| "vk_step d drv (Render img) (info, r, w, fs) =
     and_then (vk_render d drv info (VkSuccess img) True r w) (\<lambda>(r, w). Inr (info, r, w, fs @ [last_frame w]))"
| "vk_step d drv (SetClearColour colour) (info, r, w, fs) =
     and_then (vk_set_clear_colour d drv info colour r w) (\<lambda>(r, w). Inr (info, r, w, fs))"
| "vk_step d drv (Resize info') (_, r, w, fs) =
     and_then (handle_resize d drv info' r w) (\<lambda>(r, w). Inr (info', r, w, fs))"

text \<open>Lists of existing inputs, images of the swapchain, and a window that keeps its number of images.\<close>

fun op_ok :: "bool \<Rightarrow> nat \<Rightarrow> geometry list \<Rightarrow> renderer_op \<Rightarrow> bool" where
  "op_ok d n gs (RenderList draws img) = (drawable gs draws \<and> unat img < n)"
| "op_ok d n gs (Render img) = (unat img < n)"
| "op_ok d n gs (SetClearColour _) = True"
| "op_ok d n gs (Resize info) = (info_ready d info n \<and> \<not> di_headless info)"

section \<open>Refinement\<close>

text \<open>Command buffers that show a list draw exactly its geometry; those that show none draw nothing.\<close>

definition shown_as :: "geometry list \<Rightarrow> nat list option \<Rightarrow> u8 list list list option \<Rightarrow> bool" where
  "shown_as gs shown ds = (case shown of None \<Rightarrow> ds \<in> {None, Some []} | Some draws \<Rightarrow> ds = Some (drawn_list gs draws))"

definition frame_as :: "geometry list \<Rightarrow> u32 \<times> nat list option \<Rightarrow> (u32 \<times> u8 list list list option) option \<Rightarrow> bool" where
  "frame_as gs f f' = (case f' of None \<Rightarrow> False | Some (img, ds) \<Rightarrow> img = fst f \<and> shown_as gs (snd f) ds)"

definition vk_refines :: "bool \<Rightarrow> nat \<Rightarrow> geometry list \<Rightarrow> renderer_spec \<Rightarrow> vk_state \<Rightarrow> bool" where
  "vk_refines d n gs s = (\<lambda>(info, r, w, fs).
     vk_ready n gs r w \<and> info_ready d info n \<and> \<not> di_headless info \<and> drawable gs (sp_list s) \<and>
     pr_draw_cache (rv_processor r) = sp_list s \<and> list_all (shown_as gs (sp_shown s)) (view_draws n r w) \<and>
     list_all2 (frame_as gs) (sp_frames s) fs)"

text \<open>
  A machine whose every step refines a step of a specification refines its runs.
\<close>

locale stepwise_refinement =
  fixes refines :: "'a \<Rightarrow> 'c \<Rightarrow> bool" and spec :: "'o \<Rightarrow> 'a \<Rightarrow> 'a" and impl :: "'o \<Rightarrow> 'c \<Rightarrow> 'c outcome"
    and legal :: "'o \<Rightarrow> bool"
  assumes step: "refines a c \<Longrightarrow> legal op \<Longrightarrow> returns (impl op c) (refines (spec op a))"
begin

lemma run:
  "refines a c \<Longrightarrow> \<forall>op\<in>set ops. legal op \<Longrightarrow> returns (for_each impl ops c) (refines (fold spec ops a))"
proof (induction ops arbitrary: a c)
  case (Cons op ops)
  then show ?case using step [of a c op] by (auto intro: returns_and_then)
qed simp

end

lemma all_shown: "list_all (shown_as gs (Some draws)) (replicate n (Some (drawn_list gs draws)))"
  by (simp add: list_all_iff shown_as_def)

text \<open>A frame presents what the views show.\<close>

lemma frame_refines:
  assumes R: "vk_refines d n gs s (info, r, w, fs)" and img: "unat img < n"
  shows "returns (and_then (vk_render d drv info (VkSuccess img) True r w) (\<lambda>(r, w). Inr (info, r, w, fs @ [last_frame w])))
    (vk_refines d n gs (spec_frame img s))"
proof -
  note V = R [unfolded vk_refines_def prod.case]
  obtain r' w' where 1: "vk_render d drv info (VkSuccess img) True r w = Inr (r', w')" "vk_ready n gs r' w'"
    "last_frame w' = Some (img, view_draws n r w ! unat img)" "view_draws n r' w' = view_draws n r w"
    "pr_draw_cache (rv_processor r') = pr_draw_cache (rv_processor r)"
    using vk_render_frame [of d info n gs r w img drv] V img by (auto elim!: returnsE)
  have "length (view_draws n r w) = n" using V by (simp add: vk_ready_def pool_ready_def view_draws_def view_natives_def)
  then have "shown_as gs (sp_shown s) (view_draws n r w ! unat img)" using V img by (simp add: list_all_length)
  then have "list_all2 (frame_as gs) (sp_frames (spec_frame img s)) (fs @ [last_frame w'])"
    using V 1(3) by (simp add: spec_frame_def list_all2_appendI frame_as_def)
  then show ?thesis using V 1 by (simp add: vk_refines_def spec_frame_def)
qed

lemma new_list_refines:
  assumes doc: "vk_documented drv" and R: "vk_refines d n gs s (info, r, w, fs)" and draw: "drawable gs draws"
  shows "returns (new_draw_list d drv info draws r w) (\<lambda>(r', w'). vk_refines d n gs (spec_list draws s) (info, r', w', fs))"
proof (cases "draws = sp_list s")
  case True
  then show ?thesis using R by (simp add: new_draw_list_def spec_list_def vk_refines_def)
next
  case False
  note V = R [unfolded vk_refines_def prod.case]
  obtain r' w' where 1: "new_draw_list d drv info draws r w = Inr (r', w')" "vk_ready n gs r' w'" "shows_list n gs draws r' w'"
    "pr_draw_cache (rv_processor r') = draws"
    using new_draw_list_returns [OF doc, of d info n gs r w draws] V draw False by (auto elim!: returnsE)
  then show ?thesis using V draw False shows_list_view_draws [OF 1(2)]
    by (simp add: vk_refines_def spec_list_def all_shown)
qed

lemma clear_refines:
  assumes doc: "vk_documented drv" and R: "vk_refines d n gs s (info, r, w, fs)"
  shows "returns (vk_set_clear_colour d drv info colour r w)
    (\<lambda>(r', w'). vk_refines d n gs (s\<lparr>sp_shown := Some (sp_list s)\<rparr>) (info, r', w', fs))"
proof -
  note V = R [unfolded vk_refines_def prod.case]
  have "vk_ready n gs (r\<lparr>rv_clear_colour := colour\<rparr>) w" using V by (simp add: vk_ready_def)
  then obtain r' w' where 1: "vk_set_clear_colour d drv info colour r w = Inr (r', w')" "vk_ready n gs r' w'"
    "shows_list n gs (sp_list s) r' w'" "pr_draw_cache (rv_processor r') = sp_list s"
    using handle_clear_colour_change_returns [OF doc, of d info n gs "r\<lparr>rv_clear_colour := colour\<rparr>" w] V
    by (auto simp: vk_set_clear_colour_def elim!: returnsE)
  then show ?thesis using V shows_list_view_draws [OF 1(2)] by (simp add: vk_refines_def all_shown)
qed

lemma resize_refines:
  assumes doc: "vk_documented drv" and R: "vk_refines d n gs s (info, r, w, fs)" and info': "info_ready d info' n" "\<not> di_headless info'"
  shows "returns (handle_resize d drv info' r w)
    (\<lambda>(r', w'). vk_refines d n gs (s\<lparr>sp_shown := Some (sp_list s)\<rparr>) (info', r', w', fs))"
proof -
  note V = R [unfolded vk_refines_def prod.case]
  have "has_window info' r" using info'(2) by (simp add: has_window_def)
  then obtain r' w' where 1: "handle_resize d drv info' r w = Inr (r', w')" "vk_ready n gs r' w'"
    "shows_list n gs (sp_list s) r' w'" "pr_draw_cache (rv_processor r') = sp_list s"
    using handle_resize_returns [OF doc info'(1), of r gs w] V by (auto elim!: returnsE)
  then show ?thesis using V info' shows_list_view_draws [OF 1(2)] by (simp add: vk_refines_def all_shown)
qed

lemma vk_step_refines:
  assumes doc: "vk_documented drv" and R: "vk_refines d n gs s c" and ok: "op_ok d n gs op"
  shows "returns (vk_step d drv op c) (vk_refines d n gs (spec_step op s))"
proof -
  obtain info r w fs where c: "c = (info, r, w, fs)" by (cases c) auto
  note R' = R [unfolded c]
  show ?thesis
  proof (cases op)
    case (RenderList draws img)
    have "returns (and_then (new_draw_list d drv info draws r w) (\<lambda>(r, w).
        and_then (vk_render d drv info (VkSuccess img) True r w) (\<lambda>(r, w). Inr (info, r, w, fs @ [last_frame w]))))
      (vk_refines d n gs (spec_frame img (spec_list draws s)))"
      by (rule returns_and_then [OF new_list_refines [OF doc R']]) (use ok RenderList frame_refines in auto)
    then show ?thesis using RenderList c by (simp add: vk_render_list_def and_then_assoc case_prod_unfold)
  next
    case (Render img)
    then show ?thesis using frame_refines [OF R', of img drv] ok c by simp
  next
    case (SetClearColour colour)
    then show ?thesis using clear_refines [OF doc R', of colour] c by (auto elim!: returnsE)
  next
    case (Resize info')
    then show ?thesis using resize_refines [OF doc R', of info'] ok c by (auto elim!: returnsE)
  qed
qed

interpretation vk_runs: stepwise_refinement "\<lambda>s c. vk_documented drv \<and> vk_refines d n gs s c" spec_step "vk_step d drv" "op_ok d n gs"
  by unfold_locales (auto intro: returns_mono [OF vk_step_refines])

section \<open>From the constructor\<close>

text \<open>
  What a program brings: a driver that behaves as documented, a window of at most two images, and
  a complete builder whose geometry fits.
\<close>

definition vk_program ::
    "bool \<Rightarrow> vk_driver \<Rightarrow> sync_driver \<Rightarrow> vk_device_info \<Rightarrow> nat \<Rightarrow> geometry list \<Rightarrow> (nat \<times> nat) renderer_builder \<Rightarrow> vk_world \<Rightarrow> bool" where
  "vk_program d drv sdrv info n gs builder w \<longleftrightarrow>
     vk_documented drv \<and> sync_driver_documented sdrv \<and> vk_wf w \<and> window_ready d info n \<and> \<not> di_headless info \<and>
     vk_builder_ready gs builder (vk_memory w) \<and> length gs < 2 ^ 32"

lemma program_drawable: "vk_program d drv sdrv info n gs builder w \<Longrightarrow> drawable gs [0..<length gs]"
  by (simp add: vk_program_def drawable_def vk_builder_ready_def)

lemma new_refines:
  assumes "vk_program d drv sdrv info n gs builder w"
  shows "returns (renderer_vulkan_new d drv sdrv info builder w) (\<lambda>(r, w').
    (vk_documented drv \<and> vk_refines d n gs (spec_new gs) (info, r, w', [])) \<and> resources_built n builder r w')"
proof -
  note P = assms [unfolded vk_program_def]
  obtain r w' where 1: "renderer_vulkan_new d drv sdrv info builder w = Inr (r, w')" "vk_built n gs builder r w'"
    "\<forall>ds\<in>set (view_draws n r w'). ds \<in> {None, Some []}"
    using renderer_vulkan_new_returns [of drv sdrv w d info n gs builder] P by (auto elim!: returnsE)
  have "list_all (shown_as gs None) (view_draws n r w')" using 1(3) by (simp add: list_all_iff shown_as_def)
  then show ?thesis
    using P 1(1,2) program_drawable [OF assms] by (simp add: vk_refines_def spec_new_def vk_built_def window_ready_def)
qed


lemma new_list_frame:
  assumes "vk_program d drv sdrv info n gs builder w" "drawable gs draws" "draws \<noteq> [0..<length gs]" "unat img < n"
  shows "returns (and_then (renderer_vulkan_new d drv sdrv info builder w)
      (\<lambda>(r, w). vk_render_list d drv info (VkSuccess img) True draws r w))
    (\<lambda>(r, w'). last_frame w' = Some (img, Some (drawn_list gs draws)) \<and>
      view_draws n r w' = replicate n (Some (drawn_list gs draws)))"
proof (rule returns_and_then [OF new_refines [OF assms(1)]])
  fix x assume "case x of (r, w') \<Rightarrow>
    (vk_documented drv \<and> vk_refines d n gs (spec_new gs) (info, r, w', [])) \<and> resources_built n builder r w'"
  then obtain r v where x: "x = (r, v)" "vk_documented drv" "vk_refines d n gs (spec_new gs) (info, r, v, [])" by (cases x) auto
  obtain r1 v1 where 1: "new_draw_list d drv info draws r v = Inr (r1, v1)" "vk_refines d n gs (spec_list draws (spec_new gs)) (info, r1, v1, [])"
    using new_list_refines [OF x(2,3) assms(2)] by (auto elim!: returnsE)
  note V = 1(2) [unfolded vk_refines_def prod.case]
  have shown: "view_draws n r1 v1 = replicate n (Some (drawn_list gs draws))"
    using V assms(3) by (intro nth_equalityI)
      (auto simp: spec_list_def spec_new_def shown_as_def list_all_length vk_ready_def pool_ready_def view_draws_def view_natives_def)
  then show "returns (case x of (r, w) \<Rightarrow> vk_render_list d drv info (VkSuccess img) True draws r w)
    (\<lambda>(r, w'). last_frame w' = Some (img, Some (drawn_list gs draws)) \<and> view_draws n r w' = replicate n (Some (drawn_list gs draws)))"
    using vk_render_frame [of d info n gs r1 v1 img drv] V assms(4) x(1) 1(1)
    by (auto simp: vk_render_list_def elim!: returns_mono)
qed


lemma drawn_list_nonempty: "gs \<noteq> [] \<Longrightarrow> drawn_list gs [0..<length gs] \<noteq> []"
proof -
  assume "gs \<noteq> []"
  then have "0 \<in> set (draws_of gs (g_access (gs ! 0)) [0..<length gs])" by (simp add: draws_of_def)
  then have "draws_of gs StaticFixed [0..<length gs] \<noteq> [] \<or> draws_of gs DynamicFixed [0..<length gs] \<noteq> []"
    by (cases "g_access (gs ! 0)") auto
  then show ?thesis by (auto simp: drawn_list_def batch_geometry_def)
qed


section \<open>Resources\<close>

definition resource_descriptor :: "RendererVulkan \<Rightarrow> nat \<Rightarrow> nat \<Rightarrow> descriptor" where
  "resource_descriptor r nb i =
     (if i < nb then BufferDescriptor (vb_buffer (fst (bm_components (rv_buffers r) ! i)))
      else ImageDescriptor (tc_view (im_textures (rv_images r) ! (i - nb))) (tc_sampler (im_textures (rv_images r) ! (i - nb)))
        (layout_value LayoutShaderResource))"

lemma resource_descriptors_nth:
  assumes "length (bm_components (rv_buffers r)) = nb" "i < nb + length (im_textures (rv_images r))"
  shows "resource_descriptors (rv_buffers r) (rv_images r) ! i = resource_descriptor r nb i"
    "resource_types (rv_buffers r) (rv_images r) ! i = layout_type (resource_binding nb i)"
  using assms by (auto simp: resource_descriptors_def resource_types_def resource_descriptor_def resource_binding_def nth_append
      split: prod.splits)

lemma built_textures: "resources_built n builder r w \<Longrightarrow> length (im_textures (rv_images r)) = length (b_texture_resources builder)"
proof -
  assume "resources_built n builder r w"
  then have "map tc_resource (im_textures (rv_images r)) =
      [length (b_buffer_resources builder)..<length (b_buffer_resources builder) + length (b_texture_resources builder)]"
    by (simp add: resources_built_def Let_def clone_resources_append)
  from arg_cong [OF this, of length] show ?thesis by simp
qed

text \<open>
  C10. Every uniform buffer of a new renderer holds the bytes of its resource, and the descriptor
  sets agree with the layout of the pipeline: there is one set per image, and binding \<open>i\<close> of each
  holds resource \<open>i\<close>, buffers before textures, with the type the layout declares for it.
\<close>

theorem vulkan_resources_bound:
  fixes builder :: "(nat \<times> nat) renderer_builder"
  defines "nb \<equiv> length (b_buffer_resources builder)"
  assumes "vk_program d drv sdrv info n gs builder w" "b_buffer_resources builder @ b_texture_resources builder \<noteq> []"
  shows "returns (renderer_vulkan_new d drv sdrv info builder w) (\<lambda>(r, w').
    (\<forall>i<nb. gpu_contents w' (vb_buffer (fst (bm_components (rv_buffers r) ! i))) = Some (ready_bytes (b_buffer_resources builder ! i))) \<and>
    map_of (objects w') (pm_set_layout (rv_pipeline r)) =
      Some (DescriptorSetLayoutObject (map (resource_binding nb) [0..<nb + length (b_texture_resources builder)])) \<and>
    (\<exists>pool. pr_descriptors (rv_processor r) = Some pool \<and> length (dp_sets pool) = n \<and>
      (\<forall>s\<in>set (dp_sets pool). \<exists>bindings. map_of (descriptor_sets w') s = Some bindings \<and>
        (\<forall>i<nb + length (b_texture_resources builder). map_of bindings i = Some (layout_type (resource_binding nb i), resource_descriptor r nb i)))))"
proof (rule returns_mono [OF new_refines [OF assms(2)]], clarsimp)
  fix r w' assume built: "resources_built n builder r w'"
  note B = this [unfolded resources_built_def Let_def, folded nb_def, unfolded clone_resources_append length_append, folded nb_def]
  have len: "length (bm_components (rv_buffers r)) = nb" "length (im_textures (rv_images r)) = length (b_texture_resources builder)"
    using B built_textures [OF built] by auto
  have comps: "gpu_contents w' (vb_buffer (fst (bm_components (rv_buffers r) ! i))) = Some (ready_bytes (b_buffer_resources builder ! i))"
    if "i < nb" for i
  proof -
    have "component_holds w' ((b_buffer_resources builder @ b_texture_resources builder) ! i) (fst (bm_components (rv_buffers r) ! i))"
      using B that unfolding components_at_def by presburger
    then show ?thesis using that by (simp add: component_holds_def nth_append nb_def)
  qed
  have "resource_descriptors (rv_buffers r) (rv_images r) \<noteq> []"
    using assms(3) len by (auto simp: resource_descriptors_def nb_def)
  then obtain pool where pool: "pr_descriptors (rv_processor r) = Some pool" "length (dp_sets pool) = n"
    "\<forall>s\<in>set (dp_sets pool). map_of (descriptor_sets w') s = Some (set_contents (rv_buffers r) (rv_images r))"
    using B by (auto simp: descriptors_set_def)
  have "map_of (set_contents (rv_buffers r) (rv_images r)) i = Some (layout_type (resource_binding nb i), resource_descriptor r nb i)"
    if "i < nb + length (b_texture_resources builder)" for i
    using set_contents_at [of i "rv_buffers r" "rv_images r"] resource_descriptors_nth [OF len(1), of i] that len
    by (simp add: resource_lengths)
  then show "(\<forall>i<nb. gpu_contents w' (vb_buffer (fst (bm_components (rv_buffers r) ! i))) = Some (ready_bytes (b_buffer_resources builder ! i))) \<and>
    map_of (objects w') (pm_set_layout (rv_pipeline r)) =
      Some (DescriptorSetLayoutObject (map (resource_binding nb) [0..<nb + length (b_texture_resources builder)])) \<and>
    (\<exists>pool. pr_descriptors (rv_processor r) = Some pool \<and> length (dp_sets pool) = n \<and>
      (\<forall>s\<in>set (dp_sets pool). \<exists>bindings. map_of (descriptor_sets w') s = Some bindings \<and>
        (\<forall>i<nb + length (b_texture_resources builder). map_of bindings i = Some (layout_type (resource_binding nb i), resource_descriptor r nb i))))"
    using comps pool B by blast
qed

text \<open>
  C15. The images of textures are left with undefined texels: the bytes of the texture are copied
  to its image, but the transition that follows names the undefined layout as the old one.
\<close>

theorem vulkan_textures_undefined:
  assumes "vk_program d drv sdrv info n gs builder w" "b_texture_resources builder \<noteq> []"
  shows "returns (renderer_vulkan_new d drv sdrv info builder w) (\<lambda>(r, w').
    length (im_textures (rv_images r)) = length (b_texture_resources builder) \<and>
    (\<forall>tc\<in>set (im_textures (rv_images r)). \<exists>t. map_of (texels w') (vi_image (tc_img tc)) = Some t \<and> tex_bytes t = None))"
proof (rule returns_mono [OF new_refines [OF assms(1)]], clarsimp)
  fix r w' assume built: "resources_built n builder r w'"
  then show "length (im_textures (rv_images r)) = length (b_texture_resources builder) \<and>
    (\<forall>tc\<in>set (im_textures (rv_images r)). \<exists>t. map_of (texels w') (vi_image (tc_img tc)) = Some t \<and> tex_bytes t = None)"
    using built_textures [OF built] by (auto simp: resources_built_def Let_def texels_undefined_def)
qed

section \<open>An example\<close>

definition vk_example_window :: vk_device_info where
  "vk_example_window = \<lparr>di_headless = False,
     di_window = WindowSwapchain \<lparr>swapchain = 1, swapchain_device = None, image_views = [1, 2], chain_format = 43,
       chain_extent = \<lparr>extent_width = 800, extent_height = 600\<rparr>\<rparr>,
     di_topology = TriangleList, di_family = 0\<rparr>"

definition vk_example_texture :: Resource where
  "vk_example_texture = TextureRes
     \<lparr>texture_data = \<lparr>width = 1, height = 1, image_data = [1, 2, 3, 4]\<rparr>, texture_format = Rgba32sRGB, texture_properties = texture_properties_default\<rparr>"

definition vk_example_builder :: "(nat \<times> nat) renderer_builder" where
  "vk_example_builder =
     fst (vk_add_resource (fst (vk_add_resource
       (fst (vk_add_input (vk_set_shader vk_builder_new (1, 2)) (StaticInput (mesh_input example_mesh (enum_field_of [])))))
       (StaticBuffer \<lparr>buffer_data = \<lparr>buffer_bytes = [1, 2]\<rparr>\<rparr>))) vk_example_texture)"

definition vk_example_geometry :: geometry where
  "vk_example_geometry =
     \<lparr>g_access = StaticFixed, g_vertices = vertices_as_bytes (vertices example_mesh), g_indices = [0, 0, 0]\<rparr>"

definition vk_example_world :: vk_world where
  "vk_example_world = \<lparr>storages = [], texels = [], recordings = [], objects = [], descriptor_sets = [], sync_calls = [],
     vk_memory = (\<lambda>_. None)\<rparr>"

lemma vk_example_geometry_facts:
  "wf_geometry vk_example_geometry" "batch_fits [vk_example_geometry]" "nonempty_batch [vk_example_geometry]"
proof -
  have "length (vertices_as_bytes (vertices example_mesh)) = 56"
    using length_vertices_as_bytes [of "vertices example_mesh"]
    by (simp add: example_mesh_def wf_vertex_def sizeof_Vertex_def)
  then show "wf_geometry vk_example_geometry" "batch_fits [vk_example_geometry]" "nonempty_batch [vk_example_geometry]"
    by (auto simp: wf_geometry_def vk_example_geometry_def g_vertex_count_def vertex_stride_def batch_fits_def g_index_count_def
        nonempty_batch_def of_access_def batch_vertices_def batch_indices_def)
qed

lemma vk_example_inputs:
  "b_inputs vk_example_builder = [StaticInput (mesh_input example_mesh (enum_field_of []))]" "b_shader vk_example_builder = Some (1, 2)"
  "b_buffer_resources vk_example_builder = [StaticBuffer \<lparr>buffer_data = \<lparr>buffer_bytes = [1, 2]\<rparr>\<rparr>]"
  "b_texture_resources vk_example_builder = [vk_example_texture]"
  by (simp_all add: vk_example_builder_def vk_add_resource_def vk_add_input_def vk_set_shader_def vk_builder_new_def
      vk_example_texture_def resource_get_type_def)

lemma vk_example_ready: "vk_builder_ready [vk_example_geometry] vk_example_builder mem"
proof -
  have "input_geometry mem (StaticInput (mesh_input example_mesh (enum_field_of []))) = Inr vk_example_geometry"
    by (simp add: input_geometry_def input_get_vertex_bytes_def input_get_indices_def mesh_input_get_vertex_bytes_def
        mesh_input_get_indices_def input_data_access_def mesh_input_def vk_example_geometry_def example_mesh_def)
  moreover have "wf_input (StaticInput (mesh_input example_mesh (enum_field_of [])))" "is_unmapped (StaticInput (mesh_input example_mesh (enum_field_of [])))"
    by (simp_all add: wf_input_def mesh_input_def wf_mesh_def is_unmapped_def) (simp add: example_mesh_def wf_vertex_def)
  moreover have "of_access [vk_example_geometry] DynamicFixed = []" by (simp add: of_access_def vk_example_geometry_def)
  moreover have "texture_ready vk_example_texture"
    by (simp add: texture_ready_def vk_example_texture_def texture_get_bytes_def texture_get_width_def texture_get_height_def texel_size_def)
  ultimately show ?thesis
    using vk_example_geometry_facts
    by (simp add: vk_builder_ready_def vk_example_inputs vk_buffer_ready_def buffer_get_bytes_def)
qed

lemma vk_example_program:
  "vk_program True vk_simple_driver example_sync vk_example_window 2 [vk_example_geometry] vk_example_builder vk_example_world"
  using vk_example_ready vk_simple_driver_documented example_sync_documented
  by (simp add: vk_program_def window_ready_def info_ready_def vk_example_window_def get_view_count_def as_swapchain_def
      full_render_area_def window_format_def vk_example_world_def vk_wf_def tz_assert_def)

lemma vk_example_drawable: "set draws \<subseteq> {0} \<Longrightarrow> length draws < 2 ^ 32 \<Longrightarrow> drawable [vk_example_geometry] draws"
  using vk_example_geometry_facts by (auto simp: drawable_def)




theorem vulkan_resources_bound_witness:
  "returns (renderer_vulkan_new True vk_simple_driver example_sync vk_example_window vk_example_builder vk_example_world) (\<lambda>(r, w').
    gpu_contents w' (vb_buffer (fst (bm_components (rv_buffers r) ! 0))) = Some [1, 2] \<and>
    map_of (objects w') (pm_set_layout (rv_pipeline r)) = Some (DescriptorSetLayoutObject [resource_binding 1 0, resource_binding 1 1]) \<and>
    (\<exists>pool. pr_descriptors (rv_processor r) = Some pool \<and> length (dp_sets pool) = 2))"
  by (rule returns_mono [OF vulkan_resources_bound [OF vk_example_program]])
    (auto simp: vk_example_inputs ready_bytes_def buffer_get_bytes_def)

theorem vulkan_textures_undefined_witness:
  "returns (renderer_vulkan_new True vk_simple_driver example_sync vk_example_window vk_example_builder vk_example_world) (\<lambda>(r, w').
    length (im_textures (rv_images r)) = 1 \<and>
    (\<forall>tc\<in>set (im_textures (rv_images r)). \<exists>t. map_of (texels w') (vi_image (tc_img tc)) = Some t \<and> tex_bytes t = None))"
  using vulkan_textures_undefined [OF vk_example_program] by (simp add: vk_example_inputs)

end
