(* ===== verification/Vk_Dynamic.thy ===== *)
theory Vk_Dynamic
  imports Vk_Render
begin

text \<open>
  More than one dynamic input.  \<open>setup_buffers\<close> computes the offsets of the index regions in bytes
  and adds them to a pointer to \<open>unsigned int\<close>, so that every dynamic input but the first is
  copied to four times its offset: the last one leaves the index buffer.
\<close>

section \<open>Loops that must fail\<close>

lemma no_steps: "for_each body [] = Inr"
  by (simp add: fun_eq_iff)

lemma for_each_fails:
  assumes "I [] s"
    and "\<And>ys x zs s. xs = ys @ x # zs \<Longrightarrow> I ys s \<Longrightarrow> body x s = Inl e \<or> (\<exists>s'. body x s = Inr s' \<and> I (ys @ [x]) s')"
    and "\<And>s. I xs s \<Longrightarrow> body z s = Inl e"
  shows "for_each body (xs @ [z]) s = Inl e"
proof -
  have "for_each body ys s = Inl e \<or> (\<exists>s'. for_each body ys s = Inr s' \<and> I ys s')" if "xs = ys @ zs" for ys zs
    using that
  proof (induction ys arbitrary: zs rule: rev_induct)
    case (snoc y ys)
    then show ?case using snoc.IH [of "y # zs"] assms(2) [of ys y zs] by (auto simp: for_each_append no_steps and_then_right_unit; blast)
  qed (use assms(1) in simp)
  from this [of xs "[]"] show ?thesis using assms(3) by (auto simp: for_each_append no_steps and_then_right_unit)
qed

section \<open>The last dynamic input\<close>

lemma last_dynamic:
  assumes "2 \<le> length (of_access gs DynamicFixed)" and ne: "\<forall>g\<in>set gs. g_indices g \<noteq> []"
  obtains z where "z < length gs" "g_access (gs ! z) = DynamicFixed"
    "dynamic_positions gs (length gs) = dynamic_positions gs z @ [z]"
    "0 < region_offset (index_region gs z)"
    "length (batch_indices gs DynamicFixed) = region_offset (index_region gs z) + length (g_indices (gs ! z))"
proof -
  let ?P = "\<lambda>i. g_access (gs ! i) = DynamicFixed" and ?n = "length gs"
  have map_pos: "map ((!) gs) (dynamic_positions gs k) = prefix_of gs DynamicFixed k" if "k \<le> ?n" for k
  proof -
    have "take k gs = map ((!) gs) [0..<k]" using that by (intro nth_equalityI) simp_all
    then show ?thesis by (simp add: prefix_of_def dynamic_positions_def filter_map comp_def)
  qed
  have all: "prefix_of gs DynamicFixed ?n = of_access gs DynamicFixed" by (simp add: prefix_of_def of_access_def)
  let ?D = "set (dynamic_positions gs ?n)"
  define z where "z = Max ?D"
  have "?D \<noteq> {}" using assms(1) arg_cong [OF map_pos [OF order_refl], of length] all by auto
  then have "z \<in> ?D" by (simp add: z_def)
  then have z: "z < ?n" "?P z" by (simp_all only: dynamic_positions_props(2))
  have "\<not> ?P i" if "z < i" "i < ?n" for i
  proof
    assume "?P i"
    then have "i \<in> ?D" using that(2) by (simp only: dynamic_positions_props(2))
    then show False using that(1) Max_ge [OF finite_set \<open>i \<in> ?D\<close>] by (simp add: z_def)
  qed
  then have rest: "filter ?P [Suc z..<?n] = []" by (simp add: filter_empty_conv)
  have "[0..<?n] = [0..<z] @ z # [Suc z..<?n]" using upt_add_eq_append [of 0 z "?n - z"] z(1) by (simp add: upt_conv_Cons)
  then have pos: "dynamic_positions gs ?n = dynamic_positions gs z @ [z]"
    unfolding dynamic_positions_def by (simp only: filter_append filter.simps z(2) simp_thms if_True rest)
  have split: "of_access gs DynamicFixed = prefix_of gs DynamicFixed z @ [gs ! z]"
    using map_pos [of ?n] map_pos [of z] z(1) all pos by simp
  then obtain g rest' where g: "prefix_of gs DynamicFixed z = g # rest'" using assms(1) by (cases "prefix_of gs DynamicFixed z") auto
  moreover have "set (prefix_of gs DynamicFixed z) \<subseteq> set gs" by (auto simp: prefix_of_def dest: in_set_takeD)
  ultimately have "g \<in> set gs" by simp
  then have "0 < region_offset (index_region gs z)" using ne g by (simp add: index_region_def)
  moreover have "length (batch_indices gs DynamicFixed) = region_offset (index_region gs z) + length (g_indices (gs ! z))"
    by (simp add: batch_indices_def split index_region_def)
  ultimately show ?thesis using that z pos by blast
qed

section \<open>Both loops\<close>

text \<open>Dynamic inputs whose indices, and for those still to come whose vertices, are where they were at first.\<close>

definition still_initial :: "geometry list \<Rightarrow> nat list \<Rightarrow> nat list \<Rightarrow> RendererInput list \<Rightarrow> bool" where
  "still_initial gs todo todo_vertices inps \<longleftrightarrow> length inps = length gs \<and>
     (\<forall>i\<in>set todo. \<exists>m. inps ! i = DynamicInput m \<and> index_data m = None \<and> indices (initial_data m) = g_indices (gs ! i) \<and>
        (i \<in> set todo_vertices \<longrightarrow> vertex_data m = None \<and> vertices_as_bytes (vertices (initial_data m)) = g_vertices (gs ! i)))"

lemma unmapped_initial:
  assumes "all_geometry mem inps = Inr gs" "\<forall>inp\<in>set inps. is_unmapped inp"
  shows "still_initial gs (dynamic_positions gs (length gs)) (dynamic_positions gs (length gs)) inps"
  unfolding still_initial_def
proof (intro conjI ballI)
  show len: "length inps = length gs" using assms(1) by (simp add: all_geometry_iff)
  fix i assume "i \<in> set (dynamic_positions gs (length gs))"
  then have i: "i < length gs" "g_access (gs ! i) = DynamicFixed" by (simp_all only: dynamic_positions_props(2))
  then have "input_geometry mem (inps ! i) = Inr (gs ! i)" "is_unmapped (inps ! i)" using assms len by (simp_all add: all_geometry_iff)
  then show "\<exists>m. inps ! i = DynamicInput m \<and> index_data m = None \<and> indices (initial_data m) = g_indices (gs ! i) \<and>
      (i \<in> set (dynamic_positions gs (length gs)) \<longrightarrow> vertex_data m = None \<and> vertices_as_bytes (vertices (initial_data m)) = g_vertices (gs ! i))"
    using i(2) by (cases "inps ! i") (auto simp: input_geometry_Inr_iff input_data_access_def is_unmapped_def unmapped_def
      input_get_vertex_bytes_def input_get_indices_def mesh_dynamic_get_vertex_bytes_def mesh_dynamic_get_indices_def)
qed

lemma vertex_loop_returns:
  assumes init: "still_initial gs ps ps inps" and ps: "\<forall>i\<in>set ps. i < length gs \<and> g_access (gs ! i) = DynamicFixed" "distinct ps"
    and p: "\<exists>bs. mem (block p) = Some bs \<and> length bs = length (batch_vertices gs DynamicFixed)" "offset p = 0"
  shows "returns (for_each (map_vertex_region (Some p)) (map (vertex_region gs) ps) (mem, inps)) (\<lambda>(mem', inps').
    same_off {block p} mem mem' \<and> still_initial gs ps [] inps')"
proof -
  let ?I = "\<lambda>ys (mem', inps'). same_off {block p} mem mem' \<and> still_initial gs ps (drop (length ys) ps) inps'"
  have "\<exists>s'. for_each (map_vertex_region (Some p)) (map (vertex_region gs) ps) (mem, inps) = Inr s' \<and> ?I (map (vertex_region gs) ps) s'"
  proof (rule for_each_invariant_list [where I = ?I])
    fix ys r zs s assume split: "map (vertex_region gs) ps = ys @ r # zs" and s: "?I ys s"
    obtain mem' inps' where s': "s = (mem', inps')" by (cases s)
    have k: "length ys < length ps" "r = vertex_region gs (ps ! length ys)"
      using arg_cong [OF split, of length] arg_cong [OF split, of "\<lambda>l. l ! length ys"] by auto
    define i where "i = ps ! length ys"
    have i: "i \<in> set ps" "i < length gs" "g_access (gs ! i) = DynamicFixed" using k(1) ps(1) by (auto simp: i_def)
    have dr: "drop (length ys) ps = i # drop (Suc (length ys)) ps" using k(1) by (simp add: i_def Cons_nth_drop_Suc)
    then have next': "i \<notin> set (drop (Suc (length ys)) ps)" using ps(2) by (metis distinct.simps(2) distinct_drop)
    obtain m where m: "inps' ! i = DynamicInput m" "index_data m = None" "indices (initial_data m) = g_indices (gs ! i)"
      "vertex_data m = None" "vertices_as_bytes (vertices (initial_data m)) = g_vertices (gs ! i)" "length inps' = length gs"
      using s i(1) by (auto simp: s' still_initial_def dr)
    let ?p = "byte_ptr_add p (region_offset (vertex_region gs i))"
    obtain bs where bs: "mem' (block p) = Some bs" "length bs = length (batch_vertices gs DynamicFixed)"
      using s p(1) by (cases "mem' (block p)") (auto simp: s' same_off_def)
    have "mem_write mem' ?p (g_vertices (gs ! i)) = Inr (mem'(block p \<mapsto> overwrite bs (offset ?p) (g_vertices (gs ! i))))"
      using bs dynamic_position_props(2) [OF i(2,3)] p(2) by (simp add: mem_write_def byte_ptr_add_def)
    then have run: "map_vertex_region (Some p) r s = Inr (mem'(block p \<mapsto> overwrite bs (offset ?p) (g_vertices (gs ! i))),
        inps'[i := DynamicInput (m\<lparr>vertex_data := Some ?p\<rparr>)])"
      using m(1,4-6) i(2) by (simp add: s' k(2) map_vertex_region_def mesh_dynamic_set_vertex_data_def mesh_dynamic_get_vertex_bytes_def
          copy_allowed_def flip: i_def) (simp add: vertex_region_def)
    moreover have "same_off {block p} mem (mem'(block p \<mapsto> overwrite bs (offset ?p) (g_vertices (gs ! i))))"
      using s bs dynamic_position_props(2) [OF i(2,3)] p(2) by (simp add: s' same_off_def length_overwrite byte_ptr_add_def)
    moreover have "still_initial gs ps (drop (length (ys @ [r])) ps) (inps'[i := DynamicInput (m\<lparr>vertex_data := Some ?p\<rparr>)])"
      using s i(2) m next' by (auto simp: s' still_initial_def dr nth_list_update)
    ultimately show "\<exists>s'. map_vertex_region (Some p) r s = Inr s' \<and> ?I (ys @ [r]) s'" by auto
  qed (use init in simp)
  then show ?thesis by (auto simp: returns_def)
qed

lemma index_loop_fails:
  assumes init: "still_initial gs (xs @ [z]) [] inps" and ps: "\<forall>i\<in>set (xs @ [z]). i < length gs" "distinct (xs @ [z])"
    and p: "\<exists>bs. mem (block p) = Some bs \<and> length bs = 4 * len" "offset p = 0"
    and z: "0 < region_offset (index_region gs z)" "len = region_offset (index_region gs z) + length (g_indices (gs ! z))"
  shows "for_each (map_index_region (Some p)) (map (vk_index_region gs) (xs @ [z])) (mem, inps) = Inl OutOfBounds"
proof -
  let ?I = "\<lambda>ys (mem', inps'). same_off {block p} mem mem' \<and> still_initial gs (drop (length ys) xs @ [z]) [] inps'"
  have step: "map_index_region (Some p) (vk_index_region gs i) (mem', inps') = Inl OutOfBounds \<and> len < 4 * region_offset (index_region gs i) + length (g_indices (gs ! i)) \<or>
      (\<exists>mem'' inp. map_index_region (Some p) (vk_index_region gs i) (mem', inps') = Inr (mem'', inps'[i := inp]) \<and> same_off {block p} mem mem'' \<and>
        4 * region_offset (index_region gs i) + length (g_indices (gs ! i)) \<le> len)"
    if s: "same_off {block p} mem mem'" "still_initial gs (i # ps) [] inps'" "i < length gs" for i ps mem' inps'
  proof -
    obtain m where m: "inps' ! i = DynamicInput m" "index_data m = None" "indices (initial_data m) = g_indices (gs ! i)" "length inps' = length gs"
      using s(2) by (auto simp: still_initial_def)
    obtain bs where bs: "mem' (block p) = Some bs" "length bs = 4 * len"
      using s(1) p(1) by (cases "mem' (block p)") (auto simp: same_off_def)
    show ?thesis
      using m bs p(2) s(1,3)
      by (auto simp: map_index_region_def mesh_dynamic_set_index_data_def mesh_dynamic_get_indices_def copy_allowed_def mem_write_def
          uint_ptr_add_def length_encode_u32s same_off_def length_overwrite vk_index_region_def)
  qed
  have "for_each (map_index_region (Some p)) (map (vk_index_region gs) xs @ [vk_index_region gs z]) (mem, inps) = Inl OutOfBounds"
  proof (rule for_each_fails [where I = ?I])
    fix ys r zs s assume split: "map (vk_index_region gs) xs = ys @ r # zs" and s: "?I ys s"
    obtain mem' inps' where s': "s = (mem', inps')" by (cases s)
    have k: "length ys < length xs" "r = vk_index_region gs (xs ! length ys)"
      using arg_cong [OF split, of length] arg_cong [OF split, of "\<lambda>l. l ! length ys"] by auto
    define i where "i = xs ! length ys"
    have dr: "drop (length ys) xs @ [z] = i # (drop (Suc (length ys)) xs @ [z])" using k(1) by (simp add: i_def Cons_nth_drop_Suc)
    have "distinct (drop (length ys) (xs @ [z]))" using ps(2) by (rule distinct_drop)
    then have later: "i \<notin> set (drop (Suc (length ys)) xs @ [z])" using k(1) dr by simp
    have "i < length gs" using ps(1) k(1) by (simp add: i_def)
    moreover have "still_initial gs (drop (length (ys @ [r])) xs @ [z]) [] (inps'[i := inp])" for inp
    proof -
      have "\<forall>j\<in>set (drop (Suc (length ys)) xs @ [z]). inps'[i := inp] ! j = inps' ! j" using later by (metis nth_list_update_neq)
      moreover have "still_initial gs (drop (Suc (length ys)) xs @ [z]) [] inps'" using s by (simp add: s' still_initial_def dr)
      ultimately show ?thesis by (simp add: still_initial_def)
    qed
    ultimately show "map_index_region (Some p) r s = Inl OutOfBounds \<or> (\<exists>s'. map_index_region (Some p) r s = Inr s' \<and> ?I (ys @ [r]) s')"
      using step [of mem' i "drop (Suc (length ys)) xs @ [z]" inps'] s by (auto simp: s' k(2) dr simp flip: i_def)
  next
    fix s assume s: "?I (map (vk_index_region gs) xs) s"
    obtain mem' inps' where s': "s = (mem', inps')" by (cases s)
    show "map_index_region (Some p) (vk_index_region gs z) s = Inl OutOfBounds"
      using step [of mem' z "[]" inps'] s ps(1) z by (auto simp: s')
  qed (use init in simp)
  then show ?thesis by simp
qed

section \<open>The constructor fails\<close>

lemma setup_dynamic_two:
  assumes doc: "vk_documented drv" and wf: "vk_wf w" and all: "all_geometry mem inps = Inr gs"
    and ok: "\<forall>inp\<in>set inps. is_unmapped inp" and two: "2 \<le> length (of_access gs DynamicFixed)"
    and ne: "\<forall>g\<in>set gs. g_indices g \<noteq> []" "nonempty_batch gs"
    and bm: "bm_dynamic_vertex bm = vk_buffer_null" "bm_dynamic_index bm = vk_buffer_null"
  shows "setup_dynamic_buffers d drv (vk_compiled_at inps gs (length inps)) inps bm w = Inl OutOfBounds"
proof -
  have len: "length gs = length inps" using all by (simp add: all_geometry_iff)
  let ?V = "batch_vertices gs DynamicFixed" and ?I = "batch_indices gs DynamicFixed" and ?ps = "dynamic_positions gs (length gs)"
  have dyn: "of_access gs DynamicFixed \<noteq> []" using two by auto
  have pos: "0 < length ?V" "0 < length ?I * 4" using ne(2) dyn by (auto simp: nonempty_batch_def)
  obtain vb w1 ib w2 where b: "vk_buffer_new d drv VertexBuffer NothingSpecial CPUPersistent (length ?V) w = Inr (vb, w1)"
    "vk_buffer_new d drv IndexBuffer NothingSpecial CPUPersistent (length ?I * 4) w1 = Inr (ib, w2)" "vb_alloc vb \<noteq> vb_alloc ib"
    "\<exists>bs. vk_memory w2 (vb_alloc vb) = Some bs \<and> length bs = length ?V" "\<exists>bs. vk_memory w2 (vb_alloc ib) = Some bs \<and> length bs = length ?I * 4"
    "vk_buffer_map_memory d vb w2 = Inr (\<lparr>block = vb_alloc vb, offset = 0\<rparr>, w2)"
    "\<And>v. vk_buffer_map_memory d ib v = Inr (\<lparr>block = vb_alloc ib, offset = 0\<rparr>, v)"
    by (rule two_mapped_buffers [OF doc wf pos]) blast
  let ?vp = "\<lparr>block = vb_alloc vb, offset = 0\<rparr>" and ?ip = "\<lparr>block = vb_alloc ib, offset = 0\<rparr>"
  have ps: "\<forall>i\<in>set ?ps. i < length gs \<and> g_access (gs ! i) = DynamicFixed" "distinct ?ps" by (simp_all add: dynamic_positions_props)
  obtain mem' inps' where 1: "for_each (map_vertex_region (Some ?vp)) (map (vertex_region gs) ?ps) (vk_memory w2, inps) = Inr (mem', inps')"
    "same_off {vb_alloc vb} (vk_memory w2) mem'" "still_initial gs ?ps [] inps'"
    using vertex_loop_returns [OF unmapped_initial [OF all ok] ps, of "vk_memory w2" ?vp] b(4) by (auto elim!: returnsE)
  obtain z where z: "z < length gs" "g_access (gs ! z) = DynamicFixed" "?ps = dynamic_positions gs z @ [z]"
    "0 < region_offset (index_region gs z)" "length ?I = region_offset (index_region gs z) + length (g_indices (gs ! z))"
    by (rule last_dynamic [OF two ne(1)])
  have ip: "\<exists>bs. mem' (block ?ip) = Some bs \<and> length bs = 4 * length ?I"
    using 1(2) b(3,5) by (auto simp: same_off_def mult.commute)
  have "for_each (map_index_region (Some ?ip)) (map (vk_index_region gs) ?ps) (mem', inps') = Inl OutOfBounds"
    unfolding z(3) by (rule index_loop_fails [where len = "length ?I" and p = ?ip]) (use 1(3) ps z ip in simp_all)
  then show ?thesis
    using b(1,2,6,7) 1(1) bm dyn len by (simp add: setup_dynamic_buffers_def vk_compiled_totals [OF len] assign_null)
qed

text \<open>
  C14. A Vulkan renderer cannot be built with two or more dynamic inputs: whatever their geometry,
  the indices of the last one are copied to an address outside the index buffer.
\<close>

theorem second_dynamic_input_overflows:
  assumes "vk_documented drv" "sync_driver_documented sdrv" "vk_wf w" "window_ready d info n" "b_shader builder \<noteq> None"
    and "all_geometry (vk_memory w) (b_inputs builder) = Inr gs" "\<forall>inp\<in>set (b_inputs builder). is_unmapped inp"
    and "\<forall>g\<in>set gs. g_vertices g \<noteq> [] \<and> g_indices g \<noteq> []" "2 \<le> length (of_access gs DynamicFixed)"
  shows "renderer_vulkan_new d drv sdrv info builder w = Inl OutOfBounds"
proof -
  obtain r w1 where 1: "rv_members d drv sdrv info builder w = Inr (r, w1)" "grows w w1" "members_ready n gs builder r w1"
    using rv_members_returns [OF assms(1-4,6,7,5)] by (auto elim!: returnsE)
  have ne: "nonempty_batch gs"
    using assms(8) by (auto simp: nonempty_batch_def batch_vertices_def batch_indices_def of_access_def filter_empty_conv)
  have all: "all_geometry mem (b_inputs builder) = Inr gs" for mem by (rule all_geometry_unmapped [OF assms(6,7)])
  then have len: "length gs = length (b_inputs builder)" by (simp add: all_geometry_iff)
  have inps: "rv_inputs r = b_inputs builder" "rv_buffers r = buffer_manager_new" using 1(3) by (simp_all add: members_ready_def)
  let ?bm = "buffer_manager_initialise [0..<length (b_buffer_resources builder)] buffer_manager_new"
  have bm: "bm_vertex ?bm = vk_buffer_null" "bm_index ?bm = vk_buffer_null" "bm_dynamic_vertex ?bm = vk_buffer_null" "bm_dynamic_index ?bm = vk_buffer_null"
    by (simp_all add: initialise_components buffer_manager_new_def)
  obtain bm' w2 where 2: "setup_static_buffers d drv (vk_compiled_at (b_inputs builder) gs (length (b_inputs builder))) ?bm w1 = Inr (bm', w2)"
    "vk_wf w2" "bm_dynamic_vertex bm' = vk_buffer_null" "bm_dynamic_index bm' = vk_buffer_null"
    using setup_static_returns [OF assms(1) grows_wf [OF 1(2)] len ne bm(1,2), of d] bm(3,4) grows_wf by (auto elim!: returnsE)
  have "setup_dynamic_buffers d drv (vk_compiled_at (b_inputs builder) gs (length (b_inputs builder))) (b_inputs builder) bm' w2 = Inl OutOfBounds"
    using setup_dynamic_two [OF assms(1) 2(2) all assms(7,9) _ ne 2(3,4)] assms(8) by blast
  then have "rv_setup d drv info builder r w1 = Inl OutOfBounds"
    using 2(1) inps vk_compile_data_correct [OF all] assms(9) len
    by (auto simp: rv_setup_def setup_buffers_def Let_def of_access_def)
  then show ?thesis using 1(1) by (simp add: renderer_vulkan_new_def)
qed

definition two_dynamic_builder :: "(nat \<times> nat) renderer_builder" where
  "two_dynamic_builder = vk_builder_new\<lparr>b_shader := Some (1, 2),
     b_inputs := replicate 2 (DynamicInput (mesh_dynamic_input example_mesh (enum_field_of [])))\<rparr>"

theorem second_dynamic_input_overflows_witness:
  "renderer_vulkan_new True vk_simple_driver example_sync vk_example_window two_dynamic_builder vk_example_world = Inl OutOfBounds"
proof (rule second_dynamic_input_overflows [OF vk_simple_driver_documented example_sync_documented, where n = 2])
  let ?g = "vk_example_geometry\<lparr>g_access := DynamicFixed\<rparr>"
  have "input_geometry mem (DynamicInput (mesh_dynamic_input example_mesh (enum_field_of []))) = Inr ?g" for mem
    by (simp add: input_geometry_def input_get_vertex_bytes_def input_get_indices_def mesh_dynamic_get_vertex_bytes_def
        mesh_dynamic_get_indices_def input_data_access_def mesh_dynamic_input_def vk_example_geometry_def example_mesh_def)
  then show "all_geometry (vk_memory vk_example_world) (b_inputs two_dynamic_builder) = Inr [?g, ?g]"
    by (simp add: two_dynamic_builder_def numeral_2_eq_2)
  show "\<forall>g\<in>set [?g, ?g]. g_vertices g \<noteq> [] \<and> g_indices g \<noteq> []"
    using length_vertices_as_bytes [of "vertices example_mesh"]
    by (auto simp: vk_example_geometry_def example_mesh_def wf_vertex_def sizeof_Vertex_def)
  show "vk_wf vk_example_world" "window_ready True vk_example_window 2" using vk_example_program by (simp_all add: vk_program_def)
qed (auto simp: two_dynamic_builder_def is_unmapped_def unmapped_def mesh_dynamic_input_def of_access_def)

end
