(* ===== verification/Vk_Resize.thy ===== *)
theory Vk_Resize
  imports Vk_Device
begin

text \<open>
  The window resize callback a Vulkan device registers (the constructor of
  \<open>DeviceFunctionalityVulkan\<close> in \<open>gl/impl/frontend/vk/device.cpp\<close>).  While the window has no area
  it waits for window events, so it returns only if the window gets an area again.  The window
  is a parameter: \<open>sizes k\<close> is the size it reports when \<open>k\<close> events have been waited for.
\<close>

section \<open>The callback\<close>

text \<open>The number of events the loop waits for; \<open>None\<close> when it waits for ever.\<close>

partial_function (option) wait_for_area :: "(nat \<Rightarrow> int \<times> int) \<Rightarrow> nat \<Rightarrow> int \<Rightarrow> int \<Rightarrow> nat option" where
  "wait_for_area sizes k w h =
     (if w = 0 \<or> h = 0 then wait_for_area sizes (Suc k) (fst (sizes k)) (snd (sizes k)) else Some k)"

definition window_resize_callback ::
    "bool \<Rightarrow> host_memory \<Rightarrow> vk_platform \<Rightarrow> VkSurfaceFormatKHR sorter \<Rightarrow> vk_device_driver \<Rightarrow> VkSurfaceKHR option \<Rightarrow>
     ('r \<Rightarrow> 'r outcome) option list \<Rightarrow> (nat \<Rightarrow> int \<times> int) \<Rightarrow> int \<Rightarrow> int \<Rightarrow> DeviceVulkan \<times> 'r \<Rightarrow>
     (nat \<times> (DeviceVulkan \<times> 'r) outcome) option" where
  "window_resize_callback TZ_DEBUG m vk std_sort drv surf callbacks sizes width height s =
     (case wait_for_area sizes 0 width height of
        None \<Rightarrow> None
      | Some events \<Rightarrow> Some (events, on_window_resize TZ_DEBUG m vk std_sort drv surf callbacks s))"

section \<open>When it returns\<close>

definition has_area :: "int \<times> int \<Rightarrow> bool" where
  "has_area s \<longleftrightarrow> fst s \<noteq> 0 \<and> snd s \<noteq> 0"

lemma wait_for_area_step:
  "wait_for_area sizes k w h =
     (if has_area (w, h) then Some k else wait_for_area sizes (Suc k) (fst (sizes k)) (snd (sizes k)))"
  by (subst wait_for_area.simps) (auto simp: has_area_def)

lemma wait_for_area_reaches:
  "has_area (sizes (k + n)) \<Longrightarrow> \<forall>j<n. \<not> has_area (sizes (k + j)) \<Longrightarrow> \<not> has_area (w, h) \<Longrightarrow>
   wait_for_area sizes k w h = Some (Suc (k + n))"
proof (induction n arbitrary: k w h)
  case 0
  then show ?case by (simp add: wait_for_area_step [of sizes k] wait_for_area_step [of sizes "Suc k"])
next
  case (Suc n)
  have "\<not> has_area (sizes k)" using Suc.prems(2) by (metis add_0_right zero_less_Suc)
  moreover have "\<forall>j<n. \<not> has_area (sizes (Suc k + j))" using Suc.prems(2) by (metis Suc_less_eq add_Suc_shift)
  ultimately show ?case
    using Suc.IH [of "Suc k" "fst (sizes k)" "snd (sizes k)"] Suc.prems(1,3) by (simp add: wait_for_area_step [of sizes k])
qed

lemma wait_for_area_needs_area:
  assumes "wait_for_area sizes k w h = Some n" shows "has_area (w, h) \<or> (\<exists>j. has_area (sizes j))"
proof (rule wait_for_area.raw_induct [where P = "\<lambda>sizes k w h n. has_area (w, h) \<or> (\<exists>j. has_area (sizes j))", OF _ assms])
  fix f :: "(nat \<Rightarrow> int \<times> int) \<Rightarrow> nat \<Rightarrow> int \<Rightarrow> int \<Rightarrow> nat option" and sizes :: "nat \<Rightarrow> int \<times> int" and k n :: nat and w h :: int
  assume IH: "\<And>sizes k w h n. f sizes k w h = Some n \<Longrightarrow> has_area (w, h) \<or> (\<exists>j. has_area (sizes j))"
    and step: "(if w = 0 \<or> h = 0 then f sizes (Suc k) (fst (sizes k)) (snd (sizes k)) else Some k) = Some n"
  show "has_area (w, h) \<or> (\<exists>j. has_area (sizes j))"
  proof (cases "has_area (w, h)")
    case False
    then have "f sizes (Suc k) (fst (sizes k)) (snd (sizes k)) = Some n" using step by (auto simp: has_area_def split: if_splits)
    from IH [OF this] show ?thesis by auto
  qed simp
qed

lemma wait_for_area_iff:
  "wait_for_area sizes 0 w h = Some n \<longleftrightarrow>
     (if has_area (w, h) then n = 0 else \<exists>k. n = Suc k \<and> has_area (sizes k) \<and> (\<forall>j. j < k \<longrightarrow> \<not> has_area (sizes j)))"
proof (cases "has_area (w, h)")
  case True
  then show ?thesis by (auto simp: wait_for_area_step [of sizes 0 w h])
next
  case False
  let ?first = "\<lambda>k. has_area (sizes k) \<and> (\<forall>j. j < k \<longrightarrow> \<not> has_area (sizes j))"
  have reach: "wait_for_area sizes 0 w h = Some (Suc k)" if "?first k" for k
    using wait_for_area_reaches [of sizes 0 k w h] that False by simp
  show ?thesis
  proof
    assume some: "wait_for_area sizes 0 w h = Some n"
    then obtain j where "has_area (sizes j)" using wait_for_area_needs_area [OF some] False by blast
    then have "\<exists>k. ?first k" using exists_least_iff [of "\<lambda>k. has_area (sizes k)"] by blast
    then obtain k where k: "?first k" by blast
    then have "n = Suc k" using reach [OF k] some by simp
    then show "if has_area (w, h) then n = 0 else \<exists>k. n = Suc k \<and> ?first k" using k False by auto
  next
    assume "if has_area (w, h) then n = 0 else \<exists>k. n = Suc k \<and> ?first k"
    then obtain k where "n = Suc k" "?first k" using False by auto
    then show "wait_for_area sizes 0 w h = Some n" using reach by blast
  qed
qed

lemma wait_for_area_returns: "(\<exists>n. wait_for_area sizes 0 w h = Some n) \<longleftrightarrow> has_area (w, h) \<or> (\<exists>k. has_area (sizes k))"
proof (cases "has_area (w, h)")
  case False
  then show ?thesis using exists_least_iff [of "\<lambda>k. has_area (sizes k)"] by (auto simp: wait_for_area_iff)
qed (simp add: wait_for_area_iff)


definition minimised_device :: DeviceVulkan where
  "minimised_device = \<lparr>physical_device = \<lparr>dev = 5\<rparr>, logical_device = logical_device_null, window_buffer = WindowMonostate,
     device_topology = TriangleList\<rparr>"


end
